(* ===== verification/Prelude.thy ===== *)
theory Prelude
  imports Main "HOL-Library.Word" "HOL-Library.Char_ord" "HOL-Library.List_Lexorder"
    "HOL-Library.AList"
begin

text \<open>
  Shared vocabulary of the development: the collections of rewrite rules, the outcome type of
  an operation that may panic or block, the operations of Go's \<open>strings\<close>, \<open>strconv\<close> and
  \<open>fmt\<close> packages that the proxy uses, on byte strings (a Go string is a sequence of bytes, an
  Isabelle \<open>char\<close> is one byte), and generic lemmas about them.
\<close>

named_theorems run_simps \<open>equations of the outcome type\<close>
named_theorems op_defs \<open>definitions of the straight-line operations\<close>
named_theorems keeps_intro \<open>introduction rules: an operation keeps a relation\<close>

type_synonym bytes = string

section \<open>Outcomes of an operation\<close>

text \<open>
  An operation of the proxy runs on a state and either returns a value (\<open>Done\<close>), panics with a
  nil dereference or an explicit panic (\<open>Panics\<close>), or waits for ever on a channel (\<open>Blocks\<close>).
  Each outcome carries the state it was reached in, so that what was sent before a panic
  is visible.
\<close>

datatype ('a, 's) run = Done 'a 's | Panics 's | Blocks 's

primrec andThen :: "('a, 's) run \<Rightarrow> ('a \<Rightarrow> 's \<Rightarrow> ('b, 's) run) \<Rightarrow> ('b, 's) run" where
  "andThen (Done x s) f = f x s"
| "andThen (Panics s) f = Panics s"
| "andThen (Blocks s) f = Blocks s"

primrec endState :: "('a, 's) run \<Rightarrow> 's" where
  "endState (Done x s) = s"
| "endState (Panics s) = s"
| "endState (Blocks s) = s"

primrec returns :: "('a, 's) run \<Rightarrow> bool" where
  "returns (Done x s) = True"
| "returns (Panics s) = False"
| "returns (Blocks s) = False"

primrec result :: "('a, 's) run \<Rightarrow> 'a option" where
  "result (Done x s) = Some x"
| "result (Panics s) = None"
| "result (Blocks s) = None"

lemma andThen_Done_iff:
  "andThen m f = Done y t \<longleftrightarrow> (\<exists>x s. m = Done x s \<and> f x s = Done y t)"
  by (cases m) auto

lemma andThen_assoc [run_simps]:
  "andThen (andThen m f) g = andThen m (\<lambda>x s. andThen (f x s) g)"
  by (cases m) simp_all

lemma returns_iff: "returns m \<longleftrightarrow> (\<exists>x s. m = Done x s)"
  by (cases m) auto

lemma returns_andThen:
  "returns (andThen m f) \<longleftrightarrow> (\<exists>x s. m = Done x s \<and> returns (f x s))"
  by (cases m) auto

lemma endState_andThen_Done [simp]: "endState (andThen m (\<lambda>_ w. Done x w)) = endState m"
  by (cases m) simp_all

lemma returns_andThen_Done [simp]: "returns (andThen m (\<lambda>_ w. Done x w)) = returns m"
  by (cases m) simp_all

text \<open>
  \<open>keeps R m\<close>: whatever its outcome, \<open>m\<close> started in \<open>s\<close> ends in a state related to \<open>s\<close> by
  \<open>R\<close>. For a reflexive and transitive \<open>R\<close> (a field is unchanged, a trace only grows, an
  invariant carries over) it composes along \<open>andThen\<close>.
\<close>

definition keeps :: "('s \<Rightarrow> 's \<Rightarrow> bool) \<Rightarrow> ('s \<Rightarrow> ('a, 's) run) \<Rightarrow> bool" where
  "keeps R m \<longleftrightarrow> (\<forall>s. R s (endState (m s)))"

lemma keepsI [intro?]: "(\<And>s. R s (endState (m s))) \<Longrightarrow> keeps R m"
  by (simp add: keeps_def)

lemma keepsD: "keeps R m \<Longrightarrow> R s (endState (m s))"
  by (simp add: keeps_def)

lemma keeps_DoneD: "keeps R m \<Longrightarrow> m s = Done x t \<Longrightarrow> R s t"
  by (metis endState.simps(1) keepsD)

locale state_relation =
  fixes R :: "'s \<Rightarrow> 's \<Rightarrow> bool"
  assumes refl: "R s s"
    and trans: "R s t \<Longrightarrow> R t u \<Longrightarrow> R s u"
begin

text \<open>What an operation keeps when it is built from operations that keep it.\<close>

lemma end_andThen:
  assumes "R s (endState m)" and "\<And>x t. m = Done x t \<Longrightarrow> R t (endState (f x t))"
  shows "R s (endState (andThen m f))"
  using assms by (cases m) (auto intro: trans)

lemma keeps_return: "keeps R (\<lambda>s. Done x s)"
  by (simp add: keeps_def refl)

lemma keeps_andThen:
  assumes "keeps R m" and "\<And>x. keeps R (f x)"
  shows "keeps R (\<lambda>s. andThen (m s) f)"
proof (rule keepsI)
  fix s
  show "R s (endState (andThen (m s) f))"
    using assms by (intro end_andThen) (auto simp: keeps_def)
qed

lemma keeps_If: "keeps R m \<Longrightarrow> keeps R n \<Longrightarrow> keeps R (\<lambda>s. if b s then m s else n s)"
  by (simp add: keeps_def)

end

section \<open>Step relations\<close>

text \<open>Where goroutines interleave, the program is a relation between states, one step per statement.\<close>

definition reaches :: "('s \<Rightarrow> 's \<Rightarrow> bool) \<Rightarrow> ('s \<Rightarrow> bool) \<Rightarrow> 's \<Rightarrow> bool" where
  "reaches step P s \<longleftrightarrow> (\<exists>t. step\<^sup>*\<^sup>* s t \<and> P t)"

lemma reaches_now: "P s \<Longrightarrow> reaches step P s"
  unfolding reaches_def by blast

lemma reaches_step: "step s t \<Longrightarrow> reaches step P t \<Longrightarrow> reaches step P s"
  unfolding reaches_def by (meson converse_rtranclp_into_rtranclp)

lemma reaches_trans: "reaches step Q s \<Longrightarrow> (\<And>t. step\<^sup>*\<^sup>* s t \<Longrightarrow> Q t \<Longrightarrow> reaches step P t) \<Longrightarrow> reaches step P s"
  unfolding reaches_def by (meson rtranclp_trans)

lemma reaches_mono: "reaches step Q s \<Longrightarrow> (\<And>t. Q t \<Longrightarrow> P t) \<Longrightarrow> reaches step P s"
  unfolding reaches_def by blast

text \<open>An invariant of a step relation.\<close>

locale step_invariant =
  fixes step :: "'s \<Rightarrow> 's \<Rightarrow> bool" and inv :: "'s \<Rightarrow> bool"
  assumes step_keeps: "inv s \<Longrightarrow> step s t \<Longrightarrow> inv t"
begin

lemma reachable: "step\<^sup>*\<^sup>* s t \<Longrightarrow> inv s \<Longrightarrow> inv t"
  by (induction rule: rtranclp_induct) (auto intro: step_keeps)

lemma never_reaches: "inv s \<Longrightarrow> (\<And>t. inv t \<Longrightarrow> \<not> P t) \<Longrightarrow> \<not> reaches step P s"
  unfolding reaches_def using reachable by blast

end

section \<open>Strings\<close>

definition hasPrefix :: "string \<Rightarrow> string \<Rightarrow> bool" where
  "hasPrefix s p \<longleftrightarrow> take (length p) s = p"

definition trimPrefix :: "string \<Rightarrow> string \<Rightarrow> string" where
  "trimPrefix s p = (if hasPrefix s p then drop (length p) s else s)"

fun contains :: "string \<Rightarrow> string \<Rightarrow> bool" where
  "contains [] p \<longleftrightarrow> p = []"
| "contains (c # s) p \<longleftrightarrow> hasPrefix (c # s) p \<or> contains s p"

text \<open>\<open>strings.IndexAny\<close>, \<open>IndexByte\<close> and \<open>LastIndex\<close> of a one-byte string; \<open>None\<close> is \<open>-1\<close>.\<close>

fun indexOf :: "(char \<Rightarrow> bool) \<Rightarrow> string \<Rightarrow> nat option" where
  "indexOf P [] = None"
| "indexOf P (c # s) = (if P c then Some 0 else map_option Suc (indexOf P s))"

fun lastIndexOf :: "char \<Rightarrow> string \<Rightarrow> nat option" where
  "lastIndexOf c [] = None"
| "lastIndexOf c (d # s) =
     (case lastIndexOf c s of Some i \<Rightarrow> Some (Suc i) | None \<Rightarrow> if d = c then Some 0 else None)"

text \<open>\<open>strings.SplitN(s, sep, 2)\<close> for a one-byte separator.\<close>

definition splitN2 :: "char \<Rightarrow> string \<Rightarrow> string list" where
  "splitN2 c s = (case indexOf (\<lambda>d. d = c) s of
     None \<Rightarrow> [s] | Some i \<Rightarrow> [take i s, drop (Suc i) s])"

definition lowerChar :: "char \<Rightarrow> char" where
  "lowerChar c = (let n = of_char c :: nat in if 65 \<le> n \<and> n \<le> 90 then char_of (n + 32) else c)"

definition upperChar :: "char \<Rightarrow> char" where
  "upperChar c = (let n = of_char c :: nat in if 97 \<le> n \<and> n \<le> 122 then char_of (n - 32) else c)"

definition toLower :: "string \<Rightarrow> string" where
  "toLower = map lowerChar"

lemma hasPrefix_iff: "hasPrefix s p \<longleftrightarrow> (\<exists>t. s = p @ t)"
  unfolding hasPrefix_def by (metis append_eq_conv_conj append_take_drop_id)

lemma hasPrefix_append [simp]: "hasPrefix (p @ t) p"
  by (simp add: hasPrefix_def)

lemma hasPrefix_Nil [simp]: "hasPrefix s []"
  by (simp add: hasPrefix_def)

lemma indexOf_None: "indexOf P s = None \<longleftrightarrow> (\<forall>c \<in> set s. \<not> P c)"
  by (induction s) auto

lemma indexOf_Some:
  "indexOf P s = Some i \<Longrightarrow>
     i < length s \<and> P (s ! i) \<and> (\<forall>c \<in> set (take i s). \<not> P c)"
  by (induction s arbitrary: i) (auto split: if_splits)

lemma lastIndexOf_None: "lastIndexOf c s = None \<longleftrightarrow> c \<notin> set s"
  by (induction s) (auto split: option.splits)

lemma lastIndexOf_Some:
  "lastIndexOf c s = Some i \<Longrightarrow>
     i < length s \<and> s ! i = c \<and> c \<notin> set (drop (Suc i) s)"
proof (induction s arbitrary: i)
  case (Cons d s)
  then show ?case
    by (auto split: option.splits if_splits simp: lastIndexOf_None)
qed simp

lemma lastIndexOf_append:
  "c \<notin> set t \<Longrightarrow> lastIndexOf c (s @ c # t) = Some (length s)"
  by (induction s) (simp_all add: lastIndexOf_None [THEN iffD2])

lemma indexOf_append:
  "\<forall>d \<in> set s. \<not> P d \<Longrightarrow> P c \<Longrightarrow> indexOf P (s @ c # t) = Some (length s)"
  by (induction s) simp_all

section \<open>Numbers as text\<close>

text \<open>The value of a byte, and the upper case hexadecimal digit of a number below 16.\<close>

definition byteVal :: "char \<Rightarrow> nat" where
  "byteVal c = of_char c"

definition hexDigit :: "nat \<Rightarrow> char" where
  "hexDigit d = (if d < 10 then char_of (48 + d) else char_of (55 + d))"

definition digitChar :: "nat \<Rightarrow> char" where
  "digitChar d = char_of (48 + d)"

fun decimal :: "nat \<Rightarrow> string" where
  "decimal n = (if n < 10 then [digitChar n] else decimal (n div 10) @ [digitChar (n mod 10)])"

declare decimal.simps [simp del]

text \<open>\<open>strconv.Itoa\<close>\<close>

definition itoa :: "int \<Rightarrow> string" where
  "itoa i = (if i < 0 then ''-'' @ decimal (nat (- i)) else decimal (nat i))"

text \<open>The verb \<open>%03d\<close>: the sign counts towards the width.\<close>

definition pad0 :: "nat \<Rightarrow> string \<Rightarrow> string" where
  "pad0 n s = replicate (n - length s) CHR ''0'' @ s"

definition itoa03 :: "int \<Rightarrow> string" where
  "itoa03 i = (if i < 0 then ''-'' @ pad0 2 (decimal (nat (- i))) else pad0 3 (decimal (nat i)))"

text \<open>The inverse reading of a decimal numeral.\<close>

definition digitVal :: "char \<Rightarrow> nat" where
  "digitVal c = of_char c - 48"

definition readDecimal :: "string \<Rightarrow> nat" where
  "readDecimal = foldl (\<lambda>n c. 10 * n + digitVal c) 0"

lemma digitVal_digitChar [simp]: "d < 10 \<Longrightarrow> digitVal (digitChar d) = d"
  by (simp add: digitVal_def digitChar_def)

lemma readDecimal_decimal [simp]: "readDecimal (decimal n) = n"
proof (induction n rule: decimal.induct)
  case (1 n)
  then show ?case
    by (subst decimal.simps) (auto simp: readDecimal_def)
qed

lemma decimal_inj: "decimal m = decimal n \<Longrightarrow> m = n"
  by (metis readDecimal_decimal)

text \<open>
  \<open>strconv.Atoi\<close>: an optional sign and at least one digit, in the range of 64 bits; \<open>None\<close> is an error.
\<close>

definition isDecimal :: "string \<Rightarrow> bool" where
  "isDecimal s \<longleftrightarrow> s \<noteq> [] \<and> list_all (\<lambda>c. let n = of_char c :: nat in 48 \<le> n \<and> n \<le> 57) s"

definition atoiDigits :: "string \<Rightarrow> string" where
  "atoiDigits s = (if s \<noteq> [] \<and> (hd s = CHR ''-'' \<or> hd s = CHR ''+'') then tl s else s)"

definition atoi :: "string \<Rightarrow> int option" where
  "atoi s = (let ds = atoiDigits s;
                 v = (if s \<noteq> [] \<and> hd s = CHR ''-'' then - int (readDecimal ds) else int (readDecimal ds))
             in if isDecimal ds \<and> - (2 ^ 63) \<le> v \<and> v < 2 ^ 63 then Some v else None)"

text \<open>Conversion to \<open>int32\<close>, as the Go expression \<open>int32(x)\<close>.\<close>

definition int32 :: "int \<Rightarrow> int" where
  "int32 i = signed_take_bit 31 i"

lemma int32_id: "- (2 ^ 31) \<le> i \<Longrightarrow> i < 2 ^ 31 \<Longrightarrow> int32 i = i"
  by (simp add: int32_def signed_take_bit_int_eq_self)

text \<open>Integer division of Go truncates towards zero.\<close>

definition goQuot :: "int \<Rightarrow> int \<Rightarrow> int" where
  "goQuot a b = sgn a * sgn b * (\<bar>a\<bar> div \<bar>b\<bar>)"

end
