(* ===== verification/Go_Errors.thy ===== *)
theory Go_Errors
  imports Prelude
begin

text \<open>
  The error values of the proxy: \<open>errors/code.go\<close>, \<open>errors/errors.go\<close>, the translation of Squid's
  error header (\<open>recorderproxy/squid.go\<close>) and the normalisation of transport errors
  (\<open>recorderproxy/error_handler_filter.go\<close>). A Go \<open>error\<close> is a value of \<open>go_error\<close>; the nil error
  is \<open>None\<close> of \<open>go_error option\<close>.
\<close>

section \<open>Error codes (errors/code.go)\<close>

type_synonym ErrorCode = int

definition RuntimeException :: ErrorCode where "RuntimeException = -5"
definition ConnectFailed :: ErrorCode where "ConnectFailed = -2"
definition ConnectBroken :: ErrorCode where "ConnectBroken = -3"
definition HttpTimeout :: ErrorCode where "HttpTimeout = -4"
definition DomainLookupFailed :: ErrorCode where "DomainLookupFailed = -6"
definition EmptyResponse :: ErrorCode where "EmptyResponse = -404"
definition CanceledByBrowser :: ErrorCode where "CanceledByBrowser = -5011"
definition PrecludedByRobots :: ErrorCode where "PrecludedByRobots = -9998"

lemmas error_code_defs = RuntimeException_def ConnectFailed_def ConnectBroken_def
  HttpTimeout_def DomainLookupFailed_def EmptyResponse_def CanceledByBrowser_def
  PrecludedByRobots_def

definition errorCodeString :: "ErrorCode \<Rightarrow> string" where
  "errorCodeString e = itoa e"

definition errorCodeInt32 :: "ErrorCode \<Rightarrow> int" where
  "errorCodeInt32 e = int32 e"

text \<open>\<open>TcpSocketErrTxt\<close>: a lookup of a missing key of a Go map of strings is the empty string.\<close>

definition TcpSocketErrTxt :: "string \<Rightarrow> string" where
  "TcpSocketErrTxt k =
     (case map_of [(''110'', ''Connection timed out''),
                   (''111'', ''connect: connection refused''),
                   (''113'', ''No route to host'')] k of
        Some txt \<Rightarrow> txt | None \<Rightarrow> [])"

section \<open>Error values (errors/errors.go)\<close>

text \<open>
  \<open>ProxyError\<close> is the struct of \<open>errors/errors.go\<close>. The other constructors are the dynamic types
  that \<open>normalizeError\<close> tells apart: \<open>*net.OpError\<close> (operation, the printed address part, the
  wrapped error), \<open>tls.RecordHeaderError\<close>, an \<open>errors.Error\<close> of getlantern (its text and its
  root cause), \<open>io.EOF\<close> and any other error, known by its text only.
\<close>

datatype go_error =
    ProxyError (peCode: ErrorCode) (peMessage: string) (peDetail: string)
      (peCause: "go_error option") (peStatusCode: int)
  | NetOpError (opOp: string) (opAddr: string) (opErr: go_error)
  | TlsRecordHeaderError (tlsMsg: string)
  | GetlanternError (glText: string) (glRootCause: go_error)
  | IoEOF
  | ErrorString (esText: string)

text \<open>The method \<open>Error()\<close>.\<close>

fun errText :: "go_error \<Rightarrow> string" where
  "errText (ProxyError c m d cause st) =
     (let errMsg = ''Code: '' @ errorCodeString c @ '', Msg: '' @ m;
          errMsg = (if d \<noteq> [] then errMsg @ '', Detail: '' @ d else errMsg)
      in case cause of None \<Rightarrow> errMsg | Some e \<Rightarrow> errMsg @ '', Cause: '' @ errText e)"
| "errText (NetOpError op addr e) = op @ addr @ '': '' @ errText e"
| "errText (TlsRecordHeaderError m) = ''tls: '' @ m"
| "errText (GetlanternError t rc) = t"
| "errText IoEOF = ''EOF''"
| "errText (ErrorString t) = t"

text \<open>
  \<open>Code\<close>, \<open>Message\<close> and \<open>Detail\<close> ask whether the dynamic type has the method of that name and
  signature; of the types here only \<open>*ProxyError\<close> has them.
\<close>

fun Code :: "go_error \<Rightarrow> ErrorCode" where
  "Code (ProxyError c m d cause st) = c"
| "Code e = RuntimeException"

fun Message :: "go_error \<Rightarrow> string" where
  "Message (ProxyError c m d cause st) = m"
| "Message e = errText e"

fun Detail :: "go_error \<Rightarrow> string" where
  "Detail (ProxyError c m d cause st) = d"
| "Detail e = errText e"

text \<open>The methods themselves, \<open>None\<close> for a dynamic type that has none of the name.\<close>

fun codeMethod :: "go_error \<Rightarrow> ErrorCode option" where
  "codeMethod (ProxyError c m d cause st) = Some c"
| "codeMethod e = None"

fun messageMethod :: "go_error \<Rightarrow> string option" where
  "messageMethod (ProxyError c m d cause st) = Some m"
| "messageMethod e = None"

fun detailMethod :: "go_error \<Rightarrow> string option" where
  "detailMethod (ProxyError c m d cause st) = Some d"
| "detailMethod e = None"

fun causeMethod :: "go_error \<Rightarrow> go_error option option" where
  "causeMethod (ProxyError c m d cause st) = Some cause"
| "causeMethod e = None"

lemma accessors_by_method:
  "Code e = (case codeMethod e of Some c \<Rightarrow> c | None \<Rightarrow> RuntimeException)"
  "Message e = (case messageMethod e of Some m \<Rightarrow> m | None \<Rightarrow> errText e)"
  "Detail e = (case detailMethod e of Some d \<Rightarrow> d | None \<Rightarrow> errText e)"
  by (cases e; simp)+

text \<open>
  \<open>HttpStatusCode(err)\<close> asks for a method \<open>HttpStatusCode() int\<close>. The method of that name that
  \<open>*ProxyError\<close> has returns a \<open>string\<close> (the detail), so the conversion fails for it as for all
  others. \<open>httpStatusCodeMethod\<close> is the method a value has, with the type it returns.
\<close>

datatype go_value = GoString string | GoInt int

fun httpStatusCodeMethod :: "go_error \<Rightarrow> go_value option" where
  "httpStatusCodeMethod (ProxyError c m d cause st) = Some (GoString d)"
| "httpStatusCodeMethod e = None"

definition StatusServiceUnavailable :: int where "StatusServiceUnavailable = 503"
definition StatusBadGateway :: int where "StatusBadGateway = 502"

definition HttpStatusCode :: "go_error \<Rightarrow> int" where
  "HttpStatusCode e = (case httpStatusCodeMethod e of
     Some (GoInt n) \<Rightarrow> n
   | _ \<Rightarrow> StatusServiceUnavailable)"

definition newError :: "ErrorCode \<Rightarrow> string \<Rightarrow> string \<Rightarrow> go_error" where
  "newError c m d = ProxyError c m d None StatusServiceUnavailable"

definition Wrap :: "go_error option \<Rightarrow> ErrorCode \<Rightarrow> string \<Rightarrow> string \<Rightarrow> go_error option" where
  "Wrap err c m d = (case err of
     None \<Rightarrow> None
   | Some e \<Rightarrow> Some (ProxyError c m d (Some e) StatusServiceUnavailable))"

text \<open>A wrapped error is printed after the text of the wrapper alone.\<close>

lemma errText_cause:
  assumes "causeMethod e = Some (Some inner)"
  shows "errText e = errText (newError (Code e) (Message e) (Detail e)) @ '', Cause: '' @ errText inner"
  using assms by (cases e) (simp_all add: newError_def Let_def)

definition ErrorInternal :: "ErrorCode \<Rightarrow> string \<Rightarrow> string \<Rightarrow> go_error" where
  "ErrorInternal c m d = ProxyError c m d None StatusBadGateway"

definition WrapInternalError ::
    "go_error option \<Rightarrow> ErrorCode \<Rightarrow> string \<Rightarrow> string \<Rightarrow> go_error option" where
  "WrapInternalError err c m d = (case err of
     None \<Rightarrow> None
   | Some e \<Rightarrow> Some (ProxyError c m d (Some e) StatusBadGateway))"

record commonsError =
  ceCode :: int
  ceMsg :: string
  ceDetail :: string

definition AsCommonsError :: "go_error \<Rightarrow> commonsError" where
  "AsCommonsError e =
     \<lparr>ceCode = errorCodeInt32 (Code e), ceMsg = Message e, ceDetail = Detail e\<rparr>"

section \<open>Squid's error header (recorderproxy/squid.go)\<close>

definition handleSquidErrorString :: "string \<Rightarrow> go_error option" where
  "handleSquidErrorString squidErr =
     (if hasPrefix squidErr ''ERR_CONNECT_FAIL'' then
        (case splitN2 CHR '' '' squidErr of
           [_, code] \<Rightarrow> Some (newError ConnectFailed ''CONNECT_FAILED'' (TcpSocketErrTxt code))
         | _ \<Rightarrow> Some (newError RuntimeException ''UNKNOWN_ERROR'' squidErr))
      else if hasPrefix squidErr ''ERR_ZERO_SIZE_OBJECT'' then
        Some (newError EmptyResponse ''EMPTY_RESPONSE'' ''Empty reply from server'')
      else Some (newError RuntimeException ''UNKNOWN_ERROR'' squidErr))"

section \<open>Normalisation of transport errors (recorderproxy/error_handler_filter.go)\<close>

definition normalizeNetOpError :: "string \<Rightarrow> string \<Rightarrow> go_error \<Rightarrow> go_error option" where
  "normalizeNetOpError op addr inner =
     (if op = ''dial'' then Wrap (Some inner) ConnectFailed ''CONNECT_FAILED'' (errText inner)
      else if op = ''remote error'' then
        Wrap (Some inner) ConnectFailed ''CONNECT_FAILED'' (errText inner)
      else Wrap (Some (NetOpError op addr inner)) ConnectFailed ''CONNECT_FAILED''
             (errText (NetOpError op addr inner)))"

definition normalizeByText :: "go_error \<Rightarrow> go_error option" where
  "normalizeByText e =
     (if errText e = ''EOF'' then
        Wrap (Some e) EmptyResponse ''EMPTY_RESPONSE'' ''Empty reply from server''
      else Wrap (Some e) RuntimeException ''UNKNOWN_ERROR'' (errText e))"

fun normalizeGetlanternProxyError :: "go_error \<Rightarrow> go_error option" where
  "normalizeGetlanternProxyError (NetOpError op addr inner) = normalizeNetOpError op addr inner"
| "normalizeGetlanternProxyError e = normalizeByText e"

fun normalizeError :: "go_error \<Rightarrow> go_error option" where
  "normalizeError (ProxyError c m d cause st) = Some (ProxyError c m d cause st)"
| "normalizeError (NetOpError op addr inner) = normalizeNetOpError op addr inner"
| "normalizeError (TlsRecordHeaderError m) =
     Wrap (Some (TlsRecordHeaderError m)) ConnectFailed ''CONNECT_FAILED'' ''tls: handshake failure''"
| "normalizeError (GetlanternError t rc) = normalizeGetlanternProxyError rc"
| "normalizeError e = normalizeByText e"

section \<open>Lemmas\<close>

definition isProxyError :: "go_error \<Rightarrow> bool" where
  "isProxyError e \<longleftrightarrow> (case e of ProxyError c m d cause st \<Rightarrow> True | _ \<Rightarrow> False)"

lemma isProxyError_simps [simp]:
  "isProxyError (ProxyError c m d cause st)"
  "\<not> isProxyError (NetOpError op addr e)"
  "\<not> isProxyError (TlsRecordHeaderError t)"
  "\<not> isProxyError (GetlanternError t rc)"
  "\<not> isProxyError IoEOF"
  "\<not> isProxyError (ErrorString t)"
  by (simp_all add: isProxyError_def)

lemma newError_simps [simp]:
  "Code (newError c m d) = c" "Message (newError c m d) = m" "Detail (newError c m d) = d"
  "isProxyError (newError c m d)"
  by (simp_all add: newError_def)

lemma Wrap_simps [simp]:
  "Wrap None c m d = None"
  "Wrap (Some e) c m d = Some (ProxyError c m d (Some e) StatusServiceUnavailable)"
  by (simp_all add: Wrap_def)

lemma WrapInternalError_simps [simp]:
  "WrapInternalError None c m d = None"
  "WrapInternalError (Some e) c m d = Some (ProxyError c m d (Some e) StatusBadGateway)"
  by (simp_all add: WrapInternalError_def)

lemma splitN2_cases:
  obtains "c \<notin> set s" "splitN2 c s = [s]"
  | a b where "s = a @ c # b" "c \<notin> set a" "splitN2 c s = [a, b]"
proof (cases "indexOf (\<lambda>d. d = c) s")
  case None
  then have "c \<notin> set s" by (auto simp: indexOf_None)
  moreover from None have "splitN2 c s = [s]" by (simp add: splitN2_def)
  ultimately show ?thesis by (rule that(1))
next
  case (Some i)
  then have i: "i < length s" "s ! i = c" "\<forall>d \<in> set (take i s). d \<noteq> c"
    by (auto dest: indexOf_Some)
  then have "s = take i s @ c # drop (Suc i) s"
    by (metis id_take_nth_drop)
  moreover from i have "c \<notin> set (take i s)" by blast
  ultimately show ?thesis
    using that(2) Some by (simp add: splitN2_def)
qed

lemma normalizeByText_shape:
  "\<exists>c m d. normalizeByText e = Some (ProxyError c m d (Some e) StatusServiceUnavailable) \<and>
     c \<in> {EmptyResponse, RuntimeException}"
  by (simp add: normalizeByText_def)

lemma normalizeNetOpError_shape:
  "\<exists>d cause. normalizeNetOpError op addr inner =
     Some (ProxyError ConnectFailed ''CONNECT_FAILED'' d (Some cause) StatusServiceUnavailable)"
  by (simp add: normalizeNetOpError_def)

lemma normalizeGetlantern_shape:
  "\<exists>c m d cause. normalizeGetlanternProxyError e =
     Some (ProxyError c m d (Some cause) StatusServiceUnavailable) \<and>
     c \<in> {EmptyResponse, RuntimeException, ConnectFailed}"
  by (cases e) (auto simp: normalizeNetOpError_def normalizeByText_def)

lemma normalizeError_shape:
  assumes "\<not> isProxyError e"
  shows "\<exists>c m d cause. normalizeError e =
     Some (ProxyError c m d (Some cause) StatusServiceUnavailable) \<and>
     c \<in> {EmptyResponse, RuntimeException, ConnectFailed}"
  using assms normalizeGetlantern_shape
  by (cases e) (auto simp: normalizeNetOpError_def normalizeByText_def)

lemma normalizeError_Some: "\<exists>e'. normalizeError e = Some e' \<and> isProxyError e'"
proof (cases "isProxyError e")
  case True
  then show ?thesis by (cases e) auto
next
  case False
  then show ?thesis using normalizeError_shape [OF False] by auto
qed

section \<open>Properties\<close>

text \<open>
  \<open>normalizeError\<close> is total and idempotent: it returns a \<open>ProxyError\<close> for every error,
  leaves a \<open>ProxyError\<close> as it is, and gives every other error one of the codes -2
  (connect failed), -404 (empty response) and -5 (runtime exception).
\<close>

theorem normalizeError_total:
  "\<exists>e'. normalizeError e = Some e' \<and> isProxyError e' \<and> normalizeError e' = Some e' \<and>
     (if isProxyError e then e' = e else Code e' \<in> {ConnectFailed, EmptyResponse, RuntimeException})"
proof (cases "isProxyError e")
  case True
  then show ?thesis by (cases e) auto
next
  case False
  then show ?thesis using normalizeError_shape [OF False] by auto
qed

text \<open>
  The status code stored in an error never reaches the client: \<open>HttpStatusCode\<close> is 503
  for every error, also for those \<open>ErrorInternal\<close> and \<open>WrapInternalError\<close> build with 502.
\<close>

theorem HttpStatusCode_constant:
  "HttpStatusCode e = 503 \<and> peStatusCode (ErrorInternal c m d) = 502 \<and>
   HttpStatusCode (ErrorInternal c m d) = 503"
  by (cases e) (simp_all add: HttpStatusCode_def StatusServiceUnavailable_def ErrorInternal_def
      StatusBadGateway_def)

text \<open>
  The translation of Squid's error header. A header \<open>ERR_CONNECT_FAIL n\<close> becomes code -2 with
  the text of socket error \<open>n\<close>, \<open>ERR_ZERO_SIZE_OBJECT\<close> becomes -404, everything else
  becomes -5 with the header as its detail; there is always an error.
\<close>

theorem handleSquidErrorString_cases:
  "handleSquidErrorString (''ERR_CONNECT_FAIL '' @ code) =
     Some (newError ConnectFailed ''CONNECT_FAILED'' (TcpSocketErrTxt code)) \<and>
   handleSquidErrorString (''ERR_ZERO_SIZE_OBJECT'' @ rest) =
     Some (newError EmptyResponse ''EMPTY_RESPONSE'' ''Empty reply from server'') \<and>
   (if hasPrefix s ''ERR_CONNECT_FAIL'' \<and> CHR '' '' \<in> set s \<or> hasPrefix s ''ERR_ZERO_SIZE_OBJECT''
    then Code (the (handleSquidErrorString s)) \<in> {ConnectFailed, EmptyResponse}
    else handleSquidErrorString s = Some (newError RuntimeException ''UNKNOWN_ERROR'' s))"
proof -
  have one: "splitN2 CHR '' '' (''ERR_CONNECT_FAIL '' @ code) = [''ERR_CONNECT_FAIL'', code]"
    by (simp add: splitN2_def)
  have three: "if hasPrefix s ''ERR_CONNECT_FAIL'' \<and> CHR '' '' \<in> set s
        \<or> hasPrefix s ''ERR_ZERO_SIZE_OBJECT''
      then Code (the (handleSquidErrorString s)) \<in> {ConnectFailed, EmptyResponse}
      else handleSquidErrorString s = Some (newError RuntimeException ''UNKNOWN_ERROR'' s)"
  proof (cases rule: splitN2_cases [of "CHR '' ''" s])
    case 1
    then show ?thesis by (auto simp: handleSquidErrorString_def hasPrefix_iff)
  next
    case (2 a b)
    then show ?thesis by (auto simp: handleSquidErrorString_def)
  qed
  have "hasPrefix (''ERR_CONNECT_FAIL '' @ code) ''ERR_CONNECT_FAIL''"
    by (simp add: hasPrefix_def)
  moreover have "\<not> hasPrefix (''ERR_ZERO_SIZE_OBJECT'' @ rest) ''ERR_CONNECT_FAIL''"
    by (simp add: hasPrefix_def)
  ultimately show ?thesis using one three
    by (simp add: handleSquidErrorString_def del: append.simps)
qed

text \<open>
  What is recorded of an error: \<open>AsCommonsError\<close> keeps code, message and detail of a
  \<open>ProxyError\<close> whose code fits 32 bits, and records any foreign error as -5 with its text.
\<close>

theorem AsCommonsError_faithful:
  "AsCommonsError (ProxyError c m d cause st) = \<lparr>ceCode = int32 c, ceMsg = m, ceDetail = d\<rparr> \<and>
   (c \<in> {- (2 ^ 31)..<2 ^ 31} \<longrightarrow> ceCode (AsCommonsError (ProxyError c m d cause st)) = c) \<and>
   (\<not> isProxyError e \<longrightarrow> AsCommonsError e = \<lparr>ceCode = -5, ceMsg = errText e, ceDetail = errText e\<rparr>)"
proof -
  have "AsCommonsError e = \<lparr>ceCode = -5, ceMsg = errText e, ceDetail = errText e\<rparr>"
    if "\<not> isProxyError e"
    using that by (cases e) (simp_all add: AsCommonsError_def errorCodeInt32_def int32_id error_code_defs)
  then show ?thesis by (simp add: AsCommonsError_def errorCodeInt32_def int32_id)
qed

theorem AsCommonsError_faithful_witness:
  "AsCommonsError (newError EmptyResponse ''EMPTY_RESPONSE'' ''d'') =
     \<lparr>ceCode = -404, ceMsg = ''EMPTY_RESPONSE'', ceDetail = ''d''\<rparr> \<and>
   AsCommonsError IoEOF = \<lparr>ceCode = -5, ceMsg = ''EOF'', ceDetail = ''EOF''\<rparr>"
  using AsCommonsError_faithful [of EmptyResponse "''EMPTY_RESPONSE''" "''d''" None 503 IoEOF]
  by (simp add: newError_def StatusServiceUnavailable_def EmptyResponse_def int32_id)

end
