(* ===== verification/Http_Types.thy ===== *)
theory Http_Types
  imports Go_Errors
begin

text \<open>
  The parts of Go's \<open>net/url\<close>, \<open>net/http\<close> and \<open>net\<close> packages that the proxy uses: URLs and their
  printing, header maps with canonical keys, requests and responses, \<open>SplitHostPort\<close> and
  \<open>JoinHostPort\<close>. The body of a message is carried beside the message, not inside it.
\<close>

section \<open>URLs\<close>

text \<open>\<open>u_EscPath\<close> is the value of \<open>EscapedPath()\<close>, \<open>u_Fragment\<close> the fragment as \<open>String()\<close> prints it.\<close>

record url =
  u_Scheme :: string
  u_Opaque :: string
  u_User :: "string option"
  u_Host :: string
  u_EscPath :: string
  u_ForceQuery :: bool
  u_RawQuery :: string
  u_Fragment :: string

definition isAlnum :: "char \<Rightarrow> bool" where
  "isAlnum c = (let n = of_char c :: nat in
     (48 \<le> n \<and> n \<le> 57) \<or> (65 \<le> n \<and> n \<le> 90) \<or> (97 \<le> n \<and> n \<le> 122))"

definition hostPlain :: string where
  "hostPlain = ''-_.~!$&()*+,;=:[]<>'' @ [char_of (39::nat), char_of (34::nat)]"

definition escapeHost :: "string \<Rightarrow> string" where
  "escapeHost h = concat (map (\<lambda>c. if isAlnum c \<or> c \<in> set hostPlain then [c]
     else [CHR ''%'', hexDigit (of_char c div 16), hexDigit (of_char c mod 16)]) h)"

definition queryPart :: "url \<Rightarrow> string" where
  "queryPart u = (if u_ForceQuery u \<or> u_RawQuery u \<noteq> [] then ''?'' @ u_RawQuery u else [])"

definition authorityPart :: "url \<Rightarrow> string" where
  "authorityPart u =
     (if u_Scheme u \<noteq> [] \<or> u_Host u \<noteq> [] \<or> u_User u \<noteq> None then
        (if u_Host u \<noteq> [] \<or> u_EscPath u \<noteq> [] \<or> u_User u \<noteq> None then ''//'' else []) @
        (case u_User u of Some ui \<Rightarrow> ui @ ''@'' | None \<Rightarrow> []) @
        escapeHost (u_Host u)
      else [])"

definition urlString :: "url \<Rightarrow> string" where
  "urlString u =
     (let schemePart = (if u_Scheme u \<noteq> [] then u_Scheme u @ '':'' else []);
          body = (if u_Opaque u \<noteq> [] then schemePart @ u_Opaque u
            else
              (let path = u_EscPath u;
                   buf = schemePart @ authorityPart u;
                   buf = (if path \<noteq> [] \<and> hd path \<noteq> CHR ''/'' \<and> u_Host u \<noteq> [] then buf @ ''/'' else buf);
                   buf = (if buf = [] \<and> CHR '':'' \<in> set (takeWhile (\<lambda>c. c \<noteq> CHR ''/'') path)
                          then ''./'' else buf)
               in buf @ path))
      in body @ queryPart u @ (if u_Fragment u \<noteq> [] then ''#'' @ u_Fragment u else []))"

definition requestURI :: "url \<Rightarrow> string" where
  "requestURI u =
     (let r = (if u_Opaque u = [] then (if u_EscPath u = [] then ''/'' else u_EscPath u)
               else if hasPrefix (u_Opaque u) ''//'' then u_Scheme u @ '':'' @ u_Opaque u
               else u_Opaque u)
      in r @ queryPart u)"

definition isAbs :: "url \<Rightarrow> bool" where
  "isAbs u \<longleftrightarrow> u_Scheme u \<noteq> []"

definition isDigit :: "char \<Rightarrow> bool" where
  "isDigit c = (let n = of_char c :: nat in 48 \<le> n \<and> n \<le> 57)"

definition urlSplitHostPort :: "string \<Rightarrow> string \<times> string" where
  "urlSplitHostPort hp =
     (let (host, port) =
        (case lastIndexOf CHR '':'' hp of
           Some i \<Rightarrow> (if list_all isDigit (drop (Suc i) hp) then (take i hp, drop (Suc i) hp) else (hp, []))
         | None \<Rightarrow> (hp, []));
          host = (if host \<noteq> [] \<and> hd host = CHR ''['' \<and> last host = CHR '']''
                  then butlast (tl host) else host)
      in (host, port))"

definition urlHostname :: "url \<Rightarrow> string" where
  "urlHostname u = fst (urlSplitHostPort (u_Host u))"

definition urlPort :: "url \<Rightarrow> string" where
  "urlPort u = snd (urlSplitHostPort (u_Host u))"

text \<open>\<open>ResolveReference\<close> and the \<open>resolvePath\<close> it uses.\<close>

fun splitOn :: "char \<Rightarrow> string \<Rightarrow> string list" where
  "splitOn c [] = [[]]"
| "splitOn c (d # s) = (if d = c then [] # splitOn c s
     else (case splitOn c s of x # xs \<Rightarrow> (d # x) # xs | [] \<Rightarrow> [[d]]))"

fun joinWith :: "char \<Rightarrow> string list \<Rightarrow> string" where
  "joinWith c [] = []"
| "joinWith c [x] = x"
| "joinWith c (x # y # xs) = x @ c # joinWith c (y # xs)"

fun resolveElems :: "string list \<Rightarrow> string list \<Rightarrow> string list" where
  "resolveElems dst [] = dst"
| "resolveElems dst (e # es) =
     (if e = ''.'' then resolveElems dst es
      else if e = ''..'' then resolveElems (butlast dst) es
      else resolveElems (dst @ [e]) es)"

definition resolvePath :: "string \<Rightarrow> string \<Rightarrow> string" where
  "resolvePath base ref =
     (let full = (if ref = [] then base
        else if hd ref \<noteq> CHR ''/'' then
          (case lastIndexOf CHR ''/'' base of Some i \<Rightarrow> take (Suc i) base | None \<Rightarrow> []) @ ref
        else ref)
      in if full = [] then []
         else (let src = splitOn CHR ''/'' full;
                   dst = resolveElems [] src;
                   dst = (if last src = ''.'' \<or> last src = ''..'' then dst @ [[]] else dst)
               in ''/'' @ trimPrefix (joinWith CHR ''/'' dst) ''/''))"

definition resolveReference :: "url \<Rightarrow> url \<Rightarrow> url" where
  "resolveReference u ref =
     (let r = (if u_Scheme ref = [] then ref\<lparr>u_Scheme := u_Scheme u\<rparr> else ref)
      in if u_Scheme ref \<noteq> [] \<or> u_Host ref \<noteq> [] \<or> u_User ref \<noteq> None then
           r\<lparr>u_EscPath := resolvePath (u_EscPath ref) []\<rparr>
         else if u_Opaque ref \<noteq> [] then
           r\<lparr>u_User := None, u_Host := [], u_EscPath := []\<rparr>
         else
           (let r = (if u_EscPath ref = [] \<and> u_RawQuery ref = [] then
                       r\<lparr>u_RawQuery := u_RawQuery u,
                         u_Fragment := (if u_Fragment ref = [] then u_Fragment u else u_Fragment ref)\<rparr>
                     else r)
            in r\<lparr>u_Host := u_Host u, u_User := u_User u,
                 u_EscPath := resolvePath (u_EscPath u) (u_EscPath ref)\<rparr>))"

section \<open>Headers\<close>

text \<open>A header map as an association list with distinct keys; a missing key has no values.\<close>

type_synonym header = "(string \<times> string list) list"

definition tokenChar :: "char \<Rightarrow> bool" where
  "tokenChar c \<longleftrightarrow> isAlnum c \<or> c \<in> set (''!#$%&*+-.^_`|~'' @ [char_of (39::nat)])"

fun canonChars :: "bool \<Rightarrow> string \<Rightarrow> string" where
  "canonChars up [] = []"
| "canonChars up (c # s) =
     (if up then upperChar c else lowerChar c) # canonChars (c = CHR ''-'') s"

definition canonicalKey :: "string \<Rightarrow> string" where
  "canonicalKey k = (if list_all tokenChar k then canonChars True k else k)"

definition headerValues :: "header \<Rightarrow> string \<Rightarrow> string list" where
  "headerValues h k = (case map_of h k of Some vs \<Rightarrow> vs | None \<Rightarrow> [])"

definition headerGet :: "header \<Rightarrow> string \<Rightarrow> string" where
  "headerGet h k = (case headerValues h (canonicalKey k) of v # _ \<Rightarrow> v | [] \<Rightarrow> [])"

definition headerSet :: "header \<Rightarrow> string \<Rightarrow> string \<Rightarrow> header" where
  "headerSet h k v = AList.update (canonicalKey k) [v] h"

definition headerAdd :: "header \<Rightarrow> string \<Rightarrow> string \<Rightarrow> header" where
  "headerAdd h k v =
     AList.update (canonicalKey k) (headerValues h (canonicalKey k) @ [v]) h"

definition headerDel :: "header \<Rightarrow> string \<Rightarrow> header" where
  "headerDel h k = AList.delete (canonicalKey k) h"

lemma headerGet_Set: "headerGet (headerSet h k v) k' =
    (if canonicalKey k' = canonicalKey k then v else headerGet h k')"
  by (simp add: headerGet_def headerSet_def headerValues_def update_conv)

lemma headerGet_Del: "headerGet (headerDel h k) k' =
    (if canonicalKey k' = canonicalKey k then [] else headerGet h k')"
  by (simp add: headerGet_def headerDel_def headerValues_def delete_conv)

lemma headerGet_Add: "headerGet (headerAdd h k v) k =
    (case headerValues h (canonicalKey k) of [] \<Rightarrow> v | w # _ \<Rightarrow> w)"
  by (simp add: headerGet_def headerAdd_def headerValues_def update_conv split: list.split)

section \<open>Messages\<close>

record http_request =
  rq_Method :: string
  rq_URL :: "url option"
  rq_Host :: string
  rq_Header :: header

record http_response =
  rs_Status :: string
  rs_StatusCode :: int
  rs_ProtoMajor :: int
  rs_ProtoMinor :: int
  rs_Header :: header
  rs_ContentLength :: int

text \<open>
  What an \<open>io.Reader\<close> returns on its successive calls: the bytes read and the error. After the
  last entry it returns \<open>0, io.EOF\<close>.
\<close>

type_synonym reader = "(bytes \<times> go_error option) list"

fun readerRead :: "reader \<Rightarrow> (bytes \<times> go_error option) \<times> reader" where
  "readerRead [] = (([], Some IoEOF), [])"
| "readerRead (x # xs) = (x, xs)"

section \<open>Host and port (package net)\<close>

definition netSplitHostPort :: "string \<Rightarrow> (string \<times> string) option" where
  "netSplitHostPort hp = (case lastIndexOf CHR '':'' hp of
     None \<Rightarrow> None
   | Some i \<Rightarrow>
      (case (if hd hp = CHR ''['' then
               (case indexOf (\<lambda>c. c = CHR '']'') hp of
                  None \<Rightarrow> None
                | Some e \<Rightarrow> if Suc e = i then Some (take (e - 1) (drop 1 hp), 1, Suc e) else None)
             else if CHR '':'' \<in> set (take i hp) then None
             else Some (take i hp, 0, 0)) of
         None \<Rightarrow> None
       | Some (host, j, k) \<Rightarrow>
           if CHR ''['' \<in> set (drop j hp) then None
           else if CHR '']'' \<in> set (drop k hp) then None
           else Some (host, drop (Suc i) hp)))"

definition netJoinHostPort :: "string \<Rightarrow> string \<Rightarrow> string" where
  "netJoinHostPort host port =
     (if CHR '':'' \<in> set host then ''['' @ host @ '']:'' @ port else host @ '':'' @ port)"

lemma netSplitHostPort_parts:
  assumes "netSplitHostPort hp = Some (host, port)"
  shows "hp = host @ '':'' @ port \<and> CHR '':'' \<notin> set host \<and> hd hp \<noteq> CHR ''[''
       \<or> hp = ''['' @ host @ '']:'' @ port"
    and "CHR '':'' \<notin> set port"
proof -
  obtain i where i: "lastIndexOf CHR '':'' hp = Some i"
    using assms by (auto simp: netSplitHostPort_def split: option.splits)
  then have len: "i < length hp" "hp ! i = CHR '':''" "CHR '':'' \<notin> set (drop (Suc i) hp)"
    by (auto dest: lastIndexOf_Some)
  have split: "hp = take i hp @ CHR '':'' # drop (Suc i) hp"
    using len by (metis id_take_nth_drop)
  have port: "port = drop (Suc i) hp"
    using assms i by (auto simp: netSplitHostPort_def split: option.splits if_splits)
  then show "CHR '':'' \<notin> set port" using len by simp
  show "hp = host @ '':'' @ port \<and> CHR '':'' \<notin> set host \<and> hd hp \<noteq> CHR ''[''
       \<or> hp = ''['' @ host @ '']:'' @ port"
  proof (cases "hd hp = CHR ''[''")
    case False
    then have "host = take i hp" "CHR '':'' \<notin> set (take i hp)"
      using assms i by (auto simp: netSplitHostPort_def split: option.splits if_splits)
    then show ?thesis using split port False by simp
  next
    case True
    then obtain e where e: "indexOf (\<lambda>c. c = CHR '']'') hp = Some e" "Suc e = i"
        "host = take (e - 1) (drop 1 hp)"
      using assms i by (auto simp: netSplitHostPort_def split: option.splits if_splits)
    then have e': "hp ! e = CHR '']''" by (auto dest: indexOf_Some)
    obtain t where t: "hp = CHR ''['' # t" using True len by (cases hp) auto
    with e' have "e \<noteq> 0" by (cases e) auto
    then obtain e0 where e0: "e = Suc e0" by (cases e) auto
    have "t = take e0 t @ t ! e0 # drop (Suc e0) t"
      using e0 e(2) len t by (intro id_take_nth_drop) simp
    moreover have "t ! e0 = CHR '']''" using e' e0 t by simp
    moreover have "drop (Suc e0) t = CHR '':'' # port"
      using e(2) e0 t len port by (metis Cons_nth_drop_Suc drop_Suc_Cons)
    ultimately show ?thesis using t e(3) e0 by simp
  qed
qed

section \<open>Status texts (http.StatusText)\<close>

definition statusTexts :: "(int \<times> string) list" where
  "statusTexts =
    [(100, ''Continue''), (101, ''Switching Protocols''), (102, ''Processing''),
     (103, ''Early Hints''),
     (200, ''OK''), (201, ''Created''), (202, ''Accepted''),
     (203, ''Non-Authoritative Information''), (204, ''No Content''), (205, ''Reset Content''),
     (206, ''Partial Content''), (207, ''Multi-Status''), (208, ''Already Reported''),
     (226, ''IM Used''),
     (300, ''Multiple Choices''), (301, ''Moved Permanently''), (302, ''Found''),
     (303, ''See Other''), (304, ''Not Modified''), (305, ''Use Proxy''),
     (307, ''Temporary Redirect''), (308, ''Permanent Redirect''),
     (400, ''Bad Request''), (401, ''Unauthorized''), (402, ''Payment Required''),
     (403, ''Forbidden''), (404, ''Not Found''), (405, ''Method Not Allowed''),
     (406, ''Not Acceptable''), (407, ''Proxy Authentication Required''),
     (408, ''Request Timeout''), (409, ''Conflict''), (410, ''Gone''),
     (411, ''Length Required''), (412, ''Precondition Failed''),
     (413, ''Request Entity Too Large''), (414, ''Request URI Too Long''),
     (415, ''Unsupported Media Type''), (416, ''Requested Range Not Satisfiable''),
     (417, ''Expectation Failed''), (418, ''I'' @ [char_of (39::nat)] @ ''m a teapot''),
     (421, ''Misdirected Request''), (422, ''Unprocessable Entity''), (423, ''Locked''),
     (424, ''Failed Dependency''), (425, ''Too Early''), (426, ''Upgrade Required''),
     (428, ''Precondition Required''), (429, ''Too Many Requests''),
     (431, ''Request Header Fields Too Large''), (451, ''Unavailable For Legal Reasons''),
     (500, ''Internal Server Error''), (501, ''Not Implemented''), (502, ''Bad Gateway''),
     (503, ''Service Unavailable''), (504, ''Gateway Timeout''),
     (505, ''HTTP Version Not Supported''), (506, ''Variant Also Negotiates''),
     (507, ''Insufficient Storage''), (508, ''Loop Detected''), (510, ''Not Extended''),
     (511, ''Network Authentication Required'')]"

definition statusText :: "int \<Rightarrow> string" where
  "statusText code = (case map_of statusTexts code of Some t \<Rightarrow> t | None \<Rightarrow> [])"

end
