(* ===== verification/Payload.thy ===== *)
theory Payload
  imports Http_Types "HOL-Library.Multiset"
begin

text \<open>
  \<open>recorderproxy/payload.go\<close>: the request and response prologs (start line and header section)
  that are stored as the protocol headers of a record, and the cleaning of the host name.
  \<open>idna.Lookup.ToASCII\<close> of golang.org/x/net is the parameter \<open>toASCII\<close>.
\<close>

section \<open>Host names\<close>

definition isASCII :: "string \<Rightarrow> bool" where
  "isASCII s \<longleftrightarrow> list_all (\<lambda>c. (of_char c :: nat) < 128) s"

definition idnaASCII :: "(string \<Rightarrow> go_error + string) \<Rightarrow> string \<Rightarrow> go_error + string" where
  "idnaASCII toASCII v = (if isASCII v then Inr v else toASCII v)"

definition cleanHost :: "(string \<Rightarrow> go_error + string) \<Rightarrow> string \<Rightarrow> string" where
  "cleanHost toASCII inp =
     (let inp = (case indexOf (\<lambda>c. c = CHR '' '' \<or> c = CHR ''/'') inp of
                   Some i \<Rightarrow> take i inp | None \<Rightarrow> inp)
      in case netSplitHostPort inp of
           None \<Rightarrow> (case idnaASCII toASCII inp of Inl e \<Rightarrow> inp | Inr a \<Rightarrow> a)
         | Some (host, port) \<Rightarrow>
             (case idnaASCII toASCII host of Inl e \<Rightarrow> inp | Inr a \<Rightarrow> netJoinHostPort a port))"

definition removeZone :: "string \<Rightarrow> string" where
  "removeZone host =
     (if \<not> hasPrefix host ''['' then host
      else case lastIndexOf CHR '']'' host of
        None \<Rightarrow> host
      | Some i \<Rightarrow> (case lastIndexOf CHR ''%'' (take i host) of
          None \<Rightarrow> host
        | Some j \<Rightarrow> take j host @ drop i host))"

definition valueOrDefault :: "string \<Rightarrow> string \<Rightarrow> string" where
  "valueOrDefault v d = (if v \<noteq> [] then v else d)"

section \<open>Prologs\<close>

definition CRLF :: string where
  "CRLF = [CHR 0x0D, CHR 0x0A]"

definition isSpaceChar :: "char \<Rightarrow> bool" where
  "isSpaceChar c \<longleftrightarrow> c \<in> {CHR '' '', CHR 0x09, CHR 0x0A, CHR 0x0D}"

text \<open>\<open>Header.Write\<close>: keys in ascending order, newlines in a value become spaces, which are trimmed.\<close>

definition newlineToSpace :: "char \<Rightarrow> char" where
  "newlineToSpace c = (if c = CHR 0x0A \<or> c = CHR 0x0D then CHR '' '' else c)"

definition trimString :: "string \<Rightarrow> string" where
  "trimString s = rev (dropWhile isSpaceChar (rev (dropWhile isSpaceChar s)))"

definition headerLine :: "string \<Rightarrow> string \<Rightarrow> string" where
  "headerLine k v = k @ '': '' @ trimString (map newlineToSpace v) @ CRLF"

definition headerWrite :: "header \<Rightarrow> string" where
  "headerWrite h =
     concat (map (\<lambda>(k, vs). concat (map (headerLine k) vs)) (sort_key fst h))"

definition writeResponseProlog :: "http_response \<Rightarrow> string" where
  "writeResponseProlog r =
     (let text = rs_Status r;
          text = (if text = [] then
                    (let t = statusText (rs_StatusCode r)
                     in if t = [] then ''status code '' @ itoa (rs_StatusCode r) else t)
                  else trimPrefix text (itoa (rs_StatusCode r) @ '' ''))
      in ''HTTP/'' @ itoa (rs_ProtoMajor r) @ ''.'' @ itoa (rs_ProtoMinor r) @ '' '' @
         itoa03 (rs_StatusCode r) @ '' '' @ text @ CRLF @
         headerWrite (rs_Header r) @ CRLF)"

text \<open>\<open>errMissingHost\<close>. Dereferencing a nil \<open>r.URL\<close> panics: \<open>None\<close>.\<close>

definition errMissingHost :: go_error where
  "errMissingHost = ErrorString ''http: Request.Write on Request with no Host or URL set''"

definition requestProlog :: "string \<Rightarrow> string \<Rightarrow> string \<Rightarrow> header \<Rightarrow> string" where
  "requestProlog host method uri h =
     valueOrDefault method ''GET'' @ '' '' @ uri @ '' HTTP/1.1'' @ CRLF @
     ''Host: '' @ host @ CRLF @ headerWrite h @ CRLF"

definition writeRequestProlog ::
    "(string \<Rightarrow> go_error + string) \<Rightarrow> http_request \<Rightarrow> (go_error + string) option" where
  "writeRequestProlog toASCII r =
     (let host = cleanHost toASCII (rq_Host r)
      in if host = [] \<and> rq_URL r = None then Some (Inl errMissingHost)
         else case rq_URL r of
           None \<Rightarrow> None
         | Some u \<Rightarrow>
             (let host = (if host = [] then cleanHost toASCII (u_Host u) else host)
              in Some (Inr (requestProlog (removeZone host) (rq_Method r) (requestURI u)
                   (rq_Header r)))))"

section \<open>Lemmas\<close>

definition asciiIdna :: "string \<Rightarrow> go_error + string" where
  "asciiIdna v = Inl (ErrorString ''idna: disallowed rune'')"

lemma truncated_host:
  assumes "t = (case indexOf (\<lambda>c. c = CHR '' '' \<or> c = CHR ''/'') s of Some i \<Rightarrow> take i s | None \<Rightarrow> s)"
  shows "set t \<subseteq> set s" and "CHR '' '' \<notin> set t" and "CHR ''/'' \<notin> set t"
  using assms set_take_subset [of _ s]
  by (auto split: option.splits dest: indexOf_Some simp: indexOf_None)

lemma isASCII_mono: "set t \<subseteq> set s \<Longrightarrow> isASCII s \<Longrightarrow> isASCII t"
  by (auto simp: isASCII_def list_all_iff)

text \<open>Splitting leaves no bracket in host and port, so splitting what was joined gives the same parts.\<close>

lemma netSplitHostPort_no_bracket:
  assumes "netSplitHostPort hp = Some (host, port)"
  shows "CHR '']'' \<notin> set host" and "CHR ''['' \<notin> set host"
    and "CHR ''['' \<notin> set port" and "CHR '']'' \<notin> set port"
proof -
  from netSplitHostPort_parts(1) [OF assms]
  have "(CHR '']'' \<notin> set host \<and> CHR ''['' \<notin> set host) \<and> CHR ''['' \<notin> set port \<and> CHR '']'' \<notin> set port"
  proof
    assume plain: "hp = host @ '':'' @ port \<and> CHR '':'' \<notin> set host \<and> hd hp \<noteq> CHR ''[''"
    then show ?thesis using assms
      by (auto simp: netSplitHostPort_def split: option.splits if_splits)
  next
    assume br: "hp = ''['' @ host @ '']:'' @ port"
    then have "hd hp = CHR ''[''" by simp
    with assms obtain e where e: "indexOf (\<lambda>c. c = CHR '']'') hp = Some e" "host = take (e - 1) (drop 1 hp)"
        "CHR ''['' \<notin> set (drop 1 hp)" "CHR '']'' \<notin> set (drop (Suc e) hp)"
      by (auto simp: netSplitHostPort_def split: option.splits if_splits)
    then have len: "e < length hp" "CHR '']'' \<notin> set (take e hp)" "hp ! e = CHR '']''"
      by (auto dest: indexOf_Some)
    then have "e \<noteq> 0" using br by (cases e) auto
    then have "take e hp = CHR ''['' # host" using e(2) br by (cases e) auto
    with len have nohost: "CHR '']'' \<notin> set host" by simp
    have "e = Suc (length host)"
      using \<open>take e hp = CHR ''['' # host\<close> len(1) by (metis length_Cons length_take min.absorb4)
    then have "drop (Suc e) hp = '':'' @ port" using br by simp
    then show ?thesis using nohost e(3,4) br by auto
  qed
  then show "CHR '']'' \<notin> set host" and "CHR ''['' \<notin> set host"
    and "CHR ''['' \<notin> set port" and "CHR '']'' \<notin> set port" by auto
qed

lemma netSplitHostPort_plain:
  assumes "CHR '':'' \<notin> set host" "CHR '':'' \<notin> set port"
    and "CHR ''['' \<notin> set host \<union> set port" "CHR '']'' \<notin> set host \<union> set port"
  shows "netSplitHostPort (host @ '':'' @ port) = Some (host, port)"
proof -
  have "hd (host @ '':'' @ port) \<noteq> CHR ''[''"
    using assms(3) by (cases host) auto
  moreover have "lastIndexOf CHR '':'' (host @ '':'' @ port) = Some (length host)"
    using lastIndexOf_append [OF assms(2), of host] by simp
  ultimately show ?thesis
    using assms by (simp add: netSplitHostPort_def)
qed

lemma split_join:
  assumes "netSplitHostPort hp = Some (host, port)"
  shows "netSplitHostPort (netJoinHostPort host port) = Some (host, port)"
proof (cases "CHR '':'' \<in> set host")
  case True
  with netSplitHostPort_parts(1) [OF assms] have "hp = ''['' @ host @ '']:'' @ port" by auto
  then show ?thesis using True assms by (simp add: netJoinHostPort_def)
next
  case False
  then show ?thesis
    using netSplitHostPort_no_bracket [OF assms] netSplitHostPort_parts(2) [OF assms]
    by (simp add: netJoinHostPort_def netSplitHostPort_plain [simplified])
qed

lemma split_subset:
  assumes "netSplitHostPort hp = Some (host, port)"
  shows "set host \<subseteq> set hp" and "set port \<subseteq> set hp" and "CHR '':'' \<in> set hp"
  using netSplitHostPort_parts(1) [OF assms] by auto

lemma join_chars:
  "set (netJoinHostPort host port) \<subseteq> set host \<union> set port \<union> {CHR '':'', CHR ''['', CHR '']''}"
  by (auto simp: netJoinHostPort_def)

lemma cleanHost_stable:
  assumes "CHR '' '' \<notin> set t" "CHR ''/'' \<notin> set t"
  shows "cleanHost toASCII t = (case netSplitHostPort t of
      None \<Rightarrow> (case idnaASCII toASCII t of Inl e \<Rightarrow> t | Inr a \<Rightarrow> a)
    | Some (host, port) \<Rightarrow>
        (case idnaASCII toASCII host of Inl e \<Rightarrow> t | Inr a \<Rightarrow> netJoinHostPort a port))"
proof -
  have "indexOf (\<lambda>c. c = CHR '' '' \<or> c = CHR ''/'') t = None"
    using assms by (auto simp: indexOf_None)
  then show ?thesis by (simp add: cleanHost_def Let_def)
qed

lemma cleanHost_ascii:
  assumes ascii: "isASCII s"
    and t: "t = (case indexOf (\<lambda>c. c = CHR '' '' \<or> c = CHR ''/'') s of Some i \<Rightarrow> take i s | None \<Rightarrow> s)"
  shows "cleanHost toASCII s =
     (case netSplitHostPort t of None \<Rightarrow> t | Some (host, port) \<Rightarrow> netJoinHostPort host port)"
proof -
  have "isASCII t" using isASCII_mono [OF truncated_host(1) [OF t] ascii] .
  then have "idnaASCII toASCII t = Inr t" by (simp add: idnaASCII_def)
  moreover have "idnaASCII toASCII host = Inr host" if "netSplitHostPort t = Some (host, port)" for host port
    using isASCII_mono [OF split_subset(1) [OF that] \<open>isASCII t\<close>] by (simp add: idnaASCII_def)
  ultimately show ?thesis by (auto simp: cleanHost_def Let_def t [symmetric] split: option.splits)
qed

text \<open>Lines of a prolog: the pieces between the line ends.\<close>

fun crlfLines :: "string \<Rightarrow> string list" where
  "crlfLines [] = [[]]"
| "crlfLines (c # s) =
     (if c = CHR 0x0D \<and> s \<noteq> [] \<and> hd s = CHR 0x0A then [] # crlfLines (tl s)
      else (case crlfLines s of l # ls \<Rightarrow> (c # l) # ls | [] \<Rightarrow> [[c]]))"

definition lineSafe :: "string \<Rightarrow> bool" where
  "lineSafe s \<longleftrightarrow> CHR 0x0D \<notin> set s \<and> CHR 0x0A \<notin> set s"

lemma lineSafe_append [simp]: "lineSafe (s @ t) \<longleftrightarrow> lineSafe s \<and> lineSafe t"
  by (auto simp: lineSafe_def)

lemma lineSafe_Cons [simp]: "lineSafe (c # s) \<longleftrightarrow> c \<noteq> CHR 0x0D \<and> c \<noteq> CHR 0x0A \<and> lineSafe s"
  by (auto simp: lineSafe_def)

lemma lineSafe_Nil [simp]: "lineSafe []"
  by (simp add: lineSafe_def)

lemma crlfLines_append: "lineSafe l \<Longrightarrow> crlfLines (l @ CRLF @ rest) = l # crlfLines rest"
  by (induction l) (simp_all add: CRLF_def)

lemma crlfLines_concat:
  "\<forall>l \<in> set ls. lineSafe l \<Longrightarrow>
     crlfLines (concat (map (\<lambda>l. l @ CRLF) ls) @ rest) = ls @ crlfLines rest"
  by (induction ls) (simp_all add: crlfLines_append)

lemma dropWhile_keeps_safe: "lineSafe s \<Longrightarrow> lineSafe (dropWhile P s)"
  by (auto simp: lineSafe_def dest: set_dropWhileD)

lemma lineSafe_rev [simp]: "lineSafe (rev s) = lineSafe s"
  by (simp add: lineSafe_def)

lemma headerValue_safe: "lineSafe (trimString (map newlineToSpace v))"
proof -
  have "lineSafe (map newlineToSpace v)"
    by (auto simp: lineSafe_def newlineToSpace_def)
  then show ?thesis by (simp add: trimString_def dropWhile_keeps_safe)
qed

definition headerFields :: "header \<Rightarrow> string list" where
  "headerFields h = concat (map (\<lambda>(k, vs).
     map (\<lambda>v. k @ '': '' @ trimString (map newlineToSpace v)) vs) (sort_key fst h))"

lemma headerWrite_fields: "headerWrite h = concat (map (\<lambda>l. l @ CRLF) (headerFields h))"
proof -
  have "concat (map (\<lambda>(k, vs). concat (map (headerLine k) vs)) xs) =
      concat (map (\<lambda>l. l @ CRLF) (concat (map (\<lambda>(k, vs).
        map (\<lambda>v. k @ '': '' @ trimString (map newlineToSpace v)) vs) xs)))" for xs
    by (induction xs) (auto simp: headerLine_def map_concat comp_def)
  then show ?thesis by (simp add: headerWrite_def headerFields_def)
qed

lemma headerFields_safe:
  assumes "\<forall>k \<in> fst ` set h. lineSafe k"
  shows "\<forall>l \<in> set (headerFields h). lineSafe l"
  using assms by (fastforce simp: headerFields_def headerValue_safe)

lemma length_headerFields:
  "length (headerFields h) = sum_list (map (\<lambda>(k, vs). length vs) h)"
proof -
  have "length (headerFields h) = sum_list (map (\<lambda>(k, vs). length vs) (sort_key fst h))"
    by (simp add: headerFields_def length_concat comp_def case_prod_beta
        cong: map_cong)
  also have "\<dots> = sum_mset (image_mset (\<lambda>(k, vs). length vs) (mset (sort_key fst h)))"
    by (metis mset_map sum_mset_sum_list)
  also have "\<dots> = sum_list (map (\<lambda>(k, vs). length vs) h)"
    by (metis mset_map mset_sort sum_mset_sum_list)
  finally show ?thesis .
qed

section \<open>Properties\<close>

text \<open>
  For an ASCII host \<open>cleanHost\<close> removes everything from the first space or slash on (its
  result contains neither) and a second cleaning changes nothing; no host name conversion
  is consulted.
\<close>

theorem cleanHost_clean:
  assumes "isASCII s"
  shows "CHR '' '' \<notin> set (cleanHost toASCII s) \<and> CHR ''/'' \<notin> set (cleanHost toASCII s) \<and>
     cleanHost toASCII (cleanHost toASCII s) = cleanHost toASCII s \<and>
     cleanHost toASCII s = cleanHost asciiIdna s"
proof -
  define t where "t = (case indexOf (\<lambda>c. c = CHR '' '' \<or> c = CHR ''/'') s of Some i \<Rightarrow> take i s | None \<Rightarrow> s)"
  note tr = truncated_host [OF t_def]
  have ascii: "isASCII t" by (rule isASCII_mono [OF tr(1) assms])
  show ?thesis
  proof (cases "netSplitHostPort t")
    case None
    then have "cleanHost f s = t" for f using cleanHost_ascii [OF assms t_def] by simp
    moreover have "cleanHost toASCII t = t"
      using cleanHost_stable [OF tr(2,3)] None ascii by (simp add: idnaASCII_def)
    ultimately show ?thesis using tr by simp
  next
    case (Some hp)
    then obtain host port where split: "netSplitHostPort t = Some (host, port)" by (cases hp) auto
    let ?j = "netJoinHostPort host port"
    have eq: "cleanHost f s = ?j" for f using cleanHost_ascii [OF assms t_def] split by simp
    have safe: "CHR '' '' \<notin> set ?j" "CHR ''/'' \<notin> set ?j"
      using join_chars [of host port] split_subset [OF split] tr by auto
    have "isASCII host" by (rule isASCII_mono [OF split_subset(1) [OF split] ascii])
    then have "cleanHost toASCII ?j = ?j"
      using cleanHost_stable [OF safe] split_join [OF split] by (simp add: idnaASCII_def)
    with eq safe show ?thesis by simp
  qed
qed

theorem cleanHost_clean_witness:
  "isASCII ''www.example.com:80/x y'' \<and>
   cleanHost asciiIdna ''www.example.com:80/x y'' = ''www.example.com:80'' \<and>
   CHR ''/'' \<notin> set (cleanHost asciiIdna ''www.example.com:80/x y'')"
proof -
  have "isASCII ''www.example.com:80/x y''" by code_simp
  moreover have "cleanHost asciiIdna ''www.example.com:80/x y'' = ''www.example.com:80''" by code_simp
  ultimately show ?thesis using cleanHost_clean [of "''www.example.com:80/x y''" asciiIdna] by simp
qed

text \<open>
  \<open>removeZone\<close> removes the zone of an IPv6 literal, from the last \<open>%\<close> before the closing
  bracket up to that bracket, and leaves hosts without a zone or without brackets alone.
\<close>

theorem removeZone_zone:
  "(CHR ''%'' \<notin> set z \<and> CHR '']'' \<notin> set r \<longrightarrow>
      removeZone (''['' @ a @ ''%'' @ z @ '']'' @ r) = ''['' @ a @ '']'' @ r) \<and>
   (CHR ''%'' \<notin> set h \<or> \<not> hasPrefix h ''['' \<longrightarrow> removeZone h = h)"
proof -
  have "removeZone (''['' @ a @ ''%'' @ z @ '']'' @ r) = ''['' @ a @ '']'' @ r"
    if "CHR ''%'' \<notin> set z" "CHR '']'' \<notin> set r"
  proof -
    have "lastIndexOf CHR '']'' ((''['' @ a @ ''%'' @ z) @ CHR '']'' # r) = Some (length (''['' @ a @ ''%'' @ z))"
      by (rule lastIndexOf_append [OF that(2)])
    moreover have "lastIndexOf CHR ''%'' ((''['' @ a) @ CHR ''%'' # z) = Some (length (''['' @ a))"
      by (rule lastIndexOf_append [OF that(1)])
    ultimately show ?thesis by (simp add: removeZone_def hasPrefix_def)
  qed
  moreover have "removeZone h = h" if "CHR ''%'' \<notin> set h"
  proof -
    have "lastIndexOf CHR ''%'' (take i h) = None" for i
      using that by (auto simp: lastIndexOf_None dest: in_set_takeD)
    then show ?thesis by (simp add: removeZone_def split: option.splits)
  qed
  moreover have "removeZone h = h" if "\<not> hasPrefix h ''[''"
    using that by (simp add: removeZone_def)
  ultimately show ?thesis by blast
qed

theorem removeZone_zone_witness:
  "removeZone ''[fe80::1%en0]:8080'' = ''[fe80::1]:8080'' \<and> removeZone ''a%b:80'' = ''a%b:80''"
  using removeZone_zone [of "''en0''" "'':8080''" "''fe80::1''" "''a%b:80''"]
  by (simp add: hasPrefix_def)

text \<open>
  C31: No header value can add a line to a recorded request prolog: if method, request URI,
  host and header names contain no line break, the lines of the prolog are exactly the
  request line, the \<open>Host\<close> line, one line per header value and the empty line that ends the
  section, whatever the values contain.
\<close>

theorem requestProlog_lines:
  assumes "lineSafe method" "lineSafe uri" "lineSafe host" "\<forall>k \<in> fst ` set h. lineSafe k"
  shows "crlfLines (requestProlog host method uri h) =
     [valueOrDefault method ''GET'' @ '' '' @ uri @ '' HTTP/1.1'', ''Host: '' @ host] @
     headerFields h @ [[], []] \<and>
     length (headerFields h) = sum_list (map (\<lambda>(k, vs). length vs) h)"
proof -
  let ?l1 = "valueOrDefault method ''GET'' @ '' '' @ uri @ '' HTTP/1.1''"
  have safe: "\<forall>l \<in> set (?l1 # (''Host: '' @ host) # headerFields h). lineSafe l"
    using assms headerFields_safe [OF assms(4)] by (auto simp: valueOrDefault_def)
  have "requestProlog host method uri h =
      concat (map (\<lambda>l. l @ CRLF) (?l1 # (''Host: '' @ host) # headerFields h)) @ [] @ CRLF @ []"
    by (simp add: requestProlog_def headerWrite_fields)
  then have "crlfLines (requestProlog host method uri h) =
      (?l1 # (''Host: '' @ host) # headerFields h) @ crlfLines ([] @ CRLF @ [])"
    using crlfLines_concat [OF safe, of "[] @ CRLF @ []"] by simp
  moreover have "crlfLines ([] @ CRLF @ []) = [[], []]" by (simp add: CRLF_def)
  ultimately show ?thesis by (simp add: length_headerFields)
qed

theorem requestProlog_lines_witness:
  "crlfLines (requestProlog ''h'' [] ''/'' [(''X'', [''a'' @ CRLF @ ''Evil: 1''])]) =
     [''GET / HTTP/1.1'', ''Host: h'', ''X: a  Evil: 1'', [], []]"
proof -
  have "headerFields [(''X'', [''a'' @ CRLF @ ''Evil: 1''])] = [''X: a  Evil: 1'']" by code_simp
  then show ?thesis
    using requestProlog_lines [of "[]" "''/''" "''h''" "[(''X'', [''a'' @ CRLF @ ''Evil: 1''])]"]
    by (simp add: valueOrDefault_def)
qed

text \<open>
  A status text that repeats the status code is written once: the prolog of a response
  whose status is \<open>code text\<close> is the prolog of one whose status is \<open>text\<close>, and a missing
  text is filled in from the standard texts.
\<close>

theorem writeResponseProlog_status:
  assumes "t \<noteq> []" and "\<not> hasPrefix t (itoa (rs_StatusCode r) @ '' '')"
  shows "writeResponseProlog (r\<lparr>rs_Status := itoa (rs_StatusCode r) @ '' '' @ t\<rparr>) =
     writeResponseProlog (r\<lparr>rs_Status := t\<rparr>) \<and>
     (statusText (rs_StatusCode r) = t \<longrightarrow>
        writeResponseProlog (r\<lparr>rs_Status := []\<rparr>) = writeResponseProlog (r\<lparr>rs_Status := t\<rparr>))"
proof -
  have "trimPrefix (itoa (rs_StatusCode r) @ '' '' @ t) (itoa (rs_StatusCode r) @ '' '') = t"
    using hasPrefix_append [of "itoa (rs_StatusCode r) @ '' ''" t] by (simp add: trimPrefix_def)
  moreover have "trimPrefix t (itoa (rs_StatusCode r) @ '' '') = t"
    using assms(2) by (simp add: trimPrefix_def)
  ultimately show ?thesis using assms(1) by (simp add: writeResponseProlog_def Let_def)
qed

theorem writeResponseProlog_status_witness:
  "writeResponseProlog \<lparr>rs_Status = ''200 OK'', rs_StatusCode = 200, rs_ProtoMajor = 1,
     rs_ProtoMinor = 1, rs_Header = [], rs_ContentLength = 0\<rparr> = ''HTTP/1.1 200 OK'' @ CRLF @ CRLF"
proof -
  let ?r = "\<lparr>rs_Status = ''OK'', rs_StatusCode = 200, rs_ProtoMajor = 1, rs_ProtoMinor = 1,
     rs_Header = [], rs_ContentLength = 0\<rparr>"
  have i: "itoa 200 = ''200''" by code_simp
  have "writeResponseProlog ?r = ''HTTP/1.1 200 OK'' @ CRLF @ CRLF" by code_simp
  then show ?thesis
    using writeResponseProlog_status [of "''OK''" ?r] by (simp add: i hasPrefix_def)
qed

end
