(* ===== verification/Sha1.thy ===== *)
theory Sha1
  imports Prelude
begin

text \<open>
  The hash of package \<open>crypto/sha1\<close> as the proxy uses it: \<open>sha1.New()\<close>, \<open>Write\<close> and \<open>Sum(nil)\<close>
  printed in hexadecimal. A \<open>hash.Hash\<close> is modelled by the bytes written to it.
\<close>

unbundle bit_operations_syntax

type_synonym u32 = "32 word"

definition bigEndian :: "nat \<Rightarrow> nat \<Rightarrow> nat list" where
  "bigEndian k n = map (\<lambda>i. n div 256 ^ (k - Suc i) mod 256) [0..<k]"

text \<open>Padding: a one bit, zeros, and the length in bits as eight bytes.\<close>

definition sha1Pad :: "nat list \<Rightarrow> nat list" where
  "sha1Pad bs = bs @ [128] @ replicate ((119 - length bs mod 64) mod 64) 0 @
     bigEndian 8 (8 * length bs)"

fun toWords :: "nat list \<Rightarrow> u32 list" where
  "toWords (a # b # c # d # bs) =
     word_of_nat (((a * 256 + b) * 256 + c) * 256 + d) # toWords bs"
| "toWords _ = []"

fun toBlocks :: "'a list \<Rightarrow> 'a list list" where
  "toBlocks [] = []"
| "toBlocks (w # ws) = take 16 (w # ws) # toBlocks (drop 15 ws)"

type_synonym sha1State = "u32 \<times> u32 \<times> u32 \<times> u32 \<times> u32"

definition roundFun :: "nat \<Rightarrow> u32 \<Rightarrow> u32 \<Rightarrow> u32 \<Rightarrow> u32 \<times> u32" where
  "roundFun t b c d =
     (if t < 20 then ((b AND c) OR ((NOT b) AND d), 0x5A827999)
      else if t < 40 then (b XOR c XOR d, 0x6ED9EBA1)
      else if t < 60 then ((b AND c) OR (b AND d) OR (c AND d), 0x8F1BBCDC)
      else (b XOR c XOR d, 0xCA62C1D6))"

text \<open>Round \<open>t\<close> of a block; \<open>win\<close> holds the next 16 words of the message schedule.\<close>

fun sha1Round :: "sha1State \<times> u32 list \<Rightarrow> nat \<Rightarrow> sha1State \<times> u32 list" where
  "sha1Round ((a, b, c, d, e), win) t =
     (let (f, kt) = roundFun t b c d;
          tmp = word_rotl 5 a + f + e + kt + win ! 0;
          w = word_rotl 1 (win ! 13 XOR win ! 8 XOR win ! 2 XOR win ! 0)
      in ((tmp, a, word_rotl 30 b, c, d), tl win @ [w]))"

fun sha1Block :: "sha1State \<Rightarrow> u32 list \<Rightarrow> sha1State" where
  "sha1Block (a, b, c, d, e) ws =
     (case foldl sha1Round ((a, b, c, d, e), ws) [0..<80] of
        ((a', b', c', d', e'), win) \<Rightarrow> (a + a', b + b', c + c', d + d', e + e'))"

definition sha1Init :: sha1State where
  "sha1Init = (0x67452301, 0xEFCDAB89, 0x98BADCFE, 0x10325476, 0xC3D2E1F0)"

definition sha1Words :: "bytes \<Rightarrow> sha1State" where
  "sha1Words bs = foldl sha1Block sha1Init (toBlocks (toWords (sha1Pad (map byteVal bs))))"

definition hexLower :: "nat \<Rightarrow> char" where
  "hexLower d = (if d < 10 then char_of (48 + d) else char_of (87 + d))"

definition hexByte :: "nat \<Rightarrow> string" where
  "hexByte n = [hexLower (n div 16), hexLower (n mod 16)]"

definition hexWord :: "u32 \<Rightarrow> string" where
  "hexWord w = concat (map hexByte (bigEndian 4 (unat w)))"

definition sha1Hex :: "bytes \<Rightarrow> string" where
  "sha1Hex bs = (case sha1Words bs of
     (a, b, c, d, e) \<Rightarrow> hexWord a @ hexWord b @ hexWord c @ hexWord d @ hexWord e)"

section \<open>The hash.Hash interface\<close>

type_synonym hashState = bytes

definition sha1New :: hashState where
  "sha1New = []"

definition hashWrite :: "bytes \<Rightarrow> hashState \<Rightarrow> nat \<times> hashState" where
  "hashWrite d h = (length d, h @ d)"

definition blockDigestOf :: "hashState \<Rightarrow> string" where
  "blockDigestOf h = ''sha1:'' @ sha1Hex h"

text \<open>
  \<open>writeCrc\<close> of both body wrappers: it writes the rest of the data until all of it is consumed;
  \<open>hash.Hash.Write\<close> never returns an error and consumes everything.
\<close>

function writeCrcFrom :: "nat \<Rightarrow> bytes \<Rightarrow> hashState \<Rightarrow> hashState" where
  "writeCrcFrom c d h =
     (if c < length d then (case hashWrite (drop c d) h of (n, h') \<Rightarrow> writeCrcFrom (c + n) d h')
      else h)"
  by pat_completeness auto
termination
  by (relation "measure (\<lambda>(c, d, h). length d - c)") (auto simp: hashWrite_def)

declare writeCrcFrom.simps [simp del]

definition writeCrc :: "bytes \<Rightarrow> hashState \<Rightarrow> hashState" where
  "writeCrc d h = writeCrcFrom 0 d h"

lemma writeCrc_eq [simp]: "writeCrc d h = h @ d"
  by (cases "d = []")
    (simp_all add: writeCrc_def writeCrcFrom.simps [of 0] writeCrcFrom.simps [of "length d"] hashWrite_def)

lemma length_hexWord: "length (hexWord w) = 8"
  by (simp add: hexWord_def hexByte_def bigEndian_def length_concat comp_def
      upt_rec [of 0 4] upt_rec [of "Suc 0" 4] upt_rec [of "Suc (Suc 0)" 4] upt_rec [of "Suc (Suc (Suc 0))" 4])

lemma length_sha1Hex: "length (sha1Hex bs) = 40"
  by (simp add: sha1Hex_def length_hexWord split: prod.split)

end
