(* ===== verification/Context_Data.thy ===== *)
theory Context_Data
  imports Http_Types
begin

text \<open>
  \<open>context/recorderproxy_aware.go\<close>: the map of proxy data that a Go context carries. All contexts
  derived from the one made for a connection share the map; a context without it is \<open>None\<close>.
  The map's values are interface values: every getter asserts the dynamic type it expects and
  returns the zero value when the assertion fails.
\<close>

section \<open>Keys and values\<close>

datatype ctxKey = KeyRCTX | KeyHost | KeyPort | KeyUrl | KeyConnectErr | KeyRequestId
  | KeyCrawlExecutionId | KeyJobExecutionId | KeyCollectionRef | KeyIp

record configRef =
  cfgKind :: string
  cfgId :: string

text \<open>
  A \<open>*RecordContext\<close> is known by its session number; \<open>None\<close> is the nil pointer. \<open>NilInterface\<close>
  is the nil interface value, which a lookup of a missing key gives too.
\<close>

datatype ctxVal = StringVal string | UriVal "url option" | RecordVal "int option"
  | ErrorVal go_error | RefVal "configRef option" | NilInterface

type_synonym ctxMap = "(ctxKey \<times> ctxVal) list"
type_synonym dataCtx = "ctxMap option"

text \<open>\<open>RecordProxyDataAware\<close>: adds an empty map unless the context already has one.\<close>

definition RecordProxyDataAware :: "dataCtx \<Rightarrow> dataCtx" where
  "RecordProxyDataAware c = (case c of None \<Rightarrow> Some [] | Some m \<Rightarrow> Some m)"

definition mapIndex :: "ctxMap \<Rightarrow> ctxKey \<Rightarrow> ctxVal" where
  "mapIndex m k = (case map_of m k of Some v \<Rightarrow> v | None \<Rightarrow> NilInterface)"

definition getValue :: "dataCtx \<Rightarrow> ctxKey \<Rightarrow> ctxVal" where
  "getValue c k = (case c of None \<Rightarrow> NilInterface | Some m \<Rightarrow> mapIndex m k)"

text \<open>\<open>setValue\<close> panics on a context without the map (\<open>getRecordProxyDataAware\<close>).\<close>

definition getRecordProxyDataAware :: "dataCtx \<Rightarrow> (ctxMap, dataCtx) run" where
  "getRecordProxyDataAware c = (case c of None \<Rightarrow> Panics c | Some m \<Rightarrow> Done m c)"

definition setValue :: "ctxKey \<Rightarrow> ctxVal \<Rightarrow> dataCtx \<Rightarrow> (unit, dataCtx) run" where
  "setValue k v c = andThen (getRecordProxyDataAware c) (\<lambda>m c. Done () (Some (AList.update k v m)))"

section \<open>Typed setters and getters\<close>

definition SetHost :: "string \<Rightarrow> dataCtx \<Rightarrow> (unit, dataCtx) run" where
  "SetHost h = setValue KeyHost (StringVal h)"

definition SetPort :: "string \<Rightarrow> dataCtx \<Rightarrow> (unit, dataCtx) run" where
  "SetPort p = setValue KeyPort (StringVal p)"

definition SetUri :: "url option \<Rightarrow> dataCtx \<Rightarrow> (unit, dataCtx) run" where
  "SetUri u = setValue KeyUrl (UriVal u)"

definition SetRecordContext :: "int option \<Rightarrow> dataCtx \<Rightarrow> (unit, dataCtx) run" where
  "SetRecordContext rc = setValue KeyRCTX (RecordVal rc)"

definition errVal :: "go_error option \<Rightarrow> ctxVal" where
  "errVal e = (case e of Some e \<Rightarrow> ErrorVal e | None \<Rightarrow> NilInterface)"

definition SetConnectError :: "go_error option \<Rightarrow> dataCtx \<Rightarrow> (unit, dataCtx) run" where
  "SetConnectError e = setValue KeyConnectErr (errVal e)"

definition SetConnectErrorIfNotExists :: "go_error option \<Rightarrow> dataCtx \<Rightarrow> (unit, dataCtx) run" where
  "SetConnectErrorIfNotExists e c = andThen (getRecordProxyDataAware c) (\<lambda>m c.
     if mapIndex m KeyConnectErr = NilInterface
     then Done () (Some (AList.update KeyConnectErr (errVal e) m)) else Done () c)"

definition SetRequestId :: "string \<Rightarrow> dataCtx \<Rightarrow> (unit, dataCtx) run" where
  "SetRequestId s = setValue KeyRequestId (StringVal s)"

definition SetCrawlExecutionId :: "string \<Rightarrow> dataCtx \<Rightarrow> (unit, dataCtx) run" where
  "SetCrawlExecutionId s = setValue KeyCrawlExecutionId (StringVal s)"

definition SetJobExecutionId :: "string \<Rightarrow> dataCtx \<Rightarrow> (unit, dataCtx) run" where
  "SetJobExecutionId s = setValue KeyJobExecutionId (StringVal s)"

definition SetCollectionRef :: "configRef option \<Rightarrow> dataCtx \<Rightarrow> (unit, dataCtx) run" where
  "SetCollectionRef r = setValue KeyCollectionRef (RefVal r)"

definition SetIp :: "string \<Rightarrow> dataCtx \<Rightarrow> (unit, dataCtx) run" where
  "SetIp s = setValue KeyIp (StringVal s)"

fun asString :: "ctxVal \<Rightarrow> string" where
  "asString (StringVal s) = s"
| "asString v = []"

fun asUri :: "ctxVal \<Rightarrow> url option" where
  "asUri (UriVal u) = u"
| "asUri v = None"

fun asRecord :: "ctxVal \<Rightarrow> int option" where
  "asRecord (RecordVal r) = r"
| "asRecord v = None"

fun asError :: "ctxVal \<Rightarrow> go_error option" where
  "asError (ErrorVal e) = Some e"
| "asError v = None"

fun asRef :: "ctxVal \<Rightarrow> configRef option" where
  "asRef (RefVal r) = r"
| "asRef v = None"

definition GetHost :: "dataCtx \<Rightarrow> string" where "GetHost c = asString (getValue c KeyHost)"
definition GetPort :: "dataCtx \<Rightarrow> string" where "GetPort c = asString (getValue c KeyPort)"
definition GetUri :: "dataCtx \<Rightarrow> url option" where "GetUri c = asUri (getValue c KeyUrl)"
definition GetRecordContext :: "dataCtx \<Rightarrow> int option" where
  "GetRecordContext c = asRecord (getValue c KeyRCTX)"
definition GetConnectError :: "dataCtx \<Rightarrow> go_error option" where
  "GetConnectError c = asError (getValue c KeyConnectErr)"
definition GetRequestId :: "dataCtx \<Rightarrow> string" where
  "GetRequestId c = asString (getValue c KeyRequestId)"
definition GetCrawlExecutionId :: "dataCtx \<Rightarrow> string" where
  "GetCrawlExecutionId c = asString (getValue c KeyCrawlExecutionId)"
definition GetJobExecutionId :: "dataCtx \<Rightarrow> string" where
  "GetJobExecutionId c = asString (getValue c KeyJobExecutionId)"
definition GetCollectionRef :: "dataCtx \<Rightarrow> configRef option" where
  "GetCollectionRef c = asRef (getValue c KeyCollectionRef)"
definition GetIp :: "dataCtx \<Rightarrow> string" where "GetIp c = asString (getValue c KeyIp)"

lemmas getter_defs = GetHost_def GetPort_def GetUri_def GetRecordContext_def
  GetConnectError_def GetRequestId_def GetCrawlExecutionId_def GetJobExecutionId_def
  GetCollectionRef_def GetIp_def

lemmas setter_defs = SetHost_def SetPort_def SetUri_def SetRecordContext_def
  SetConnectError_def SetRequestId_def SetCrawlExecutionId_def SetJobExecutionId_def
  SetCollectionRef_def SetIp_def

section \<open>The interface: a store of tagged values\<close>

text \<open>
  What the rest of the proxy relies on: on an aware context a write succeeds, a read of the
  written key gives the written value and all other keys keep theirs; a read of an unaware
  context gives nothing and a write to it panics.
\<close>

locale tagged_store =
  fixes get :: "'c \<Rightarrow> 'k \<Rightarrow> 'v" and put :: "'k \<Rightarrow> 'v \<Rightarrow> 'c \<Rightarrow> (unit, 'c) run"
    and aware :: "'c \<Rightarrow> bool" and absent :: 'v
  assumes put_aware: "aware c \<Longrightarrow> \<exists>c'. put k v c = Done () c' \<and> aware c' \<and>
      (\<forall>k'. get c' k' = (if k' = k then v else get c k'))"
    and put_unaware: "\<not> aware c \<Longrightarrow> put k v c = Panics c"
    and get_unaware: "\<not> aware c \<Longrightarrow> get c k = absent"
begin

lemma get_after_put: "put k v c = Done () c' \<Longrightarrow> get c' k' = (if k' = k then v else get c k')"
  using put_aware [of c k v] put_unaware [of c k v] by (cases "aware c") auto

lemma put_Done_aware: "put k v c = Done u c' \<Longrightarrow> aware c \<and> aware c'"
  using put_aware [of c k v] put_unaware [of c k v] by (cases "aware c") auto

lemma get_after_puts:
  "foldl (\<lambda>m (k, v). andThen m (\<lambda>_ c. put k v c)) (Done () c) kvs = Done () c' \<Longrightarrow>
     get c' k' = (case map_of (rev kvs) k' of Some v \<Rightarrow> v | None \<Rightarrow> get c k')"
proof (induction kvs arbitrary: c' rule: rev_induct)
  case (snoc kv kvs)
  obtain k v where kv: "kv = (k, v)" by (cases kv)
  with snoc.prems obtain c1 where
    "foldl (\<lambda>m (k, v). andThen m (\<lambda>_ c. put k v c)) (Done () c) kvs = Done () c1" "put k v c1 = Done () c'"
    by (auto simp: andThen_Done_iff)
  then show ?case using snoc.IH [of c1] kv by (auto simp: get_after_put split: if_splits)
qed simp

lemma puts_return: "aware c \<Longrightarrow>
  \<exists>c'. foldl (\<lambda>m (k, v). andThen m (\<lambda>_ c. put k v c)) (Done () c) kvs = Done () c' \<and> aware c'"
proof (induction kvs rule: rev_induct)
  case (snoc kv kvs)
  then obtain c1 where c1:
    "foldl (\<lambda>m (k, v). andThen m (\<lambda>_ c. put k v c)) (Done () c) kvs = Done () c1" "aware c1"
    by blast
  obtain k v where "kv = (k, v)" by (cases kv)
  with c1 put_aware [OF c1(2), of k v] show ?case by auto
qed auto

end

lemma mapIndex_update: "mapIndex (AList.update k v m) k' = (if k' = k then v else mapIndex m k')"
  by (simp add: mapIndex_def update_conv)

interpretation ctx: tagged_store getValue setValue "\<lambda>c. c \<noteq> None" NilInterface
  by unfold_locales
    (auto simp: getValue_def setValue_def getRecordProxyDataAware_def mapIndex_update)

lemma setValue_aware [simp]: "setValue k v (Some m) = Done () (Some (AList.update k v m))"
  by (simp add: setValue_def getRecordProxyDataAware_def)

lemma getValue_update [simp]:
  "getValue (Some (AList.update k v m)) k' = (if k' = k then v else getValue (Some m) k')"
  by (simp add: getValue_def mapIndex_update)

lemma asError_errVal [simp]: "asError (errVal e) = e"
  by (cases e) (simp_all add: errVal_def)

text \<open>
  A connect error once recorded is not replaced by a later one of the TLS interception, and
  every other key is left alone.
\<close>

lemma SetConnectErrorIfNotExists_Some:
  "\<exists>m'. SetConnectErrorIfNotExists e (Some m) = Done () (Some m') \<and>
     (GetConnectError (Some m) \<noteq> None \<longrightarrow> m' = m) \<and>
     (\<forall>k. k \<noteq> KeyConnectErr \<longrightarrow> getValue (Some m') k = getValue (Some m) k)"
  by (auto simp: SetConnectErrorIfNotExists_def getRecordProxyDataAware_def
      GetConnectError_def mapIndex_update getValue_def)

section \<open>Types of the values\<close>

text \<open>
  \<open>hasType k v\<close>: the type assertion in the getter of the key \<open>k\<close> succeeds for \<open>v\<close>. A connect error that was set to nil is
  stored as the nil interface.
\<close>

fun hasType :: "ctxKey \<Rightarrow> ctxVal \<Rightarrow> bool" where
  "hasType KeyRCTX (RecordVal r) = True"
| "hasType KeyUrl (UriVal u) = True"
| "hasType KeyConnectErr (ErrorVal e) = True"
| "hasType KeyConnectErr NilInterface = True"
| "hasType KeyCollectionRef (RefVal r) = True"
| "hasType k (StringVal s) = (k \<in> {KeyHost, KeyPort, KeyRequestId, KeyCrawlExecutionId, KeyJobExecutionId, KeyIp})"
| "hasType k v = False"

definition ctxKeys :: "ctxKey list" where
  "ctxKeys = [KeyRCTX, KeyHost, KeyPort, KeyUrl, KeyConnectErr, KeyRequestId, KeyCrawlExecutionId, KeyJobExecutionId,
     KeyCollectionRef, KeyIp]"

lemma ctxKeys_all [simp]: "k \<in> set ctxKeys"
  by (cases k) (simp_all add: ctxKeys_def)

text \<open>A context that has the map, and in which every value has the type its getter asserts.\<close>

definition typedCtx :: "dataCtx \<Rightarrow> bool" where
  "typedCtx c \<longleftrightarrow> c \<noteq> None \<and>
     list_all (\<lambda>k. getValue c k = NilInterface \<or> hasType k (getValue c k)) ctxKeys"

lemma typedCtx_iff: "typedCtx c \<longleftrightarrow> c \<noteq> None \<and> (\<forall>k. getValue c k = NilInterface \<or> hasType k (getValue c k))"
  by (auto simp: typedCtx_def list_all_iff)

lemma typedCtx_put: "typedCtx (Some m) \<Longrightarrow> hasType k v \<Longrightarrow> typedCtx (Some (AList.update k v m))"
  by (auto simp: typedCtx_iff)

lemma hasType_errVal [simp]: "hasType KeyConnectErr (errVal e)"
  by (cases e) (simp_all add: errVal_def)

section \<open>Properties\<close>

text \<open>
  The context data behaves as one store per connection: after any sequence of writes to an
  aware context every key holds the value of the last write to it, or what it held before;
  the sequence cannot panic.
\<close>

theorem context_last_write_wins:
  assumes "c \<noteq> None"
  shows "\<exists>c'. foldl (\<lambda>m (k, v). andThen m (\<lambda>_ c. setValue k v c)) (Done () c) kvs = Done () c' \<and>
     (\<forall>k. getValue c' k = (case map_of (rev kvs) k of Some v \<Rightarrow> v | None \<Rightarrow> getValue c k))"
  using ctx.puts_return [OF assms] ctx.get_after_puts by blast

theorem context_last_write_wins_witness:
  "\<exists>c'. foldl (\<lambda>m (k, v). andThen m (\<lambda>_ c. setValue k v c)) (Done () (Some []))
      [(KeyIp, StringVal ''a''), (KeyHost, StringVal ''h''), (KeyIp, StringVal ''b'')] = Done () c' \<and>
     getValue c' KeyIp = StringVal ''b'' \<and> getValue c' KeyHost = StringVal ''h''"
  using context_last_write_wins [of "Some []"
      "[(KeyIp, StringVal ''a''), (KeyHost, StringVal ''h''), (KeyIp, StringVal ''b'')]"]
  by (fastforce split: option.splits)

end
