(* ===== verification/Proxy_State.thy ===== *)
theory Proxy_State
  imports Context_Data Sha1 Payload
begin

text \<open>
  The state the proxy keeps for one request: the record context (\<open>context/recordcontext.go\<close>) with
  its content writer and browser controller sessions, the messages of the three gRPC services
  (package veidemann-api), the traces of what was sent to them, and the environment: what
  those services, the clock and the third-party packages answer.
\<close>

section \<open>Constants (constants/constants.go)\<close>

definition HeaderAcceptEncoding :: string where "HeaderAcceptEncoding = ''Accept-Encoding''"
definition HeaderRequestId :: string where "HeaderRequestId = ''veidemann_reqid''"
definition HeaderCrawlExecutionId :: string where "HeaderCrawlExecutionId = ''veidemann_eid''"
definition HeaderJobExecutionId :: string where "HeaderJobExecutionId = ''veidemann_jeid''"
definition HeaderCollectionId :: string where "HeaderCollectionId = ''veidemann_cid''"
definition HeaderProxyErrorCode :: string where "HeaderProxyErrorCode = ''X-Recoderproxy-Err-Code''"
definition HeaderProxyError :: string where "HeaderProxyError = ''X-Recoderproxy-Err''"
definition RecordRequest :: string where "RecordRequest = ''request''"
definition RecordResponse :: string where "RecordResponse = ''response''"
definition RecordContentTypeRequest :: string where
  "RecordContentTypeRequest = ''application/http; msgtype=request''"
definition RecordContentTypeResponse :: string where
  "RecordContentTypeResponse = ''application/http; msgtype=response''"

section \<open>Messages of the content writer service\<close>

datatype recordType = RT_REQUEST | RT_RESPONSE | RT_REVISIT | RT_Other string

fun recordTypeString :: "recordType \<Rightarrow> string" where
  "recordTypeString RT_REQUEST = ''REQUEST''"
| "recordTypeString RT_RESPONSE = ''RESPONSE''"
| "recordTypeString RT_REVISIT = ''REVISIT''"
| "recordTypeString (RT_Other s) = s"

record recordMeta =
  rm_RecordNum :: int
  rm_Type :: recordType
  rm_RecordContentType :: string
  rm_Size :: int
  rm_BlockDigest :: string

record writeMeta =
  wm_RecordMeta :: "(int \<times> recordMeta) list"
  wm_TargetUri :: string
  wm_ExecutionId :: string
  wm_IpAddress :: string
  wm_CollectionRef :: "configRef option"
  wm_FetchTimeStamp :: int

datatype writeRequest = ReqProtocolHeader int bytes | ReqPayload int bytes
  | ReqMeta writeMeta | ReqCancel string

record replyMeta =
  rp_Type :: recordType
  rp_CollectionFinalName :: string
  rp_WarcId :: string
  rp_StorageRef :: string
  rp_RevisitReferenceId :: string
  rp_PayloadDigest :: string

text \<open>A reply whose \<open>Meta\<close> is nil is \<open>None\<close>.\<close>

type_synonym writeReply = "(int \<times> replyMeta) list option"

section \<open>Messages of the browser controller service\<close>

record crawlLog =
  cl_JobExecutionId :: string
  cl_ExecutionId :: string
  cl_FetchTimeStamp :: int
  cl_FetchTimeMs :: int
  cl_RequestedUri :: string
  cl_Method :: string
  cl_IpAddress :: string
  cl_StatusCode :: int
  cl_ContentType :: string
  cl_RecordType :: string
  cl_Error :: "commonsError option"
  cl_CollectionFinalName :: string
  cl_WarcId :: string
  cl_StorageRef :: string
  cl_WarcRefersTo :: string
  cl_Size :: int
  cl_BlockDigest :: string
  cl_PayloadDigest :: string

record registerNew =
  rn_ProxyId :: int
  rn_Method :: string
  rn_Uri :: string
  rn_RequestId :: string
  rn_CrawlExecutionId :: string
  rn_JobExecutionId :: string
  rn_CollectionRef :: "configRef option"

datatype activity = DATA_RECEIVED | ALL_DATA_RECEIVED

datatype doRequest = DoNew registerNew | DoNotify activity | DoCompleted crawlLog bool

record newReply =
  nr_JobExecutionId :: string
  nr_CrawlExecutionId :: string
  nr_CollectionRef :: "configRef option"
  nr_ReplacementScript :: "string option"

datatype doReply = ReplyNew newReply | ReplyCancel string | ReplyOther

text \<open>What \<open>Recv\<close> on the browser controller's stream returns.\<close>

datatype recvResult = RecvReply doReply | RecvEOF | RecvCanceled | RecvDeadlineExceeded
  | RecvUnavailable | RecvError string

section \<open>Sessions and the record context\<close>

text \<open>
  \<open>CwcSession\<close>. \<open>cw_Closed\<close>: \<open>CloseAndRecv\<close> was called on the stream; \<open>cw_CtxDone\<close>: \<open>ctxCancel\<close>
  was called, which is what \<open>WaitForCompleted\<close> waits for.
\<close>

record cwcSession =
  cw_done :: bool
  cw_canceled :: bool
  cw_Closed :: bool
  cw_CtxDone :: bool

record completeMsg =
  cm_cl :: crawlLog
  cm_err :: "go_error option"

text \<open>
  \<open>BccSession\<close> and the state of its two goroutines. The first goroutine waits in its \<open>select\<close>,
  is inside \<open>finish\<close>, or has returned. The second one waits in \<open>Recv\<close>, offers a message on the
  unbuffered \<open>msgChan\<close> (closing the channel afterwards or not), has returned with the channel
  closed, or waits for ever to send on \<open>completeChan\<close>. \<open>b_locked\<close> is the state of the mutex \<open>m\<close>;
  \<open>b_CtxDone\<close> says that \<open>bccCtx\<close> was canceled.
\<close>

datatype loopState = LoopSelect | LoopFinishing | LoopReturned

datatype recvState = Receiving | Offering "doReply option" bool | RecvReturned | RecvStuck

record bccSession =
  b_complete :: "completeMsg option"
  b_loop :: loopState
  b_recv :: recvState
  b_locked :: bool
  b_CtxDone :: bool

record recordContext =
  rc_session :: int
  rc_ProxyId :: int
  rc_Method :: string
  rc_Uri :: url
  rc_FetchTime :: int
  rc_cwc :: "cwcSession option"
  rc_bcc :: "bccSession option"
  rc_Error :: "go_error option"
  rc_Meta :: "writeMeta option"
  rc_CrawlLog :: crawlLog
  rc_ReplacementScript :: "string option"
  rc_FoundInCache :: bool
  rc_PrecludedByRobots :: bool
  rc_InitDone :: bool

text \<open>
  The state of one client connection while it serves a request. \<open>w_rc\<close> is the record context of
  that request (the object; whether the context data still points to it is \<open>GetRecordContext\<close>).
  \<open>w_cwWire\<close> and \<open>w_bcWire\<close> are the messages the two streams accepted, in order; \<open>w_bcIn\<close> is
  what the browser controller has still to send; \<open>w_connectWire\<close> are the registrations of
  CONNECT requests, each sent on a stream of its own. \<open>w_tick\<close> counts the calls that left the
  program, so that the environment may answer every call differently. \<open>w_sess\<close> and
  \<open>w_closedSess\<close> are the global counters of \<open>recordcontext.go\<close>.
\<close>

record world =
  w_tick :: nat
  w_data :: dataCtx
  w_rc :: recordContext
  w_cwWire :: "writeRequest list"
  w_bcWire :: "doRequest list"
  w_bcIn :: "recvResult list"
  w_connectWire :: "doRequest list"
  w_sess :: int
  w_closedSess :: int

section \<open>The environment\<close>

record resolveRequest =
  rr_ExecutionId :: string
  rr_CollectionRef :: "configRef option"
  rr_Host :: string
  rr_Port :: int

text \<open>
  Answers of code outside the repository. Each takes the number of the call. The content writer
  stream also knows whether it was closed and what it got before. \<open>e_fail\<close> and
  \<open>e_shortCircuit\<close> are \<open>Fail\<close> and \<open>ShortCircuit\<close> of getlantern's \<open>filters\<close> (the response with its
  body, and the error), \<open>e_statusMessage\<close> is \<open>status.Convert(err).Message()\<close> of gRPC, and
  \<open>e_toASCII\<close> is \<open>idna.Lookup.ToASCII\<close>.
\<close>

record env =
  e_cwOpen :: "nat \<Rightarrow> go_error option"
  e_cwSend :: "nat \<Rightarrow> bool \<Rightarrow> writeRequest \<Rightarrow> go_error option"
  e_cwClose :: "nat \<Rightarrow> writeRequest list \<Rightarrow> go_error + writeReply"
  e_bcOpen :: "nat \<Rightarrow> go_error option"
  e_bcSend :: "nat \<Rightarrow> doRequest \<Rightarrow> go_error option"
  e_bcCloseSend :: "nat \<Rightarrow> go_error option"
  e_dns :: "nat \<Rightarrow> resolveRequest \<Rightarrow> go_error + string"
  e_now :: "nat \<Rightarrow> int"
  e_fail :: "int \<Rightarrow> go_error \<Rightarrow> (http_response \<times> reader) \<times> go_error option"
  e_shortCircuit :: "http_response \<Rightarrow> (http_response \<times> reader) \<times> go_error option"
  e_statusMessage :: "go_error \<Rightarrow> string"
  e_toASCII :: "string \<Rightarrow> go_error + string"

section \<open>Access to the parts of the state\<close>

definition tick :: "world \<Rightarrow> world" where
  "tick w = w\<lparr>w_tick := Suc (w_tick w)\<rparr>"

definition setCwc :: "cwcSession \<Rightarrow> world \<Rightarrow> world" where
  "setCwc c = w_rc_update (rc_cwc_update (\<lambda>_. Some c))"

definition setBcc :: "bccSession \<Rightarrow> world \<Rightarrow> world" where
  "setBcc b = w_rc_update (rc_bcc_update (\<lambda>_. Some b))"

definition updLog :: "(crawlLog \<Rightarrow> crawlLog) \<Rightarrow> world \<Rightarrow> world" where
  "updLog f = w_rc_update (rc_CrawlLog_update f)"

text \<open>An operation on the context data, run on the whole state.\<close>

definition onData :: "(dataCtx \<Rightarrow> (unit, dataCtx) run) \<Rightarrow> world \<Rightarrow> (unit, world) run" where
  "onData f w = (case f (w_data w) of
     Done u d \<Rightarrow> Done () (w\<lparr>w_data := d\<rparr>)
   | Panics d \<Rightarrow> Panics (w\<lparr>w_data := d\<rparr>)
   | Blocks d \<Rightarrow> Blocks (w\<lparr>w_data := d\<rparr>))"

text \<open>\<open>OpenSessions\<close>, \<open>NewRecordContext\<close> and \<open>Init\<close> of \<open>recordcontext.go\<close>.\<close>

definition OpenSessions :: "world \<Rightarrow> int" where
  "OpenSessions w = w_sess w - w_closedSess w"

definition emptyCrawlLog :: crawlLog where
  "emptyCrawlLog = \<lparr>cl_JobExecutionId = [], cl_ExecutionId = [], cl_FetchTimeStamp = 0,
     cl_FetchTimeMs = 0, cl_RequestedUri = [], cl_Method = [], cl_IpAddress = [],
     cl_StatusCode = 0, cl_ContentType = [], cl_RecordType = [], cl_Error = None,
     cl_CollectionFinalName = [], cl_WarcId = [], cl_StorageRef = [], cl_WarcRefersTo = [],
     cl_Size = 0, cl_BlockDigest = [], cl_PayloadDigest = []\<rparr>"

definition emptyUrl :: url where
  "emptyUrl = \<lparr>u_Scheme = [], u_Opaque = [], u_User = None, u_Host = [], u_EscPath = [],
     u_ForceQuery = False, u_RawQuery = [], u_Fragment = []\<rparr>"

definition blankRecordContext :: "int \<Rightarrow> recordContext" where
  "blankRecordContext n = \<lparr>rc_session = n, rc_ProxyId = 0, rc_Method = [], rc_Uri = emptyUrl,
     rc_FetchTime = 0, rc_cwc = None, rc_bcc = None, rc_Error = None, rc_Meta = None,
     rc_CrawlLog = emptyCrawlLog, rc_ReplacementScript = None, rc_FoundInCache = False,
     rc_PrecludedByRobots = False, rc_InitDone = False\<rparr>"

text \<open>
  A new record context starts with no sessions, so the traces and the incoming messages are those
  of the streams it will open: \<open>incoming\<close> is what its browser controller stream will receive.
\<close>

definition NewRecordContext :: "recvResult list \<Rightarrow> world \<Rightarrow> world" where
  "NewRecordContext incoming w =
     w\<lparr>w_sess := w_sess w + 1, w_rc := blankRecordContext (w_sess w + 1),
       w_cwWire := [], w_bcWire := [], w_bcIn := incoming\<rparr>"

definition resolveIdsFromHttpHeader :: "http_request \<Rightarrow> world \<Rightarrow> (unit, world) run" where
  "resolveIdsFromHttpHeader req w =
     (let jid = headerGet (rq_Header req) HeaderJobExecutionId;
          eid = headerGet (rq_Header req) HeaderCrawlExecutionId;
          reqid = headerGet (rq_Header req) HeaderRequestId
      in andThen (onData (SetJobExecutionId jid) w) (\<lambda>_ w.
         andThen (onData (SetCrawlExecutionId eid) w) (\<lambda>_ w.
         andThen (onData (SetRequestId reqid) w) (\<lambda>_ w.
           if headerGet (rq_Header req) HeaderCollectionId \<noteq> [] then
             onData (SetCollectionRef (Some \<lparr>cfgKind = ''collection'',
               cfgId = headerGet (rq_Header req) HeaderCollectionId\<rparr>)) w
           else Done () w))))"

definition stripIdHeaders :: "http_request \<Rightarrow> http_request" where
  "stripIdHeaders req = req\<lparr>rq_Header :=
     headerDel (headerDel (headerDel (headerDel (rq_Header req) HeaderRequestId)
       HeaderCrawlExecutionId) HeaderJobExecutionId) HeaderCollectionId\<rparr>"

definition rcInit :: "env \<Rightarrow> int \<Rightarrow> http_request \<Rightarrow> url \<Rightarrow> world \<Rightarrow> (http_request, world) run" where
  "rcInit E proxyId req uri w =
     (let w = w\<lparr>w_rc := (w_rc w)\<lparr>rc_ProxyId := proxyId, rc_Method := rq_Method req, rc_Uri := uri\<rparr>\<rparr>
      in andThen (resolveIdsFromHttpHeader req w) (\<lambda>_ w.
        let now = e_now E (w_tick w);
            log = emptyCrawlLog\<lparr>cl_JobExecutionId := GetJobExecutionId (w_data w),
              cl_ExecutionId := GetCrawlExecutionId (w_data w), cl_FetchTimeStamp := now,
              cl_RequestedUri := urlString uri, cl_Method := rc_Method (w_rc w),
              cl_IpAddress := GetIp (w_data w)\<rparr>
        in Done (stripIdHeaders req) (tick (w\<lparr>w_rc := (w_rc w)\<lparr>rc_FetchTime := now,
             rc_CrawlLog := log, rc_InitDone := True\<rparr>\<rparr>))))"

text \<open>The fields the access functions do not touch.\<close>

lemma tick_simps [simp]:
  "w_data (tick w) = w_data w" "w_rc (tick w) = w_rc w" "w_cwWire (tick w) = w_cwWire w"
  "w_bcWire (tick w) = w_bcWire w" "w_bcIn (tick w) = w_bcIn w" "w_sess (tick w) = w_sess w"
  "w_closedSess (tick w) = w_closedSess w" "w_tick (tick w) = Suc (w_tick w)"
  by (simp_all add: tick_def)

lemma setCwc_simps [simp]:
  "rc_cwc (w_rc (setCwc c w)) = Some c" "w_data (setCwc c w) = w_data w"
  "w_cwWire (setCwc c w) = w_cwWire w" "w_bcWire (setCwc c w) = w_bcWire w"
  "w_bcIn (setCwc c w) = w_bcIn w" "w_sess (setCwc c w) = w_sess w"
  "w_closedSess (setCwc c w) = w_closedSess w" "rc_bcc (w_rc (setCwc c w)) = rc_bcc (w_rc w)"
  "rc_CrawlLog (w_rc (setCwc c w)) = rc_CrawlLog (w_rc w)"
  "rc_Meta (w_rc (setCwc c w)) = rc_Meta (w_rc w)"
  "rc_session (w_rc (setCwc c w)) = rc_session (w_rc w)"
  "rc_FoundInCache (w_rc (setCwc c w)) = rc_FoundInCache (w_rc w)"
  "rc_ReplacementScript (w_rc (setCwc c w)) = rc_ReplacementScript (w_rc w)"
  "rc_Error (w_rc (setCwc c w)) = rc_Error (w_rc w)"
  "w_tick (setCwc c w) = w_tick w"
  by (simp_all add: setCwc_def)

lemma setBcc_simps [simp]:
  "rc_bcc (w_rc (setBcc b w)) = Some b" "w_data (setBcc b w) = w_data w"
  "w_cwWire (setBcc b w) = w_cwWire w" "w_bcWire (setBcc b w) = w_bcWire w"
  "w_bcIn (setBcc b w) = w_bcIn w" "w_sess (setBcc b w) = w_sess w"
  "w_closedSess (setBcc b w) = w_closedSess w" "rc_cwc (w_rc (setBcc b w)) = rc_cwc (w_rc w)"
  "rc_CrawlLog (w_rc (setBcc b w)) = rc_CrawlLog (w_rc w)"
  "rc_Meta (w_rc (setBcc b w)) = rc_Meta (w_rc w)"
  "rc_session (w_rc (setBcc b w)) = rc_session (w_rc w)"
  "rc_FoundInCache (w_rc (setBcc b w)) = rc_FoundInCache (w_rc w)"
  "rc_ReplacementScript (w_rc (setBcc b w)) = rc_ReplacementScript (w_rc w)"
  "rc_Error (w_rc (setBcc b w)) = rc_Error (w_rc w)"
  "w_tick (setBcc b w) = w_tick w"
  by (simp_all add: setBcc_def)

lemma updLog_simps [simp]:
  "rc_CrawlLog (w_rc (updLog f w)) = f (rc_CrawlLog (w_rc w))" "w_data (updLog f w) = w_data w"
  "w_cwWire (updLog f w) = w_cwWire w" "w_bcWire (updLog f w) = w_bcWire w"
  "w_bcIn (updLog f w) = w_bcIn w" "w_sess (updLog f w) = w_sess w"
  "w_closedSess (updLog f w) = w_closedSess w" "rc_cwc (w_rc (updLog f w)) = rc_cwc (w_rc w)"
  "rc_bcc (w_rc (updLog f w)) = rc_bcc (w_rc w)" "rc_Meta (w_rc (updLog f w)) = rc_Meta (w_rc w)"
  "rc_session (w_rc (updLog f w)) = rc_session (w_rc w)"
  "rc_FoundInCache (w_rc (updLog f w)) = rc_FoundInCache (w_rc w)"
  "rc_ReplacementScript (w_rc (updLog f w)) = rc_ReplacementScript (w_rc w)"
  "rc_Error (w_rc (updLog f w)) = rc_Error (w_rc w)"
  "w_tick (updLog f w) = w_tick w"
  by (simp_all add: updLog_def)

section \<open>A concrete environment\<close>

text \<open>
  An environment in which every call succeeds, except a send on a closed stream, and a
  connection at its first request; witnesses evaluate the operations there.
\<close>

definition plainResponse :: "int \<Rightarrow> http_response" where
  "plainResponse status = \<lparr>rs_Status = [], rs_StatusCode = status, rs_ProtoMajor = 1, rs_ProtoMinor = 1,
     rs_Header = [], rs_ContentLength = 0\<rparr>"

definition plainReply :: replyMeta where
  "plainReply = \<lparr>rp_Type = RT_RESPONSE, rp_CollectionFinalName = [], rp_WarcId = [], rp_StorageRef = [],
     rp_RevisitReferenceId = [], rp_PayloadDigest = []\<rparr>"

definition okEnv :: env where
  "okEnv = \<lparr>e_cwOpen = (\<lambda>t. None),
     e_cwSend = (\<lambda>t closed r. if closed then Some (ErrorString ''EOF'') else None),
     e_cwClose = (\<lambda>t sent. Inr (Some [(1, plainReply)])), e_bcOpen = (\<lambda>t. None), e_bcSend = (\<lambda>t r. None),
     e_bcCloseSend = (\<lambda>t. None), e_dns = (\<lambda>t r. Inr ''10.0.0.1''), e_now = (\<lambda>t. int t),
     e_fail = (\<lambda>status e. ((plainResponse status, []), Some e)),
     e_shortCircuit = (\<lambda>resp. ((resp, []), None)), e_statusMessage = errText, e_toASCII = Inr\<rparr>"

definition startWorld :: "recvResult list \<Rightarrow> world" where
  "startWorld incoming = \<lparr>w_tick = 0, w_data = Some [(KeyRCTX, RecordVal (Some 1))],
     w_rc = blankRecordContext 1, w_cwWire = [], w_bcWire = [], w_bcIn = incoming,
     w_connectWire = [], w_sess = 1, w_closedSess = 0\<rparr>"

end
