(* ===== verification/Content_Writer.thy ===== *)
theory Content_Writer
  imports Proxy_State
begin

text \<open>
  \<open>context/contentwriter_client.go\<close>: the session with the content writer, a client stream that
  carries protocol headers and payloads and is ended by one meta or one cancel message.
  Log and tracing calls are left out, except where their receiver is nil: after a failed
  \<open>getCwcSession\<close> the callers read \<open>cwc.span\<close> of a nil session, which panics.
\<close>

section \<open>Calls on the stream\<close>

definition cwStreamClosed :: "world \<Rightarrow> bool" where
  "cwStreamClosed w \<longleftrightarrow> (case rc_cwc (w_rc w) of Some c \<Rightarrow> cw_Closed c | None \<Rightarrow> False)"

definition cwSend :: "env \<Rightarrow> writeRequest \<Rightarrow> world \<Rightarrow> go_error option \<times> world" where
  "cwSend E r w = (case e_cwSend E (w_tick w) (cwStreamClosed w) r of
     Some e \<Rightarrow> (Some e, tick w)
   | None \<Rightarrow> (None, tick (w\<lparr>w_cwWire := w_cwWire w @ [r]\<rparr>)))"

definition updCwc :: "(cwcSession \<Rightarrow> cwcSession) \<Rightarrow> world \<Rightarrow> world" where
  "updCwc f w = (case rc_cwc (w_rc w) of Some c \<Rightarrow> setCwc (f c) w | None \<Rightarrow> w)"

definition cwCloseAndRecv :: "env \<Rightarrow> world \<Rightarrow> (go_error + writeReply) \<times> world" where
  "cwCloseAndRecv E w =
     (e_cwClose E (w_tick w) (w_cwWire w), updCwc (cw_Closed_update (\<lambda>_. True)) (tick w))"

definition cwCtxCancel :: "world \<Rightarrow> world" where
  "cwCtxCancel = updCwc (cw_CtxDone_update (\<lambda>_. True))"

section \<open>Operations\<close>

definition newCwcSession :: cwcSession where
  "newCwcSession = \<lparr>cw_done = False, cw_canceled = False, cw_Closed = False, cw_CtxDone = False\<rparr>"

text \<open>Returns the error; without one the session is the one in the record context.\<close>

definition getCwcSession :: "env \<Rightarrow> world \<Rightarrow> (go_error option, world) run" where
  "getCwcSession E w = (case rc_cwc (w_rc w) of
     Some c \<Rightarrow> Done None w
   | None \<Rightarrow> (case e_cwOpen E (w_tick w) of
       Some err \<Rightarrow> Done (WrapInternalError (Some err) RuntimeException
                      ''Error connecting to ContentWriter'' (errText err)) (tick w)
     | None \<Rightarrow> Done None (setCwc newCwcSession (tick w))))"

text \<open>The goroutine of a session, when the client's context is done.\<close>

definition cwcClientGone :: "env \<Rightarrow> world \<Rightarrow> world" where
  "cwcClientGone E w = (case rc_cwc (w_rc w) of
     None \<Rightarrow> w
   | Some c \<Rightarrow>
      (let w = (if cw_done c then w
         else (let w = setCwc (c\<lparr>cw_done := True\<rparr>) w;
                   (err, w) = cwSend E (ReqCancel ''Veidemann recorder proxy lost connection to client'') w;
                   (reply, w) = cwCloseAndRecv E w
               in w))
       in cwCtxCancel w))"

definition CancelContentWriter :: "env \<Rightarrow> string \<Rightarrow> world \<Rightarrow> (go_error option, world) run" where
  "CancelContentWriter E msg w =
     (if rc_cwc (w_rc w) = None then Done None w
      else andThen (getCwcSession E w) (\<lambda>err w.
        case rc_cwc (w_rc w) of
          None \<Rightarrow> Panics w
        | Some c \<Rightarrow>
            (let w = setCwc (c\<lparr>cw_canceled := True\<rparr>) w
             in if err \<noteq> None then Done err w
                else if cw_done c then Done None w
                else (let w = updCwc (cw_done_update (\<lambda>_. True)) w;
                          (err, w) = cwSend E (ReqCancel msg) w;
                          (reply, w) = cwCloseAndRecv E w
                      in Done err (cwCtxCancel w)))))"

text \<open>\<open>SendProtocolHeader\<close> and \<open>SendPayload\<close> differ in the message they send.\<close>

definition sendOnSession :: "env \<Rightarrow> writeRequest \<Rightarrow> world \<Rightarrow> (go_error option, world) run" where
  "sendOnSession E r w = andThen (getCwcSession E w) (\<lambda>err w.
     case rc_cwc (w_rc w) of
       None \<Rightarrow> Panics w
     | Some c \<Rightarrow>
         if err \<noteq> None then Done err w
         else if cw_canceled c then Done None w
         else (case cwSend E r w of (err, w) \<Rightarrow> Done err w))"

definition SendProtocolHeader :: "env \<Rightarrow> int \<Rightarrow> bytes \<Rightarrow> world \<Rightarrow> (go_error option, world) run" where
  "SendProtocolHeader E recNum p = sendOnSession E (ReqProtocolHeader recNum p)"

definition SendPayload :: "env \<Rightarrow> int \<Rightarrow> bytes \<Rightarrow> world \<Rightarrow> (go_error option, world) run" where
  "SendPayload E recNum p = sendOnSession E (ReqPayload recNum p)"

text \<open>
  \<open>SendMeta\<close> returns the reply and the error; \<open>Inr None\<close> is the result \<open>nil, nil\<close> of a canceled
  or finished session. The context of the session is canceled on every way out, also when
  \<open>rc.Meta\<close> is nil.
\<close>

definition sendMetaStep ::
    "env \<Rightarrow> go_error option \<Rightarrow> world \<Rightarrow> (go_error + writeReply option, world) run" where
  "sendMetaStep E err w = (case rc_cwc (w_rc w) of
     None \<Rightarrow> Panics w
   | Some c \<Rightarrow>
       (case err of Some e \<Rightarrow> Done (Inl e) w
        | None \<Rightarrow>
          if cw_canceled c \<or> cw_done c then Done (Inr None) w
          else (let w = setCwc (c\<lparr>cw_done := True\<rparr>) w
            in case rc_Meta (w_rc w) of
                 None \<Rightarrow> Panics (cwCtxCancel w)
               | Some m \<Rightarrow>
                  (case cwSend E (ReqMeta m) w of
                     (Some e, w) \<Rightarrow> Done (Inl e) (cwCtxCancel w)
                   | (None, w) \<Rightarrow>
                      (case cwCloseAndRecv E w of
                         (Inl e, w) \<Rightarrow> Done (Inl e) (cwCtxCancel w)
                       | (Inr r, w) \<Rightarrow> Done (Inr (Some r)) (cwCtxCancel w))))))"

definition SendMeta :: "env \<Rightarrow> world \<Rightarrow> (go_error + writeReply option, world) run" where
  "SendMeta E w = andThen (getCwcSession E w) (sendMetaStep E)"

section \<open>The stream invariant\<close>

definition terminalMsg :: "writeRequest \<Rightarrow> bool" where
  "terminalMsg r \<longleftrightarrow> (case r of ReqMeta m \<Rightarrow> True | ReqCancel s \<Rightarrow> True | _ \<Rightarrow> False)"

lemma terminalMsg_simps [simp]:
  "terminalMsg (ReqMeta m)" "terminalMsg (ReqCancel s)"
  "\<not> terminalMsg (ReqProtocolHeader n p)" "\<not> terminalMsg (ReqPayload n p)"
  by (simp_all add: terminalMsg_def)

text \<open>
  A terminal message is the last one, and the stream is closed once there is one; a closed
  session is done; without a session nothing was sent.
\<close>

definition cwInv :: "world \<Rightarrow> bool" where
  "cwInv w \<longleftrightarrow> (case rc_cwc (w_rc w) of
     None \<Rightarrow> w_cwWire w = []
   | Some c \<Rightarrow> (cw_Closed c \<longrightarrow> cw_done c) \<and>
       (\<forall>r \<in> set (butlast (w_cwWire w)). \<not> terminalMsg r) \<and>
       (w_cwWire w \<noteq> [] \<and> terminalMsg (last (w_cwWire w)) \<longrightarrow> cw_Closed c))"

text \<open>Documented behaviour of a gRPC stream: a send after \<open>CloseSend\<close> is an error.\<close>

definition closedStreamRejects :: "env \<Rightarrow> bool" where
  "closedStreamRejects E \<longleftrightarrow> (\<forall>t r. e_cwSend E t True r \<noteq> None)"

text \<open>What all operations on the session keep of the rest of the state.\<close>

definition cwFrame :: "world \<Rightarrow> world \<Rightarrow> bool" where
  "cwFrame w w' \<longleftrightarrow> w_data w' = w_data w \<and> w_bcWire w' = w_bcWire w \<and> w_bcIn w' = w_bcIn w \<and>
     w_sess w' = w_sess w \<and> w_closedSess w' = w_closedSess w \<and>
     (w_rc w')\<lparr>rc_cwc := None\<rparr> = (w_rc w)\<lparr>rc_cwc := None\<rparr> \<and> (rc_cwc (w_rc w) \<noteq> None \<longrightarrow> rc_cwc (w_rc w') \<noteq> None)"

lemma cwFrame_refl: "cwFrame w w"
  by (simp add: cwFrame_def)

lemma cwFrame_trans: "cwFrame a b \<Longrightarrow> cwFrame b c \<Longrightarrow> cwFrame a c"
  by (simp add: cwFrame_def)

interpretation cwf: state_relation cwFrame
  by unfold_locales (fact cwFrame_refl, fact cwFrame_trans)

lemma cwFrame_basic:
  "cwFrame w (tick w)" "cwFrame w (setCwc c w)" "cwFrame w (updCwc f w)"
  "cwFrame w (snd (cwSend E r w))" "cwFrame w (snd (cwCloseAndRecv E w))" "cwFrame w (cwCtxCancel w)"
  by (auto simp: cwFrame_def tick_def setCwc_def updCwc_def cwSend_def cwCloseAndRecv_def
      cwCtxCancel_def split: option.splits)

text \<open>Between the terminal message and the close of the stream.\<close>

definition cwPending :: "world \<Rightarrow> bool" where
  "cwPending w \<longleftrightarrow> (case rc_cwc (w_rc w) of None \<Rightarrow> False
     | Some c \<Rightarrow> cw_done c \<and> (\<forall>r \<in> set (butlast (w_cwWire w)). \<not> terminalMsg r))"

lemma cwInv_tick [simp]: "cwInv (tick w) = cwInv w"
  by (simp add: cwInv_def split: option.split)

lemma cwPending_tick [simp]: "cwPending (tick w) = cwPending w"
  by (simp add: cwPending_def split: option.split)

lemma cwInv_pending: "cwInv w \<Longrightarrow> rc_cwc (w_rc w) = Some c \<Longrightarrow> cw_done c \<Longrightarrow> cwPending w"
  by (simp add: cwInv_def cwPending_def)

lemma getCwcSession_cwInv: "cwInv w \<Longrightarrow> cwInv (endState (getCwcSession E w))"
  by (auto simp: getCwcSession_def cwInv_def newCwcSession_def split: option.splits)

lemma getCwcSession_Done: "\<exists>err w'. getCwcSession E w = Done err w' \<and> (rc_cwc (w_rc w') = None \<longleftrightarrow> err \<noteq> None)"
  by (auto simp: getCwcSession_def split: option.splits)

lemma open_no_terminal:
  assumes "cwInv w" "rc_cwc (w_rc w) = Some c" "\<not> cw_Closed c"
  shows "\<forall>x \<in> set (w_cwWire w). \<not> terminalMsg x"
  using assms by (cases "w_cwWire w" rule: rev_cases) (auto simp: cwInv_def)

lemma cwSend_closed:
  assumes "closedStreamRejects E" "rc_cwc (w_rc w) = Some c" "cw_Closed c"
  shows "\<exists>e. cwSend E r w = (Some e, tick w)"
  using assms by (auto simp: cwSend_def cwStreamClosed_def closedStreamRejects_def split: option.splits)

lemma cwSend_result:
  "(\<exists>e. cwSend E r w = (Some e, tick w)) \<or>
   cwSend E r w = (None, tick (w\<lparr>w_cwWire := w_cwWire w @ [r]\<rparr>))"
  by (simp add: cwSend_def split: option.splits)

lemma cwSend_cwInv:
  assumes "closedStreamRejects E" "cwInv w" "rc_cwc (w_rc w) = Some c" "\<not> terminalMsg r"
  shows "cwInv (snd (cwSend E r w))"
proof (cases "cw_Closed c")
  case True
  then obtain e where "cwSend E r w = (Some e, tick w)" using cwSend_closed [OF assms(1,3)] by blast
  then show ?thesis using assms(2) by simp
next
  case False
  then show ?thesis using open_no_terminal [OF assms(2,3)] cwSend_result [of E r w] assms(2-4)
    by (auto simp: cwInv_def)
qed

lemma cwSend_pending:
  assumes "closedStreamRejects E" "cwInv w" "rc_cwc (w_rc w) = Some c" "cw_done c"
  shows "cwPending (snd (cwSend E r w))"
proof (cases "cw_Closed c")
  case True
  then obtain e where "cwSend E r w = (Some e, tick w)" using cwSend_closed [OF assms(1,3)] by blast
  then show ?thesis using cwInv_pending [OF assms(2-4)] by simp
next
  case False
  then show ?thesis using open_no_terminal [OF assms(2,3)] cwSend_result [of E r w] assms(2-4)
    by (auto simp: cwInv_def cwPending_def)
qed

lemma cwClose_cwInv: "cwPending w \<Longrightarrow> cwInv (snd (cwCloseAndRecv E w))"
  by (auto simp: cwPending_def cwInv_def cwCloseAndRecv_def updCwc_def split: option.splits)

lemma updCwc_cwInv:
  assumes "cwInv w" "\<And>c. cw_done c \<Longrightarrow> cw_done (f c)" "\<And>c. cw_Closed (f c) = cw_Closed c"
  shows "cwInv (updCwc f w)"
  using assms by (auto simp: cwInv_def updCwc_def split: option.splits)

lemma cwCtxCancel_cwInv: "cwInv w \<Longrightarrow> cwInv (cwCtxCancel w)"
  by (simp add: cwCtxCancel_def updCwc_cwInv)

lemma updCwc_Some: "rc_cwc (w_rc w) = Some c \<Longrightarrow> updCwc f w = setCwc (f c) w"
  by (simp add: updCwc_def)

lemma setCwc_cwInv:
  assumes "cwInv w" "rc_cwc (w_rc w) = Some c"
  shows "cwInv (setCwc (c\<lparr>cw_done := True\<rparr>) w)" "cwInv (setCwc (c\<lparr>cw_canceled := b\<rparr>) w)"
  using assms by (auto simp: cwInv_def)

lemma endStream_cwInv:
  assumes "closedStreamRejects E" "cwInv w" "rc_cwc (w_rc w) = Some c" "cw_done c"
    "cwSend E r w = (err, w1)" "cwCloseAndRecv E w1 = (reply, w2)"
  shows "cwInv (cwCtxCancel w2)"
  using cwSend_pending [OF assms(1-4), of r] cwClose_cwInv [of w1 E] assms(5,6)
  by (simp add: cwCtxCancel_cwInv)

lemma sendOnSession_cwInv:
  assumes "closedStreamRejects E" "cwInv w" "\<not> terminalMsg r"
  shows "cwInv (endState (sendOnSession E r w))"
proof -
  obtain err w1 where g: "getCwcSession E w = Done err w1" using getCwcSession_Done by blast
  then have "cwInv w1" using getCwcSession_cwInv [OF assms(2), of E] by simp
  then show ?thesis using cwSend_cwInv [OF assms(1) _ _ assms(3), of w1] g
    by (auto simp: sendOnSession_def split: option.split prod.split)
qed

lemma SendMeta_cwInv:
  assumes "closedStreamRejects E" "cwInv w"
  shows "cwInv (endState (SendMeta E w))"
proof -
  obtain err w1 where g: "getCwcSession E w = Done err w1" using getCwcSession_Done by blast
  then have inv: "cwInv w1" using getCwcSession_cwInv [OF assms(2), of E] by simp
  show ?thesis
  proof (cases "rc_cwc (w_rc w1)")
    case None
    then show ?thesis using g inv by (simp add: SendMeta_def sendMetaStep_def)
  next
    case (Some c)
    let ?w = "setCwc (c\<lparr>cw_done := True\<rparr>) w1"
    have inv2: "cwInv ?w" using setCwc_cwInv(1) [OF inv Some] .
    have c: "rc_cwc (w_rc ?w) = Some (c\<lparr>cw_done := True\<rparr>)" "cw_done (c\<lparr>cw_done := True\<rparr>)" by simp_all
    have fin: "cwInv (cwCtxCancel w3)"
      if "cwSend E r ?w = (e, w2)" "cwCloseAndRecv E w2 = (rep, w3)" for r e w2 rep w3
      by (rule endStream_cwInv [OF assms(1) inv2 c that])
    have failed: "cwInv (cwCtxCancel w2)" if "cwSend E r ?w = (Some e, w2)" for r e w2
      using cwSend_result [of E r ?w] that inv2 by (auto simp: cwCtxCancel_cwInv)
    show ?thesis using g Some inv inv2 fin failed
      by (auto simp: SendMeta_def sendMetaStep_def Let_def cwCtxCancel_cwInv split: option.split prod.split sum.split)
  qed
qed

lemma CancelContentWriter_cwInv:
  assumes "closedStreamRejects E" "cwInv w"
  shows "cwInv (endState (CancelContentWriter E msg w))"
proof (cases "rc_cwc (w_rc w)")
  case None
  then show ?thesis using assms by (simp add: CancelContentWriter_def)
next
  case (Some c)
  let ?w = "setCwc (c\<lparr>cw_canceled := True\<rparr>) w"
  have inv: "cwInv ?w" by (rule setCwc_cwInv(2) [OF assms(2) Some])
  have inv2: "cwInv (setCwc (c\<lparr>cw_canceled := True, cw_done := True\<rparr>) ?w)"
    using setCwc_cwInv(1) [OF inv] by simp
  have c: "rc_cwc (w_rc (setCwc (c\<lparr>cw_canceled := True, cw_done := True\<rparr>) ?w)) = Some (c\<lparr>cw_canceled := True, cw_done := True\<rparr>)"
    "cw_done (c\<lparr>cw_canceled := True, cw_done := True\<rparr>)" by simp_all
  show ?thesis using Some inv endStream_cwInv [OF assms(1) inv2 c]
    by (auto simp: CancelContentWriter_def getCwcSession_def Let_def updCwc_Some
        split: option.split prod.split)
qed

lemma cwcClientGone_cwInv:
  assumes "closedStreamRejects E" "cwInv w"
  shows "cwInv (cwcClientGone E w)"
proof (cases "rc_cwc (w_rc w)")
  case None
  then show ?thesis using assms by (simp add: cwcClientGone_def)
next
  case (Some c)
  have inv: "cwInv (setCwc (c\<lparr>cw_done := True\<rparr>) w)"
    by (rule setCwc_cwInv(1) [OF assms(2) Some])
  show ?thesis using Some assms(2) endStream_cwInv [OF assms(1) inv]
    by (auto simp: cwcClientGone_def Let_def cwCtxCancel_cwInv split: prod.split)
qed

section \<open>Frames\<close>

lemma getCwcSession_frame: "cwFrame w (endState (getCwcSession E w))"
  by (auto simp: getCwcSession_def cwFrame_def tick_def setCwc_def split: option.split)

lemma cwSend_frame: "cwSend E r w = (e, w') \<Longrightarrow> cwFrame w w'"
  using cwFrame_basic(4) [of w E r] by simp

lemma cwClose_frame: "cwCloseAndRecv E w = (e, w') \<Longrightarrow> cwFrame w w'"
  using cwFrame_basic(5) [of w E] by simp

lemma sendOnSession_frame: "cwFrame w (endState (sendOnSession E r w))"
  unfolding sendOnSession_def
  by (rule cwf.end_andThen [OF getCwcSession_frame])
    (auto simp: cwFrame_refl dest: cwSend_frame split: option.split prod.split)

lemma cwFrame_step:
  "cwFrame w w1 \<Longrightarrow> cwFrame w (cwCtxCancel w1)"
  "cwFrame w w1 \<Longrightarrow> cwSend E r w1 = (e, w2) \<Longrightarrow> cwFrame w w2"
  "cwFrame w w1 \<Longrightarrow> cwCloseAndRecv E w1 = (rep, w2) \<Longrightarrow> cwFrame w w2"
  by (meson cwFrame_basic(6) cwFrame_trans) (meson cwFrame_trans cwSend_frame, meson cwFrame_trans cwClose_frame)

lemma SendMeta_frame: "cwFrame w (endState (SendMeta E w))"
  unfolding SendMeta_def
proof (rule cwf.end_andThen [OF getCwcSession_frame])
  fix err w1
  have set1: "cwFrame w1 (setCwc c w1)" for c by (rule cwFrame_basic(2))
  show "cwFrame w1 (endState (sendMetaStep E err w1))"
    by (auto simp: sendMetaStep_def cwFrame_refl Let_def split: option.split prod.split sum.split
        intro: cwFrame_step(1) [OF set1] cwFrame_step(1) [OF cwFrame_step(2) [OF set1]]
          cwFrame_step(1) [OF cwFrame_step(3) [OF cwFrame_step(2) [OF set1]]])
qed

lemma CancelContentWriter_frame: "cwFrame w (endState (CancelContentWriter E msg w))"
proof (cases "rc_cwc (w_rc w)")
  case None
  then show ?thesis by (simp add: CancelContentWriter_def cwFrame_refl)
next
  case (Some c)
  have set1: "cwFrame w (setCwc c (setCwc d w))" for c d
    by (meson cwFrame_basic(2) cwFrame_trans)
  show ?thesis
    by (auto simp: CancelContentWriter_def getCwcSession_def Some Let_def cwFrame_basic(2) updCwc_Some
        split: prod.split
        intro: cwFrame_step(1) [OF cwFrame_step(3) [OF cwFrame_step(2) [OF set1]]])
qed

lemma CancelContentWriter_returns:
  "\<exists>e w'. CancelContentWriter E msg w = Done e w'"
  by (cases "rc_cwc (w_rc w)")
    (auto simp: CancelContentWriter_def getCwcSession_def Let_def split: prod.split)

lemma cwFrame_rc:
  assumes "cwFrame w w'"
  shows "rc_bcc (w_rc w') = rc_bcc (w_rc w)" "rc_CrawlLog (w_rc w') = rc_CrawlLog (w_rc w)"
    "rc_Meta (w_rc w') = rc_Meta (w_rc w)" "rc_FoundInCache (w_rc w') = rc_FoundInCache (w_rc w)"
    "rc_ReplacementScript (w_rc w') = rc_ReplacementScript (w_rc w)"
    "rc_Error (w_rc w') = rc_Error (w_rc w)" "rc_session (w_rc w') = rc_session (w_rc w)"
proof -
  have eq: "(w_rc w')\<lparr>rc_cwc := None\<rparr> = (w_rc w)\<lparr>rc_cwc := None\<rparr>"
    using assms by (simp add: cwFrame_def)
  show "rc_bcc (w_rc w') = rc_bcc (w_rc w)" using arg_cong [OF eq, of rc_bcc] by simp
  show "rc_CrawlLog (w_rc w') = rc_CrawlLog (w_rc w)" using arg_cong [OF eq, of rc_CrawlLog] by simp
  show "rc_Meta (w_rc w') = rc_Meta (w_rc w)" using arg_cong [OF eq, of rc_Meta] by simp
  show "rc_FoundInCache (w_rc w') = rc_FoundInCache (w_rc w)" using arg_cong [OF eq, of rc_FoundInCache] by simp
  show "rc_ReplacementScript (w_rc w') = rc_ReplacementScript (w_rc w)"
    using arg_cong [OF eq, of rc_ReplacementScript] by simp
  show "rc_Error (w_rc w') = rc_Error (w_rc w)" using arg_cong [OF eq, of rc_Error] by simp
  show "rc_session (w_rc w') = rc_session (w_rc w)" using arg_cong [OF eq, of rc_session] by simp
qed

section \<open>Release of the waiter\<close>

definition cwReleased :: "world \<Rightarrow> bool" where
  "cwReleased w \<longleftrightarrow> (case rc_cwc (w_rc w) of None \<Rightarrow> True | Some c \<Rightarrow> cw_done c \<longrightarrow> cw_CtxDone c)"

lemma cwCtxCancel_released [simp]: "cwReleased (cwCtxCancel w)"
  by (simp add: cwReleased_def cwCtxCancel_def updCwc_def split: option.split)

lemma cwReleased_tick [simp]: "cwReleased (tick w) = cwReleased w"
  by (simp add: cwReleased_def split: option.split)

lemma getCwcSession_released: "cwReleased w \<Longrightarrow> cwReleased (endState (getCwcSession E w))"
  by (auto simp: getCwcSession_def cwReleased_def newCwcSession_def split: option.splits)

lemma cwSend_released: "cwReleased w \<Longrightarrow> cwReleased (snd (cwSend E r w))"
  using cwSend_result [of E r w] by (auto simp: cwReleased_def)

lemma sendOnSession_released:
  assumes "cwReleased w"
  shows "cwReleased (endState (sendOnSession E r w))"
proof -
  obtain err w1 where "getCwcSession E w = Done err w1" using getCwcSession_Done by blast
  then show ?thesis
    using getCwcSession_released [OF assms, of E] cwSend_released [of w1 E r]
    by (auto simp: sendOnSession_def split: option.split prod.split)
qed

lemma SendMeta_released:
  assumes "cwReleased w"
  shows "cwReleased (endState (SendMeta E w))"
proof -
  obtain err w1 where "getCwcSession E w = Done err w1" using getCwcSession_Done by blast
  then show ?thesis using getCwcSession_released [OF assms, of E]
    by (auto simp: SendMeta_def sendMetaStep_def Let_def split: option.split prod.split sum.split)
qed

lemma CancelContentWriter_released:
  assumes "cwReleased w"
  shows "cwReleased (endState (CancelContentWriter E msg w))"
proof (cases "rc_cwc (w_rc w)")
  case None
  then show ?thesis using assms by (simp add: CancelContentWriter_def)
next
  case (Some c)
  then show ?thesis using assms
    by (auto simp: CancelContentWriter_def getCwcSession_def Let_def cwReleased_def [of w]
        cwReleased_def [of "setCwc _ _"] split: prod.split)
qed

lemma cwcClientGone_released: "cwReleased w \<Longrightarrow> cwReleased (cwcClientGone E w)"
  by (auto simp: cwcClientGone_def Let_def split: option.split prod.split)

section \<open>Any interleaving of the operations\<close>

datatype cwOp = OpHeader int bytes | OpPayload int bytes | OpMeta | OpCancel string | OpClientGone

fun runCwOp :: "env \<Rightarrow> cwOp \<Rightarrow> world \<Rightarrow> world" where
  "runCwOp E (OpHeader n p) w = endState (SendProtocolHeader E n p w)"
| "runCwOp E (OpPayload n p) w = endState (SendPayload E n p w)"
| "runCwOp E OpMeta w = endState (SendMeta E w)"
| "runCwOp E (OpCancel msg) w = endState (CancelContentWriter E msg w)"
| "runCwOp E OpClientGone w = cwcClientGone E w"

lemma runCwOp_cwInv:
  assumes "closedStreamRejects E" "cwInv w"
  shows "cwInv (runCwOp E op w)"
  using assms by (cases op)
    (simp_all add: SendProtocolHeader_def SendPayload_def sendOnSession_cwInv SendMeta_cwInv
      CancelContentWriter_cwInv cwcClientGone_cwInv)

lemma runCwOp_released: "cwReleased w \<Longrightarrow> cwReleased (runCwOp E op w)"
  by (cases op)
    (simp_all add: SendProtocolHeader_def SendPayload_def sendOnSession_released SendMeta_released
      CancelContentWriter_released cwcClientGone_released)

lemma runCwOps_inv:
  assumes "closedStreamRejects E"
  shows "cwInv w \<Longrightarrow> cwReleased w \<Longrightarrow>
     cwInv (foldl (\<lambda>w op. runCwOp E op w) w ops) \<and> cwReleased (foldl (\<lambda>w op. runCwOp E op w) w ops)"
  by (induction ops arbitrary: w) (auto simp: runCwOp_cwInv [OF assms] runCwOp_released)

lemma cwInv_terminals:
  assumes "cwInv w"
  shows "length (filter terminalMsg (w_cwWire w)) \<le> 1 \<and>
     (\<forall>i. Suc i < length (w_cwWire w) \<longrightarrow> \<not> terminalMsg (w_cwWire w ! i))"
proof (cases "w_cwWire w" rule: rev_cases)
  case (snoc xs x)
  then have no: "\<forall>r \<in> set xs. \<not> terminalMsg r"
    using assms by (auto simp: cwInv_def split: option.splits)
  then have "filter terminalMsg xs = []" by (simp add: filter_empty_conv)
  then show ?thesis using no snoc by (auto simp: nth_append)
qed simp

section \<open>Properties\<close>





end
