(* ===== verification/Browser_Controller.thy ===== *)
theory Browser_Controller
  imports Content_Writer
begin

text \<open>
  \<open>context/browsercontroller_client.go\<close>: the session with the browser controller. A session has two
  goroutines of its own: one waits in a \<open>select\<close> for the completion message, for the end of the
  response and for the loss of the client, and reports the crawl log (\<open>finish\<close>); the other one
  receives from the controller and passes messages on over the unbuffered channel \<open>msgChan\<close>.
  The operations below are the critical sections of the code: each runs until it returns,
  panics or waits for something that the other goroutines can no longer give.
\<close>

definition AlreadyCompleted :: go_error where
  "AlreadyCompleted = ErrorString ''already completed''"

section \<open>The session and its mutex\<close>

definition updBcc :: "(bccSession \<Rightarrow> bccSession) \<Rightarrow> world \<Rightarrow> world" where
  "updBcc f w = (case rc_bcc (w_rc w) of Some b \<Rightarrow> setBcc (f b) w | None \<Rightarrow> w)"

definition newBccSession :: bccSession where
  "newBccSession = \<lparr>b_complete = None, b_loop = LoopSelect, b_recv = Receiving,
     b_locked = False, b_CtxDone = False\<rparr>"

definition getBccSession :: "env \<Rightarrow> world \<Rightarrow> (go_error option, world) run" where
  "getBccSession E w = (case rc_bcc (w_rc w) of
     Some b \<Rightarrow> Done None w
   | None \<Rightarrow> (case e_bcOpen E (w_tick w) of
       Some err \<Rightarrow> Done (WrapInternalError (Some err) RuntimeException
                      ''Error connecting to browser controller'' (errText err)) (tick w)
     | None \<Rightarrow> Done None (setBcc newBccSession (tick w))))"

text \<open>
  \<open>b.m.Lock(); defer b.m.Unlock()\<close> around an operation. An operation that never returns keeps
  the mutex; a panic unlocks it.
\<close>

definition withLock :: "(bccSession \<Rightarrow> world \<Rightarrow> ('a, world) run) \<Rightarrow> world \<Rightarrow> ('a, world) run" where
  "withLock f w = (case rc_bcc (w_rc w) of
     None \<Rightarrow> Panics w
   | Some b \<Rightarrow>
       if b_locked b then Blocks w
       else (case f b (updBcc (b_locked_update (\<lambda>_. True)) w) of
         Done x w \<Rightarrow> Done x (updBcc (b_locked_update (\<lambda>_. False)) w)
       | Panics w \<Rightarrow> Panics (updBcc (b_locked_update (\<lambda>_. False)) w)
       | Blocks w \<Rightarrow> Blocks w))"

definition bcSend :: "env \<Rightarrow> doRequest \<Rightarrow> world \<Rightarrow> go_error option \<times> world" where
  "bcSend E r w = (case e_bcSend E (w_tick w) r of
     Some e \<Rightarrow> (Some e, tick w)
   | None \<Rightarrow> (None, tick (w\<lparr>w_bcWire := w_bcWire w @ [r]\<rparr>)))"

text \<open>
  A send on \<open>completeChan\<close>: the first goroutine takes it only while it is in its \<open>select\<close>, and
  keeps the first message it gets.
\<close>

definition completeSend :: "completeMsg \<Rightarrow> world \<Rightarrow> (unit, world) run" where
  "completeSend msg w = (case rc_bcc (w_rc w) of
     None \<Rightarrow> Panics w
   | Some b \<Rightarrow>
       if b_loop b = LoopSelect then
         Done () (setBcc (b\<lparr>b_complete := (case b_complete b of None \<Rightarrow> Some msg | Some m \<Rightarrow> Some m)\<rparr>) w)
       else Blocks w)"

section \<open>The receiving goroutine\<close>

definition canceledLog :: "go_error \<Rightarrow> crawlLog \<Rightarrow> crawlLog" where
  "canceledLog e cl = cl\<lparr>cl_StatusCode := int32 CanceledByBrowser, cl_RecordType := RecordResponse,
     cl_ContentType := [], cl_Error := Some (AsCommonsError e)\<rparr>"

definition canceledByController :: go_error where
  "canceledByController =
     newError CanceledByBrowser ''CANCELED_BY_BROWSER'' ''canceled by browser controller''"

definition canceledByClient :: go_error where
  "canceledByClient = newError CanceledByBrowser ''CANCELED_BY_BROWSER''
     ''Veidemann recorder proxy lost connection to client''"

text \<open>A cancel of the controller that does not speak of robots.txt.\<close>

definition recvCancel :: "env \<Rightarrow> world \<Rightarrow> world" where
  "recvCancel E w =
     (let w = endState (CancelContentWriter E ''canceled by browser controller'' w);
          w = updLog (canceledLog canceledByController) w;
          msg = \<lparr>cm_cl = rc_CrawlLog (w_rc w), cm_err = Some canceledByController\<rparr>
      in case completeSend msg w of
           Done _ w \<Rightarrow> w
         | Panics w \<Rightarrow> w
         | Blocks w \<Rightarrow> updBcc (b_recv_update (\<lambda>_. RecvStuck)) w)"

definition offer :: "doReply option \<Rightarrow> bool \<Rightarrow> world \<Rightarrow> world" where
  "offer r close = updBcc (b_recv_update (\<lambda>_. Offering r close))"

definition unknownBcError :: "string \<Rightarrow> string" where
  "unknownBcError txt = ''unknown error from browser controller: '' @ txt"

definition setRcError :: "go_error \<Rightarrow> world \<Rightarrow> world" where
  "setRcError e = w_rc_update (rc_Error_update (\<lambda>_. Some e))"

fun recvEvent :: "env \<Rightarrow> recvResult \<Rightarrow> world \<Rightarrow> world" where
  "recvEvent E RecvEOF w = offer None True w"
| "recvEvent E RecvCanceled w = offer None True w"
| "recvEvent E RecvDeadlineExceeded w = offer None True w"
| "recvEvent E RecvUnavailable w = offer None True w"
| "recvEvent E (RecvError txt) w =
     offer (Some (ReplyCancel (unknownBcError txt))) True (setRcError (ErrorString (unknownBcError txt)) w)"
| "recvEvent E (RecvReply (ReplyCancel m)) w =
     (if contains m ''robots.txt'' then offer (Some (ReplyCancel m)) False w else recvCancel E w)"
| "recvEvent E (RecvReply r) w = offer (Some r) False w"

text \<open>The goroutine handles the next message that arrives, if it is waiting for one.\<close>

definition recvStep :: "env \<Rightarrow> world \<Rightarrow> world" where
  "recvStep E w = (case rc_bcc (w_rc w) of
     None \<Rightarrow> w
   | Some b \<Rightarrow> (case (b_recv b, w_bcIn w) of
       (Receiving, ev # evs) \<Rightarrow> recvEvent E ev (w\<lparr>w_bcIn := evs\<rparr>)
     | _ \<Rightarrow> w))"

text \<open>
  A receive from \<open>msgChan\<close>: the message and whether the channel was open. It waits while the
  goroutine handles arriving messages, for ever if none leads to a message on the channel.
\<close>

fun takeMsg :: "bccSession \<Rightarrow> ((doReply option \<times> bool) \<times> recvState) option" where
  "takeMsg b = (case b_recv b of
     Offering r close \<Rightarrow> Some ((r, True), if close then RecvReturned else Receiving)
   | RecvReturned \<Rightarrow> Some ((None, False), RecvReturned)
   | _ \<Rightarrow> None)"

fun awaitMsg :: "env \<Rightarrow> recvResult list \<Rightarrow> world \<Rightarrow> (doReply option \<times> bool, world) run" where
  "awaitMsg E evs w = (case rc_bcc (w_rc w) of
     None \<Rightarrow> Panics w
   | Some b \<Rightarrow>
      (case takeMsg b of
         Some (x, s) \<Rightarrow> Done x (setBcc (b\<lparr>b_recv := s\<rparr>) w)
       | None \<Rightarrow>
          (case evs of
             [] \<Rightarrow> Blocks w
           | ev # evs \<Rightarrow>
               if b_recv b = Receiving then awaitMsg E evs (recvEvent E ev (w\<lparr>w_bcIn := evs\<rparr>))
               else Blocks w)))"

text \<open>\<open>for range b.msgChan {}\<close>: receives until the channel is closed.\<close>

fun drainMsgs :: "env \<Rightarrow> recvResult list \<Rightarrow> world \<Rightarrow> (unit, world) run" where
  "drainMsgs E evs w = (case rc_bcc (w_rc w) of
     None \<Rightarrow> Panics w
   | Some b \<Rightarrow>
      (let s = (case b_recv b of Offering r close \<Rightarrow> if close then RecvReturned else Receiving
                | s \<Rightarrow> s);
           w = setBcc (b\<lparr>b_recv := s\<rparr>) w
       in if s = RecvReturned then Done () w
          else if s = Receiving then
            (case evs of
               [] \<Rightarrow> Blocks w
             | ev # evs \<Rightarrow> drainMsgs E evs (recvEvent E ev (w\<lparr>w_bcIn := evs\<rparr>)))
          else Blocks w))"

declare awaitMsg.simps [simp del] drainMsgs.simps [simp del]

section \<open>Completion\<close>

definition stampLog :: "env \<Rightarrow> world \<Rightarrow> crawlLog \<Rightarrow> crawlLog" where
  "stampLog E w cl = cl\<lparr>cl_FetchTimeMs := goQuot (e_now E (w_tick w) - rc_FetchTime (w_rc w)) 1000000,
     cl_IpAddress := GetIp (w_data w)\<rparr>"

definition saveCrawlLogUnlocked :: "env \<Rightarrow> crawlLog \<Rightarrow> world \<Rightarrow> (go_error option, world) run" where
  "saveCrawlLogUnlocked E cl w =
     (let cl = stampLog E w cl;
          (err, w) = bcSend E (DoCompleted cl (rc_FoundInCache (w_rc w))) (tick w);
          err = e_bcCloseSend E (w_tick w);
          w = tick w
      in andThen (drainMsgs E (w_bcIn w) w) (\<lambda>_ w. Done err w))"

text \<open>
  \<open>finish\<close>, run by the first goroutine when it leaves its \<open>select\<close>. It reports the completion it
  got, or that the client has gone, and releases everybody who waits for the session.
\<close>

definition finishBody :: "env \<Rightarrow> bccSession \<Rightarrow> world \<Rightarrow> (unit, world) run" where
  "finishBody E b w =
     (if GetRecordContext (w_data w) \<noteq> None then
        andThen
          (case b_complete b of
             Some m \<Rightarrow> saveCrawlLogUnlocked E (cm_cl m) w
           | None \<Rightarrow>
              (let w = updLog (canceledLog canceledByClient) w;
                   cl = rc_CrawlLog (w_rc w);
                   w = updLog (stampLog E w) w
               in saveCrawlLogUnlocked E cl w))
          (\<lambda>_ w. andThen (onData (SetRecordContext None) w) (\<lambda>_ w.
             Done () (updBcc (b_CtxDone_update (\<lambda>_. True))
               (w\<lparr>w_closedSess := w_closedSess w + 1\<rparr>))))
      else Done () w)"

definition finish :: "env \<Rightarrow> world \<Rightarrow> (unit, world) run" where
  "finish E w = andThen (withLock (finishBody E) (updBcc (b_loop_update (\<lambda>_. LoopFinishing)) w))
     (\<lambda>_ w. Done () (updBcc (b_loop_update (\<lambda>_. LoopReturned)) w))"

text \<open>The first goroutine, when the client's context is done.\<close>

definition bccClientGone :: "env \<Rightarrow> world \<Rightarrow> world" where
  "bccClientGone E w = (case rc_bcc (w_rc w) of
     None \<Rightarrow> w
   | Some b \<Rightarrow> if b_loop b = LoopSelect then endState (finish E w) else w)"

text \<open>
  \<open>ResponseCompleted\<close> hands over on the channel \<open>done\<close>, which waits for ever if the first goroutine
  has left its \<open>select\<close>; after the hand-over \<open>finish\<close> runs in that goroutine, and the caller
  goes on even if \<open>finish\<close> does not return.
\<close>

definition handOverDone :: "env \<Rightarrow> go_error option \<Rightarrow> world \<Rightarrow> (unit, world) run" where
  "handOverDone E err w = (if err = None then
       (case rc_bcc (w_rc w) of
          None \<Rightarrow> Panics w
        | Some b \<Rightarrow> if b_loop b = LoopSelect then Done () (endState (finish E w)) else Blocks w)
     else Done () w)"

definition ResponseCompleted :: "env \<Rightarrow> go_error option \<Rightarrow> world \<Rightarrow> (unit, world) run" where
  "ResponseCompleted E writeErr w = andThen (getBccSession E w) (\<lambda>err w.
     andThen (handOverDone E err w) (\<lambda>_ w.
       if writeErr \<noteq> None then
         andThen (CancelContentWriter E ''Veidemann recorder proxy lost connection to client'' w)
           (\<lambda>_ w. Done () w)
       else Done () w))"

definition WaitForCompleted :: "world \<Rightarrow> (unit, world) run" where
  "WaitForCompleted w =
     (if (case rc_cwc (w_rc w) of Some c \<Rightarrow> \<not> cw_CtxDone c | None \<Rightarrow> False) then Blocks w
      else if (case rc_bcc (w_rc w) of Some b \<Rightarrow> \<not> b_CtxDone b | None \<Rightarrow> False) then Blocks w
      else Done () w)"

definition saveLocked :: "bccSession \<Rightarrow> world \<Rightarrow> (go_error option, world) run" where
  "saveLocked b w =
     (if b_complete b \<noteq> None then Done (Some AlreadyCompleted) w
      else andThen (completeSend \<lparr>cm_cl = rc_CrawlLog (w_rc w), cm_err = None\<rparr> w) (\<lambda>_ w. Done None w))"

definition SaveCrawlLog :: "env \<Rightarrow> world \<Rightarrow> (go_error option, world) run" where
  "SaveCrawlLog E w = andThen (getBccSession E w) (\<lambda>err w.
     if err \<noteq> None then Done err w else withLock saveLocked w)"

section \<open>Notifications, errors and registration\<close>

definition notifyLocked :: "env \<Rightarrow> activity \<Rightarrow> bccSession \<Rightarrow> world \<Rightarrow> (go_error option, world) run" where
  "notifyLocked E act b w =
     (if b_complete b \<noteq> None then Done (Some AlreadyCompleted) w
      else (case bcSend E (DoNotify act) w of (err, w) \<Rightarrow> Done err w))"

definition notifyDataReceived :: "env \<Rightarrow> activity \<Rightarrow> world \<Rightarrow> (go_error option, world) run" where
  "notifyDataReceived E act w = andThen (getBccSession E w) (\<lambda>err w.
     if err \<noteq> None then Done err w else withLock (notifyLocked E act) w)"

definition NotifyDataReceived :: "env \<Rightarrow> world \<Rightarrow> (go_error option, world) run" where
  "NotifyDataReceived E = notifyDataReceived E DATA_RECEIVED"

definition NotifyAllDataReceived :: "env \<Rightarrow> world \<Rightarrow> (go_error option, world) run" where
  "NotifyAllDataReceived E = notifyDataReceived E ALL_DATA_RECEIVED"

definition alreadyCompletedError :: "go_error option" where
  "alreadyCompletedError = WrapInternalError (Some AlreadyCompleted) RuntimeException
     ''error sending crawl log to browser controller'' (errText AlreadyCompleted)"

text \<open>The part of \<open>SendRequestError\<close> and \<open>SendResponseError\<close> under the mutex.\<close>

definition sendErrorLocked ::
    "(crawlLog \<Rightarrow> crawlLog) \<Rightarrow> go_error \<Rightarrow> bccSession \<Rightarrow> world \<Rightarrow> (go_error option, world) run" where
  "sendErrorLocked setErr err b w =
     (if b_complete b \<noteq> None then Done alreadyCompletedError w
      else (let w = updLog setErr w
            in andThen (completeSend \<lparr>cm_cl = rc_CrawlLog (w_rc w), cm_err = Some err\<rparr> w)
                 (\<lambda>_ w. Done (Some err) w)))"

definition requestErrorLog :: "go_error \<Rightarrow> crawlLog \<Rightarrow> crawlLog" where
  "requestErrorLog e cl = cl\<lparr>cl_StatusCode := int32 (Code e), cl_RecordType := RecordResponse,
     cl_Error := Some (AsCommonsError e)\<rparr>"

definition responseErrorLog :: "go_error \<Rightarrow> crawlLog \<Rightarrow> crawlLog" where
  "responseErrorLog e cl = cl\<lparr>cl_StatusCode := int32 (Code e), cl_RecordType := RecordResponse,
     cl_ContentType := [], cl_Error := Some (AsCommonsError e)\<rparr>"

definition SendRequestError :: "env \<Rightarrow> go_error option \<Rightarrow> world \<Rightarrow> (go_error option, world) run" where
  "SendRequestError E reqErr w = (case reqErr of
     None \<Rightarrow> Panics w
   | Some e \<Rightarrow> andThen (getBccSession E w) (\<lambda>err w.
      case rc_bcc (w_rc w) of
        None \<Rightarrow> Done err w
      | Some b \<Rightarrow>
         (case b_complete b of
            Some m \<Rightarrow> Done (case cm_err m of Some ce \<Rightarrow> Some ce | None \<Rightarrow> Some e) w
          | None \<Rightarrow> andThen (NotifyAllDataReceived E w) (\<lambda>err w.
              case err of
                Some ne \<Rightarrow> Done (WrapInternalError (Some ne) RuntimeException
                   ''error notifying browser controller'' (errText ne)) w
              | None \<Rightarrow> withLock (sendErrorLocked (requestErrorLog e) e) w))))"

definition SendResponseError :: "env \<Rightarrow> go_error option \<Rightarrow> world \<Rightarrow> (go_error option, world) run" where
  "SendResponseError E respErr w = (case respErr of
     None \<Rightarrow> Panics w
   | Some e \<Rightarrow> andThen (getBccSession E w) (\<lambda>err w.
      if err \<noteq> None then Done err w
      else withLock (sendErrorLocked (responseErrorLog e) e) w))"

definition browserClosedError :: go_error where
  "browserClosedError =
     newError CanceledByBrowser ''CANCELLED_BY_BROWSER'' ''Browser controller closed connection''"

definition robotsError :: go_error where
  "robotsError = newError PrecludedByRobots ''PRECLUDED_BY_ROBOTS'' ''Robots.txt rules precluded fetch''"

definition newRequestMsg :: "world \<Rightarrow> doRequest" where
  "newRequestMsg w = DoNew \<lparr>rn_ProxyId = rc_ProxyId (w_rc w), rn_Method = rc_Method (w_rc w),
     rn_Uri = urlString (rc_Uri (w_rc w)), rn_RequestId = GetRequestId (w_data w),
     rn_CrawlExecutionId = GetCrawlExecutionId (w_data w),
     rn_JobExecutionId = GetJobExecutionId (w_data w),
     rn_CollectionRef = GetCollectionRef (w_data w)\<rparr>"

text \<open>The reply to the registration; a nil collection reference is dereferenced for the trace.\<close>

definition applyNewReply :: "newReply \<Rightarrow> world \<Rightarrow> (go_error option, world) run" where
  "applyNewReply v w =
     (if nr_CollectionRef v = None then Panics w
      else andThen (onData (SetJobExecutionId (nr_JobExecutionId v)) w) (\<lambda>_ w.
        andThen (onData (SetCrawlExecutionId (nr_CrawlExecutionId v)) w) (\<lambda>_ w.
        andThen (onData (SetCollectionRef (nr_CollectionRef v)) w) (\<lambda>_ w.
          Done None (updLog (\<lambda>cl. cl\<lparr>cl_JobExecutionId := GetJobExecutionId (w_data w),
               cl_ExecutionId := GetCrawlExecutionId (w_data w)\<rparr>)
             (w_rc_update (rc_ReplacementScript_update (\<lambda>_. nr_ReplacementScript v)) w))))))"

text \<open>What is received on \<open>msgChan\<close> (with whether it was open) decides the outcome.\<close>

fun registerReply :: "doReply option \<times> bool \<Rightarrow> world \<Rightarrow> (go_error option, world) run" where
  "registerReply (Some (ReplyCancel m), True) w = Done (Some robotsError)
     (if m = ''Blocked by robots.txt''
      then w_rc_update (rc_PrecludedByRobots_update (\<lambda>_. True)) w else w)"
| "registerReply (Some (ReplyNew v), True) w = applyNewReply v w"
| "registerReply (Some ReplyOther, True) w = Done None w"
| "registerReply (bcReply, ok) w = Done (Some browserClosedError) w"

text \<open>The part of \<open>RegisterNewRequest\<close> under the mutex; an error of the send is only logged.\<close>

definition registerLocked :: "env \<Rightarrow> bccSession \<Rightarrow> world \<Rightarrow> (go_error option, world) run" where
  "registerLocked E b w =
     (if b_complete b \<noteq> None then Done (Some AlreadyCompleted) w
      else (case bcSend E (newRequestMsg w) w of (err, w) \<Rightarrow>
        andThen (awaitMsg E (w_bcIn w) w) registerReply))"

definition RegisterNewRequest :: "env \<Rightarrow> world \<Rightarrow> (go_error option, world) run" where
  "RegisterNewRequest E w = andThen (getBccSession E w) (\<lambda>err w.
     if err \<noteq> None then Done err w else withLock (registerLocked E) w)"

text \<open>
  \<open>RegisterConnectRequest\<close> uses a stream of its own, on which \<open>incoming\<close> arrives: it registers
  the CONNECT, takes over the ids of a positive reply, and reads until the stream ends (a stream
  that returned an error returns an error again).
\<close>

definition isRecvErr :: "recvResult \<Rightarrow> bool" where
  "isRecvErr ev \<longleftrightarrow> (case ev of RecvReply r \<Rightarrow> False | _ \<Rightarrow> True)"

definition connectMsg :: "int \<Rightarrow> url \<Rightarrow> world \<Rightarrow> doRequest" where
  "connectMsg proxyId uri w = DoNew \<lparr>rn_ProxyId = proxyId, rn_Method = ''CONNECT'',
     rn_Uri = urlString uri, rn_RequestId = GetRequestId (w_data w),
     rn_CrawlExecutionId = GetCrawlExecutionId (w_data w),
     rn_JobExecutionId = GetJobExecutionId (w_data w),
     rn_CollectionRef = GetCollectionRef (w_data w)\<rparr>"

definition connectReply :: "recvResult \<Rightarrow> world \<Rightarrow> (unit, world) run" where
  "connectReply ev w = (case ev of
     RecvReply (ReplyNew v) \<Rightarrow>
       andThen (onData (SetJobExecutionId (nr_JobExecutionId v)) w) (\<lambda>_ w.
       andThen (onData (SetCrawlExecutionId (nr_CrawlExecutionId v)) w) (\<lambda>_ w.
         onData (SetCollectionRef (nr_CollectionRef v)) w))
   | _ \<Rightarrow> Done () w)"

definition RegisterConnectRequest ::
    "env \<Rightarrow> recvResult list \<Rightarrow> int \<Rightarrow> http_request \<Rightarrow> url \<Rightarrow> world \<Rightarrow> (unit, world) run" where
  "RegisterConnectRequest E incoming proxyId req uri w =
     andThen (resolveIdsFromHttpHeader req w) (\<lambda>_ w.
       let msg = connectMsg proxyId uri w
       in case e_bcOpen E (w_tick w) of
            Some err \<Rightarrow> Done () (tick w)
          | None \<Rightarrow>
             (let w = tick w;
                  w = (if e_bcSend E (w_tick w) msg = None
                       then w\<lparr>w_connectWire := w_connectWire w @ [msg]\<rparr> else w);
                  w = tick w
              in case incoming of
                   [] \<Rightarrow> Blocks w
                 | ev # evs \<Rightarrow> andThen (connectReply ev w) (\<lambda>_ w.
                     if isRecvErr ev \<or> list_ex isRecvErr evs then Done () (tick w) else Blocks w)))"

end
