(* ===== verification/Session_Frame.thy ===== *)
theory Session_Frame
  imports Browser_Controller
begin

text \<open>
  Relations between the states before and after an operation that every step of a session keeps. The locale names the steps
  the operations on a browser controller session are made of; what all of them keep, the operations keep.
\<close>

section \<open>Messages and the receiver\<close>

definition isCompleted :: "doRequest \<Rightarrow> bool" where
  "isCompleted r \<longleftrightarrow> (case r of DoCompleted cl cached \<Rightarrow> True | _ \<Rightarrow> False)"

lemma isCompleted_simps [simp]:
  "isCompleted (DoCompleted cl c)" "\<not> isCompleted (DoNew rn)" "\<not> isCompleted (DoNotify a)" "\<not> isCompleted (newRequestMsg w)"
  by (simp_all add: isCompleted_def newRequestMsg_def)

lemma awaitMsg_None: "rc_bcc (w_rc w) = None \<Longrightarrow> awaitMsg E evs w = Panics w"
  by (subst awaitMsg.simps) simp

lemma awaitMsg_take:
  "rc_bcc (w_rc w) = Some b \<Longrightarrow> takeMsg b = Some (x, s) \<Longrightarrow>
     awaitMsg E evs w = Done x (setBcc (b\<lparr>b_recv := s\<rparr>) w)"
  by (subst awaitMsg.simps) simp

lemma awaitMsg_Receiving:
  assumes "rc_bcc (w_rc w) = Some b" "b_recv b = Receiving"
  shows "awaitMsg E [] w = Blocks w"
    "awaitMsg E (ev # evs) w = awaitMsg E evs (recvEvent E ev (w\<lparr>w_bcIn := evs\<rparr>))"
  using assms by (subst awaitMsg.simps, simp)+

lemma awaitMsg_RecvStuck:
  "rc_bcc (w_rc w) = Some b \<Longrightarrow> b_recv b = RecvStuck \<Longrightarrow> awaitMsg E evs w = Blocks w"
  by (subst awaitMsg.simps) (simp split: list.split)

lemma drainMsgs_None: "rc_bcc (w_rc w) = None \<Longrightarrow> drainMsgs E evs w = Panics w"
  by (subst drainMsgs.simps) simp

text \<open>The state in which the receiver goes on after its offer, if any, was taken.\<close>

definition afterOffer :: "recvState \<Rightarrow> recvState" where
  "afterOffer s = (case s of Offering r close \<Rightarrow> if close then RecvReturned else Receiving | s \<Rightarrow> s)"

lemma afterOffer_simps [simp]:
  "afterOffer Receiving = Receiving" "afterOffer (Offering r True) = RecvReturned"
  "afterOffer (Offering r False) = Receiving" "afterOffer RecvReturned = RecvReturned"
  "afterOffer RecvStuck = RecvStuck"
  by (simp_all add: afterOffer_def)

lemma afterOffer_not_Offering [simp]: "afterOffer s \<noteq> Offering r c"
  by (simp add: afterOffer_def split: recvState.split)

lemma drainMsgs_Some:
  assumes "rc_bcc (w_rc w) = Some b"
  defines "w1 \<equiv> setBcc (b\<lparr>b_recv := afterOffer (b_recv b)\<rparr>) w"
  shows "afterOffer (b_recv b) = RecvReturned \<Longrightarrow> drainMsgs E evs w = Done () w1"
    "afterOffer (b_recv b) = RecvStuck \<Longrightarrow> drainMsgs E evs w = Blocks w1"
    "afterOffer (b_recv b) = Receiving \<Longrightarrow> drainMsgs E [] w = Blocks w1"
    "afterOffer (b_recv b) = Receiving \<Longrightarrow>
       drainMsgs E (ev # evs) w = drainMsgs E evs (recvEvent E ev (w1\<lparr>w_bcIn := evs\<rparr>))"
  using assms(1) unfolding w1_def
  by (subst drainMsgs.simps, simp add: Let_def flip: afterOffer_def)+

section \<open>What every step of a session keeps\<close>

locale session_frame = state_relation R for R :: "world \<Rightarrow> world \<Rightarrow> bool" +
  assumes tick_keeps: "R w (tick w)"
    and log_keeps: "R w (updLog f w)"
    and rcError_keeps: "R w (setRcError e w)"
    and robots_keeps: "R w (w_rc_update (rc_PrecludedByRobots_update g) w)"
    and script_keeps: "R w (w_rc_update (rc_ReplacementScript_update h) w)"
    and incoming_keeps: "R w (w\<lparr>w_bcIn := evs\<rparr>)"
    and open_keeps: "R w (endState (getBccSession E w))"
    and lock_keeps: "R w (updBcc (b_locked_update l) w)"
    and receiver_keeps: "R w (updBcc (b_recv_update r) w)"
    and complete_keeps: "R w (endState (completeSend m w))"
    and send_keeps: "\<not> isCompleted q \<Longrightarrow> R w (snd (bcSend E q w))"
    and cancel_keeps: "R w (endState (CancelContentWriter E msg w))"
    and put_keeps: "hasType k v \<Longrightarrow> R w (endState (onData (setValue k v) w))"
begin

lemma bcSend_keeps: "\<not> isCompleted q \<Longrightarrow> bcSend E q w = (e, w') \<Longrightarrow> R w w'"
  using send_keeps [of q w E] by simp

lemma setRecv_keeps: "rc_bcc (w_rc w) = Some b \<Longrightarrow> R w (setBcc (b\<lparr>b_recv := s\<rparr>) w)"
  using receiver_keeps [of w "\<lambda>_. s"] by (simp add: updBcc_def)

lemma withLock_keeps:
  assumes "\<And>b w. R w (endState (f b w))"
  shows "R w (endState (withLock f w))"
proof (cases "rc_bcc (w_rc w)")
  case (Some b)
  let ?w = "updBcc (b_locked_update (\<lambda>_. True)) w"
  have 1: "R w (endState (f b ?w))" by (rule trans [OF lock_keeps assms])
  moreover have "R w (updBcc (b_locked_update (\<lambda>_. False)) (endState (f b ?w)))" by (rule trans [OF 1 lock_keeps])
  ultimately show ?thesis using Some by (cases "f b ?w") (simp_all add: withLock_def refl)
qed (simp add: withLock_def refl)

lemma recvCancel_keeps: "R w (recvCancel E w)"
proof -
  let ?w = "updLog (canceledLog canceledByController) (endState (CancelContentWriter E ''canceled by browser controller'' w))"
  have "R w (endState (completeSend m ?w))" for m
    by (rule trans [OF trans [OF cancel_keeps log_keeps] complete_keeps])
  from this [of "\<lparr>cm_cl = rc_CrawlLog (w_rc ?w), cm_err = Some canceledByController\<rparr>"] show ?thesis
    by (auto simp: recvCancel_def Let_def split: run.split intro: trans [OF _ receiver_keeps])
qed

lemma offer_keeps: "R w (offer r c w)"
  unfolding offer_def by (rule receiver_keeps)

lemma recvEvent_keeps: "R w (recvEvent E ev w)"
  by (cases "(E, ev, w)" rule: recvEvent.cases)
    (auto intro: offer_keeps recvCancel_keeps trans [OF rcError_keeps offer_keeps])

lemma recvStep_keeps: "R w (recvStep E w)"
  by (auto simp: recvStep_def refl split: option.split recvState.split list.split
      intro: trans [OF incoming_keeps recvEvent_keeps])

lemma awaitMsg_keeps: "R w (endState (awaitMsg E evs w))"
proof (induction evs arbitrary: w)
  case Nil
  show ?case
  proof (cases "rc_bcc (w_rc w)")
    case (Some b)
    then show ?thesis
      by (cases "b_recv b") (simp_all add: awaitMsg_take awaitMsg_Receiving(1) awaitMsg_RecvStuck refl setRecv_keeps)
  qed (simp add: awaitMsg_None refl)
next
  case (Cons ev evs)
  have rest: "R w (endState (awaitMsg E evs (recvEvent E ev (w\<lparr>w_bcIn := evs\<rparr>))))"
    by (rule trans [OF trans [OF incoming_keeps recvEvent_keeps] Cons.IH])
  show ?case
  proof (cases "rc_bcc (w_rc w)")
    case (Some b)
    show ?thesis
    proof (cases "takeMsg b")
      case None
      then show ?thesis using rest Some awaitMsg_Receiving(2) [OF Some]
        by (cases "b_recv b") (simp_all add: awaitMsg_RecvStuck refl)
    next
      case x: (Some xs)
      then show ?thesis by (cases xs) (simp add: awaitMsg_take [OF Some] setRecv_keeps [OF Some])
    qed
  qed (simp add: awaitMsg_None refl)
qed

lemma drainMsgs_keeps: "R w (endState (drainMsgs E evs w))"
proof (induction evs arbitrary: w)
  case Nil
  show ?case
  proof (cases "rc_bcc (w_rc w)")
    case (Some b)
    then show ?thesis
      by (cases "afterOffer (b_recv b)") (simp_all add: drainMsgs_Some [OF Some] setRecv_keeps [OF Some])
  qed (simp add: drainMsgs_None refl)
next
  case (Cons ev evs)
  show ?case
  proof (cases "rc_bcc (w_rc w)")
    case (Some b)
    have 2: "R w (endState (drainMsgs E evs (recvEvent E ev ((setBcc (b\<lparr>b_recv := s\<rparr>) w)\<lparr>w_bcIn := evs\<rparr>))))" for s
      by (rule trans [OF trans [OF trans [OF setRecv_keeps [OF Some] incoming_keeps] recvEvent_keeps] Cons.IH])
    then show ?thesis
      by (cases "afterOffer (b_recv b)") (simp_all add: drainMsgs_Some [OF Some] setRecv_keeps [OF Some])
  qed (simp add: drainMsgs_None refl)
qed

lemma notify_keeps: "R w (endState (notifyDataReceived E act w))"
proof -
  have "R w (endState (notifyLocked E act b w))" for b w
    by (auto simp: notifyLocked_def refl split: prod.split intro: bcSend_keeps [rotated])
  then show ?thesis unfolding notifyDataReceived_def
    by (intro end_andThen [OF open_keeps]) (simp add: refl withLock_keeps)
qed

lemma SaveCrawlLog_keeps: "R w (endState (SaveCrawlLog E w))"
proof -
  have "R w (endState (saveLocked b w))" for b w
    by (auto simp: saveLocked_def refl intro!: end_andThen complete_keeps)
  then show ?thesis unfolding SaveCrawlLog_def
    by (intro end_andThen [OF open_keeps]) (simp add: refl withLock_keeps)
qed

lemma sendErrorLocked_keeps: "R w (endState (sendErrorLocked g e b w))"
  by (auto simp: sendErrorLocked_def refl Let_def intro!: end_andThen trans [OF log_keeps complete_keeps])

lemma SendResponseError_keeps: "R w (endState (SendResponseError E e w))"
  by (auto simp: SendResponseError_def refl split: option.split
      intro!: end_andThen [OF open_keeps] withLock_keeps sendErrorLocked_keeps)

lemma SendRequestError_keeps: "R w (endState (SendRequestError E e w))"
  by (auto simp: SendRequestError_def NotifyAllDataReceived_def refl split: option.split
      intro!: end_andThen [OF open_keeps] end_andThen [OF notify_keeps] withLock_keeps sendErrorLocked_keeps)

lemma setters_keep:
  "R w (endState (onData (SetJobExecutionId s) w))" "R w (endState (onData (SetCrawlExecutionId s) w))"
  "R w (endState (onData (SetCollectionRef c) w))" "R w (endState (onData (SetRequestId s) w))"
  "R w (endState (onData (SetHost s) w))" "R w (endState (onData (SetPort s) w))" "R w (endState (onData (SetIp s) w))"
  "R w (endState (onData (SetUri u) w))" "R w (endState (onData (SetRecordContext n) w))"
  "R w (endState (onData (SetConnectError err) w))"
  by (simp_all add: setter_defs put_keeps)

lemma applyNewReply_keeps: "R w (endState (applyNewReply v w))"
  by (auto simp: applyNewReply_def refl
      intro!: end_andThen [OF setters_keep(1)] end_andThen [OF setters_keep(2)] end_andThen [OF setters_keep(3)]
        trans [OF script_keeps log_keeps])

lemma registerReply_keeps: "R w (endState (registerReply x w))"
  by (cases "(x, w)" rule: registerReply.cases) (simp_all add: refl robots_keeps applyNewReply_keeps)

lemma registerLocked_keeps: "R w (endState (registerLocked E b w))"
proof -
  have "R w1 (endState (andThen (awaitMsg E evs w1) registerReply))" for evs w1
    by (rule end_andThen [OF awaitMsg_keeps registerReply_keeps])
  then show ?thesis
    by (auto simp: registerLocked_def refl split: prod.split intro: trans [OF bcSend_keeps [of "newRequestMsg w" E w]])
qed

lemma RegisterNewRequest_keeps: "R w (endState (RegisterNewRequest E w))"
  unfolding RegisterNewRequest_def
  by (rule end_andThen [OF open_keeps]) (simp add: refl withLock_keeps registerLocked_keeps)

end

end
