(* ===== verification/Session_Accounting.thy ===== *)
theory Session_Accounting
  imports Session_Frame
begin

text \<open>
  What a browser controller session promises, whatever the order of its operations: what every
  operation keeps (\<open>bcQuiet\<close>), the accounting of completions and closed sessions (\<open>bcInv\<close>),
  when the end of a session returns, and what it reports.
\<close>

section \<open>Operations that do not end the session\<close>

text \<open>
  \<open>bcQuiet\<close>: no completion is reported, no session is counted as closed, the first goroutine stays
  where it is, and a completion that was recorded stays the recorded one.
\<close>

definition bcQuiet :: "world \<Rightarrow> world \<Rightarrow> bool" where
  "bcQuiet w w' \<longleftrightarrow> w_closedSess w' = w_closedSess w \<and> w_sess w' = w_sess w \<and>
     filter isCompleted (w_bcWire w') = filter isCompleted (w_bcWire w) \<and>
     (case rc_bcc (w_rc w) of
        None \<Rightarrow> (case rc_bcc (w_rc w') of None \<Rightarrow> True
          | Some b' \<Rightarrow> b_loop b' = LoopSelect \<and> \<not> b_CtxDone b')
      | Some b \<Rightarrow> (\<exists>b'. rc_bcc (w_rc w') = Some b' \<and> b_loop b' = b_loop b \<and>
          b_CtxDone b' = b_CtxDone b \<and> (\<forall>m. b_complete b = Some m \<longrightarrow> b_complete b' = Some m)))"

lemma bcQuiet_refl: "bcQuiet w w"
  by (simp add: bcQuiet_def split: option.split)

lemma bcQuiet_trans: "bcQuiet a b \<Longrightarrow> bcQuiet b c \<Longrightarrow> bcQuiet a c"
  by (cases "rc_bcc (w_rc a)"; cases "rc_bcc (w_rc b)") (auto simp: bcQuiet_def split: option.splits)

interpretation bcq: state_relation bcQuiet
  by unfold_locales (fact bcQuiet_refl, fact bcQuiet_trans)

lemma bcQuietI:
  assumes "w_closedSess w' = w_closedSess w" "w_sess w' = w_sess w" "w_bcWire w' = w_bcWire w"
    "rc_bcc (w_rc w') = rc_bcc (w_rc w)"
  shows "bcQuiet w w'"
  using assms by (simp add: bcQuiet_def split: option.split)

lemma cwFrame_quiet: "cwFrame w w' \<Longrightarrow> bcQuiet w w'"
  by (rule bcQuietI) (simp_all add: cwFrame_rc, simp_all add: cwFrame_def)

lemma quiet_basic:
  "bcQuiet w (tick w)" "bcQuiet w (updLog f w)" "bcQuiet w (setRcError e w)"
  "bcQuiet w (w\<lparr>w_bcIn := evs\<rparr>)" "bcQuiet w (w_rc_update (rc_PrecludedByRobots_update f1) w)"
  "bcQuiet w (w_rc_update (rc_ReplacementScript_update f2) w)"
  by (rule bcQuietI; simp add: setRcError_def)+

lemma quiet_updBcc:
  assumes "\<And>b. b_loop (f b) = b_loop b \<and> b_CtxDone (f b) = b_CtxDone b \<and> b_complete (f b) = b_complete b"
  shows "bcQuiet w (updBcc f w)"
  using assms by (simp add: bcQuiet_def updBcc_def split: option.split)

lemma quiet_setBcc:
  assumes "rc_bcc (w_rc w) = Some b" "b_loop b' = b_loop b" "b_CtxDone b' = b_CtxDone b"
    "\<And>m. b_complete b = Some m \<Longrightarrow> b_complete b' = Some m"
  shows "bcQuiet w (setBcc b' w)"
  using assms by (simp add: bcQuiet_def)

lemma quiet_bcSend: "\<not> isCompleted r \<Longrightarrow> bcQuiet w (snd (bcSend E r w))"
  by (auto simp: bcSend_def bcQuiet_def split: option.splits)

lemma quiet_onData: "bcQuiet w (endState (onData f w))"
  by (rule bcQuietI) (simp_all add: onData_def split: run.split)

lemma quiet_completeSend: "bcQuiet w (endState (completeSend msg w))"
proof (cases "rc_bcc (w_rc w)")
  case (Some b)
  then show ?thesis
    by (auto simp: completeSend_def bcQuiet_refl split: option.split intro: quiet_setBcc [OF Some])
qed (simp add: completeSend_def bcQuiet_refl)

lemma quiet_getBccSession: "bcQuiet w (endState (getBccSession E w))"
  by (auto simp: getBccSession_def bcQuiet_def newBccSession_def split: option.split)

interpretation bcs: session_frame bcQuiet
  by unfold_locales
    (simp_all add: quiet_basic quiet_bcSend quiet_onData quiet_completeSend quiet_getBccSession quiet_updBcc
      cwFrame_quiet CancelContentWriter_frame)

section \<open>The end of the session\<close>

text \<open>
  \<open>bcAt s n d k w\<close>: the first goroutine is at \<open>s\<close>, at most \<open>n\<close> completions were reported, the
  session's context is done or not (\<open>d\<close>), and \<open>k\<close> sessions are counted as closed.
\<close>

definition bcAt :: "loopState \<Rightarrow> nat \<Rightarrow> bool \<Rightarrow> int \<Rightarrow> world \<Rightarrow> bool" where
  "bcAt s n d k w \<longleftrightarrow> (\<exists>b. rc_bcc (w_rc w) = Some b \<and> b_loop b = s \<and> b_CtxDone b = d) \<and>
     length (filter isCompleted (w_bcWire w)) \<le> n \<and> w_closedSess w = k"

lemma bcAt_quiet: "bcAt s n d k w \<Longrightarrow> bcQuiet w w' \<Longrightarrow> bcAt s n d k w'"
  by (auto simp: bcAt_def bcQuiet_def)

lemma bcAt_tick [simp]: "bcAt s n d k (tick w) = bcAt s n d k w"
  by (simp add: bcAt_def)

lemma bcSend_result:
  "(\<exists>e. bcSend E r w = (Some e, tick w)) \<or>
   bcSend E r w = (None, tick (w\<lparr>w_bcWire := w_bcWire w @ [r]\<rparr>))"
  by (simp add: bcSend_def split: option.split)

lemma bcAt_bcSend: "bcAt s n d k w \<Longrightarrow> bcSend E r w = (e, w') \<Longrightarrow> bcAt s (Suc n) d k w'"
  using bcSend_result [of E r w] by (auto simp: bcAt_def)

lemma bcAt_save:
  assumes "bcAt s n d k w"
  shows "bcAt s (Suc n) d k (endState (saveCrawlLogUnlocked E cl w))"
proof -
  have "bcAt s (Suc n) d k (endState (drainMsgs E evs (tick w')))"
    if "bcSend E r (tick w) = (e, w')" for r e evs w'
    by (rule bcAt_quiet [OF _ bcs.drainMsgs_keeps]) (use bcAt_bcSend [OF _ that] assms in simp)
  then show ?thesis
    by (auto simp: saveCrawlLogUnlocked_def Let_def split: prod.split)
qed

lemma bcAt_updBcc:
  assumes "bcAt s n d k w" "\<And>b. b_loop b = s \<Longrightarrow> b_loop (f b) = s'" "\<And>b. b_CtxDone (f b) = b_CtxDone b"
  shows "bcAt s' n d k (updBcc f w)"
  using assms by (auto simp: bcAt_def updBcc_def)

definition markClosed :: "world \<Rightarrow> world" where
  "markClosed w = updBcc (b_CtxDone_update (\<lambda>_. True)) (w\<lparr>w_closedSess := w_closedSess w + 1\<rparr>)"

lemma bcAt_markClosed: "bcAt s n False k w \<Longrightarrow> bcAt s n True (k + 1) (markClosed w)"
  by (auto simp: bcAt_def markClosed_def updBcc_def)

lemma onData_result:
  "(\<exists>w'. onData f w = Done () w') \<or> (\<exists>w'. onData f w = Panics w') \<or> (\<exists>w'. onData f w = Blocks w')"
  by (simp add: onData_def split: run.split)

lemma bcAt_close:
  assumes "bcAt s n False k w"
  shows "\<exists>d. bcAt s n d (k + of_bool d)
     (endState (andThen (onData f w) (\<lambda>_ w. Done () (markClosed w))))"
proof -
  have q: "bcAt s n False k (endState (onData f w))" by (rule bcAt_quiet [OF assms quiet_onData])
  show ?thesis
  proof (cases "onData f w")
    case (Done x w1)
    then show ?thesis using q bcAt_markClosed by (intro exI [of _ True]) simp
  qed (use q in \<open>auto intro!: exI [of _ False]\<close>)
qed

lemma bcAt_andThen_close:
  assumes "bcAt s n False k (endState m)"
  shows "\<exists>d. bcAt s n d (k + of_bool d)
     (endState (andThen m (\<lambda>_ w. andThen (onData f w) (\<lambda>_ w. Done () (markClosed w)))))"
proof (cases m)
  case (Done x w1)
  then show ?thesis using bcAt_close [of s n k w1 f] assms by simp
qed (use assms in \<open>auto intro!: exI [of _ False]\<close>)

lemma finishBody_eq:
  "finishBody E b w = (if GetRecordContext (w_data w) \<noteq> None then
     andThen (case b_complete b of
        Some m \<Rightarrow> saveCrawlLogUnlocked E (cm_cl m) w
      | None \<Rightarrow> saveCrawlLogUnlocked E (canceledLog canceledByClient (rc_CrawlLog (w_rc w)))
          (updLog (stampLog E (updLog (canceledLog canceledByClient) w)) (updLog (canceledLog canceledByClient) w)))
       (\<lambda>_ w. andThen (onData (SetRecordContext None) w) (\<lambda>_ w. Done () (markClosed w)))
     else Done () w)"
  by (simp add: finishBody_def markClosed_def Let_def cong: option.case_cong)

lemma bcAt_finishBody:
  assumes "bcAt s n False k w"
  shows "\<exists>d. bcAt s (Suc n) d (k + of_bool d) (endState (finishBody E b w))"
proof (cases "GetRecordContext (w_data w) = None")
  case True
  then show ?thesis using assms by (auto simp: finishBody_eq bcAt_def intro!: exI [of _ False])
next
  case False
  have log: "bcAt s n False k (updLog f (updLog g w))" for f g
    by (rule bcAt_quiet [OF assms bcQuiet_trans [OF quiet_basic(2) quiet_basic(2)]])
  have saved: "bcAt s (Suc n) False k (endState (case b_complete b of
        Some m \<Rightarrow> saveCrawlLogUnlocked E (cm_cl m) w
      | None \<Rightarrow> saveCrawlLogUnlocked E (canceledLog canceledByClient (rc_CrawlLog (w_rc w)))
          (updLog (stampLog E (updLog (canceledLog canceledByClient) w)) (updLog (canceledLog canceledByClient) w))))"
    by (simp add: bcAt_save [OF assms] bcAt_save [OF log] split: option.split)
  show ?thesis
    unfolding finishBody_eq if_P [OF False] by (rule bcAt_andThen_close [OF saved])
qed

lemma bcAt_finish:
  assumes "bcAt LoopSelect 0 False k w"
  shows "\<exists>s d. s \<noteq> LoopSelect \<and> bcAt s 1 d (k + of_bool d) (endState (finish E w))"
proof -
  let ?w1 = "updBcc (b_loop_update (\<lambda>_. LoopFinishing)) w"
  let ?w2 = "updBcc (b_locked_update (\<lambda>_. True)) ?w1"
  have 1: "bcAt LoopFinishing 0 False k ?w1" by (rule bcAt_updBcc [OF assms]) simp_all
  then have 2: "bcAt LoopFinishing 0 False k ?w2" by (rule bcAt_updBcc) simp_all
  obtain b where b: "rc_bcc (w_rc ?w1) = Some b" using 1 by (auto simp: bcAt_def)
  obtain d where d: "bcAt LoopFinishing 1 d (k + of_bool d) (endState (finishBody E b ?w2))"
    using bcAt_finishBody [OF 2] by auto
  have 3: "bcAt LoopFinishing 1 d (k + of_bool d) (updBcc (b_locked_update (\<lambda>_. False)) w3)"
    if "bcAt LoopFinishing 1 d (k + of_bool d) w3" for w3
    using that by (rule bcAt_updBcc) simp_all
  have 4: "bcAt LoopReturned 1 d (k + of_bool d) (updBcc (b_loop_update (\<lambda>_. LoopReturned)) w3)"
    if "bcAt LoopFinishing 1 d (k + of_bool d) w3" for w3
    using that by (rule bcAt_updBcc) simp_all
  show ?thesis
  proof (cases "b_locked b")
    case True
    then have "endState (finish E w) = ?w1" using b by (simp add: finish_def withLock_def)
    then show ?thesis using 1 by (intro exI [of _ LoopFinishing] exI [of _ False]) (auto simp: bcAt_def)
  next
    case False
    show ?thesis
    proof (cases "finishBody E b ?w2")
      case (Done x w3)
      then have "bcAt LoopFinishing 1 d (k + of_bool d) w3" using d by simp
      with Done show ?thesis using b False 3 4
        by (intro exI [of _ LoopReturned] exI [of _ d]) (simp add: finish_def withLock_def)
    next
      case (Panics w3)
      then have "bcAt LoopFinishing 1 d (k + of_bool d) w3" using d by simp
      with Panics show ?thesis using b False 3
        by (intro exI [of _ LoopFinishing] exI [of _ d]) (simp add: finish_def withLock_def)
    next
      case (Blocks w3)
      then have "bcAt LoopFinishing 1 d (k + of_bool d) w3" using d by simp
      with Blocks show ?thesis using b False
        by (intro exI [of _ LoopFinishing] exI [of _ d]) (simp add: finish_def withLock_def)
    qed
  qed
qed

section \<open>Any interleaving of the operations\<close>

datatype bcOp = OpRegister | OpNotify activity | OpSaveCrawlLog | OpRequestError "go_error option"
  | OpResponseError "go_error option" | OpResponseCompleted "go_error option" | OpRecv | OpGone

fun runBcOp :: "env \<Rightarrow> bcOp \<Rightarrow> world \<Rightarrow> world" where
  "runBcOp E OpRegister w = endState (RegisterNewRequest E w)"
| "runBcOp E (OpNotify act) w = endState (notifyDataReceived E act w)"
| "runBcOp E OpSaveCrawlLog w = endState (SaveCrawlLog E w)"
| "runBcOp E (OpRequestError e) w = endState (SendRequestError E e w)"
| "runBcOp E (OpResponseError e) w = endState (SendResponseError E e w)"
| "runBcOp E (OpResponseCompleted e) w = endState (ResponseCompleted E e w)"
| "runBcOp E OpRecv w = recvStep E w"
| "runBcOp E OpGone w = bccClientGone E w"

text \<open>The accounting of a session: \<open>k\<close> sessions were closed before it.\<close>

definition bcInv :: "int \<Rightarrow> world \<Rightarrow> bool" where
  "bcInv k w \<longleftrightarrow> (case rc_bcc (w_rc w) of
     None \<Rightarrow> filter isCompleted (w_bcWire w) = [] \<and> w_closedSess w = k
   | Some b \<Rightarrow> length (filter isCompleted (w_bcWire w)) \<le> (if b_loop b = LoopSelect then 0 else 1) \<and>
       (b_loop b = LoopSelect \<longrightarrow> \<not> b_CtxDone b) \<and> w_closedSess w = k + of_bool (b_CtxDone b))"

lemma bcInv_quiet: "bcInv k w \<Longrightarrow> bcQuiet w w' \<Longrightarrow> bcInv k w'"
  by (auto simp: bcInv_def bcQuiet_def split: option.splits)

lemma bcInv_at: "bcInv k w \<Longrightarrow> rc_bcc (w_rc w) = Some b \<Longrightarrow> b_loop b = LoopSelect \<Longrightarrow> bcAt LoopSelect 0 False k w"
  by (auto simp: bcInv_def bcAt_def)

lemma bcAt_inv: "bcAt s 1 d (k + of_bool d) w \<Longrightarrow> s \<noteq> LoopSelect \<Longrightarrow> bcInv k w"
  by (auto simp: bcInv_def bcAt_def)

lemma bcInv_finish:
  assumes "bcInv k w" "rc_bcc (w_rc w) = Some b" "b_loop b = LoopSelect"
  shows "bcInv k (endState (finish E w))"
  using bcAt_finish [OF bcInv_at [OF assms], of E] bcAt_inv by blast

lemma bcInv_clientGone: "bcInv k w \<Longrightarrow> bcInv k (bccClientGone E w)"
  by (simp add: bccClientGone_def bcInv_finish split: option.split)

lemma cancel_quiet: "bcQuiet w (endState (CancelContentWriter E msg w))"
  by (rule cwFrame_quiet [OF CancelContentWriter_frame])

lemma bcInv_handOverDone: "bcInv k w \<Longrightarrow> bcInv k (endState (handOverDone E err w))"
  by (simp add: handOverDone_def bcInv_finish split: option.split)

lemma bcInv_andThen:
  assumes "bcInv k (endState m)" "\<And>x w. bcInv k w \<Longrightarrow> bcInv k (endState (f x w))"
  shows "bcInv k (endState (andThen m f))"
  using assms by (cases m) auto

lemma bcInv_ResponseCompleted: "bcInv k w \<Longrightarrow> bcInv k (endState (ResponseCompleted E e w))"
  unfolding ResponseCompleted_def
  by (intro bcInv_andThen bcInv_handOverDone)
    (auto intro: bcInv_quiet [OF _ quiet_getBccSession] bcInv_quiet [OF _ cancel_quiet])

lemma runBcOp_bcInv: "bcInv k w \<Longrightarrow> bcInv k (runBcOp E op w)"
  by (cases op)
    (auto intro: bcInv_quiet bcs.RegisterNewRequest_keeps bcs.notify_keeps bcs.SaveCrawlLog_keeps
      bcs.SendRequestError_keeps bcs.SendResponseError_keeps bcs.recvStep_keeps bcInv_ResponseCompleted
      bcInv_clientGone)

lemma runBcOps_bcInv: "bcInv k w \<Longrightarrow> bcInv k (foldl (\<lambda>w op. runBcOp E op w) w ops)"
  by (induction ops arbitrary: w) (simp_all add: runBcOp_bcInv)

section \<open>Properties\<close>

text \<open>
  C9: Whatever the interleaving of registration, notifications, errors, completion, messages from
  the browser controller and loss of the client, a session is reported to the browser
  controller at most once, it is counted as closed at most once, and exactly if its
  context was canceled; nothing is reported while the session waits for its completion.
\<close>

theorem session_reported_once:
  assumes "rc_bcc (w_rc w) = None" and "w_bcWire w = []"
    and "w' = foldl (\<lambda>w op. runBcOp E op w) w ops"
  shows "length (filter isCompleted (w_bcWire w')) \<le> 1 \<and>
     w_closedSess w' = w_closedSess w +
       of_bool (case rc_bcc (w_rc w') of Some b \<Rightarrow> b_CtxDone b | None \<Rightarrow> False) \<and>
     (\<forall>b. rc_bcc (w_rc w') = Some b \<and> b_loop b = LoopSelect \<longrightarrow> filter isCompleted (w_bcWire w') = [])"
proof -
  have "bcInv (w_closedSess w) w" using assms(1,2) by (simp add: bcInv_def)
  then have "bcInv (w_closedSess w) w'" using runBcOps_bcInv assms(3) by simp
  then show ?thesis by (auto simp: bcInv_def split: option.splits if_splits)
qed

theorem session_reported_once_witness:
  "length (filter isCompleted (w_bcWire (foldl (\<lambda>w op. runBcOp okEnv op w) (startWorld [RecvEOF])
     [OpNotify DATA_RECEIVED, OpSaveCrawlLog, OpRecv, OpGone, OpResponseCompleted None]))) \<le> 1"
  using session_reported_once [of "startWorld [RecvEOF]", OF _ _ refl, of okEnv
      "[OpNotify DATA_RECEIVED, OpSaveCrawlLog, OpRecv, OpGone, OpResponseCompleted None]"]
  by (simp add: startWorld_def blankRecordContext_def del: foldl.simps)

end
