(* ===== verification/Session_End.thy ===== *)
theory Session_End
  imports Session_Accounting
begin

text \<open>
  The end of a browser controller session (\<open>finish\<close> in \<open>browsercontroller_client.go\<close>): what it
  reports, when it returns, and what the operations do that come too late. Also the outcome of
  the registration of a request.
\<close>

section \<open>When the end of a session returns\<close>

text \<open>
  The receiver reaches the end of its stream if it is waiting and no cancel that it cannot
  deliver comes before the end.
\<close>

fun streamEnds :: "recvResult list \<Rightarrow> bool" where
  "streamEnds [] \<longleftrightarrow> False"
| "streamEnds (RecvReply (ReplyCancel m) # evs) \<longleftrightarrow> contains m ''robots.txt'' \<and> streamEnds evs"
| "streamEnds (RecvReply r # evs) \<longleftrightarrow> streamEnds evs"
| "streamEnds (ev # evs) \<longleftrightarrow> True"

fun recvEnds :: "recvState \<Rightarrow> recvResult list \<Rightarrow> bool" where
  "recvEnds Receiving evs \<longleftrightarrow> streamEnds evs"
| "recvEnds (Offering r close) evs \<longleftrightarrow> close \<or> streamEnds evs"
| "recvEnds RecvReturned evs \<longleftrightarrow> True"
| "recvEnds RecvStuck evs \<longleftrightarrow> False"

text \<open>Where an operation of the receiver leaves the session, when the first goroutine has left its select.\<close>

definition recvAt :: "loopState \<Rightarrow> bool \<Rightarrow> recvState \<Rightarrow> dataCtx \<Rightarrow> world \<Rightarrow> bool" where
  "recvAt l k s d w \<longleftrightarrow> (\<exists>b. rc_bcc (w_rc w) = Some b \<and> b_loop b = l \<and> b_locked b = k \<and> b_recv b = s) \<and> w_data w = d"

lemma recvAt_updBcc_recv:
  "recvAt l k s d w \<Longrightarrow> recvAt l k s' d (updBcc (b_recv_update (\<lambda>_. s')) w)"
  by (auto simp: recvAt_def updBcc_def)

lemma recvAt_cong:
  "rc_bcc (w_rc w') = rc_bcc (w_rc w) \<Longrightarrow> w_data w' = w_data w \<Longrightarrow> recvAt l k s d w' = recvAt l k s d w"
  by (simp add: recvAt_def)

lemma recvAt_recvCancel:
  assumes "recvAt l k s d w" "l \<noteq> LoopSelect"
  shows "recvAt l k RecvStuck d (recvCancel E w)"
proof -
  let ?w1 = "endState (CancelContentWriter E ''canceled by browser controller'' w)"
  let ?w2 = "updLog (canceledLog canceledByController) ?w1"
  have fr: "cwFrame w ?w1" by (rule CancelContentWriter_frame)
  have "w_data ?w1 = w_data w" using fr by (simp add: cwFrame_def)
  then have at: "recvAt l k s d ?w2" using assms(1) cwFrame_rc(1) [OF fr] by (simp add: recvAt_def)
  then have "completeSend m ?w2 = Blocks ?w2" for m
    using assms(2) by (auto simp: completeSend_def recvAt_def)
  then show ?thesis using recvAt_updBcc_recv [OF at] by (simp add: recvCancel_def Let_def)
qed

text \<open>The receiver's state after a message, when the completion can no longer be handed over.\<close>

fun afterEvent :: "recvResult \<Rightarrow> recvState" where
  "afterEvent (RecvError txt) = Offering (Some (ReplyCancel (unknownBcError txt))) True"
| "afterEvent (RecvReply (ReplyCancel m)) =
     (if contains m ''robots.txt'' then Offering (Some (ReplyCancel m)) False else RecvStuck)"
| "afterEvent (RecvReply r) = Offering (Some r) False"
| "afterEvent ev = Offering None True"

lemma recvEnds_afterEvent: "recvEnds (afterEvent ev) evs = streamEnds (ev # evs)"
  by (cases ev rule: afterEvent.cases) simp_all

lemma recvAt_offer: "recvAt l k s d w \<Longrightarrow> recvAt l k (Offering r c) d (offer r c w)"
  unfolding offer_def by (rule recvAt_updBcc_recv)

lemma recvAt_recvEvent:
  assumes "recvAt l k s d w" "l \<noteq> LoopSelect"
  shows "recvAt l k (afterEvent ev) d (recvEvent E ev w)"
proof -
  have err: "recvAt l k s d (setRcError e w)" for e
    using assms(1) by (simp add: recvAt_def setRcError_def)
  show ?thesis
    using recvAt_offer [OF assms(1)] recvAt_offer [OF err] recvAt_recvCancel [OF assms]
    by (cases "(E, ev, w)" rule: recvEvent.cases) simp_all
qed

text \<open>The drain returns exactly if the receiver reaches the end of its stream, and else waits.\<close>

lemma recvEnds_afterOffer:
  "recvEnds s evs \<longleftrightarrow> afterOffer s = RecvReturned \<or> afterOffer s = Receiving \<and> streamEnds evs"
  by (cases s) (auto simp: afterOffer_def)

lemma recvAt_setBcc:
  "rc_bcc (w_rc w) = Some b \<Longrightarrow> recvAt (b_loop b) (b_locked b) s (w_data w) (setBcc (b\<lparr>b_recv := s\<rparr>) w)"
  by (simp add: recvAt_def)

lemma drainMsgs_outcome:
  assumes "recvAt l k s d w" "l \<noteq> LoopSelect"
  shows "\<exists>s' w'. recvAt l k s' d w' \<and>
     drainMsgs E evs w = (if recvEnds s evs then Done () w' else Blocks w')"
  using assms
proof (induction evs arbitrary: w s)
  case Nil
  then obtain b where b: "rc_bcc (w_rc w) = Some b" "b_loop b = l" "b_recv b = s" "w_data w = d" "b_locked b = k"
    by (auto simp: recvAt_def)
  note step = drainMsgs_Some [OF b(1), of E]
  have at: "recvAt l k s1 d (setBcc (b\<lparr>b_recv := s1\<rparr>) w)" for s1
    using recvAt_setBcc [OF b(1)] b by simp
  show ?case
    using step(1-3) b(3) at
    by (cases "afterOffer s") (auto simp: recvEnds_afterOffer)
next
  case (Cons ev evs)
  then obtain b where b: "rc_bcc (w_rc w) = Some b" "b_loop b = l" "b_recv b = s" "w_data w = d" "b_locked b = k"
    by (auto simp: recvAt_def)
  note step = drainMsgs_Some [OF b(1), of E]
  have at: "recvAt l k s1 d (setBcc (b\<lparr>b_recv := s1\<rparr>) w)" for s1
    using recvAt_setBcc [OF b(1)] b by simp
  show ?case
  proof (cases "afterOffer s")
    case Receiving
    let ?w1 = "(setBcc (b\<lparr>b_recv := Receiving\<rparr>) w)\<lparr>w_bcIn := evs\<rparr>"
    have "recvAt l k Receiving d ?w1" using at [of Receiving] by (simp add: recvAt_def)
    then have "recvAt l k (afterEvent ev) d (recvEvent E ev ?w1)"
      by (rule recvAt_recvEvent [OF _ Cons.prems(2)])
    note IH = Cons.IH [OF this Cons.prems(2)]
    have ends: "recvEnds s (ev # evs) = recvEnds (afterEvent ev) evs"
      by (simp only: recvEnds_afterOffer [of s] recvEnds_afterEvent) (simp add: Receiving)
    have "drainMsgs E (ev # evs) w = drainMsgs E evs (recvEvent E ev ?w1)"
      using step(4) b(3) Receiving by simp
    then show ?thesis unfolding ends by (simp only: IH)
  qed (use step(1,2) b(3) at in \<open>auto simp: recvEnds_afterOffer\<close>)
qed
lemma drain_cases:
  assumes "recvAt l k s d w" "l \<noteq> LoopSelect"
  obtains w' s' where "recvEnds s evs" "drainMsgs E evs w = Done () w'" "recvAt l k s' d w'"
  | w' s' where "\<not> recvEnds s evs" "drainMsgs E evs w = Blocks w'" "recvAt l k s' d w'"
  using drainMsgs_outcome [OF assms, of E evs] by (auto split: if_splits)

lemma SetRecordContext_onData:
  assumes "GetRecordContext (w_data w) \<noteq> None"
  shows "\<exists>d. onData (SetRecordContext v) w = Done () (w\<lparr>w_data := d\<rparr>) \<and> GetRecordContext d = v"
proof -
  obtain m where m: "w_data w = Some m"
    using assms by (cases "w_data w") (auto simp: GetRecordContext_def getValue_def)
  show ?thesis
    by (rule exI [of _ "Some (AList.update KeyRCTX (RecordVal v) m)"])
      (simp add: m onData_def SetRecordContext_def setValue_def getRecordProxyDataAware_def
        GetRecordContext_def getValue_def mapIndex_def update_conv)
qed

text \<open>The log that \<open>finish\<close> reports.\<close>

definition finalLog :: "env \<Rightarrow> bccSession \<Rightarrow> world \<Rightarrow> crawlLog" where
  "finalLog E b w = stampLog E w (case b_complete b of Some m \<Rightarrow> cm_cl m
     | None \<Rightarrow> canceledLog canceledByClient (rc_CrawlLog (w_rc w)))"

lemma saveCrawlLog_outcome:
  assumes "recvAt l k s d w" "l \<noteq> LoopSelect"
  shows "\<exists>w' s'. recvAt l k s' d w' \<and> w_closedSess w' = w_closedSess w \<and>
     (e_bcSend E (Suc (w_tick w)) (DoCompleted (stampLog E w cl) (rc_FoundInCache (w_rc w))) = None \<longrightarrow>
        filter isCompleted (w_bcWire w') = filter isCompleted (w_bcWire w) @
          [DoCompleted (stampLog E w cl) (rc_FoundInCache (w_rc w))]) \<and>
     (\<exists>r. saveCrawlLogUnlocked E cl w = (if recvEnds s (w_bcIn w) then Done r w' else Blocks w'))"
proof -
  let ?r = "DoCompleted (stampLog E w cl) (rc_FoundInCache (w_rc w))"
  obtain e w1 where s: "bcSend E ?r (tick w) = (e, w1)" by (cases "bcSend E ?r (tick w)")
  have w1: "recvAt l k s d (tick w1)" "w_bcIn w1 = w_bcIn w" "w_closedSess w1 = w_closedSess w"
    using bcSend_result [of E ?r "tick w"] s assms(1) by (auto simp: recvAt_def)
  have wire: "e_bcSend E (Suc (w_tick w)) ?r = None \<longrightarrow> w_bcWire w1 = w_bcWire w @ [?r]"
    using s by (auto simp: bcSend_def)
  have q: "bcQuiet (tick w1) (endState (drainMsgs E (w_bcIn w) (tick w1)))" by (rule bcs.drainMsgs_keeps)
  show ?thesis
  proof (rule drain_cases [OF w1(1) assms(2), of "w_bcIn w" E])
    fix w' s' assume d: "recvEnds s (w_bcIn w)" "drainMsgs E (w_bcIn w) (tick w1) = Done () w'" "recvAt l k s' d w'"
    then have "bcQuiet (tick w1) w'" using q by simp
    then show ?thesis using d w1 wire
      by (intro exI [of _ w'] exI [of _ s']) (simp add: saveCrawlLogUnlocked_def s Let_def bcQuiet_def)
  next
    fix w' s' assume d: "\<not> recvEnds s (w_bcIn w)" "drainMsgs E (w_bcIn w) (tick w1) = Blocks w'" "recvAt l k s' d w'"
    then have "bcQuiet (tick w1) w'" using q by simp
    then show ?thesis using d w1 wire
      by (intro exI [of _ w'] exI [of _ s']) (simp add: saveCrawlLogUnlocked_def s Let_def bcQuiet_def)
  qed
qed

text \<open>
  The end of a session, given the session's state before it: the outcome and what was reported.
\<close>

lemma finishBody_outcome:
  assumes "recvAt l k s d w" "l \<noteq> LoopSelect" "GetRecordContext d \<noteq> None"
  shows "\<exists>w'. finishBody E b w = (if recvEnds s (w_bcIn w) then Done () w' else Blocks w') \<and>
     (\<exists>s' d'. recvAt l k s' d' w' \<and> (recvEnds s (w_bcIn w) \<longrightarrow> GetRecordContext d' = None)) \<and>
     w_closedSess w' = w_closedSess w + of_bool (recvEnds s (w_bcIn w)) \<and>
     (recvEnds s (w_bcIn w) \<longrightarrow> (\<exists>b'. rc_bcc (w_rc w') = Some b' \<and> b_CtxDone b')) \<and>
     (e_bcSend E (Suc (w_tick w)) (DoCompleted (finalLog E b w) (rc_FoundInCache (w_rc w))) = None \<longrightarrow>
        filter isCompleted (w_bcWire w') = filter isCompleted (w_bcWire w) @
          [DoCompleted (finalLog E b w) (rc_FoundInCache (w_rc w))])"
proof -
  let ?w = "case b_complete b of Some m \<Rightarrow> w
    | None \<Rightarrow> updLog (stampLog E (updLog (canceledLog canceledByClient) w)) (updLog (canceledLog canceledByClient) w)"
  let ?cl = "case b_complete b of Some m \<Rightarrow> cm_cl m | None \<Rightarrow> canceledLog canceledByClient (rc_CrawlLog (w_rc w))"
  have w: "recvAt l k s d ?w" "w_bcIn ?w = w_bcIn w" "w_closedSess ?w = w_closedSess w" "w_bcWire ?w = w_bcWire w"
    "rc_FoundInCache (w_rc ?w) = rc_FoundInCache (w_rc w)" "w_tick ?w = w_tick w"
    "stampLog E ?w = stampLog E w"
    using assms(1) by (auto simp: recvAt_def stampLog_def fun_eq_iff updLog_def split: option.split)
  have rcd: "GetRecordContext (w_data w) \<noteq> None" using assms(1,3) by (simp add: recvAt_def)
  have fb: "finishBody E b w = andThen (saveCrawlLogUnlocked E ?cl ?w)
      (\<lambda>_ w. andThen (onData (SetRecordContext None) w) (\<lambda>_ w. Done () (markClosed w)))"
    using rcd by (simp add: finishBody_eq split: option.split)
  obtain w' s' r where o: "recvAt l k s' d w'" "w_closedSess w' = w_closedSess w"
     "e_bcSend E (Suc (w_tick w)) (DoCompleted (finalLog E b w) (rc_FoundInCache (w_rc w))) = None \<longrightarrow>
        filter isCompleted (w_bcWire w') = filter isCompleted (w_bcWire w) @
          [DoCompleted (finalLog E b w) (rc_FoundInCache (w_rc w))]"
     "saveCrawlLogUnlocked E ?cl ?w = (if recvEnds s (w_bcIn w) then Done r w' else Blocks w')"
    using saveCrawlLog_outcome [OF w(1) assms(2), of E ?cl] unfolding w(2-7) finalLog_def [symmetric]
    by (elim exE conjE) (rule that; assumption)
  show ?thesis
  proof (cases "recvEnds s (w_bcIn w)")
    case False
    then show ?thesis using o fb by auto
  next
    case True
    have "GetRecordContext (w_data w') \<noteq> None" using o(1) assms(3) by (simp add: recvAt_def)
    then obtain d' where d': "onData (SetRecordContext None) w' = Done () (w'\<lparr>w_data := d'\<rparr>)"
      "GetRecordContext d' = None" using SetRecordContext_onData by blast
    have "finishBody E b w = Done () (markClosed (w'\<lparr>w_data := d'\<rparr>))"
      using fb o(4) True d' by simp
    then show ?thesis using True o d'(2)
      by (auto simp: markClosed_def updBcc_def recvAt_def)
  qed
qed

lemma finish_outcome:
  assumes b: "rc_bcc (w_rc w) = Some b" "\<not> b_locked b" and d: "GetRecordContext (w_data w) \<noteq> None"
  defines "ends \<equiv> recvEnds (b_recv b) (w_bcIn w)"
  shows "\<exists>w'. finish E w = (if ends then Done () w' else Blocks w') \<and>
     w_closedSess w' = w_closedSess w + of_bool ends \<and>
     (ends \<longrightarrow> GetRecordContext (w_data w') = None \<and>
        (\<exists>b'. rc_bcc (w_rc w') = Some b' \<and> b_CtxDone b' \<and> b_loop b' = LoopReturned \<and> \<not> b_locked b')) \<and>
     (\<not> ends \<longrightarrow> (\<exists>b'. rc_bcc (w_rc w') = Some b' \<and> b_loop b' = LoopFinishing \<and> b_locked b')) \<and>
     (e_bcSend E (Suc (w_tick w)) (DoCompleted (finalLog E b w) (rc_FoundInCache (w_rc w))) = None \<longrightarrow>
        filter isCompleted (w_bcWire w') = filter isCompleted (w_bcWire w) @
          [DoCompleted (finalLog E b w) (rc_FoundInCache (w_rc w))])"
proof -
  let ?b = "b\<lparr>b_loop := LoopFinishing\<rparr>"
  let ?w = "setBcc (?b\<lparr>b_locked := True\<rparr>) (setBcc ?b w)"
  have at: "recvAt LoopFinishing True (b_recv b) (w_data w) ?w" by (simp add: recvAt_def)
  have f: "finish E w = andThen (case finishBody E ?b ?w of
         Done x w \<Rightarrow> Done x (updBcc (b_locked_update (\<lambda>_. False)) w)
       | Panics w \<Rightarrow> Panics (updBcc (b_locked_update (\<lambda>_. False)) w)
       | Blocks w \<Rightarrow> Blocks w) (\<lambda>_ w. Done () (updBcc (b_loop_update (\<lambda>_. LoopReturned)) w))"
    using b by (simp add: finish_def withLock_def updBcc_def)
  have log: "finalLog E ?b ?w = finalLog E b w" "rc_FoundInCache (w_rc ?w) = rc_FoundInCache (w_rc w)"
    "w_tick ?w = w_tick w"
    by (simp_all add: finalLog_def stampLog_def setBcc_def fun_eq_iff cong: option.case_cong)
  obtain w' s' d' where o: "finishBody E ?b ?w = (if ends then Done () w' else Blocks w')"
    "recvAt LoopFinishing True s' d' w'" "ends \<longrightarrow> GetRecordContext d' = None"
    "w_closedSess w' = w_closedSess w + of_bool ends"
    "ends \<longrightarrow> (\<exists>b'. rc_bcc (w_rc w') = Some b' \<and> b_CtxDone b')"
    "e_bcSend E (Suc (w_tick w)) (DoCompleted (finalLog E b w) (rc_FoundInCache (w_rc w))) = None \<longrightarrow>
        filter isCompleted (w_bcWire w') = filter isCompleted (w_bcWire w) @
          [DoCompleted (finalLog E b w) (rc_FoundInCache (w_rc w))]"
    using finishBody_outcome [OF at loopState.distinct(2) d, of E ?b]
    unfolding log setBcc_simps ends_def [symmetric]
    by (elim exE conjE) (rule that; assumption)
  then show ?thesis
    by (cases ends) (auto simp: f updBcc_def recvAt_def)
qed
section \<open>Registration\<close>

text \<open>
  What a registration returns for the messages that will arrive on the stream. A cancel that
  does not speak of robots.txt ends the session, but not the registration, which goes on
  waiting; the text of an unknown error arrives as a cancel.
\<close>

fun registerOutcome :: "recvResult list \<Rightarrow> go_error option option" where
  "registerOutcome [] = None"
| "registerOutcome (RecvReply (ReplyCancel m) # evs) =
     (if contains m ''robots.txt'' then Some (Some robotsError) else registerOutcome evs)"
| "registerOutcome (RecvReply r # evs) = Some None"
| "registerOutcome (RecvError txt # evs) = Some (Some robotsError)"
| "registerOutcome (ev # evs) = Some (Some browserClosedError)"

lemma applyNewReply_result:
  assumes "w_data w \<noteq> None" "nr_CollectionRef v \<noteq> None"
  shows "result (applyNewReply v w) = Some None"
  using assms
  by (auto simp: applyNewReply_def onData_def SetJobExecutionId_def SetCrawlExecutionId_def
      SetCollectionRef_def setValue_def getRecordProxyDataAware_def)

lemma recvCancel_select:
  assumes "recvAt LoopSelect k s d w"
  shows "recvAt LoopSelect k s d (recvCancel E w)"
proof -
  let ?w1 = "endState (CancelContentWriter E ''canceled by browser controller'' w)"
  have fr: "cwFrame w ?w1" by (rule CancelContentWriter_frame)
  have "w_data ?w1 = w_data w" using fr by (simp add: cwFrame_def)
  then show ?thesis using assms cwFrame_rc(1) [OF fr]
    by (auto simp: recvCancel_def Let_def completeSend_def recvAt_def)
qed

lemma awaitMsg_offered:
  assumes "recvAt l k (Offering r c) d w"
  shows "\<exists>w'. awaitMsg E evs w = Done (r, True) w' \<and> w_data w' = d"
  using assms by (auto simp: recvAt_def awaitMsg_take)

lemma result_andThen: "result (andThen m f) = (case m of Done x w \<Rightarrow> result (f x w) | _ \<Rightarrow> None)"
  by (cases m) simp_all

lemma registerReply_result:
  assumes "w_data w \<noteq> None"
    and "\<forall>v. r = Some (ReplyNew v) \<longrightarrow> nr_CollectionRef v \<noteq> None"
  shows "result (registerReply (r, True) w) = Some (case r of None \<Rightarrow> Some browserClosedError
     | Some (ReplyCancel m) \<Rightarrow> Some robotsError | _ \<Rightarrow> None)"
  using assms by (cases "((r, True), w)" rule: registerReply.cases) (simp_all add: applyNewReply_result)

lemma await_register:
  assumes "recvAt LoopSelect k Receiving d w" "d \<noteq> None"
    and "\<forall>v. RecvReply (ReplyNew v) \<in> set evs \<longrightarrow> nr_CollectionRef v \<noteq> None"
  shows "result (andThen (awaitMsg E evs w) registerReply) = registerOutcome evs"
  using assms(1,3)
proof (induction evs arbitrary: w)
  case Nil
  then show ?case by (auto simp: recvAt_def awaitMsg_Receiving(1))
next
  case (Cons ev evs)
  let ?w = "w\<lparr>w_bcIn := evs\<rparr>"
  have at: "recvAt LoopSelect k Receiving d ?w" using Cons.prems(1) by (simp add: recvAt_def)
  have step: "awaitMsg E (ev # evs) w = awaitMsg E evs (recvEvent E ev ?w)"
    using Cons.prems(1) by (auto simp: recvAt_def intro: awaitMsg_Receiving(2))
  have offered: "result (andThen (awaitMsg E evs (offer r c v)) registerReply) =
      Some (case r of None \<Rightarrow> Some browserClosedError | Some (ReplyCancel m) \<Rightarrow> Some robotsError | _ \<Rightarrow> None)"
    if "recvAt LoopSelect k Receiving d v" "\<forall>x. r = Some (ReplyNew x) \<longrightarrow> nr_CollectionRef x \<noteq> None" for r c v
    using awaitMsg_offered [OF recvAt_offer [OF that(1)], of E evs r c] registerReply_result [OF _ that(2)] assms(2)
    by (auto simp: result_andThen)
  have err: "recvAt LoopSelect k Receiving d (setRcError e ?w)" for e
    using at by (simp add: recvAt_def setRcError_def)
  have canc: "result (andThen (awaitMsg E evs (recvCancel E ?w)) registerReply) = registerOutcome evs"
    using Cons.IH [OF recvCancel_select [OF at]] Cons.prems(2) by simp
  show ?case
    unfolding step using Cons.prems(2)
    by (cases "ev # evs" rule: registerOutcome.cases)
      (simp_all add: offered [OF at] offered [OF err] canc)
qed
lemma result_withLock:
  "rc_bcc (w_rc w) = Some b \<Longrightarrow> \<not> b_locked b \<Longrightarrow>
     result (withLock f w) = result (f b (setBcc (b\<lparr>b_locked := True\<rparr>) w))"
  by (auto simp: withLock_def updBcc_def split: run.split)

section \<open>What is reported\<close>

fun endsSession :: "bcOp \<Rightarrow> bool" where
  "endsSession OpGone = True"
| "endsSession (OpResponseCompleted e) = True"
| "endsSession op = False"

lemma quiet_runBcOp: "\<not> endsSession op \<Longrightarrow> bcQuiet w (runBcOp E op w)"
  by (cases op) (simp_all add: bcs.RegisterNewRequest_keeps bcs.notify_keeps bcs.SaveCrawlLog_keeps
      bcs.SendRequestError_keeps bcs.SendResponseError_keeps bcs.recvStep_keeps)

lemma quiet_runBcOps:
  "\<forall>op \<in> set ops. \<not> endsSession op \<Longrightarrow> bcQuiet w (foldl (\<lambda>w op. runBcOp E op w) w ops)"
proof (induction ops arbitrary: w)
  case (Cons op ops)
  then have "bcQuiet (runBcOp E op w) (foldl (\<lambda>w op. runBcOp E op w) (runBcOp E op w) ops)" by simp
  then show ?case using bcQuiet_trans [OF quiet_runBcOp [of op w E]] Cons.prems by simp
qed (simp add: bcQuiet_refl)

lemma getBccSession_Done:
  "\<exists>err w'. getBccSession E w = Done err w' \<and> rc_CrawlLog (w_rc w') = rc_CrawlLog (w_rc w)"
  by (auto simp: getBccSession_def split: option.split)

lemma SaveCrawlLog_Done:
  assumes "SaveCrawlLog E w = Done None w1"
  obtains b where "rc_bcc (w_rc w1) = Some b"
    "b_complete b = Some \<lparr>cm_cl = rc_CrawlLog (w_rc w), cm_err = None\<rparr>"
proof -
  obtain err w0 where g: "getBccSession E w = Done err w0" "rc_CrawlLog (w_rc w0) = rc_CrawlLog (w_rc w)"
    using getBccSession_Done [of E w] by blast
  with assms have l: "withLock saveLocked w0 = Done None w1"
    by (auto simp: SaveCrawlLog_def split: if_splits)
  show thesis
  proof (rule that)
    show "rc_bcc (w_rc w1) = Some (the (rc_bcc (w_rc w1)))"
      using l by (auto simp: withLock_def saveLocked_def completeSend_def updBcc_def split: option.splits if_splits)
    show "b_complete (the (rc_bcc (w_rc w1))) = Some \<lparr>cm_cl = rc_CrawlLog (w_rc w), cm_err = None\<rparr>"
      using l g(2) by (auto simp: withLock_def saveLocked_def completeSend_def updBcc_def split: option.splits if_splits)
  qed
qed

lemma register_result:
  assumes "rc_bcc (w_rc w) = None" and "e_bcOpen E (w_tick w) = None" and "w_data w \<noteq> None"
    and "\<forall>v. RecvReply (ReplyNew v) \<in> set (w_bcIn w) \<longrightarrow> nr_CollectionRef v \<noteq> None"
  shows "result (RegisterNewRequest E w) = registerOutcome (w_bcIn w)"
proof -
  let ?w = "setBcc (newBccSession\<lparr>b_locked := True\<rparr>) (setBcc newBccSession (tick w))"
  obtain e w1 where s: "bcSend E (newRequestMsg ?w) ?w = (e, w1)" by (cases "bcSend E (newRequestMsg ?w) ?w")
  have w1: "recvAt LoopSelect True Receiving (w_data w) w1" "w_bcIn w1 = w_bcIn w"
    using bcSend_result [of E "newRequestMsg ?w" ?w] s by (auto simp: recvAt_def newBccSession_def)
  have "RegisterNewRequest E w = withLock (registerLocked E) (setBcc newBccSession (tick w))"
    using assms(1,2) by (simp add: RegisterNewRequest_def getBccSession_def)
  moreover have "result (registerLocked E newBccSession ?w) = registerOutcome (w_bcIn w)"
    using await_register [OF w1(1) assms(3,4), of E] w1(2)
    by (simp add: registerLocked_def s) (simp add: newBccSession_def)
  moreover have "\<not> b_locked newBccSession" by (simp add: newBccSession_def)
  ultimately show ?thesis by (simp add: result_withLock)
qed

section \<open>Properties\<close>

text \<open>
  C17: The registration of a request on a new session returns for exactly the message sequences
  that reach it, with the result \<open>registerOutcome\<close> gives: success for a positive reply, the
  robots.txt error for a cancel that mentions robots.txt and also for an unknown error of the
  stream, and \<open>CANCELLED_BY_BROWSER\<close> when the stream ends; any other cancel leaves it waiting for
  the next message.
\<close>

theorem registration_outcome:
  assumes "rc_bcc (w_rc w) = None" and "e_bcOpen E (w_tick w) = None" and "w_data w \<noteq> None"
    and "\<forall>v. RecvReply (ReplyNew v) \<in> set (w_bcIn w) \<longrightarrow> nr_CollectionRef v \<noteq> None"
  shows "result (RegisterNewRequest E w) = registerOutcome (w_bcIn w)"
  using assms by (rule register_result)

theorem registration_outcome_witness:
  "result (RegisterNewRequest okEnv (startWorld [RecvReply (ReplyCancel ''stopped''), RecvReply ReplyOther]))
     = Some None"
  using registration_outcome [of "startWorld [RecvReply (ReplyCancel ''stopped''), RecvReply ReplyOther]" okEnv]
  by (simp add: startWorld_def blankRecordContext_def okEnv_def hasPrefix_def)

text \<open>
  C18: The end of a session returns exactly if the receiver reaches the end of its stream, that is
  if no cancel without robots.txt arrives first; then the session is counted as closed, its
  context is canceled and the record context is dropped, and else the goroutine waits for ever and keeps the mutex.
\<close>

theorem finish_returns_iff:
  assumes "rc_bcc (w_rc w) = Some b" and "\<not> b_locked b" and "GetRecordContext (w_data w) \<noteq> None"
  shows "returns (finish E w) = recvEnds (b_recv b) (w_bcIn w) \<and>
     w_closedSess (endState (finish E w)) = w_closedSess w + of_bool (returns (finish E w)) \<and>
     (\<exists>b'. rc_bcc (w_rc (endState (finish E w))) = Some b' \<and> b_locked b' = (\<not> returns (finish E w)) \<and>
        (returns (finish E w) \<longrightarrow> b_CtxDone b' \<and> GetRecordContext (w_data (endState (finish E w))) = None))"
  using finish_outcome [OF assms, of E] by auto

theorem finish_returns_iff_witness:
  "returns (finish okEnv (setBcc newBccSession (startWorld [RecvReply ReplyOther, RecvEOF])))"
  using finish_returns_iff [of "setBcc newBccSession (startWorld [RecvReply ReplyOther, RecvEOF])" newBccSession okEnv]
  by (simp add: startWorld_def newBccSession_def GetRecordContext_def getValue_def mapIndex_def)

lemma recvStuck_after_cancel:
  "b_recv b = Receiving \<Longrightarrow> \<not> contains m ''robots.txt'' \<Longrightarrow>
     \<not> recvEnds (b_recv b) (RecvReply (ReplyCancel m) # evs)"
  by simp

lemma locked_blocks:
  assumes "rc_bcc (w_rc w) = Some b" "b_locked b"
  shows "SaveCrawlLog E w = Blocks w" "notifyDataReceived E a w = Blocks w"
    "SendResponseError E (Some e) w = Blocks w" "RegisterNewRequest E w = Blocks w"
  using assms
  by (simp_all add: SaveCrawlLog_def notifyDataReceived_def SendResponseError_def RegisterNewRequest_def
      getBccSession_def withLock_def)

text \<open>
  A cancel of the browser controller that arrives while the session is being finished, and
  that does not mention robots.txt, is never handed over: the receiver waits on a channel that nobody reads, the end of the
  session does not return, the session is never counted as closed and every later operation on it blocks.
\<close>

theorem late_cancel_deadlock:
  assumes "rc_bcc (w_rc w) = Some b" and "\<not> b_locked b" and "b_recv b = Receiving"
    and "GetRecordContext (w_data w) \<noteq> None"
    and "w_bcIn w = RecvReply (ReplyCancel m) # evs" and "\<not> contains m ''robots.txt''"
    and "w' = endState (finish E w)"
  shows "\<not> returns (finish E w) \<and> w_closedSess w' = w_closedSess w \<and>
     SaveCrawlLog E w' = Blocks w' \<and> notifyDataReceived E a w' = Blocks w' \<and>
     SendResponseError E (Some e) w' = Blocks w' \<and> RegisterNewRequest E w' = Blocks w'"
proof -
  obtain w1 b1 where "finish E w = Blocks w1" "w_closedSess w1 = w_closedSess w"
    "rc_bcc (w_rc w1) = Some b1" "b_locked b1"
    using finish_outcome [OF assms(1,2,4), of E] assms(3,5,6) by auto
  then show ?thesis using assms(7) locked_blocks [of w1 b1] by simp
qed

theorem late_cancel_deadlock_witness:
  "\<not> returns (finish okEnv (setBcc newBccSession (startWorld [RecvReply (ReplyCancel ''stopped''), RecvEOF])))"
  using late_cancel_deadlock [of "setBcc newBccSession (startWorld [RecvReply (ReplyCancel ''stopped''), RecvEOF])"
      newBccSession "''stopped''" "[RecvEOF]" _ okEnv, OF _ _ _ _ _ _ refl]
  by (simp add: startWorld_def newBccSession_def GetRecordContext_def getValue_def mapIndex_def hasPrefix_def)

text \<open>
  C23: The first completion of a session is the one that is reported: after \<open>SaveCrawlLog\<close> has
  handed over the crawl log, no later operation that does not end the session changes what the end of
  the session sends, up to the fetch time and the IP address stamped on it.
\<close>

theorem first_completion_reported:
  assumes "SaveCrawlLog E w = Done None w1"
    and "\<forall>op \<in> set ops. \<not> endsSession op"
    and "w2 = foldl (\<lambda>w op. runBcOp E op w) w1 ops"
    and "rc_bcc (w_rc w2) = Some b" and "\<not> b_locked b" and "GetRecordContext (w_data w2) \<noteq> None"
    and "\<forall>t r. e_bcSend E t r = None"
  shows "filter isCompleted (w_bcWire (endState (finish E w2))) = filter isCompleted (w_bcWire w1) @
     [DoCompleted (stampLog E w2 (rc_CrawlLog (w_rc w))) (rc_FoundInCache (w_rc w2))]"
proof -
  obtain b1 where b1: "rc_bcc (w_rc w1) = Some b1"
    "b_complete b1 = Some \<lparr>cm_cl = rc_CrawlLog (w_rc w), cm_err = None\<rparr>"
    using SaveCrawlLog_Done [OF assms(1)] .
  have q: "bcQuiet w1 w2" using quiet_runBcOps [OF assms(2)] assms(3) by simp
  then have "b_complete b = Some \<lparr>cm_cl = rc_CrawlLog (w_rc w), cm_err = None\<rparr>"
    and wire: "filter isCompleted (w_bcWire w2) = filter isCompleted (w_bcWire w1)"
    using b1 assms(4) by (auto simp: bcQuiet_def)
  then have log: "finalLog E b w2 = stampLog E w2 (rc_CrawlLog (w_rc w))" by (simp add: finalLog_def)
  show ?thesis
    using finish_outcome [OF assms(4-6), of E] assms(7) unfolding log wire by auto
qed

theorem first_completion_reported_witness:
  "filter isCompleted (w_bcWire (endState (finish okEnv
       (endState (SaveCrawlLog okEnv (startWorld [RecvEOF])))))) =
     [DoCompleted (stampLog okEnv (endState (SaveCrawlLog okEnv (startWorld [RecvEOF]))) emptyCrawlLog) False]"
proof -
  let ?w = "startWorld [RecvEOF]"
  let ?w1 = "endState (SaveCrawlLog okEnv ?w)"
  let ?b = "newBccSession\<lparr>b_complete := Some \<lparr>cm_cl = emptyCrawlLog, cm_err = None\<rparr>\<rparr>"
  have save: "SaveCrawlLog okEnv ?w = Done None ?w1" and b: "rc_bcc (w_rc ?w1) = Some ?b"
    and rest: "w_bcWire ?w1 = []" "\<not> rc_FoundInCache (w_rc ?w1)" "rc_CrawlLog (w_rc ?w) = emptyCrawlLog"
      "GetRecordContext (w_data ?w1) \<noteq> None" "\<not> b_locked ?b"
    by (simp_all add: SaveCrawlLog_def saveLocked_def getBccSession_def withLock_def updBcc_def completeSend_def okEnv_def
        startWorld_def blankRecordContext_def newBccSession_def GetRecordContext_def getValue_def mapIndex_def)
  show ?thesis
    using first_completion_reported [OF save, of "[]", OF _ _ b] rest by (simp add: okEnv_def)
qed

text \<open>
  When the client goes away before the response was completed, the session reports the crawl
  log with status -5011 and the error that says so, whatever the log held before; after a
  completion it reports that completion instead.
\<close>

theorem client_gone_reported:
  assumes "rc_bcc (w_rc w) = Some b" and "b_loop b = LoopSelect" and "\<not> b_locked b"
    and "GetRecordContext (w_data w) \<noteq> None" and "\<forall>t r. e_bcSend E t r = None"
  shows "\<exists>cl. filter isCompleted (w_bcWire (bccClientGone E w)) =
       filter isCompleted (w_bcWire w) @ [DoCompleted cl (rc_FoundInCache (w_rc w))] \<and>
     cl = stampLog E w (case b_complete b of Some m \<Rightarrow> cm_cl m
       | None \<Rightarrow> (rc_CrawlLog (w_rc w))\<lparr>cl_StatusCode := -5011, cl_RecordType := ''response'',
           cl_ContentType := [], cl_Error := Some \<lparr>ceCode = -5011, ceMsg = ''CANCELED_BY_BROWSER'',
             ceDetail = ''Veidemann recorder proxy lost connection to client''\<rparr>\<rparr>)"
proof -
  have cl: "canceledLog canceledByClient c = c\<lparr>cl_StatusCode := -5011, cl_RecordType := ''response'',
           cl_ContentType := [], cl_Error := Some \<lparr>ceCode = -5011, ceMsg = ''CANCELED_BY_BROWSER'',
             ceDetail = ''Veidemann recorder proxy lost connection to client''\<rparr>\<rparr>" for c
    by (simp add: canceledLog_def canceledByClient_def newError_def AsCommonsError_def
        errorCodeInt32_def CanceledByBrowser_def RecordResponse_def int32_id)
  show ?thesis
    using finish_outcome [OF assms(1,3,4), of E] assms(1,2,5)
    unfolding finalLog_def cl by (auto simp: bccClientGone_def)
qed

theorem client_gone_reported_witness:
  "\<exists>cl. filter isCompleted (w_bcWire (bccClientGone okEnv (setBcc newBccSession (startWorld [RecvEOF])))) =
     [DoCompleted cl False] \<and> cl_StatusCode cl = -5011"
  using client_gone_reported [of "setBcc newBccSession (startWorld [RecvEOF])" newBccSession okEnv]
  by (simp add: startWorld_def newBccSession_def blankRecordContext_def okEnv_def stampLog_def
      GetRecordContext_def getValue_def mapIndex_def)

end
