(* ===== verification/Bodies.thy ===== *)
theory Bodies
  imports Session_End
begin

text \<open>
  The wrappers around the request and the response body (\<open>recorderproxy/request_handler.go\<close> and
  \<open>recorderproxy/response_handler.go\<close>): whoever reads a body through its wrapper records it. A
  wrapper is a record of its own state; the record meta it holds a pointer to is the entry for its
  record number in the meta message of the record context. The wrapped body is the list of
  what its \<open>Read\<close> will return, whatever the size of the caller's buffer.
\<close>

section \<open>The record metas\<close>

definition putRecordMeta :: "recordMeta \<Rightarrow> writeMeta \<Rightarrow> writeMeta" where
  "putRecordMeta r = wm_RecordMeta_update (AList.update (rm_RecordNum r) r)"

text \<open>A write through the pointer to the record meta of a body.\<close>

definition updRecordMeta :: "int \<Rightarrow> (recordMeta \<Rightarrow> recordMeta) \<Rightarrow> world \<Rightarrow> world" where
  "updRecordMeta n f = w_rc_update (rc_Meta_update (map_option (wm_RecordMeta_update (AList.map_entry n f))))"

definition newRecordMeta :: "int \<Rightarrow> recordType \<Rightarrow> string \<Rightarrow> recordMeta" where
  "newRecordMeta n t ct = \<lparr>rm_RecordNum = n, rm_Type = t, rm_RecordContentType = ct,
     rm_Size = 0, rm_BlockDigest = []\<rparr>"

text \<open>
  \<open>b.recordContext.Meta.Meta.RecordMeta[n] = m\<close> and the two assignments to the crawl log that follow it in both
  constructors; a nil record context or meta panics.
\<close>

definition startRecord :: "recordMeta \<Rightarrow> int \<Rightarrow> string \<Rightarrow> world \<Rightarrow> (unit, world) run" where
  "startRecord m status contentType w =
     (if GetRecordContext (w_data w) = None \<or> rc_Meta (w_rc w) = None then Panics w
      else Done () (updLog (\<lambda>cl. cl\<lparr>cl_StatusCode := status, cl_ContentType := contentType\<rparr>)
        (w_rc_update (rc_Meta_update (map_option (putRecordMeta m))) w)))"

definition payloadError :: "go_error \<Rightarrow> go_error" where
  "payloadError e = ErrorString (''error writing payload to content writer: '' @ errText e)"

section \<open>The request body (recorderproxy/request_handler.go)\<close>

record wrappedRequestBody =
  q_ReadCloser :: reader
  q_recNum :: int
  q_size :: int
  q_blockCrc :: hashState
  q_eof :: bool

definition WrapRequestBody ::
    "env \<Rightarrow> reader \<Rightarrow> string \<Rightarrow> bytes \<Rightarrow> world \<Rightarrow> (go_error + wrappedRequestBody, world) run" where
  "WrapRequestBody E body contentType prolog w =
     andThen (startRecord (newRecordMeta 0 RT_REQUEST RecordContentTypeRequest) (-1) contentType w) (\<lambda>_ w.
     andThen (SendProtocolHeader E 0 prolog w) (\<lambda>err w.
       case err of
         Some e \<Rightarrow> Done (Inl (payloadError e)) w
       | None \<Rightarrow> Done (Inr \<lparr>q_ReadCloser = body, q_recNum = 0, q_size = int (length prolog),
           q_blockCrc = snd (hashWrite prolog sha1New), q_eof = False\<rparr>) w))"

text \<open>One \<open>Read\<close>: the bytes and the error for the caller, and the wrapper afterwards.\<close>

definition requestBodyRead ::
    "env \<Rightarrow> wrappedRequestBody \<Rightarrow> world \<Rightarrow> ((bytes \<times> go_error option) \<times> wrappedRequestBody, world) run" where
  "requestBodyRead E b w =
     (if q_eof b then Done (([], Some IoEOF), b) w
      else case readerRead (q_ReadCloser b) of ((d, err), src) \<Rightarrow>
        let b = b\<lparr>q_ReadCloser := src\<rparr>
        in andThen
          (if d \<noteq> [] then
             (let b = b\<lparr>q_size := q_size b + int (length d), q_blockCrc := writeCrc d (q_blockCrc b)\<rparr>
              in andThen (SendPayload E (q_recNum b) d w) (\<lambda>err2 w. Done b w))
           else Done b w)
          (\<lambda>b w.
             if err = Some IoEOF then
               Done ((d, err), b\<lparr>q_eof := True\<rparr>)
                 (updRecordMeta (q_recNum b) (\<lambda>m. m\<lparr>rm_Size := q_size b,
                    rm_BlockDigest := blockDigestOf (q_blockCrc b)\<rparr>) w)
             else Done ((d, err), b) w))"

section \<open>The response body (recorderproxy/response_handler.go)\<close>

text \<open>\<open>p_replacementReader\<close>: what is left of the replacement script, once it is read from.\<close>

record wrappedResponseBody =
  p_ReadCloser :: reader
  p_recNum :: int
  p_size :: int
  p_blockCrc :: hashState
  p_replacementReader :: "bytes option"
  p_eof :: bool

definition WrapResponseBody ::
    "env \<Rightarrow> reader \<Rightarrow> int \<Rightarrow> string \<Rightarrow> recordType \<Rightarrow> bytes \<Rightarrow> world
       \<Rightarrow> (go_error + wrappedResponseBody, world) run" where
  "WrapResponseBody E body statusCode contentType recordType prolog w =
     andThen (startRecord (newRecordMeta 1 recordType RecordContentTypeResponse) statusCode contentType w) (\<lambda>_ w.
     let b = \<lparr>p_ReadCloser = body, p_recNum = 1, p_size = int (length prolog),
           p_blockCrc = snd (hashWrite prolog sha1New), p_replacementReader = None, p_eof = False\<rparr>
     in if \<not> rc_FoundInCache (w_rc w) then
          andThen (SendProtocolHeader E 1 prolog w) (\<lambda>err w.
            case err of Some e \<Rightarrow> Done (Inl (payloadError e)) w | None \<Rightarrow> Done (Inr b) w)
        else Done (Inr b) w)"

definition handleCachedContent :: "env \<Rightarrow> wrappedResponseBody \<Rightarrow> world \<Rightarrow> (unit, world) run" where
  "handleCachedContent E b w =
     (let w = updLog (cl_Size_update (\<lambda>_. p_size b)) w
      in andThen (SaveCrawlLog E w) (\<lambda>_ w.
         andThen (CancelContentWriter E ''OK: Loaded from cache'' w) (\<lambda>_ w. Done () w)))"

text \<open>The fields of the crawl log that the content writer's reply fills in.\<close>

definition applyWriteReply :: "wrappedResponseBody \<Rightarrow> string \<Rightarrow> replyMeta \<Rightarrow> crawlLog \<Rightarrow> crawlLog" where
  "applyWriteReply b digest r cl = cl\<lparr>
     cl_CollectionFinalName := rp_CollectionFinalName r, cl_WarcId := rp_WarcId r,
     cl_StorageRef := rp_StorageRef r, cl_WarcRefersTo := rp_RevisitReferenceId r,
     cl_Size := p_size b, cl_RecordType := toLower (recordTypeString (rp_Type r)),
     cl_BlockDigest := digest, cl_PayloadDigest := rp_PayloadDigest r\<rparr>"

definition writeMetaError :: "go_error \<Rightarrow> go_error option" where
  "writeMetaError e = Wrap (Some e) RuntimeException ''Error writing to content writer'' (errText e)"

text \<open>What \<open>innerRead\<close> does with the outcome of \<open>SendMeta\<close>; a reply without the record panics.\<close>

definition afterMeta :: "env \<Rightarrow> wrappedResponseBody \<Rightarrow> string \<Rightarrow> go_error + writeReply option \<Rightarrow> world \<Rightarrow> (unit, world) run" where
  "afterMeta E b digest reply w = (case reply of
     Inl e \<Rightarrow> andThen (SendResponseError E (writeMetaError e) w) (\<lambda>_ w. Done () w)
   | Inr None \<Rightarrow> Done () w
   | Inr (Some None) \<Rightarrow> Panics w
   | Inr (Some (Some metas)) \<Rightarrow>
       (case map_of metas (p_recNum b) of
          None \<Rightarrow> Panics w
        | Some r \<Rightarrow> andThen (SaveCrawlLog E (updLog (applyWriteReply b digest r) w)) (\<lambda>_ w. Done () w)))"

definition responseBodyEOF :: "env \<Rightarrow> wrappedResponseBody \<Rightarrow> world \<Rightarrow> (unit, world) run" where
  "responseBodyEOF E b w =
     (if rc_FoundInCache (w_rc w) then handleCachedContent E b w
      else andThen (NotifyAllDataReceived E w) (\<lambda>_ w.
        let digest = blockDigestOf (p_blockCrc b);
            w = updRecordMeta (p_recNum b) (\<lambda>m. m\<lparr>rm_Size := p_size b, rm_BlockDigest := digest\<rparr>) w
        in andThen (SendMeta E w) (afterMeta E b digest)))"

definition recordChunk :: "env \<Rightarrow> bytes \<Rightarrow> wrappedResponseBody \<Rightarrow> world \<Rightarrow> (wrappedResponseBody, world) run" where
  "recordChunk E d b w =
     (if d \<noteq> [] \<and> \<not> rc_FoundInCache (w_rc w) then
        andThen (NotifyDataReceived E w) (\<lambda>_ w.
          let b = b\<lparr>p_size := p_size b + int (length d), p_blockCrc := writeCrc d (p_blockCrc b)\<rparr>
          in andThen (SendPayload E (p_recNum b) d w) (\<lambda>err2 w. Done b w))
      else Done b w)"

text \<open>\<open>innerRead\<close> after the wrapped body returned \<open>d\<close> and \<open>err\<close>.\<close>

definition innerReadStep ::
    "env \<Rightarrow> bytes \<times> go_error option \<Rightarrow> wrappedResponseBody \<Rightarrow> world
       \<Rightarrow> ((bytes \<times> go_error option) \<times> wrappedResponseBody, world) run" where
  "innerReadStep E out b w = (case out of (d, err) \<Rightarrow>
     if p_eof b then Done (([], Some IoEOF), b) w
     else andThen (recordChunk E d b w) (\<lambda>b w.
       if err = Some IoEOF then
         (let b = b\<lparr>p_eof := True\<rparr>
          in andThen (responseBodyEOF E b w) (\<lambda>_ w. Done ((d, err), b) w))
       else Done ((d, err), b) w))"

definition innerRead ::
    "env \<Rightarrow> wrappedResponseBody \<Rightarrow> world \<Rightarrow> ((bytes \<times> go_error option) \<times> wrappedResponseBody, world) run" where
  "innerRead E b w = (case readerRead (p_ReadCloser b) of (out, src) \<Rightarrow>
     innerReadStep E out (b\<lparr>p_ReadCloser := src\<rparr>) w)"

text \<open>
  The loop that stores the original body before the replacement script is served; it returns
  the error that ends it, \<open>None\<close> for the end of the body. Each round takes one entry of the
  wrapped body, which reports \<open>io.EOF\<close> when there is none left.
\<close>

fun storeOriginal ::
    "env \<Rightarrow> reader \<Rightarrow> wrappedResponseBody \<Rightarrow> world \<Rightarrow> (go_error option \<times> wrappedResponseBody, world) run" where
  "storeOriginal E [] b w =
     andThen (innerReadStep E ([], Some IoEOF) (b\<lparr>p_ReadCloser := []\<rparr>) w) (\<lambda>(out, b) w. Done (None, b) w)"
| "storeOriginal E (x # xs) b w =
     andThen (innerReadStep E x (b\<lparr>p_ReadCloser := xs\<rparr>) w) (\<lambda>((d, err), b) w.
       if err = Some IoEOF then Done (None, b) w
       else if err \<noteq> None then Done (err, b) w
       else storeOriginal E xs b w)"

text \<open>\<open>bytes.Reader.Read\<close> into a buffer of length \<open>k\<close>\<close>

definition bytesRead :: "nat \<Rightarrow> bytes \<Rightarrow> (bytes \<times> go_error option) \<times> bytes" where
  "bytesRead k s = (if s = [] then (([], Some IoEOF), []) else ((take k s, None), drop k s))"

definition serveReplacement ::
    "nat \<Rightarrow> bytes \<Rightarrow> wrappedResponseBody \<Rightarrow> (bytes \<times> go_error option) \<times> wrappedResponseBody" where
  "serveReplacement k s b = (case bytesRead k s of (out, rest) \<Rightarrow> (out, b\<lparr>p_replacementReader := Some rest\<rparr>))"

definition responseBodyRead ::
    "env \<Rightarrow> nat \<Rightarrow> wrappedResponseBody \<Rightarrow> world
       \<Rightarrow> ((bytes \<times> go_error option) \<times> wrappedResponseBody, world) run" where
  "responseBodyRead E k b w = (case rc_ReplacementScript (w_rc w) of
     None \<Rightarrow> innerRead E b w
   | Some script \<Rightarrow>
      (case p_replacementReader b of
         Some s \<Rightarrow> Done (serveReplacement k s b) w
       | None \<Rightarrow> andThen (storeOriginal E (p_ReadCloser b) b w) (\<lambda>(err, b) w.
           case err of
             Some e \<Rightarrow> Done (([], Some e), b) w
           | None \<Rightarrow> Done (serveReplacement k script b) w)))"

end
