(* ===== verification/Body_Recording.thy ===== *)
theory Body_Recording
  imports Bodies
begin

text \<open>
  What the body wrappers promise: reading a body through its wrapper gives exactly what the
  wrapped body gives, while the content writer gets all of it and the record meta ends up with the size and
  the digest of prolog and body. \<open>recorded\<close> is what every step on the way keeps.
\<close>

section \<open>The content writer session while bodies are recorded\<close>

lemma sendOnSession_returns:
  assumes "rc_cwc (w_rc w) \<noteq> None"
  shows "\<exists>e w'. sendOnSession E r w = Done e w' \<and> cwFrame w w'"
proof -
  have "\<exists>e w'. sendOnSession E r w = Done e w'"
    using assms by (auto simp: sendOnSession_def getCwcSession_def split: option.split prod.split)
  then show ?thesis using sendOnSession_frame [of w E r] by auto
qed

text \<open>A session that accepts data, and an environment in which its sends succeed.\<close>

definition cwLive :: "world \<Rightarrow> bool" where
  "cwLive w \<longleftrightarrow> (case rc_cwc (w_rc w) of None \<Rightarrow> False
     | Some c \<Rightarrow> \<not> cw_canceled c \<and> \<not> cw_Closed c \<and> \<not> cw_done c)"

definition sendsSucceed :: "env \<Rightarrow> bool" where
  "sendsSucceed E \<longleftrightarrow> (\<forall>t r. e_cwSend E t False r = None)"

lemma sendOnSession_live:
  assumes "sendsSucceed E" "cwLive w"
  shows "sendOnSession E r w = Done None (tick (w\<lparr>w_cwWire := w_cwWire w @ [r]\<rparr>))"
  using assms by (auto simp: sendOnSession_def getCwcSession_def cwSend_def cwStreamClosed_def
      sendsSucceed_def cwLive_def split: option.splits)

text \<open>The browser controller session takes notifications and a completion without blocking.\<close>

definition bcReady :: "world \<Rightarrow> bool" where
  "bcReady w \<longleftrightarrow> (case rc_bcc (w_rc w) of None \<Rightarrow> True
     | Some b \<Rightarrow> \<not> b_locked b \<and> (b_loop b = LoopSelect \<or> b_complete b \<noteq> None))"

text \<open>
  \<open>recorded E ms w w'\<close>: from \<open>w\<close> to \<open>w'\<close> the record context kept its meta, its crawl log and its
  flags; a session stays open and ready; and where the content writer accepts what it gets, it got exactly \<open>ms\<close>.
\<close>

definition recorded :: "env \<Rightarrow> writeRequest list \<Rightarrow> world \<Rightarrow> world \<Rightarrow> bool" where
  "recorded E ms w w' \<longleftrightarrow> rc_Meta (w_rc w') = rc_Meta (w_rc w) \<and>
     rc_FoundInCache (w_rc w') = rc_FoundInCache (w_rc w) \<and>
     rc_ReplacementScript (w_rc w') = rc_ReplacementScript (w_rc w) \<and>
     rc_CrawlLog (w_rc w') = rc_CrawlLog (w_rc w) \<and> w_data w' = w_data w \<and>
     (rc_cwc (w_rc w) \<noteq> None \<longrightarrow> rc_cwc (w_rc w') \<noteq> None) \<and> (bcReady w \<longrightarrow> bcReady w') \<and>
     (sendsSucceed E \<and> cwLive w \<longrightarrow> cwLive w' \<and> w_cwWire w' = w_cwWire w @ ms)"

lemma recorded_refl: "recorded E [] w w"
  by (simp add: recorded_def)

lemma recorded_trans: "recorded E ms w w1 \<Longrightarrow> recorded E ns w1 w2 \<Longrightarrow> recorded E (ms @ ns) w w2"
  by (simp add: recorded_def)

lemma recorded_keeps:
  assumes "recorded E ms w w'"
  shows "rc_Meta (w_rc w') = rc_Meta (w_rc w)" "rc_FoundInCache (w_rc w') = rc_FoundInCache (w_rc w)"
    "rc_ReplacementScript (w_rc w') = rc_ReplacementScript (w_rc w)"
    "rc_CrawlLog (w_rc w') = rc_CrawlLog (w_rc w)" "w_data w' = w_data w"
    "rc_cwc (w_rc w) \<noteq> None \<Longrightarrow> rc_cwc (w_rc w') \<noteq> None" "bcReady w \<Longrightarrow> bcReady w'"
    "sendsSucceed E \<Longrightarrow> cwLive w \<Longrightarrow> cwLive w' \<and> w_cwWire w' = w_cwWire w @ ms"
  using assms by (simp_all add: recorded_def)

lemma sendOnSession_recorded:
  assumes "rc_cwc (w_rc w) \<noteq> None"
  obtains e w' where "sendOnSession E r w = Done e w'" "recorded E [r] w w'"
proof -
  obtain e w' where s: "sendOnSession E r w = Done e w'" "cwFrame w w'"
    using sendOnSession_returns [OF assms] by blast
  have "bcReady w' = bcReady w" using cwFrame_rc(1) [OF s(2)] by (simp add: bcReady_def)
  moreover have "cwLive w' \<and> w_cwWire w' = w_cwWire w @ [r]" if "sendsSucceed E" "cwLive w"
    using s(1) sendOnSession_live [OF that] that(2) by (auto simp: cwLive_def)
  ultimately have "recorded E [r] w w'"
    using s(2) cwFrame_rc [OF s(2)] by (simp add: recorded_def cwFrame_def)
  then show thesis using that s(1) by blast
qed

section \<open>Reading the request body to its end\<close>

text \<open>\<open>requestReads n\<close>: the outputs of \<open>n\<close> successive reads.\<close>

fun requestReads :: "env \<Rightarrow> nat \<Rightarrow> wrappedRequestBody \<Rightarrow> world
     \<Rightarrow> ((bytes \<times> go_error option) list \<times> wrappedRequestBody, world) run" where
  "requestReads E 0 b w = Done ([], b) w"
| "requestReads E (Suc n) b w = andThen (requestBodyRead E b w) (\<lambda>(out, b) w.
     andThen (requestReads E n b w) (\<lambda>(outs, b) w. Done (out # outs, b) w))"

definition chunksOf :: "reader \<Rightarrow> bytes" where
  "chunksOf xs = concat (map fst xs)"

lemma chunksOf_simps [simp]: "chunksOf [] = []" "chunksOf (x # xs) = fst x @ chunksOf xs"
  "chunksOf (xs @ ys) = chunksOf xs @ chunksOf ys"
  by (simp_all add: chunksOf_def)

definition payloadMsgs :: "int \<Rightarrow> bytes \<Rightarrow> writeRequest list" where
  "payloadMsgs n d = (if d = [] then [] else [ReqPayload n d])"

definition streamMsgs :: "int \<Rightarrow> reader \<Rightarrow> writeRequest list" where
  "streamMsgs n xs = concat (map (\<lambda>x. payloadMsgs n (fst x)) xs)"

lemma streamMsgs_simps [simp]: "streamMsgs n [] = []"
  "streamMsgs n (x # xs) = payloadMsgs n (fst x) @ streamMsgs n xs"
  "streamMsgs n (xs @ ys) = streamMsgs n xs @ streamMsgs n ys"
  by (simp_all add: streamMsgs_def)

lemma SendPayload_recorded:
  assumes "rc_cwc (w_rc w) \<noteq> None"
  shows "\<exists>e w'. (d = [] \<longrightarrow> w' = w) \<and> (d \<noteq> [] \<longrightarrow> SendPayload E n d w = Done e w') \<and>
     recorded E (payloadMsgs n d) w w'"
proof (cases "d = []")
  case True
  then show ?thesis using recorded_refl by (simp add: payloadMsgs_def)
next
  case False
  obtain e w' where "sendOnSession E (ReqPayload n d) w = Done e w'" "recorded E [ReqPayload n d] w w'"
    using sendOnSession_recorded [OF assms] .
  then show ?thesis using False by (auto simp: SendPayload_def payloadMsgs_def)
qed

lemma requestBodyRead_data:
  assumes "rc_cwc (w_rc w) \<noteq> None" "q_ReadCloser b = (d, e) # xs" "\<not> q_eof b" "e \<noteq> Some IoEOF"
  shows "\<exists>w'. requestBodyRead E b w = Done ((d, e), b\<lparr>q_ReadCloser := xs,
     q_size := q_size b + int (length d), q_blockCrc := q_blockCrc b @ d\<rparr>) w' \<and>
     recorded E (payloadMsgs (q_recNum b) d) w w'"
proof -
  obtain e2 w' where "d = [] \<longrightarrow> w' = w" "d \<noteq> [] \<longrightarrow> SendPayload E (q_recNum b) d w = Done e2 w'"
    "recorded E (payloadMsgs (q_recNum b) d) w w'"
    using SendPayload_recorded [OF assms(1), of d E "q_recNum b"] by blast
  then show ?thesis using assms(2-4)
    by (cases "d = []") (auto simp: requestBodyRead_def Let_def)
qed

lemma requestBodyRead_end:
  assumes "rc_cwc (w_rc w) \<noteq> None" "q_ReadCloser b = (d, Some IoEOF) # xs" "\<not> q_eof b"
  shows "\<exists>w' b'. requestBodyRead E b w = Done ((d, Some IoEOF), b')
     (updRecordMeta (q_recNum b) (\<lambda>m. m\<lparr>rm_Size := q_size b + int (length d),
        rm_BlockDigest := blockDigestOf (q_blockCrc b @ d)\<rparr>) w') \<and>
     recorded E (payloadMsgs (q_recNum b) d) w w' \<and> q_eof b'"
proof -
  obtain e2 w' where "d = [] \<longrightarrow> w' = w" "d \<noteq> [] \<longrightarrow> SendPayload E (q_recNum b) d w = Done e2 w'"
    "recorded E (payloadMsgs (q_recNum b) d) w w'"
    using SendPayload_recorded [OF assms(1), of d E "q_recNum b"] by blast
  then show ?thesis using assms(2,3)
    by (cases "d = []") (auto simp: requestBodyRead_def Let_def)
qed

text \<open>A body that reports its end once, with its last bytes.\<close>

definition endsOnce :: "reader \<Rightarrow> bool" where
  "endsOnce xs \<longleftrightarrow> (\<forall>x \<in> set xs. snd x \<noteq> Some IoEOF)"

lemma requestReads_all:
  assumes "rc_cwc (w_rc w) \<noteq> None" "q_ReadCloser b = xs @ [(d, Some IoEOF)]" "\<not> q_eof b" "endsOnce xs"
  shows "\<exists>b' w'. requestReads E (Suc (length xs)) b w = Done (xs @ [(d, Some IoEOF)], b')
     (updRecordMeta (q_recNum b) (\<lambda>m. m\<lparr>rm_Size := q_size b + int (length (chunksOf xs @ d)),
        rm_BlockDigest := blockDigestOf (q_blockCrc b @ chunksOf xs @ d)\<rparr>) w') \<and>
     recorded E (streamMsgs (q_recNum b) xs @ payloadMsgs (q_recNum b) d) w w' \<and> q_eof b'"
  using assms
proof (induction xs arbitrary: b w)
  case Nil
  then show ?case using requestBodyRead_end [of w b d "[]" E] by fastforce
next
  case (Cons x xs)
  let ?b = "b\<lparr>q_ReadCloser := xs @ [(d, Some IoEOF)], q_size := q_size b + int (length (fst x)),
     q_blockCrc := q_blockCrc b @ fst x\<rparr>"
  obtain w1 where r: "requestBodyRead E b w = Done (x, ?b) w1"
    and f: "recorded E (payloadMsgs (q_recNum b) (fst x)) w w1"
    using requestBodyRead_data [of w b "fst x" "snd x" "xs @ [(d, Some IoEOF)]" E] Cons.prems
    by (auto simp: endsOnce_def)
  have "endsOnce xs" using Cons.prems(4) by (simp add: endsOnce_def)
  then obtain b' w' where ih: "requestReads E (Suc (length xs)) ?b w1 = Done (xs @ [(d, Some IoEOF)], b')
     (updRecordMeta (q_recNum b) (\<lambda>m. m\<lparr>rm_Size := q_size b + int (length ((fst x @ chunksOf xs) @ d)),
        rm_BlockDigest := blockDigestOf (q_blockCrc b @ (fst x @ chunksOf xs) @ d)\<rparr>) w')"
    "recorded E (streamMsgs (q_recNum b) xs @ payloadMsgs (q_recNum b) d) w1 w'" "q_eof b'"
    using Cons.IH [of w1 ?b] recorded_keeps(6) [OF f Cons.prems(1)] Cons.prems(3) by (auto simp: add.assoc)
  have "requestReads E (Suc (length (x # xs))) b w =
      Done ((x # xs) @ [(d, Some IoEOF)], b')
     (updRecordMeta (q_recNum b) (\<lambda>m. m\<lparr>rm_Size := q_size b + int (length ((fst x @ chunksOf xs) @ d)),
        rm_BlockDigest := blockDigestOf (q_blockCrc b @ (fst x @ chunksOf xs) @ d)\<rparr>) w')"
    using r ih(1) by simp
  then show ?case using recorded_trans [OF f ih(2)] ih(3) by auto
qed

lemma hashWrite_new [simp]: "snd (hashWrite p sha1New) = p"
  by (simp add: hashWrite_def sha1New_def)

lemma sendOnSession_Done_None:
  "sendOnSession E r w = Done None w' \<Longrightarrow> rc_cwc (w_rc w') \<noteq> None"
proof -
  assume a: "sendOnSession E r w = Done None w'"
  obtain err w1 where "getCwcSession E w = Done err w1" "(rc_cwc (w_rc w1) = None) = (err \<noteq> None)"
    using getCwcSession_Done [of E w] by auto
  then show ?thesis using a cwSend_frame [of E r w1]
    by (auto simp: cwFrame_def sendOnSession_def split: option.splits if_splits prod.splits)
qed

lemma startRecord_Done:
  assumes "startRecord m st ct w = Done u w'"
  obtains wm where "rc_Meta (w_rc w) = Some wm" "rc_Meta (w_rc w') = Some (putRecordMeta m wm)"
    "w' = updLog (\<lambda>cl. cl\<lparr>cl_StatusCode := st, cl_ContentType := ct\<rparr>)
        (w_rc_update (rc_Meta_update (map_option (putRecordMeta m))) w)"
  using assms by (auto simp: startRecord_def split: if_splits)

lemma WrapRequestBody_Inr:
  assumes "WrapRequestBody E body ct prolog w0 = Done (Inr b) w"
  shows "b = \<lparr>q_ReadCloser = body, q_recNum = 0, q_size = int (length prolog),
       q_blockCrc = prolog, q_eof = False\<rparr>"
    and "rc_cwc (w_rc w) \<noteq> None"
    and "\<exists>wm. rc_Meta (w_rc w0) = Some wm \<and>
       rc_Meta (w_rc w) = Some (putRecordMeta (newRecordMeta 0 RT_REQUEST RecordContentTypeRequest) wm)"
proof -
  obtain u w1 where s: "startRecord (newRecordMeta 0 RT_REQUEST RecordContentTypeRequest) (-1) ct w0 = Done u w1"
    "SendProtocolHeader E 0 prolog w1 = Done None w"
    "b = \<lparr>q_ReadCloser = body, q_recNum = 0, q_size = int (length prolog), q_blockCrc = prolog, q_eof = False\<rparr>"
    using assms by (auto simp: WrapRequestBody_def andThen_Done_iff split: option.splits)
  show "b = \<lparr>q_ReadCloser = body, q_recNum = 0, q_size = int (length prolog),
       q_blockCrc = prolog, q_eof = False\<rparr>" by (rule s(3))
  show "rc_cwc (w_rc w) \<noteq> None" using s(2) sendOnSession_Done_None by (simp add: SendProtocolHeader_def)
  have "cwFrame w1 w" using sendOnSession_frame [of w1 E "ReqProtocolHeader 0 prolog"] s(2)
    by (simp add: SendProtocolHeader_def)
  then show "\<exists>wm. rc_Meta (w_rc w0) = Some wm \<and>
       rc_Meta (w_rc w) = Some (putRecordMeta (newRecordMeta 0 RT_REQUEST RecordContentTypeRequest) wm)"
    using startRecord_Done [OF s(1)] by (metis cwFrame_rc(3))
qed

lemma map_entry_update: "AList.map_entry k f (AList.update k v xs) = AList.update k (f v) xs"
  by (induction xs) auto

lemma updRecordMeta_put:
  "rc_Meta (w_rc w) = Some (putRecordMeta m wm) \<Longrightarrow>
     rc_Meta (w_rc (updRecordMeta (rm_RecordNum m) f w)) = Some (wm_RecordMeta_update (AList.update (rm_RecordNum m) (f m)) wm)"
  by (simp add: updRecordMeta_def putRecordMeta_def map_entry_update)

section \<open>The browser controller session while the response is recorded\<close>

lemma getBccSession_recorded:
  "\<exists>e w'. getBccSession E w = Done e w' \<and> recorded E [] w w' \<and> (e = None \<longrightarrow> rc_bcc (w_rc w') \<noteq> None)"
  by (auto simp: getBccSession_def recorded_def bcReady_def newBccSession_def cwLive_def WrapInternalError_def
      split: option.splits)

text \<open>What an operation under the mutex may change: the session, but not where its first goroutine is.\<close>

definition lockedEffect :: "bccSession \<Rightarrow> world \<Rightarrow> world \<Rightarrow> bool" where
  "lockedEffect b w w' \<longleftrightarrow> (\<exists>b'. rc_bcc (w_rc w') = Some b' \<and> b_loop b' = b_loop b \<and>
       (b_complete b \<noteq> None \<longrightarrow> b_complete b' \<noteq> None)) \<and>
     rc_Meta (w_rc w') = rc_Meta (w_rc w) \<and> rc_FoundInCache (w_rc w') = rc_FoundInCache (w_rc w) \<and>
     rc_ReplacementScript (w_rc w') = rc_ReplacementScript (w_rc w) \<and>
     w_data w' = w_data w \<and> rc_cwc (w_rc w') = rc_cwc (w_rc w) \<and> w_cwWire w' = w_cwWire w"

definition logKept :: "world \<Rightarrow> world \<Rightarrow> bool" where
  "logKept w w' \<longleftrightarrow> rc_CrawlLog (w_rc w') = rc_CrawlLog (w_rc w)"

lemma withLock_effect:
  assumes "bcReady w" "rc_bcc (w_rc w) = Some b"
    and "f b (setBcc (b\<lparr>b_locked := True\<rparr>) w) = Done x w'" "lockedEffect b w w'"
  shows "\<exists>w''. withLock f w = Done x w'' \<and> (logKept w w' \<longrightarrow> recorded E [] w w'') \<and>
     rc_Meta (w_rc w'') = rc_Meta (w_rc w) \<and> w_cwWire w'' = w_cwWire w \<and>
     rc_ReplacementScript (w_rc w'') = rc_ReplacementScript (w_rc w)"
proof -
  obtain b' where b': "rc_bcc (w_rc w') = Some b'" "b_loop b' = b_loop b"
    "b_complete b \<noteq> None \<longrightarrow> b_complete b' \<noteq> None" using assms(4) by (auto simp: lockedEffect_def)
  have ready: "\<not> b_locked b" "b_loop b = LoopSelect \<or> b_complete b \<noteq> None"
    using assms(1,2) by (auto simp: bcReady_def)
  have "withLock f w = Done x (setBcc (b'\<lparr>b_locked := False\<rparr>) w')"
    using assms(2,3) ready(1) b'(1) by (simp add: withLock_def updBcc_def)
  then show ?thesis using b' ready assms(4)
    by (auto simp: recorded_def bcReady_def cwLive_def lockedEffect_def logKept_def)
qed

lemma lockedEffect_same:
  assumes "rc_bcc (w_rc w') = Some b'" "b_loop b' = b_loop b" "b_complete b \<noteq> None \<longrightarrow> b_complete b' \<noteq> None"
    "rc_Meta (w_rc w') = rc_Meta (w_rc w)" "rc_FoundInCache (w_rc w') = rc_FoundInCache (w_rc w)"
    "rc_ReplacementScript (w_rc w') = rc_ReplacementScript (w_rc w)"
    "w_data w' = w_data w" "rc_cwc (w_rc w') = rc_cwc (w_rc w)" "w_cwWire w' = w_cwWire w"
  shows "lockedEffect b w w'"
  using assms by (simp add: lockedEffect_def)

lemma notifyLocked_effect:
  assumes "rc_bcc (w_rc w) = Some b"
  shows "\<exists>x w'. notifyLocked E act b (setBcc (b\<lparr>b_locked := True\<rparr>) w) = Done x w' \<and>
     lockedEffect b w w' \<and> logKept w w'"
  using bcSend_result [of E "DoNotify act" "setBcc (b\<lparr>b_locked := True\<rparr>) w"]
  by (cases "b_complete b") (auto simp: notifyLocked_def lockedEffect_def logKept_def)

lemma notify_recorded:
  assumes "bcReady w"
  shows "\<exists>e w'. notifyDataReceived E act w = Done e w' \<and> recorded E [] w w'"
proof -
  obtain e w1 where g: "getBccSession E w = Done e w1" "recorded E [] w w1" "e = None \<longrightarrow> rc_bcc (w_rc w1) \<noteq> None"
    using getBccSession_recorded [of E w] by auto
  show ?thesis
  proof (cases e)
    case (Some x)
    then show ?thesis using g by (simp add: notifyDataReceived_def)
  next
    case None
    then obtain b where b: "rc_bcc (w_rc w1) = Some b" using g(3) by blast
    obtain x w2 where n: "notifyLocked E act b (setBcc (b\<lparr>b_locked := True\<rparr>) w1) = Done x w2"
      "lockedEffect b w1 w2" "logKept w1 w2" using notifyLocked_effect [OF b] by blast
    obtain w3 where "withLock (notifyLocked E act) w1 = Done x w3" "recorded E [] w1 w3"
      using withLock_effect [where E = E and f = "notifyLocked E act", OF recorded_keeps(7) [OF g(2) assms] b n(1,2)] n(3) by blast
    then show ?thesis using g(1) None recorded_trans [OF g(2)] by (fastforce simp: notifyDataReceived_def)
  qed
qed

section \<open>Reading the response body to its end\<close>

fun responseReads :: "env \<Rightarrow> nat \<Rightarrow> nat \<Rightarrow> wrappedResponseBody \<Rightarrow> world
     \<Rightarrow> ((bytes \<times> go_error option) list \<times> wrappedResponseBody, world) run" where
  "responseReads E k 0 b w = Done ([], b) w"
| "responseReads E k (Suc n) b w = andThen (responseBodyRead E k b w) (\<lambda>(out, b) w.
     andThen (responseReads E k n b w) (\<lambda>(outs, b) w. Done (out # outs, b) w))"

lemma recordChunk_recorded:
  assumes "rc_cwc (w_rc w) \<noteq> None" "bcReady w" "\<not> rc_FoundInCache (w_rc w)"
  shows "\<exists>w'. recordChunk E d b w = Done (b\<lparr>p_size := p_size b + int (length d),
     p_blockCrc := p_blockCrc b @ d\<rparr>) w' \<and> recorded E (payloadMsgs (p_recNum b) d) w w'"
proof (cases "d = []")
  case True
  then show ?thesis using recorded_refl by (auto simp: recordChunk_def payloadMsgs_def)
next
  case False
  obtain e w1 where n: "notifyDataReceived E DATA_RECEIVED w = Done e w1" "recorded E [] w w1"
    using notify_recorded [OF assms(2)] by blast
  obtain e2 w2 where p: "SendPayload E (p_recNum b) d w1 = Done e2 w2"
    "recorded E (payloadMsgs (p_recNum b) d) w1 w2"
    using SendPayload_recorded [OF recorded_keeps(6) [OF n(2) assms(1)], of d E "p_recNum b"] False by blast
  show ?thesis
    using False assms(3) n(1) p recorded_trans [OF n(2) p(2)]
    by (simp add: recordChunk_def NotifyDataReceived_def Let_def)
qed

text \<open>The parts of the session that the end of the body needs.\<close>

lemma session_effect:
  assumes "bcReady w"
    and "\<And>b w1. rc_bcc (w_rc w1) = Some b \<Longrightarrow> bcReady w1 \<Longrightarrow>
       \<exists>x w'. f b (setBcc (b\<lparr>b_locked := True\<rparr>) w1) = Done x w' \<and> lockedEffect b w1 w'"
  shows "\<exists>e w'. andThen (getBccSession E w) (\<lambda>err w. if err \<noteq> None then Done err w else withLock f w)
       = Done e w' \<and> rc_Meta (w_rc w') = rc_Meta (w_rc w) \<and> w_cwWire w' = w_cwWire w \<and>
     rc_ReplacementScript (w_rc w') = rc_ReplacementScript (w_rc w)"
proof -
  obtain e w1 where g: "getBccSession E w = Done e w1" "recorded E [] w w1" "e = None \<longrightarrow> rc_bcc (w_rc w1) \<noteq> None"
    using getBccSession_recorded [of E w] by auto
  have wire: "w_cwWire w1 = w_cwWire w"
    using g(1) by (auto simp: getBccSession_def split: option.splits)
  show ?thesis
  proof (cases e)
    case (Some x)
    then show ?thesis using g wire recorded_keeps(1,3) [OF g(2)] by simp
  next
    case None
    then obtain b where b: "rc_bcc (w_rc w1) = Some b" using g(3) by blast
    have ready: "bcReady w1" by (rule recorded_keeps(7) [OF g(2) assms(1)])
    obtain x w2 where n: "f b (setBcc (b\<lparr>b_locked := True\<rparr>) w1) = Done x w2" "lockedEffect b w1 w2"
      using assms(2) [OF b ready] by blast
    obtain w3 where "withLock f w1 = Done x w3" "rc_Meta (w_rc w3) = rc_Meta (w_rc w1)"
      "w_cwWire w3 = w_cwWire w1" "rc_ReplacementScript (w_rc w3) = rc_ReplacementScript (w_rc w1)"
      using withLock_effect [where f = f and E = E, OF ready b n] by blast
    then show ?thesis
      using g(1) None wire recorded_keeps(1,3) [OF g(2)] by simp
  qed
qed

lemma SaveCrawlLog_effect:
  assumes "bcReady w"
  shows "\<exists>e w'. SaveCrawlLog E w = Done e w' \<and> rc_Meta (w_rc w') = rc_Meta (w_rc w) \<and>
     w_cwWire w' = w_cwWire w \<and>
     rc_ReplacementScript (w_rc w') = rc_ReplacementScript (w_rc w)"
  unfolding SaveCrawlLog_def
  by (rule session_effect [OF assms])
    (auto simp: saveLocked_def completeSend_def lockedEffect_def bcReady_def)

lemma SendResponseError_effect:
  assumes "bcReady w"
  shows "\<exists>e w'. SendResponseError E (Some err) w = Done e w' \<and> rc_Meta (w_rc w') = rc_Meta (w_rc w) \<and>
     w_cwWire w' = w_cwWire w \<and>
     rc_ReplacementScript (w_rc w') = rc_ReplacementScript (w_rc w)"
  unfolding SendResponseError_def option.case
  by (rule session_effect [OF assms])
    (auto simp: sendErrorLocked_def completeSend_def lockedEffect_def bcReady_def Let_def)

lemma cwSend_live:
  assumes "sendsSucceed E" "rc_cwc (w_rc w) = Some c" "\<not> cw_Closed c"
  shows "cwSend E r w = (None, tick (w\<lparr>w_cwWire := w_cwWire w @ [r]\<rparr>))"
  using assms by (simp add: cwSend_def cwStreamClosed_def sendsSucceed_def)

lemma endStream_wire [simp]: "w_cwWire (cwCtxCancel w) = w_cwWire w" "w_cwWire (snd (cwCloseAndRecv E w)) = w_cwWire w"
  by (simp_all add: cwCtxCancel_def cwCloseAndRecv_def updCwc_def split: option.split)

lemma SendMeta_effect:
  assumes "rc_cwc (w_rc w) \<noteq> None" "rc_Meta (w_rc w) = Some m"
  shows "\<exists>r w'. SendMeta E w = Done r w' \<and> cwFrame w w' \<and>
     (\<forall>reply. r = Inr (Some reply) \<longrightarrow> (\<exists>t sent. e_cwClose E t sent = Inr reply)) \<and>
     (sendsSucceed E \<and> cwLive w \<longrightarrow> w_cwWire w' = w_cwWire w @ [ReqMeta m])"
proof -
  obtain c where c: "rc_cwc (w_rc w) = Some c" using assms(1) by blast
  then have s: "SendMeta E w = sendMetaStep E None w" by (simp add: SendMeta_def getCwcSession_def)
  have fr: "cwFrame w (endState (SendMeta E w))" by (rule SendMeta_frame)
  show ?thesis
  proof (cases "cw_canceled c \<or> cw_done c")
    case True
    then show ?thesis using c s fr by (auto simp: sendMetaStep_def cwLive_def)
  next
    case False
    let ?w = "setCwc (c\<lparr>cw_done := True\<rparr>) w"
    obtain e w2 where send: "cwSend E (ReqMeta m) ?w = (e, w2)" by fastforce
    obtain rep w3 where close: "cwCloseAndRecv E w2 = (rep, w3)" by fastforce
    have live: "e = None \<and> w_cwWire w2 = w_cwWire w @ [ReqMeta m]" if "sendsSucceed E" "cwLive w"
      using that c send cwSend_live [OF that(1), of ?w "c\<lparr>cw_done := True\<rparr>" "ReqMeta m"]
      by (auto simp: cwLive_def)
    have rep: "\<exists>t sent. e_cwClose E t sent = rep" using close by (auto simp: cwCloseAndRecv_def)
    have w3: "w_cwWire w3 = w_cwWire w2" using close by (metis endStream_wire(2) snd_conv)
    show ?thesis using False c assms(2) s fr send close live rep w3
      by (cases e; cases rep) (auto simp: sendMetaStep_def Let_def)
  qed
qed

text \<open>The content writer's reply holds a record meta for the record.\<close>

definition replyHas :: "env \<Rightarrow> int \<Rightarrow> bool" where
  "replyHas E n \<longleftrightarrow> (\<forall>t sent. case e_cwClose E t sent of Inl e \<Rightarrow> True
     | Inr None \<Rightarrow> False | Inr (Some metas) \<Rightarrow> n \<in> fst ` set metas)"

lemma afterMeta_effect:
  assumes "bcReady w" "replyHas E (p_recNum b)" "\<forall>reply. r = Inr (Some reply) \<longrightarrow> (\<exists>t sent. e_cwClose E t sent = Inr reply)"
  shows "\<exists>w'. afterMeta E b digest r w = Done () w' \<and> rc_Meta (w_rc w') = rc_Meta (w_rc w) \<and>
     w_cwWire w' = w_cwWire w \<and>
     rc_ReplacementScript (w_rc w') = rc_ReplacementScript (w_rc w)"
proof (cases r)
  case (Inl e)
  then show ?thesis
    using SendResponseError_effect [OF assms(1), of E
        "ProxyError RuntimeException ''Error writing to content writer'' (errText e) (Some e) StatusServiceUnavailable"]
    by (auto simp: afterMeta_def writeMetaError_def Wrap_def)
next
  case (Inr ro)
  show ?thesis
  proof (cases ro)
    case None
    then show ?thesis using Inr by (simp add: afterMeta_def)
  next
    case (Some reply)
    then obtain t sent where "e_cwClose E t sent = Inr reply"
      using assms(3) Inr by blast
    then obtain metas where metas: "reply = Some metas" "p_recNum b \<in> fst ` set metas"
      using assms(2) unfolding replyHas_def
      by (cases reply) (auto split: sum.splits option.splits dest!: spec [of _ t] spec [of _ sent])
    then obtain rp where "map_of metas (p_recNum b) = Some rp"
      by (metis map_of_eq_None_iff not_None_eq)
    moreover have "bcReady (updLog f w)" for f using assms(1) by (simp add: bcReady_def)
    ultimately show ?thesis
      using Inr Some metas SaveCrawlLog_effect [of "updLog (applyWriteReply b digest rp) w" E]
      by (auto simp: afterMeta_def)
  qed
qed

lemma responseBodyEOF_effect:
  assumes "rc_cwc (w_rc w) \<noteq> None" "rc_Meta (w_rc w) = Some m" "bcReady w" "\<not> rc_FoundInCache (w_rc w)"
    and "replyHas E (p_recNum b)"
  defines "m' \<equiv> wm_RecordMeta_update (AList.map_entry (p_recNum b)
     (\<lambda>r. r\<lparr>rm_Size := p_size b, rm_BlockDigest := blockDigestOf (p_blockCrc b)\<rparr>)) m"
  shows "\<exists>w'. responseBodyEOF E b w = Done () w' \<and> rc_Meta (w_rc w') = Some m' \<and>
     rc_ReplacementScript (w_rc w') = rc_ReplacementScript (w_rc w) \<and>
     (sendsSucceed E \<and> cwLive w \<longrightarrow> w_cwWire w' = w_cwWire w @ [ReqMeta m'])"
proof -
  obtain e w1 where n: "notifyDataReceived E ALL_DATA_RECEIVED w = Done e w1" "recorded E [] w w1"
    using notify_recorded [OF assms(3)] by blast
  note k = recorded_keeps [OF n(2)]
  let ?w2 = "updRecordMeta (p_recNum b) (\<lambda>r. r\<lparr>rm_Size := p_size b, rm_BlockDigest := blockDigestOf (p_blockCrc b)\<rparr>) w1"
  have w2: "rc_cwc (w_rc ?w2) \<noteq> None" "rc_Meta (w_rc ?w2) = Some m'" "bcReady ?w2" "cwLive ?w2 = cwLive w1"
    "w_cwWire ?w2 = w_cwWire w1" "rc_ReplacementScript (w_rc ?w2) = rc_ReplacementScript (w_rc w)"
    using k(1,3,6,7) assms(1-3) by (simp_all add: updRecordMeta_def m'_def bcReady_def cwLive_def)
  obtain r w3 where s: "SendMeta E ?w2 = Done r w3" "cwFrame ?w2 w3"
    "\<forall>reply. r = Inr (Some reply) \<longrightarrow> (\<exists>t sent. e_cwClose E t sent = Inr reply)"
    "sendsSucceed E \<and> cwLive ?w2 \<longrightarrow> w_cwWire w3 = w_cwWire ?w2 @ [ReqMeta m']"
    using SendMeta_effect [OF w2(1,2), of E] by blast
  have "bcReady w3" using w2(3) cwFrame_rc(1) [OF s(2)] by (simp add: bcReady_def)
  then obtain w4 where a: "afterMeta E b (blockDigestOf (p_blockCrc b)) r w3 = Done () w4"
    "rc_Meta (w_rc w4) = rc_Meta (w_rc w3)" "w_cwWire w4 = w_cwWire w3"
    "rc_ReplacementScript (w_rc w4) = rc_ReplacementScript (w_rc w3)"
    using afterMeta_effect [OF _ assms(5) s(3)] by blast
  show ?thesis
    using n(1) s(1,4) a assms(4) cwFrame_rc(3,5) [OF s(2)] w2(2,4,5,6) k(8)
    by (auto simp: responseBodyEOF_def NotifyAllDataReceived_def Let_def)
qed

text \<open>A session in which a response can be recorded to its end.\<close>

definition canRecord :: "world \<Rightarrow> bool" where
  "canRecord w \<longleftrightarrow> rc_cwc (w_rc w) \<noteq> None \<and> bcReady w \<and> \<not> rc_FoundInCache (w_rc w)"

lemma canRecord_recorded: "recorded E ms w w' \<Longrightarrow> canRecord w \<Longrightarrow> canRecord w'"
  by (simp add: canRecord_def recorded_def)

text \<open>The entry of a record in the meta message, once all of its bytes are known.\<close>

definition closeMeta :: "int \<Rightarrow> bytes \<Rightarrow> writeMeta \<Rightarrow> writeMeta" where
  "closeMeta n all = wm_RecordMeta_update (AList.map_entry n
     (\<lambda>r. r\<lparr>rm_Size := int (length all), rm_BlockDigest := blockDigestOf all\<rparr>))"

definition sizeExact :: "wrappedResponseBody \<Rightarrow> bool" where
  "sizeExact b \<longleftrightarrow> p_size b = int (length (p_blockCrc b))"

definition addChunk :: "bytes \<Rightarrow> wrappedResponseBody \<Rightarrow> wrappedResponseBody" where
  "addChunk d b = b\<lparr>p_size := p_size b + int (length d), p_blockCrc := p_blockCrc b @ d\<rparr>"

lemma addChunk_simps [simp]:
  "p_blockCrc (addChunk d b) = p_blockCrc b @ d" "p_recNum (addChunk d b) = p_recNum b"
  "p_eof (addChunk d b) = p_eof b" "p_ReadCloser (addChunk d b) = p_ReadCloser b"
  "sizeExact b \<Longrightarrow> sizeExact (addChunk d b)"
  by (simp_all add: addChunk_def sizeExact_def)

lemma sizeExact_src [simp]: "sizeExact (b\<lparr>p_ReadCloser := xs\<rparr>) = sizeExact b"
  by (simp add: sizeExact_def)

lemma innerReadStep_data:
  assumes "canRecord w" "\<not> p_eof b" "e \<noteq> Some IoEOF"
  shows "\<exists>w'. innerReadStep E (d, e) b w = Done ((d, e), addChunk d b) w' \<and>
     recorded E (payloadMsgs (p_recNum b) d) w w'"
  using recordChunk_recorded [of w E d b] assms by (auto simp: innerReadStep_def canRecord_def addChunk_def)

lemma innerReadStep_end:
  fixes d :: bytes
  assumes "canRecord w" "\<not> p_eof b" "sizeExact b" "rc_Meta (w_rc w) = Some m" "replyHas E (p_recNum b)"
  defines "m' \<equiv> closeMeta (p_recNum b) (p_blockCrc b @ d) m"
  shows "\<exists>w' b'. innerReadStep E (d, Some IoEOF) b w = Done ((d, Some IoEOF), b') w' \<and> p_eof b' \<and>
     rc_Meta (w_rc w') = Some m' \<and>
     rc_ReplacementScript (w_rc w') = rc_ReplacementScript (w_rc w) \<and>
     (sendsSucceed E \<and> cwLive w \<longrightarrow> w_cwWire w' = w_cwWire w @ payloadMsgs (p_recNum b) d @ [ReqMeta m'])"
proof -
  obtain w1 where r: "recordChunk E d b w = Done (addChunk d b) w1" "recorded E (payloadMsgs (p_recNum b) d) w w1"
    using recordChunk_recorded [of w E d b] assms(1) by (auto simp: canRecord_def addChunk_def)
  let ?b = "(addChunk d b)\<lparr>p_eof := True\<rparr>"
  have can: "canRecord w1" by (rule canRecord_recorded [OF r(2) assms(1)])
  have meta: "rc_Meta (w_rc w1) = Some m" using recorded_keeps(1) [OF r(2)] assms(4) by simp
  have m': "m' = wm_RecordMeta_update (AList.map_entry (p_recNum ?b)
     (\<lambda>r. r\<lparr>rm_Size := p_size ?b, rm_BlockDigest := blockDigestOf (p_blockCrc ?b)\<rparr>)) m"
    using assms(3) by (simp add: m'_def closeMeta_def addChunk_def sizeExact_def)
  obtain w2 where e: "responseBodyEOF E ?b w1 = Done () w2" "rc_Meta (w_rc w2) = Some m'"
    "rc_ReplacementScript (w_rc w2) = rc_ReplacementScript (w_rc w1)"
    "sendsSucceed E \<and> cwLive w1 \<longrightarrow> w_cwWire w2 = w_cwWire w1 @ [ReqMeta m']"
    using responseBodyEOF_effect [of w1 m E ?b] can meta assms(5) unfolding m' canRecord_def by auto
  show ?thesis
    using r(1) e assms(2) recorded_keeps(3,8) [OF r(2)] by (auto simp: innerReadStep_def)
qed

lemma responseBodyRead_plain:
  assumes "rc_ReplacementScript (w_rc w) = None" "p_ReadCloser b = x # xs"
  shows "responseBodyRead E k b w = innerReadStep E x (b\<lparr>p_ReadCloser := xs\<rparr>) w"
  using assms by (simp add: responseBodyRead_def innerRead_def)

text \<open>The outcome shared by all ways to read the original body to its end.\<close>

definition storedAll :: "env \<Rightarrow> int \<Rightarrow> bytes \<Rightarrow> reader \<Rightarrow> bytes \<Rightarrow> world \<Rightarrow> world \<Rightarrow> bool" where
  "storedAll E n pre xs d w w' \<longleftrightarrow>
     rc_ReplacementScript (w_rc w') = rc_ReplacementScript (w_rc w) \<and> (\<exists>m. rc_Meta (w_rc w) = Some m \<and>
     rc_Meta (w_rc w') = Some (closeMeta n (pre @ chunksOf xs @ d) m) \<and>
     (sendsSucceed E \<and> cwLive w \<longrightarrow> w_cwWire w' = w_cwWire w @ streamMsgs n xs @ payloadMsgs n d @
        [ReqMeta (closeMeta n (pre @ chunksOf xs @ d) m)]))"

lemma storedAll_step:
  assumes "recorded E (payloadMsgs n (fst x)) w w1" "storedAll E n (pre @ fst x) xs d w1 w'"
  shows "storedAll E n pre (x # xs) d w w'"
  using assms(2) recorded_keeps(1,3,8) [OF assms(1)] unfolding storedAll_def by (auto simp: append_assoc)

lemma responseReads_all:
  assumes "canRecord w" "rc_ReplacementScript (w_rc w) = None" "p_ReadCloser b = xs @ [(d, Some IoEOF)]"
    "\<not> p_eof b" "sizeExact b" "endsOnce xs" "rc_Meta (w_rc w) = Some m" "replyHas E (p_recNum b)"
  shows "\<exists>b' w'. responseReads E k (Suc (length xs)) b w = Done (xs @ [(d, Some IoEOF)], b') w' \<and>
     storedAll E (p_recNum b) (p_blockCrc b) xs d w w'"
  using assms(1-7) assms(8)
proof (induction xs arbitrary: b w)
  case Nil
  let ?b = "b\<lparr>p_ReadCloser := []\<rparr>"
  obtain w' b' where r: "innerReadStep E (d, Some IoEOF) ?b w = Done ((d, Some IoEOF), b') w'"
    "rc_Meta (w_rc w') = Some (closeMeta (p_recNum b) (p_blockCrc b @ d) m)"
    "rc_ReplacementScript (w_rc w') = rc_ReplacementScript (w_rc w)"
    "sendsSucceed E \<and> cwLive w \<longrightarrow> w_cwWire w' = w_cwWire w @ payloadMsgs (p_recNum b) d @
       [ReqMeta (closeMeta (p_recNum b) (p_blockCrc b @ d) m)]"
    using innerReadStep_end [of w ?b m E d] Nil.prems by auto
  then show ?case
    using responseBodyRead_plain [OF Nil.prems(2), of b "(d, Some IoEOF)" "[]" E k] Nil.prems(3,7)
    by (auto simp: storedAll_def)
next
  case (Cons x xs)
  let ?b = "addChunk (fst x) (b\<lparr>p_ReadCloser := xs @ [(d, Some IoEOF)]\<rparr>)"
  obtain w1 where r: "innerReadStep E x (b\<lparr>p_ReadCloser := xs @ [(d, Some IoEOF)]\<rparr>) w = Done (x, ?b) w1"
    "recorded E (payloadMsgs (p_recNum b) (fst x)) w w1"
    using innerReadStep_data [of w "b\<lparr>p_ReadCloser := xs @ [(d, Some IoEOF)]\<rparr>" "snd x" E "fst x"] Cons.prems
    by (auto simp: endsOnce_def)
  obtain b' w' where ih: "responseReads E k (Suc (length xs)) ?b w1 = Done (xs @ [(d, Some IoEOF)], b') w'"
    "storedAll E (p_recNum b) (p_blockCrc b @ fst x) xs d w1 w'"
    using Cons.IH [of w1 ?b] canRecord_recorded [OF r(2) Cons.prems(1)] recorded_keeps(1,3) [OF r(2)] Cons.prems
    by (auto simp: endsOnce_def)
  have "responseBodyRead E k b w = Done (x, ?b) w1"
    using responseBodyRead_plain [OF Cons.prems(2)] Cons.prems(3) r(1) by simp
  then show ?case using ih(1) storedAll_step [OF r(2) ih(2)] by simp
qed

lemma storeOriginal_all:
  assumes "canRecord w" "\<not> p_eof b" "sizeExact b" "\<forall>x \<in> set xs. snd x = None"
    "rc_Meta (w_rc w) = Some m" "replyHas E (p_recNum b)"
  shows "\<exists>b' w'. storeOriginal E (xs @ [(d, Some IoEOF)]) b w = Done (None, b') w' \<and>
     storedAll E (p_recNum b) (p_blockCrc b) xs d w w'"
  using assms
proof (induction xs arbitrary: b w)
  case Nil
  let ?b = "b\<lparr>p_ReadCloser := []\<rparr>"
  obtain w' b' where "innerReadStep E (d, Some IoEOF) ?b w = Done ((d, Some IoEOF), b') w'"
    "rc_Meta (w_rc w') = Some (closeMeta (p_recNum b) (p_blockCrc b @ d) m)"
    "rc_ReplacementScript (w_rc w') = rc_ReplacementScript (w_rc w)"
    "sendsSucceed E \<and> cwLive w \<longrightarrow> w_cwWire w' = w_cwWire w @ payloadMsgs (p_recNum b) d @
       [ReqMeta (closeMeta (p_recNum b) (p_blockCrc b @ d) m)]"
    using innerReadStep_end [of w ?b m E d] Nil.prems by auto
  then show ?case using Nil.prems(5) by (auto simp: storedAll_def)
next
  case (Cons x xs)
  let ?b = "addChunk (fst x) (b\<lparr>p_ReadCloser := xs @ [(d, Some IoEOF)]\<rparr>)"
  obtain w1 where r: "innerReadStep E x (b\<lparr>p_ReadCloser := xs @ [(d, Some IoEOF)]\<rparr>) w = Done (x, ?b) w1"
    "recorded E (payloadMsgs (p_recNum b) (fst x)) w w1"
    using innerReadStep_data [of w "b\<lparr>p_ReadCloser := xs @ [(d, Some IoEOF)]\<rparr>" "snd x" E "fst x"] Cons.prems
    by (cases x) auto
  obtain b' w' where ih: "storeOriginal E (xs @ [(d, Some IoEOF)]) ?b w1 = Done (None, b') w'"
    "storedAll E (p_recNum b) (p_blockCrc b @ fst x) xs d w1 w'"
    using Cons.IH [of w1 ?b] canRecord_recorded [OF r(2) Cons.prems(1)] recorded_keeps(1) [OF r(2)] Cons.prems
    by auto
  then show ?case
    using r(1) Cons.prems(4) storedAll_step [OF r(2) ih(2)] by (auto simp: split_beta prod_eq_iff)
qed

section \<open>Opening the records\<close>

text \<open>A header that opens the session, or uses a live one.\<close>

definition canOpen :: "env \<Rightarrow> world \<Rightarrow> bool" where
  "canOpen E w \<longleftrightarrow> cwLive w \<or> rc_cwc (w_rc w) = None \<and> e_cwOpen E (w_tick w) = None"

lemma sendOnSession_open:
  assumes "sendsSucceed E" "canOpen E w"
  shows "\<exists>w'. sendOnSession E r w = Done None w' \<and> cwFrame w w' \<and> cwLive w' \<and> w_cwWire w' = w_cwWire w @ [r]"
proof (cases "cwLive w")
  case True
  then show ?thesis using sendOnSession_live [OF assms(1) True, of r] sendOnSession_frame [of w E r]
    by (auto simp: cwLive_def)
next
  case False
  then have n: "rc_cwc (w_rc w) = None" "e_cwOpen E (w_tick w) = None" using assms(2) by (auto simp: canOpen_def)
  then have "\<exists>w'. sendOnSession E r w = Done None w' \<and> cwLive w' \<and> w_cwWire w' = w_cwWire w @ [r]"
    using assms(1) by (auto simp: sendOnSession_def getCwcSession_def cwSend_def cwStreamClosed_def
        newCwcSession_def sendsSucceed_def cwLive_def)
  then show ?thesis using sendOnSession_frame [of w E r] by auto
qed

lemma WrapRequestBody_open:
  assumes "sendsSucceed E" "canOpen E w" "GetRecordContext (w_data w) \<noteq> None" "rc_Meta (w_rc w) = Some m"
  shows "\<exists>w'. WrapRequestBody E body ct prolog w = Done (Inr \<lparr>q_ReadCloser = body, q_recNum = 0,
       q_size = int (length prolog), q_blockCrc = prolog, q_eof = False\<rparr>) w' \<and>
     cwLive w' \<and> w_cwWire w' = w_cwWire w @ [ReqProtocolHeader 0 prolog] \<and> rc_bcc (w_rc w') = rc_bcc (w_rc w) \<and>
     rc_FoundInCache (w_rc w') = rc_FoundInCache (w_rc w) \<and> w_data w' = w_data w \<and>
     rc_ReplacementScript (w_rc w') = rc_ReplacementScript (w_rc w) \<and>
     rc_Meta (w_rc w') = Some (putRecordMeta (newRecordMeta 0 RT_REQUEST RecordContentTypeRequest) m)"
proof -
  let ?w = "updLog (\<lambda>cl. cl\<lparr>cl_StatusCode := -1, cl_ContentType := ct\<rparr>)
        (w_rc_update (rc_Meta_update (map_option (putRecordMeta (newRecordMeta 0 RT_REQUEST RecordContentTypeRequest)))) w)"
  have "canOpen E ?w" using assms(2) by (simp add: canOpen_def cwLive_def updLog_def)
  from sendOnSession_open [OF assms(1) this, of "ReqProtocolHeader 0 prolog"] obtain w' where
    s: "sendOnSession E (ReqProtocolHeader 0 prolog) ?w = Done None w'" "cwFrame ?w w'" "cwLive w'"
      "w_cwWire w' = w_cwWire ?w @ [ReqProtocolHeader 0 prolog]" by blast
  show ?thesis using s assms(3,4) cwFrame_rc [OF s(2)]
    by (auto simp: WrapRequestBody_def startRecord_def SendProtocolHeader_def cwFrame_def updLog_def)
qed

lemma WrapResponseBody_open:
  assumes "sendsSucceed E" "canOpen E w" "GetRecordContext (w_data w) \<noteq> None" "rc_Meta (w_rc w) = Some m"
    "\<not> rc_FoundInCache (w_rc w)"
  shows "\<exists>w'. WrapResponseBody E body st ct rt prolog w = Done (Inr \<lparr>p_ReadCloser = body, p_recNum = 1,
       p_size = int (length prolog), p_blockCrc = prolog, p_replacementReader = None, p_eof = False\<rparr>) w' \<and>
     cwLive w' \<and> w_cwWire w' = w_cwWire w @ [ReqProtocolHeader 1 prolog] \<and> rc_bcc (w_rc w') = rc_bcc (w_rc w) \<and>
     rc_FoundInCache (w_rc w') = rc_FoundInCache (w_rc w) \<and>
     rc_ReplacementScript (w_rc w') = rc_ReplacementScript (w_rc w) \<and>
     rc_Meta (w_rc w') = Some (putRecordMeta (newRecordMeta 1 rt RecordContentTypeResponse) m)"
proof -
  let ?w = "updLog (\<lambda>cl. cl\<lparr>cl_StatusCode := st, cl_ContentType := ct\<rparr>)
        (w_rc_update (rc_Meta_update (map_option (putRecordMeta (newRecordMeta 1 rt RecordContentTypeResponse)))) w)"
  have "canOpen E ?w" using assms(2) by (simp add: canOpen_def cwLive_def updLog_def)
  from sendOnSession_open [OF assms(1) this, of "ReqProtocolHeader 1 prolog"] obtain w' where
    s: "sendOnSession E (ReqProtocolHeader 1 prolog) ?w = Done None w'" "cwFrame ?w w'" "cwLive w'"
      "w_cwWire w' = w_cwWire ?w @ [ReqProtocolHeader 1 prolog]" by blast
  show ?thesis using s assms(3-5) cwFrame_rc [OF s(2)]
    by (auto simp: WrapResponseBody_def startRecord_def SendProtocolHeader_def cwFrame_def updLog_def Let_def)
qed

text \<open>The same without assumptions on the sends: what a wrapper that was made starts from.\<close>

lemma WrapResponseBody_Inr:
  assumes "WrapResponseBody E body st ct rt prolog w0 = Done (Inr b) w" "\<not> rc_FoundInCache (w_rc w0)"
  shows "b = \<lparr>p_ReadCloser = body, p_recNum = 1, p_size = int (length prolog),
       p_blockCrc = prolog, p_replacementReader = None, p_eof = False\<rparr>"
    and "bcReady w0 \<Longrightarrow> canRecord w"
    and "rc_ReplacementScript (w_rc w) = rc_ReplacementScript (w_rc w0)"
    and "\<exists>wm. rc_Meta (w_rc w0) = Some wm \<and>
       rc_Meta (w_rc w) = Some (putRecordMeta (newRecordMeta 1 rt RecordContentTypeResponse) wm)"
proof -
  obtain u w1 where s: "startRecord (newRecordMeta 1 rt RecordContentTypeResponse) st ct w0 = Done u w1"
    using assms(1) by (auto simp: WrapResponseBody_def andThen_Done_iff)
  obtain wm where wm: "rc_Meta (w_rc w0) = Some wm"
    "rc_Meta (w_rc w1) = Some (putRecordMeta (newRecordMeta 1 rt RecordContentTypeResponse) wm)"
    "w1 = updLog (\<lambda>cl. cl\<lparr>cl_StatusCode := st, cl_ContentType := ct\<rparr>)
        (w_rc_update (rc_Meta_update (map_option (putRecordMeta (newRecordMeta 1 rt RecordContentTypeResponse)))) w0)"
    using startRecord_Done [OF s] .
  have w1: "rc_FoundInCache (w_rc w1) = rc_FoundInCache (w_rc w0)" "rc_bcc (w_rc w1) = rc_bcc (w_rc w0)"
    "rc_ReplacementScript (w_rc w1) = rc_ReplacementScript (w_rc w0)"
    by (simp_all add: wm(3))
  have h: "SendProtocolHeader E 1 prolog w1 = Done None w"
    and b: "b = \<lparr>p_ReadCloser = body, p_recNum = 1, p_size = int (length prolog),
       p_blockCrc = prolog, p_replacementReader = None, p_eof = False\<rparr>"
    using assms s w1(1) by (auto simp: WrapResponseBody_def andThen_Done_iff Let_def split: option.splits)
  show "b = \<lparr>p_ReadCloser = body, p_recNum = 1, p_size = int (length prolog),
       p_blockCrc = prolog, p_replacementReader = None, p_eof = False\<rparr>" by (rule b)
  have fr: "cwFrame w1 w" using sendOnSession_frame [of w1 E "ReqProtocolHeader 1 prolog"] h
    by (simp add: SendProtocolHeader_def)
  have "rc_cwc (w_rc w) \<noteq> None" using h sendOnSession_Done_None by (simp add: SendProtocolHeader_def)
  then show "bcReady w0 \<Longrightarrow> canRecord w"
    using assms(2) w1 cwFrame_rc(1,4) [OF fr] by (simp add: canRecord_def bcReady_def)
  show "rc_ReplacementScript (w_rc w) = rc_ReplacementScript (w_rc w0)" using w1 cwFrame_rc(5) [OF fr] by simp
  show "\<exists>wm. rc_Meta (w_rc w0) = Some wm \<and>
       rc_Meta (w_rc w) = Some (putRecordMeta (newRecordMeta 1 rt RecordContentTypeResponse) wm)"
    using wm(1,2) cwFrame_rc(3) [OF fr] by auto
qed

lemma closeMeta_put:
  "closeMeta (rm_RecordNum r) all (putRecordMeta r m) =
     wm_RecordMeta_update (AList.update (rm_RecordNum r) (r\<lparr>rm_Size := int (length all), rm_BlockDigest := blockDigestOf all\<rparr>)) m"
  by (simp add: closeMeta_def putRecordMeta_def map_entry_update)

lemma sizeExact_new: "sizeExact \<lparr>p_ReadCloser = body, p_recNum = n, p_size = int (length p),
     p_blockCrc = p, p_replacementReader = rr, p_eof = e\<rparr>"
  by (simp add: sizeExact_def)

definition recordingWorld :: "string option \<Rightarrow> world" where
  "recordingWorld script = w_rc_update (\<lambda>rc. rc\<lparr>rc_ReplacementScript := script,
     rc_Meta := Some \<lparr>wm_RecordMeta = [], wm_TargetUri = ''http://a/'', wm_ExecutionId = [], wm_IpAddress = [],
       wm_CollectionRef = None, wm_FetchTimeStamp = 0\<rparr>\<rparr>) (startWorld [])"

lemma recordingWorld_simps:
  "sendsSucceed okEnv" "replyHas okEnv n = (n = 1)" "canOpen okEnv (recordingWorld s)"
  "GetRecordContext (w_data (recordingWorld s)) \<noteq> None" "rc_cwc (w_rc (recordingWorld s)) = None"
  "e_cwOpen okEnv t = None" "w_cwWire (recordingWorld s) = []"
  "\<exists>m. rc_Meta (w_rc (recordingWorld s)) = Some m \<and> wm_RecordMeta m = [] \<and> wm_TargetUri m = ''http://a/''"
  "\<not> rc_FoundInCache (w_rc (recordingWorld s))" "bcReady (recordingWorld s)"
  "rc_ReplacementScript (w_rc (recordingWorld s)) = s"
  by (auto simp: sendsSucceed_def replyHas_def okEnv_def canOpen_def recordingWorld_def startWorld_def
      blankRecordContext_def GetRecordContext_def getValue_def mapIndex_def bcReady_def)

text \<open>
  C11: Recording a request is invisible to the reader of its body and exact: once the wrapper was
  made, the reads give exactly the bytes and the errors of the wrapped body, whether or not the content writer
  accepts the payload; at the end the record meta holds the size and the SHA-1 digest of
  prolog and body together.
\<close>

theorem request_recorded:
  assumes "WrapRequestBody E (xs @ [(d, Some IoEOF)]) contentType prolog w = Done (Inr b) w1" and "endsOnce xs"
  shows "\<exists>b' w' wm. requestReads E (Suc (length xs)) b w1 = Done (xs @ [(d, Some IoEOF)], b') w' \<and>
     rc_Meta (w_rc w') = Some wm \<and>
     map_of (wm_RecordMeta wm) 0 = Some \<lparr>rm_RecordNum = 0, rm_Type = RT_REQUEST,
       rm_RecordContentType = RecordContentTypeRequest,
       rm_Size = int (length (prolog @ chunksOf xs @ d)),
       rm_BlockDigest = blockDigestOf (prolog @ chunksOf xs @ d)\<rparr>"
proof -
  note wrap = WrapRequestBody_Inr [OF assms(1)]
  obtain wm where wm: "rc_Meta (w_rc w1) = Some (putRecordMeta (newRecordMeta 0 RT_REQUEST RecordContentTypeRequest) wm)"
    using wrap(3) by blast
  obtain b' w2 where r: "requestReads E (Suc (length xs)) b w1 = Done (xs @ [(d, Some IoEOF)], b')
     (updRecordMeta 0 (\<lambda>m. m\<lparr>rm_Size := int (length prolog) + int (length (chunksOf xs @ d)),
        rm_BlockDigest := blockDigestOf (prolog @ chunksOf xs @ d)\<rparr>) w2)" "recorded E (streamMsgs 0 xs @ payloadMsgs 0 d) w1 w2"
    using requestReads_all [OF wrap(2) _ _ assms(2), of b d E] wrap(1) by auto
  have "rc_Meta (w_rc w2) = Some (putRecordMeta (newRecordMeta 0 RT_REQUEST RecordContentTypeRequest) wm)"
    using wm recorded_keeps(1) [OF r(2)] by simp
  from updRecordMeta_put [OF this] r(1) show ?thesis
    by (simp add: newRecordMeta_def update_conv)
qed
theorem request_recorded_witness:
  "\<exists>b w1 b' w'. WrapRequestBody okEnv [(''ab'', None), ([], Some IoEOF)] [] ''H'' (recordingWorld None)
       = Done (Inr b) w1 \<and>
     requestReads okEnv 2 b w1 = Done ([(''ab'', None), ([], Some IoEOF)], b') w'"
proof -
  let ?w = "recordingWorld None"
  obtain m where m: "rc_Meta (w_rc ?w) = Some m" using recordingWorld_simps(8) by blast
  obtain b w1 where w: "WrapRequestBody okEnv ([(''ab'', None)] @ [([], Some IoEOF)]) [] ''H'' ?w
       = Done (Inr b) w1"
    using WrapRequestBody_open [OF recordingWorld_simps(1,3,4) m] by blast
  have "endsOnce [(''ab'', None)]" by (simp add: endsOnce_def)
  from request_recorded [OF w this] w show ?thesis
    by (simp del: requestReads.simps add: eval_nat_numeral) blast
qed

text \<open>
  C12: Recording a response is invisible to the client and exact: without a replacement script the
  reads give exactly the bytes and the errors of the wrapped body; when the end is reached the
  record meta holds the size and the SHA-1 digest of prolog and body together.
\<close>

theorem response_recorded:
  assumes "WrapResponseBody E (xs @ [(d, Some IoEOF)]) status contentType rt prolog w = Done (Inr b) w1"
    and "\<not> rc_FoundInCache (w_rc w)" and "rc_ReplacementScript (w_rc w) = None" and "bcReady w"
    and "endsOnce xs" and "replyHas E 1"
  shows "\<exists>b' w' wm. responseReads E k (Suc (length xs)) b w1 = Done (xs @ [(d, Some IoEOF)], b') w' \<and>
     rc_Meta (w_rc w') = Some wm \<and>
     map_of (wm_RecordMeta wm) 1 = Some \<lparr>rm_RecordNum = 1, rm_Type = rt,
       rm_RecordContentType = RecordContentTypeResponse,
       rm_Size = int (length (prolog @ chunksOf xs @ d)),
       rm_BlockDigest = blockDigestOf (prolog @ chunksOf xs @ d)\<rparr>"
proof -
  note wrap = WrapResponseBody_Inr [OF assms(1,2)]
  let ?r = "newRecordMeta 1 rt RecordContentTypeResponse"
  obtain wm where wm: "rc_Meta (w_rc w1) = Some (putRecordMeta ?r wm)" using wrap(4) by blast
  have pre: "canRecord w1" "rc_ReplacementScript (w_rc w1) = None" "p_ReadCloser b = xs @ [(d, Some IoEOF)]"
    "\<not> p_eof b" "sizeExact b" "replyHas E (p_recNum b)"
    using wrap(2,3) assms(3,4,6) by (simp_all add: wrap(1) sizeExact_new)
  have num: "p_recNum b = 1" "p_blockCrc b = prolog" by (simp_all add: wrap(1))
  obtain b' w' where r: "responseReads E k (Suc (length xs)) b w1 = Done (xs @ [(d, Some IoEOF)], b') w'"
    "storedAll E 1 prolog xs d w1 w'"
    using responseReads_all [OF pre(1-5) assms(5) wm pre(6), of k] unfolding num by blast
  then have "rc_Meta (w_rc w') = Some (closeMeta (rm_RecordNum ?r) (prolog @ chunksOf xs @ d) (putRecordMeta ?r wm))"
    using wm by (auto simp: storedAll_def newRecordMeta_def)
  then show ?thesis using r(1) unfolding closeMeta_put
    by (auto simp: newRecordMeta_def update_conv)
qed

theorem response_recorded_witness:
  "\<exists>b w1 b' w'. WrapResponseBody okEnv [(''ab'', None), ([], Some IoEOF)] 200 [] RT_RESPONSE ''H'' (recordingWorld None)
       = Done (Inr b) w1 \<and>
     responseReads okEnv 8 2 b w1 = Done ([(''ab'', None), ([], Some IoEOF)], b') w'"
proof -
  let ?w = "recordingWorld None"
  obtain m where m: "rc_Meta (w_rc ?w) = Some m" using recordingWorld_simps(8) by blast
  obtain b w1 where w: "WrapResponseBody okEnv ([(''ab'', None)] @ [([], Some IoEOF)]) 200 [] RT_RESPONSE ''H'' ?w
       = Done (Inr b) w1"
    using WrapResponseBody_open [OF recordingWorld_simps(1,3,4) m recordingWorld_simps(9)] by blast
  have "endsOnce [(''ab'', None)]" "replyHas okEnv 1" by (simp_all add: endsOnce_def recordingWorld_simps)
  from response_recorded [OF w recordingWorld_simps(9,11,10) this, of 8] w show ?thesis
    by (simp del: responseReads.simps add: eval_nat_numeral) blast
qed

section \<open>The replacement script\<close>

lemma bytesRead_rest: "bytesRead k s = (out, rest) \<Longrightarrow> rest = drop k s \<and> fst out = take k s"
  by (auto simp: bytesRead_def split: if_splits)

lemma serveReads:
  assumes "rc_ReplacementScript (w_rc w) = Some script" "p_replacementReader b = Some s" "length s \<le> n * k"
  shows "\<exists>outs b'. responseReads E k (Suc n) b w = Done (outs @ [([], Some IoEOF)], b') w \<and> chunksOf outs = s"
  using assms(2,3)
proof (induction n arbitrary: b s)
  case 0
  then show ?case using assms(1) by (simp add: responseBodyRead_def serveReplacement_def bytesRead_def)
next
  case (Suc n)
  obtain out where o: "bytesRead k s = (out, drop k s)" "fst out = take k s"
    using bytesRead_rest [of k s] by (cases "bytesRead k s") auto
  let ?b = "b\<lparr>p_replacementReader := Some (drop k s)\<rparr>"
  have r: "responseBodyRead E k b w = Done (out, ?b) w"
    using assms(1) Suc.prems o(1) by (simp add: responseBodyRead_def serveReplacement_def)
  have len: "length (drop k s) \<le> n * k" using Suc.prems(2) unfolding length_drop mult_Suc by linarith
  obtain outs b' where ih: "responseReads E k (Suc n) ?b w = Done (outs @ [([], Some IoEOF)], b') w"
    "chunksOf outs = drop k s"
    using Suc.IH [OF _ len, of ?b] by (auto simp del: responseReads.simps)
  have "responseReads E k (Suc (Suc n)) b w = Done ((out # outs) @ [([], Some IoEOF)], b') w"
    using r ih(1) by (simp only: responseReads.simps(2) [of E k "Suc n"]) simp
  moreover have "chunksOf (out # outs) = s" using ih(2) o(2) by simp
  ultimately show ?case by blast
qed

text \<open>
  C15: With a replacement script the client reads the script, cut into buffers of its size and followed by
  the end of the body, while the content writer gets the original body: the record meta holds size
  and digest of the original, and where the content writer accepts what it gets it got all of the original.
\<close>

theorem replacement_recorded:
  assumes "WrapResponseBody E (xs @ [(d, Some IoEOF)]) status contentType rt prolog w = Done (Inr b) w1"
    and "\<not> rc_FoundInCache (w_rc w)" and "rc_ReplacementScript (w_rc w) = Some script" and "bcReady w"
    and "\<forall>x \<in> set xs. snd x = None" and "replyHas E 1" and "length script \<le> n * k"
  shows "\<exists>outs b' w' wm. responseReads E k (Suc n) b w1 = Done (outs @ [([], Some IoEOF)], b') w' \<and>
     chunksOf outs = script \<and> rc_Meta (w_rc w') = Some wm \<and>
     map_of (wm_RecordMeta wm) 1 = Some \<lparr>rm_RecordNum = 1, rm_Type = rt,
       rm_RecordContentType = RecordContentTypeResponse,
       rm_Size = int (length (prolog @ chunksOf xs @ d)),
       rm_BlockDigest = blockDigestOf (prolog @ chunksOf xs @ d)\<rparr> \<and>
     (sendsSucceed E \<and> cwLive w1 \<longrightarrow>
        w_cwWire w' = w_cwWire w1 @ streamMsgs 1 xs @ payloadMsgs 1 d @ [ReqMeta wm])"
proof -
  note wrap = WrapResponseBody_Inr [OF assms(1,2)]
  let ?r = "newRecordMeta 1 rt RecordContentTypeResponse"
  obtain wm where wm: "rc_Meta (w_rc w1) = Some (putRecordMeta ?r wm)" using wrap(4) by blast
  have pre: "canRecord w1" "\<not> p_eof b" "sizeExact b" "replyHas E (p_recNum b)"
    using wrap(2) assms(4,6) by (simp_all add: wrap(1) sizeExact_new)
  have num: "p_recNum b = 1" "p_blockCrc b = prolog" by (simp_all add: wrap(1))
  obtain b1 w' where st: "storeOriginal E (xs @ [(d, Some IoEOF)]) b w1 = Done (None, b1) w'"
    "storedAll E 1 prolog xs d w1 w'"
    using storeOriginal_all [OF pre(1-3) assms(5) wm pre(4), of d] unfolding num by blast
  have script: "rc_ReplacementScript (w_rc w1) = Some script" "rc_ReplacementScript (w_rc w') = Some script"
    using wrap(3) assms(3) st(2) by (simp_all add: storedAll_def)
  have "p_replacementReader b = None" "p_ReadCloser b = xs @ [(d, Some IoEOF)]" by (simp_all add: wrap(1))
  then have first: "responseReads E k (Suc n) b w1 = responseReads E k (Suc n) (b1\<lparr>p_replacementReader := Some script\<rparr>) w'"
    using st(1) script by (simp add: responseBodyRead_def serveReplacement_def split: prod.split)
  have meta: "rc_Meta (w_rc w') = Some (closeMeta (rm_RecordNum ?r) (prolog @ chunksOf xs @ d) (putRecordMeta ?r wm))"
    using wm st(2) by (auto simp: storedAll_def newRecordMeta_def)
  let ?wm = "closeMeta (rm_RecordNum ?r) (prolog @ chunksOf xs @ d) (putRecordMeta ?r wm)"
  have entry: "map_of (wm_RecordMeta ?wm) 1 = Some \<lparr>rm_RecordNum = 1, rm_Type = rt,
       rm_RecordContentType = RecordContentTypeResponse,
       rm_Size = int (length (prolog @ chunksOf xs @ d)),
       rm_BlockDigest = blockDigestOf (prolog @ chunksOf xs @ d)\<rparr>"
    unfolding closeMeta_put by (simp add: newRecordMeta_def update_conv)
  have wire: "sendsSucceed E \<and> cwLive w1 \<longrightarrow>
        w_cwWire w' = w_cwWire w1 @ streamMsgs 1 xs @ payloadMsgs 1 d @ [ReqMeta ?wm]"
    using wm st(2) by (auto simp: storedAll_def newRecordMeta_def)
  obtain outs b' where "responseReads E k (Suc n) (b1\<lparr>p_replacementReader := Some script\<rparr>) w' =
      Done (outs @ [([], Some IoEOF)], b') w'" "chunksOf outs = script"
    using serveReads [OF script(2) _ assms(7), of "b1\<lparr>p_replacementReader := Some script\<rparr>" E]
    by (auto simp del: responseReads.simps)
  then show ?thesis using first meta entry wire by (simp del: responseReads.simps)
qed

theorem replacement_recorded_witness:
  "\<exists>b w1 outs b' w'. WrapResponseBody okEnv [(''ab'', None), ([], Some IoEOF)] 200 [] RT_RESPONSE ''H''
       (recordingWorld (Some ''xyz'')) = Done (Inr b) w1 \<and>
     responseReads okEnv 2 3 b w1 = Done (outs @ [([], Some IoEOF)], b') w' \<and> chunksOf outs = ''xyz''"
proof -
  let ?w = "recordingWorld (Some ''xyz'')"
  obtain m where m: "rc_Meta (w_rc ?w) = Some m" using recordingWorld_simps(8) by blast
  obtain b w1 where w: "WrapResponseBody okEnv ([(''ab'', None)] @ [([], Some IoEOF)]) 200 [] RT_RESPONSE ''H'' ?w
       = Done (Inr b) w1"
    using WrapResponseBody_open [OF recordingWorld_simps(1,3,4) m recordingWorld_simps(9)] by blast
  have "\<forall>x \<in> set [(''ab'', None)]. snd x = None" "replyHas okEnv 1" "length ''xyz'' \<le> 2 * 2"
    by (simp_all add: recordingWorld_simps)
  from replacement_recorded [OF w recordingWorld_simps(9,11,10) this] w show ?thesis
    by (simp del: responseReads.simps add: eval_nat_numeral) blast
qed

section \<open>Responses from the cache\<close>

lemma CancelContentWriter_wire:
  "\<exists>e w'. CancelContentWriter E msg w = Done e w' \<and> cwFrame w w' \<and>
     w_cwWire w' \<in> {w_cwWire w, w_cwWire w @ [ReqCancel msg]}"
proof -
  obtain e w' where c: "CancelContentWriter E msg w = Done e w'" using CancelContentWriter_returns by blast
  have "w_cwWire (endState (CancelContentWriter E msg w)) \<in> {w_cwWire w, w_cwWire w @ [ReqCancel msg]}"
    by (cases "rc_cwc (w_rc w)") (auto simp: CancelContentWriter_def getCwcSession_def Let_def cwSend_def
        cwCloseAndRecv_def cwCtxCancel_def updCwc_def split: option.splits prod.splits)
  then show ?thesis using c CancelContentWriter_frame [of w E msg] by simp
qed

lemma SaveCrawlLog_first:
  assumes "rc_bcc (w_rc w) = Some b" "\<not> b_locked b" "b_loop b = LoopSelect" "b_complete b = None"
  shows "\<exists>w' b'. SaveCrawlLog E w = Done None w' \<and> w_cwWire w' = w_cwWire w \<and>
     rc_bcc (w_rc w') = Some b' \<and> b_complete b' = Some \<lparr>cm_cl = rc_CrawlLog (w_rc w), cm_err = None\<rparr>"
  using assms by (simp add: SaveCrawlLog_def getBccSession_def withLock_def updBcc_def saveLocked_def completeSend_def)

lemma cachedReads:
  assumes "rc_FoundInCache (w_rc w)" "rc_ReplacementScript (w_rc w) = None" "p_ReadCloser b = xs @ [(d, Some IoEOF)]"
    "\<not> p_eof b" "endsOnce xs"
  shows "responseReads E k (Suc (length xs)) b w =
     andThen (handleCachedContent E (b\<lparr>p_ReadCloser := [], p_eof := True\<rparr>) w)
       (\<lambda>_ w. Done (xs @ [(d, Some IoEOF)], b\<lparr>p_ReadCloser := [], p_eof := True\<rparr>) w)"
  using assms(3-5)
proof (induction xs arbitrary: b)
  case Nil
  then show ?case using assms(1,2)
    by (simp add: responseBodyRead_plain innerReadStep_def recordChunk_def responseBodyEOF_def run_simps Let_def)
next
  case (Cons x xs)
  let ?b = "b\<lparr>p_ReadCloser := xs @ [(d, Some IoEOF)]\<rparr>"
  have "endsOnce xs" "snd x \<noteq> Some IoEOF" using Cons.prems(3) by (auto simp: endsOnce_def)
  then have "responseBodyRead E k b w = Done (x, ?b) w"
    using assms(1,2) Cons.prems by (cases x) (simp add: responseBodyRead_plain innerReadStep_def recordChunk_def)
  then have "responseReads E k (Suc (length (x # xs))) b w =
      andThen (responseReads E k (Suc (length xs)) ?b w) (\<lambda>(outs, b) w. Done (x # outs, b) w)"
    by (simp only: responseReads.simps(2) [of E k "length (x # xs)"]) simp
  then show ?case using Cons.IH [of ?b] Cons.prems(2) \<open>endsOnce xs\<close> by (simp add: run_simps del: responseReads.simps)
qed

text \<open>
  A response that the cache answered is passed on unchanged and not recorded: no header, payload or meta message is sent
  for it, at most the cancellation \<open>OK: Loaded from cache\<close>. Its crawl log becomes the completion of
  the session, with the length of the prolog as its size: the body is not counted.
\<close>

theorem cached_not_recorded:
  assumes "WrapResponseBody E (xs @ [(d, Some IoEOF)]) status contentType rt prolog w = Done (Inr b) w1"
    and "rc_FoundInCache (w_rc w)" and "rc_ReplacementScript (w_rc w) = None" and "endsOnce xs"
    and "rc_bcc (w_rc w) = Some b0" and "\<not> b_locked b0" and "b_loop b0 = LoopSelect" and "b_complete b0 = None"
  shows "\<exists>b' w' b1 m. responseReads E k (Suc (length xs)) b w1 = Done (xs @ [(d, Some IoEOF)], b') w' \<and>
     w_cwWire w' \<in> {w_cwWire w, w_cwWire w @ [ReqCancel ''OK: Loaded from cache'']} \<and>
     rc_bcc (w_rc w') = Some b1 \<and> b_complete b1 = Some m \<and> cl_Size (cm_cl m) = int (length prolog)"
proof -
  obtain u where s: "startRecord (newRecordMeta 1 rt RecordContentTypeResponse) status contentType w = Done u w1"
    and b: "b = \<lparr>p_ReadCloser = xs @ [(d, Some IoEOF)], p_recNum = 1, p_size = int (length prolog),
       p_blockCrc = prolog, p_replacementReader = None, p_eof = False\<rparr>"
    using assms(1,2) by (auto simp: WrapResponseBody_def andThen_Done_iff Let_def startRecord_def split: if_splits)
  have w1: "rc_bcc (w_rc w1) = Some b0" "w_cwWire w1 = w_cwWire w" "rc_FoundInCache (w_rc w1)"
    "rc_ReplacementScript (w_rc w1) = None"
    using s assms(2,3,5) by (auto simp: startRecord_def split: if_splits)
  let ?b = "b\<lparr>p_ReadCloser := [], p_eof := True\<rparr>"
  let ?w = "updLog (cl_Size_update (\<lambda>_. p_size ?b)) w1"
  obtain w2 b2 where sv: "SaveCrawlLog E ?w = Done None w2" "w_cwWire w2 = w_cwWire ?w"
    "rc_bcc (w_rc w2) = Some b2" "b_complete b2 = Some \<lparr>cm_cl = rc_CrawlLog (w_rc ?w), cm_err = None\<rparr>"
    using SaveCrawlLog_first [of ?w b0 E] w1(1) assms(6-8) by auto
  obtain e w3 where c: "CancelContentWriter E ''OK: Loaded from cache'' w2 = Done e w3" "cwFrame w2 w3"
    "w_cwWire w3 \<in> {w_cwWire w2, w_cwWire w2 @ [ReqCancel ''OK: Loaded from cache'']}"
    using CancelContentWriter_wire [of E "''OK: Loaded from cache''" w2] by blast
  have "handleCachedContent E ?b w1 = Done () w3" using sv(1) c(1) by (simp add: handleCachedContent_def)
  then have "responseReads E k (Suc (length xs)) b w1 = Done (xs @ [(d, Some IoEOF)], ?b) w3"
    using cachedReads [OF w1(3,4), of b xs d E k] assms(4) by (simp add: b del: responseReads.simps)
  then show ?thesis
    using c(3) sv(2-4) w1(2) cwFrame_rc(1) [OF c(2)] by (auto simp: b)
qed

theorem cached_not_recorded_witness:
  "\<exists>b w1 b' w'. WrapResponseBody okEnv [(''ab'', None), ([], Some IoEOF)] 200 [] RT_RESPONSE ''H''
       (setBcc newBccSession (w_rc_update (rc_FoundInCache_update (\<lambda>_. True)) (recordingWorld None)))
       = Done (Inr b) w1 \<and>
     responseReads okEnv 8 2 b w1 = Done ([(''ab'', None), ([], Some IoEOF)], b') w'"
proof -
  let ?w = "setBcc newBccSession (w_rc_update (rc_FoundInCache_update (\<lambda>_. True)) (recordingWorld None))"
  have w: "rc_FoundInCache (w_rc ?w)" "rc_ReplacementScript (w_rc ?w) = None"
    "rc_bcc (w_rc ?w) = Some newBccSession" "GetRecordContext (w_data ?w) \<noteq> None" "rc_Meta (w_rc ?w) \<noteq> None"
    by (simp_all add: recordingWorld_def startWorld_def GetRecordContext_def getValue_def mapIndex_def)
  obtain b w1 where wrap: "WrapResponseBody okEnv ([(''ab'', None)] @ [([], Some IoEOF)]) 200 [] RT_RESPONSE ''H'' ?w
       = Done (Inr b) w1"
    using w by (simp add: WrapResponseBody_def startRecord_def Let_def)
  have "endsOnce [(''ab'', None)]" "\<not> b_locked newBccSession" "b_loop newBccSession = LoopSelect"
    "b_complete newBccSession = None"
    by (simp_all add: endsOnce_def newBccSession_def)
  from cached_not_recorded [OF wrap w(1,2) this(1) w(3) this(2-4), of 8] wrap show ?thesis
    by (simp del: responseReads.simps add: eval_nat_numeral) blast
qed

end
