(* ===== verification/Service_Mock.thy ===== *)
theory Service_Mock
  imports Body_Recording
begin

text \<open>
  The services of \<open>testutil/servicemocks.go\<close>, the repository's own statement of what the content
  writer and the browser controller expect: the content writer checks the size and the digest
  of every record of the meta message against what it received.
\<close>

section \<open>The content writer (Write)\<close>

record cwMock =
  mk_records :: "(int \<times> replyMeta) list"
  mk_size :: "(int \<times> int) list"
  mk_blockDigest :: "(int \<times> hashState) list"
  mk_gotMeta :: bool
  mk_gotCancel :: bool

definition newCwMock :: cwMock where
  "newCwMock = \<lparr>mk_records = [], mk_size = [], mk_blockDigest = [], mk_gotMeta = False, mk_gotCancel = False\<rparr>"

text \<open>An error of the server as the client sees it.\<close>

definition invalidArgument :: "string \<Rightarrow> go_error" where
  "invalidArgument msg = ErrorString (''rpc error: code = InvalidArgument desc = '' @ msg)"

definition sizeOf :: "cwMock \<Rightarrow> int \<Rightarrow> int" where
  "sizeOf s n = (case map_of (mk_size s) n of Some k \<Rightarrow> k | None \<Rightarrow> 0)"

definition digestOf :: "cwMock \<Rightarrow> int \<Rightarrow> string" where
  "digestOf s n = (case map_of (mk_blockDigest s) n of Some h \<Rightarrow> blockDigestOf h | None \<Rightarrow> [])"

text \<open>
  The reply for a record; the proxy leaves the payload digest of a record meta empty. Of the
  reply only the fields the proxy reads are modelled.
\<close>

definition mockReply :: "int \<Rightarrow> recordType \<Rightarrow> replyMeta" where
  "mockReply i t = \<lparr>rp_Type = (if t = RT_RESPONSE then RT_REVISIT else RT_REQUEST),
     rp_CollectionFinalName = ''collection_0'', rp_WarcId = ''warcid_'' @ itoa i,
     rp_StorageRef = ''storageRef_'' @ itoa i,
     rp_RevisitReferenceId = (if t = RT_RESPONSE then ''revisit_0'' else []), rp_PayloadDigest = []\<rparr>"

fun checkRecords :: "string \<Rightarrow> (int \<times> recordMeta) list \<Rightarrow> cwMock \<Rightarrow> go_error + cwMock" where
  "checkRecords uri [] s = Inr s"
| "checkRecords uri ((i, v) # rest) s =
     (if sizeOf s (rm_RecordNum v) \<noteq> rm_Size v then Inl (invalidArgument ''Size mismatch'')
      else if digestOf s (rm_RecordNum v) \<noteq> rm_BlockDigest v then Inl (invalidArgument ''Block digest mismatch'')
      else if contains uri ''cwerr'' then Inl (invalidArgument ''Fake error'')
      else checkRecords uri rest
        (s\<lparr>mk_records := AList.update i (mockReply i (rm_Type v)) (mk_records s)\<rparr>))"

text \<open>A payload before the header of its record writes to a nil hash, which panics (\<open>None\<close>).\<close>

fun cwMockStep :: "writeRequest \<Rightarrow> cwMock \<Rightarrow> (go_error + cwMock) option" where
  "cwMockStep (ReqProtocolHeader n d) s = Some (Inr (s\<lparr>mk_size := AList.update n (int (length d)) (mk_size s),
     mk_blockDigest := AList.update n (snd (hashWrite d sha1New)) (mk_blockDigest s)\<rparr>))"
| "cwMockStep (ReqPayload n d) s = (case map_of (mk_blockDigest s) n of
     None \<Rightarrow> None
   | Some h \<Rightarrow> Some (Inr (s\<lparr>mk_size := AList.update n (sizeOf s n + int (length d)) (mk_size s),
       mk_blockDigest := AList.update n (snd (hashWrite d h)) (mk_blockDigest s)\<rparr>)))"
| "cwMockStep (ReqMeta m) s =
     Some (checkRecords (wm_TargetUri m) (wm_RecordMeta m) (s\<lparr>mk_gotMeta := True\<rparr>))"
| "cwMockStep (ReqCancel msg) s = Some (Inr (s\<lparr>mk_gotCancel := True\<rparr>))"

fun cwMockRun :: "writeRequest list \<Rightarrow> cwMock \<Rightarrow> (go_error + writeReply) option" where
  "cwMockRun [] s = Some (if \<not> mk_gotMeta s \<and> \<not> mk_gotCancel s then Inl (ErrorString ''missing metadata'')
     else Inr (Some (mk_records s)))"
| "cwMockRun (r # rs) s = (case cwMockStep r s of
     None \<Rightarrow> None
   | Some (Inl e) \<Rightarrow> Some (Inl e)
   | Some (Inr s) \<Rightarrow> cwMockRun rs s)"

section \<open>The browser controller (Do)\<close>

definition hasSuffix :: "string \<Rightarrow> string \<Rightarrow> bool" where
  "hasSuffix s p \<longleftrightarrow> hasPrefix (rev s) (rev p)"

definition mockNewReply :: "string \<Rightarrow> newReply" where
  "mockNewReply uri = \<lparr>nr_JobExecutionId = ''jid'', nr_CrawlExecutionId = ''eid'',
     nr_CollectionRef = Some \<lparr>cfgKind = ''collection'', cfgId = ''col1''\<rparr>,
     nr_ReplacementScript = (if hasSuffix uri ''replace'' then Some ''replaced'' else None)\<rparr>"

text \<open>
  What the proxy receives after it registered \<open>uri\<close>: the replies, and the end of the stream once
  it was closed. An error the handler returns has the code \<open>Unknown\<close>.
\<close>

definition bcMockReplies :: "string \<Rightarrow> recvResult list" where
  "bcMockReplies uri =
     (if hasSuffix uri ''blocked'' then [RecvReply (ReplyCancel ''Blocked by robots.txt''), RecvEOF]
      else if hasSuffix uri ''bccerr'' then
        [RecvError ''rpc error: code = Unknown desc = browser controller error'']
      else RecvReply (ReplyNew (mockNewReply uri)) #
        (if hasSuffix uri ''cancel'' then [RecvReply (ReplyCancel ''Cancelled by browser controller'')] else [])
        @ [RecvEOF])"

section \<open>Acceptance of a recorded stream\<close>

text \<open>The mock has received the bytes \<open>h\<close> of record \<open>n\<close>.\<close>

definition received :: "int \<Rightarrow> bytes \<Rightarrow> cwMock \<Rightarrow> bool" where
  "received n h s \<longleftrightarrow> map_of (mk_size s) n = Some (int (length h)) \<and> map_of (mk_blockDigest s) n = Some h"

lemma cwMockRun_header:
  obtains s' where "\<And>rs. cwMockRun (ReqProtocolHeader n d # rs) s = cwMockRun rs s'" "received n d s'"
    "mk_records s' = mk_records s" "\<And>k h. k \<noteq> n \<Longrightarrow> received k h s \<Longrightarrow> received k h s'"
proof
  let ?s = "s\<lparr>mk_size := AList.update n (int (length d)) (mk_size s),
     mk_blockDigest := AList.update n (snd (hashWrite d sha1New)) (mk_blockDigest s)\<rparr>"
  show "cwMockRun (ReqProtocolHeader n d # rs) s = cwMockRun rs ?s" for rs by simp
  show "received n d ?s" "mk_records ?s = mk_records s" by (simp_all add: received_def update_conv)
  show "k \<noteq> n \<Longrightarrow> received k h s \<Longrightarrow> received k h ?s" for k h by (simp add: received_def update_conv)
qed

lemma cwMockRun_stream:
  assumes "received n h s"
  shows "\<exists>s'. (\<forall>rs. cwMockRun (streamMsgs n xs @ rs) s = cwMockRun rs s') \<and> received n (h @ chunksOf xs) s' \<and>
     mk_records s' = mk_records s \<and> (\<forall>k g. k \<noteq> n \<longrightarrow> received k g s \<longrightarrow> received k g s')"
  using assms
proof (induction xs arbitrary: h s)
  case (Cons x xs)
  show ?case
  proof (cases "fst x = []")
    case True
    then show ?thesis using Cons.IH [OF Cons.prems] by (simp add: payloadMsgs_def)
  next
    case False
    let ?s = "s\<lparr>mk_size := AList.update n (sizeOf s n + int (length (fst x))) (mk_size s),
       mk_blockDigest := AList.update n (h @ fst x) (mk_blockDigest s)\<rparr>"
    have r: "received n (h @ fst x) ?s" "\<forall>k g. k \<noteq> n \<longrightarrow> received k g s \<longrightarrow> received k g ?s"
      using Cons.prems by (simp_all add: received_def update_conv sizeOf_def)
    have "cwMockRun (streamMsgs n (x # xs) @ rs) s = cwMockRun (streamMsgs n xs @ rs) ?s" for rs
      using False Cons.prems by (simp add: payloadMsgs_def received_def hashWrite_def)
    then show ?thesis using Cons.IH [OF r(1)] r(2) by (auto simp: append_assoc)
  qed
qed auto

lemma received_check:
  "received n h s \<Longrightarrow> sizeOf s n = int (length h) \<and> digestOf s n = blockDigestOf h"
  by (simp add: received_def sizeOf_def digestOf_def)

lemma received_records [simp]:
  "received n h (s\<lparr>mk_gotMeta := g\<rparr>) = received n h s"
  "received n h (s\<lparr>mk_records := rs\<rparr>) = received n h s"
  by (simp_all add: received_def)

section \<open>A whole exchange\<close>

text \<open>
  The steps of an exchange that reach the bodies: the request body is wrapped and read to its end by
  the transport, then the response body is wrapped and read to its end by the client.
\<close>

definition recordExchange :: "env \<Rightarrow> nat \<Rightarrow> bytes \<Rightarrow> reader \<times> bytes \<Rightarrow> bytes \<Rightarrow> reader \<times> bytes \<Rightarrow> int \<Rightarrow> world
     \<Rightarrow> ((bytes \<times> go_error option) list \<times> (bytes \<times> go_error option) list, world) run" where
  "recordExchange E k reqProlog req respProlog resp status w =
     (case (req, resp) of ((xs, d), (ys, e)) \<Rightarrow>
       andThen (WrapRequestBody E (xs @ [(d, Some IoEOF)]) [] reqProlog w) (\<lambda>r w.
         case r of Inl err \<Rightarrow> Panics w
         | Inr q \<Rightarrow> andThen (requestReads E (Suc (length xs)) q w) (\<lambda>(sent, q) w.
             andThen (WrapResponseBody E (ys @ [(e, Some IoEOF)]) status [] RT_RESPONSE respProlog w) (\<lambda>r w.
               case r of Inl err \<Rightarrow> Panics w
               | Inr p \<Rightarrow> andThen (responseReads E k (Suc (length ys)) p w) (\<lambda>(got, p) w.
                   Done (sent, got) w)))))"

lemma updRecordMeta_keeps [simp]:
  "cwLive (updRecordMeta n f w) = cwLive w" "w_cwWire (updRecordMeta n f w) = w_cwWire w"
  "bcReady (updRecordMeta n f w) = bcReady w" "w_data (updRecordMeta n f w) = w_data w"
  "rc_FoundInCache (w_rc (updRecordMeta n f w)) = rc_FoundInCache (w_rc w)"
  "rc_ReplacementScript (w_rc (updRecordMeta n f w)) = rc_ReplacementScript (w_rc w)"
  by (simp_all add: updRecordMeta_def cwLive_def bcReady_def)

definition metaFor :: "int \<Rightarrow> recordType \<Rightarrow> string \<Rightarrow> bytes \<Rightarrow> recordMeta" where
  "metaFor n t ct all = \<lparr>rm_RecordNum = n, rm_Type = t, rm_RecordContentType = ct,
     rm_Size = int (length all), rm_BlockDigest = blockDigestOf all\<rparr>"

lemma recordExchange_wire:
  assumes "sendsSucceed E" "rc_cwc (w_rc w) = None" "e_cwOpen E (w_tick w) = None"
    "GetRecordContext (w_data w) \<noteq> None" "rc_Meta (w_rc w) = Some m" "wm_RecordMeta m = []"
    "\<not> rc_FoundInCache (w_rc w)" "rc_ReplacementScript (w_rc w) = None" "bcReady w"
    "endsOnce xs" "endsOnce ys" "replyHas E 1"
  shows "\<exists>w'. recordExchange E k p (xs, d) q (ys, e) status w =
       Done (xs @ [(d, Some IoEOF)], ys @ [(e, Some IoEOF)]) w' \<and>
     w_cwWire w' = w_cwWire w @ [ReqProtocolHeader 0 p] @ streamMsgs 0 xs @ payloadMsgs 0 d @
       [ReqProtocolHeader 1 q] @ streamMsgs 1 ys @ payloadMsgs 1 e @
       [ReqMeta (m\<lparr>wm_RecordMeta :=
          [(0, metaFor 0 RT_REQUEST RecordContentTypeRequest (p @ chunksOf xs @ d)),
           (1, metaFor 1 RT_RESPONSE RecordContentTypeResponse (q @ chunksOf ys @ e))]\<rparr>)]"
proof -
  let ?ra = "newRecordMeta 0 RT_REQUEST RecordContentTypeRequest"
  let ?rb = "newRecordMeta 1 RT_RESPONSE RecordContentTypeResponse"
  have "canOpen E w" using assms(2,3) by (simp add: canOpen_def)
  from WrapRequestBody_open [OF assms(1) this assms(4,5), of "xs @ [(d, Some IoEOF)]" "[]" p]
  obtain w1 where w1: "WrapRequestBody E (xs @ [(d, Some IoEOF)]) [] p w =
      Done (Inr \<lparr>q_ReadCloser = xs @ [(d, Some IoEOF)], q_recNum = 0,
       q_size = int (length p), q_blockCrc = p, q_eof = False\<rparr>) w1" (is "_ = Done (Inr ?q) w1")
     "cwLive w1" "w_cwWire w1 = w_cwWire w @ [ReqProtocolHeader 0 p]" "rc_bcc (w_rc w1) = rc_bcc (w_rc w)"
     "rc_FoundInCache (w_rc w1) = rc_FoundInCache (w_rc w)" "w_data w1 = w_data w"
     "rc_ReplacementScript (w_rc w1) = rc_ReplacementScript (w_rc w)"
     "rc_Meta (w_rc w1) = Some (putRecordMeta ?ra m)" by blast
  have "rc_cwc (w_rc w1) \<noteq> None" using w1(2) by (auto simp: cwLive_def split: option.splits)
  from requestReads_all [OF this, of ?q xs d E] assms(10) obtain q' w2 where
    w2: "requestReads E (Suc (length xs)) ?q w1 = Done (xs @ [(d, Some IoEOF)], q')
     (updRecordMeta 0 (\<lambda>m. m\<lparr>rm_Size := int (length p) + int (length (chunksOf xs @ d)),
        rm_BlockDigest := blockDigestOf (p @ chunksOf xs @ d)\<rparr>) w2)" (is "_ = Done _ ?w2")
    "recorded E (streamMsgs 0 xs @ payloadMsgs 0 d) w1 w2" by auto
  note k = recorded_keeps [OF w2(2)]
  let ?m = "m\<lparr>wm_RecordMeta := [(0, metaFor 0 RT_REQUEST RecordContentTypeRequest (p @ chunksOf xs @ d))]\<rparr>"
  have meta2: "rc_Meta (w_rc ?w2) = Some ?m"
    using updRecordMeta_put [where w = w2 and m = "?ra" and wm = m] k(1) w1(8) assms(6) by (simp add: newRecordMeta_def metaFor_def)
  have "bcReady w1" using w1(4) assms(9) by (simp add: bcReady_def)
  then have ready2: "bcReady ?w2" using k(7) by simp
  have live2: "cwLive ?w2" "w_cwWire ?w2 = w_cwWire w1 @ streamMsgs 0 xs @ payloadMsgs 0 d"
    using k(8) [OF assms(1) w1(2)] by simp_all
  have rest2: "GetRecordContext (w_data ?w2) \<noteq> None" "\<not> rc_FoundInCache (w_rc ?w2)"
    "rc_ReplacementScript (w_rc ?w2) = None"
    using k(2,3,5) w1(5-7) assms(4,7,8) by simp_all
  have "canOpen E ?w2" using live2(1) by (simp add: canOpen_def)
  from WrapResponseBody_open [OF assms(1) this rest2(1) meta2 rest2(2), of "ys @ [(e, Some IoEOF)]" status "[]" RT_RESPONSE q]
  obtain w3 where w3: "WrapResponseBody E (ys @ [(e, Some IoEOF)]) status [] RT_RESPONSE q ?w2 =
      Done (Inr \<lparr>p_ReadCloser = ys @ [(e, Some IoEOF)], p_recNum = 1,
       p_size = int (length q), p_blockCrc = q, p_replacementReader = None, p_eof = False\<rparr>) w3" (is "_ = Done (Inr ?p) w3")
     "cwLive w3" "w_cwWire w3 = w_cwWire ?w2 @ [ReqProtocolHeader 1 q]" "rc_bcc (w_rc w3) = rc_bcc (w_rc ?w2)"
     "rc_FoundInCache (w_rc w3) = rc_FoundInCache (w_rc ?w2)"
     "rc_ReplacementScript (w_rc w3) = rc_ReplacementScript (w_rc ?w2)"
     "rc_Meta (w_rc w3) = Some (putRecordMeta ?rb ?m)" by blast
  have can3: "canRecord w3"
    using w3(2,4,5) ready2 rest2 by (auto simp: canRecord_def bcReady_def cwLive_def split: option.splits)
  have script3: "rc_ReplacementScript (w_rc w3) = None" using w3(6) rest2(3) by simp
  from responseReads_all [OF can3 script3, of ?p ys e, OF _ _ sizeExact_new assms(11) w3(7), of E k] assms(12)
  obtain p' w4 where w4: "responseReads E k (Suc (length ys)) ?p w3 = Done (ys @ [(e, Some IoEOF)], p') w4"
    "storedAll E 1 q ys e w3 w4" by (auto simp del: responseReads.simps)
  have final: "closeMeta 1 (q @ chunksOf ys @ e) (putRecordMeta ?rb ?m) = m\<lparr>wm_RecordMeta :=
          [(0, metaFor 0 RT_REQUEST RecordContentTypeRequest (p @ chunksOf xs @ d)),
           (1, metaFor 1 RT_RESPONSE RecordContentTypeResponse (q @ chunksOf ys @ e))]\<rparr>"
    by (simp add: closeMeta_def putRecordMeta_def newRecordMeta_def metaFor_def)
  have "w_cwWire w4 = w_cwWire w3 @ streamMsgs 1 ys @ payloadMsgs 1 e @
      [ReqMeta (closeMeta 1 (q @ chunksOf ys @ e) (putRecordMeta ?rb ?m))]"
    using w4(2) w3(2,7) assms(1) by (auto simp: storedAll_def)
  then have "w_cwWire w4 = w_cwWire w @ [ReqProtocolHeader 0 p] @ streamMsgs 0 xs @ payloadMsgs 0 d @
       [ReqProtocolHeader 1 q] @ streamMsgs 1 ys @ payloadMsgs 1 e @
       [ReqMeta (m\<lparr>wm_RecordMeta :=
          [(0, metaFor 0 RT_REQUEST RecordContentTypeRequest (p @ chunksOf xs @ d)),
           (1, metaFor 1 RT_RESPONSE RecordContentTypeResponse (q @ chunksOf ys @ e))]\<rparr>)]"
    unfolding final w3(3) live2(2) w1(3) by simp
  moreover have "recordExchange E k p (xs, d) q (ys, e) status w =
       Done (xs @ [(d, Some IoEOF)], ys @ [(e, Some IoEOF)]) w4"
    using w1(1) w2(1) w3(1) w4(1) by (simp add: recordExchange_def del: requestReads.simps responseReads.simps)
  ultimately show ?thesis by blast
qed

text \<open>The stream of a whole exchange, with the meta message that fits it, and what the content writer replies.\<close>

definition exchangeMeta :: "writeMeta \<Rightarrow> bytes \<Rightarrow> bytes \<Rightarrow> writeMeta" where
  "exchangeMeta m reqRecord respRecord = m\<lparr>wm_RecordMeta :=
     [(0, metaFor 0 RT_REQUEST RecordContentTypeRequest reqRecord),
      (1, metaFor 1 RT_RESPONSE RecordContentTypeResponse respRecord)]\<rparr>"

text \<open>The service after both records, whatever the next message is.\<close>

lemma cwMockRun_received:
  "\<exists>s. (\<forall>M. cwMockRun ([ReqProtocolHeader 0 p] @ streamMsgs 0 xs @ payloadMsgs 0 d @
       [ReqProtocolHeader 1 q] @ streamMsgs 1 ys @ payloadMsgs 1 e @ [M]) newCwMock = cwMockRun [M] s) \<and>
     received 0 (p @ chunksOf xs @ d) s \<and> received 1 (q @ chunksOf ys @ e) s \<and> mk_records s = []"
proof -
  let ?P = "p @ chunksOf xs @ d" and ?Q = "q @ chunksOf ys @ e"
  obtain s1 where s1: "\<forall>rs. cwMockRun (ReqProtocolHeader 0 p # rs) newCwMock = cwMockRun rs s1" "received 0 p s1" "mk_records s1 = []"
    by (rule cwMockRun_header [of 0 p newCwMock]) (metis newCwMock_def cwMock.select_convs(1))
  have chunks: "chunksOf (zs @ [(z, None)]) = chunksOf zs @ z" for zs z by simp
  obtain s2 where s2: "\<forall>rs. cwMockRun (streamMsgs 0 (xs @ [(d, None)]) @ rs) s1 = cwMockRun rs s2"
    "received 0 ?P s2" "mk_records s2 = []"
    using cwMockRun_stream [OF s1(2), of "xs @ [(d, None)]"] unfolding chunks s1(3) by blast
  obtain s3 where s3: "\<forall>rs. cwMockRun (ReqProtocolHeader 1 q # rs) s2 = cwMockRun rs s3"
    "received 1 q s3" "received 0 ?P s3" "mk_records s3 = []"
    by (rule cwMockRun_header [of 1 q s2]) (metis s2(2,3) zero_neq_one)
  obtain s4 where s4: "\<forall>rs. cwMockRun (streamMsgs 1 (ys @ [(e, None)]) @ rs) s3 = cwMockRun rs s4"
    "received 1 ?Q s4" "received 0 ?P s4" "mk_records s4 = []"
    using cwMockRun_stream [OF s3(2), of "ys @ [(e, None)]"] s3(3)
    unfolding chunks s3(4) by (metis zero_neq_one)
  have "cwMockRun (ReqProtocolHeader 0 p # (streamMsgs 0 (xs @ [(d, None)]) @
      ReqProtocolHeader 1 q # (streamMsgs 1 (ys @ [(e, None)]) @ [M]))) newCwMock = cwMockRun [M] s4" for M
    unfolding s1(1) [rule_format] s2(1) [rule_format] s3(1) [rule_format] s4(1) [rule_format] by (rule refl)
  then show ?thesis using s4(2-4) by (intro exI [of _ s4]) simp
qed

lemma cwMockRun_exchange:
  "cwMockRun ([ReqProtocolHeader 0 p] @ streamMsgs 0 xs @ payloadMsgs 0 d @
       [ReqProtocolHeader 1 q] @ streamMsgs 1 ys @ payloadMsgs 1 e @
       [ReqMeta (exchangeMeta m (p @ chunksOf xs @ d) (q @ chunksOf ys @ e))]) newCwMock =
     Some (if contains (wm_TargetUri m) ''cwerr'' then Inl (invalidArgument ''Fake error'')
       else Inr (Some [(0, mockReply 0 RT_REQUEST), (1, mockReply 1 RT_RESPONSE)]))"
proof -
  let ?P = "p @ chunksOf xs @ d" and ?Q = "q @ chunksOf ys @ e"
  let ?M = "ReqMeta (exchangeMeta m ?P ?Q)"
  obtain s where s: "cwMockRun ([ReqProtocolHeader 0 p] @ streamMsgs 0 xs @ payloadMsgs 0 d @ [ReqProtocolHeader 1 q] @ streamMsgs 1 ys @
       payloadMsgs 1 e @ [?M]) newCwMock = cwMockRun [?M] s" "received 0 ?P s" "received 1 ?Q s" "mk_records s = []"
    using cwMockRun_received [of p xs d q ys e] by blast
  show ?thesis unfolding s(1) using received_check [OF s(2)] received_check [OF s(3)] s(4)
    by (simp add: metaFor_def sizeOf_def digestOf_def exchangeMeta_def)
qed

text \<open>
  What the proxy sends for a completed exchange is what the content writer expects. Where
  the sends succeed, the stream of an exchange is the header and the payloads of the request, those of the
  response and one meta message, and the service of the test suite accepts it: every size and digest matches and
  it replies with a record for both, unless the uri asks it for an error.
\<close>

theorem exchange_accepted:
  assumes "sendsSucceed E" and "rc_cwc (w_rc w) = None" and "e_cwOpen E (w_tick w) = None"
    and "w_cwWire w = []" and "GetRecordContext (w_data w) \<noteq> None"
    and "rc_Meta (w_rc w) = Some m" and "wm_RecordMeta m = []" and "\<not> contains (wm_TargetUri m) ''cwerr''"
    and "\<not> rc_FoundInCache (w_rc w)" and "rc_ReplacementScript (w_rc w) = None" and "bcReady w"
    and "endsOnce xs" and "endsOnce ys" and "replyHas E 1"
  shows "\<exists>w'. recordExchange E k p (xs, d) q (ys, e) status w =
       Done (xs @ [(d, Some IoEOF)], ys @ [(e, Some IoEOF)]) w' \<and>
     cwMockRun (w_cwWire w') newCwMock =
       Some (Inr (Some [(0, mockReply 0 RT_REQUEST), (1, mockReply 1 RT_RESPONSE)]))"
  using recordExchange_wire [OF assms(1-3,5-7,9-14), of k p d q e status]
    cwMockRun_exchange [of p xs d q ys e m] assms(8)
  unfolding assms(4) exchangeMeta_def [symmetric] by auto

theorem exchange_accepted_witness:
  "\<exists>w'. recordExchange okEnv 8 ''P'' ([], []) ''Q'' ([(''ab'', None)], ''c'') 200 (recordingWorld None) =
       Done ([([], Some IoEOF)], [(''ab'', None), (''c'', Some IoEOF)]) w' \<and>
     cwMockRun (w_cwWire w') newCwMock =
       Some (Inr (Some [(0, mockReply 0 RT_REQUEST), (1, mockReply 1 RT_RESPONSE)]))"
proof -
  note w = recordingWorld_simps
  obtain m where m: "rc_Meta (w_rc (recordingWorld None)) = Some m" "wm_RecordMeta m = []"
    "wm_TargetUri m = ''http://a/''" using w(8) by blast
  have "\<not> contains (wm_TargetUri m) ''cwerr''" by (simp add: m(3) hasPrefix_def)
  moreover have "endsOnce []" "endsOnce [(''ab'', None)]" "replyHas okEnv 1" by (simp_all add: endsOnce_def w(2))
  ultimately show ?thesis
    using exchange_accepted [where E = okEnv and w = "recordingWorld None" and xs = "[]" and ys = "[(''ab'', None)]"
        and k = 8 and p = "''P''" and d = "[]" and q = "''Q''" and e = "''c''" and status = 200,
        OF w(1,5,6,7,4) m(1,2) _ w(9,11,10)]
    by simp
qed

text \<open>
  Against the browser controller of the test suite a registration succeeds, is refused with the
  robots.txt error when the uri ends in \<open>blocked\<close>, and is refused with the same error, not with an internal one,
  when the controller fails on a uri that ends in \<open>bccerr\<close>.
\<close>

theorem mock_registration:
  assumes "rc_bcc (w_rc w) = None" and "e_bcOpen E (w_tick w) = None" and "w_data w \<noteq> None"
    and "w_bcIn w = bcMockReplies uri"
  shows "result (RegisterNewRequest E w) =
     Some (if hasSuffix uri ''blocked'' \<or> hasSuffix uri ''bccerr'' then Some robotsError else None)"
proof -
  have "\<forall>v. RecvReply (ReplyNew v) \<in> set (w_bcIn w) \<longrightarrow> nr_CollectionRef v \<noteq> None"
    by (auto simp: assms(4) bcMockReplies_def mockNewReply_def)
  from register_result [OF assms(1-3) this] show ?thesis
    by (auto simp: assms(4) bcMockReplies_def hasPrefix_def)
qed

theorem mock_registration_witness:
  "result (RegisterNewRequest okEnv (startWorld (bcMockReplies ''http://a/bccerr''))) = Some (Some robotsError)"
proof -
  have "hasSuffix ''http://a/bccerr'' ''bccerr''" by (simp add: hasSuffix_def hasPrefix_def)
  then show ?thesis
    using mock_registration [of "startWorld (bcMockReplies ''http://a/bccerr'')" okEnv "''http://a/bccerr''"]
    by (simp add: startWorld_def blankRecordContext_def okEnv_def)
qed

end
