(* ===== verification/Filters.thy ===== *)
theory Filters
  imports Body_Recording
begin

text \<open>
  The filter chain of \<open>recorderproxy/\<close>: \<open>nonproxy_filter.go\<close>, \<open>tracing_init_filter.go\<close>,
  \<open>context_init_filter.go\<close>, \<open>dns_lookup_filter.go\<close>, \<open>recorder_filter.go\<close>,
  \<open>error_handler_filter.go\<close> and \<open>handleRequestError\<close> of \<open>request_handler.go\<close>. A filter gets the
  rest of the chain as its argument \<open>next\<close>. The filter context that is passed along is the shared map of
  \<open>Context_Data\<close>, part of the state, so the contexts that \<open>next\<close> returns carry nothing more.
  Tracing spans and logging are left out.
\<close>

section \<open>Requests, responses and the rest of the chain\<close>

text \<open>
  A message with its body. Before the recorder a request carries whatever body the client
  sends; the recorder wraps it, and gives the client a recorded body or, where it did not record, the raw one.
\<close>

datatype reqBody = RawReq reader | RecordedReq wrappedRequestBody
datatype respBody = RawResp reader | RecordedResp wrappedResponseBody

type_synonym 'b handled = "(http_response \<times> 'b) option \<times> go_error option"
type_synonym ('q, 'b) nextFilter = "http_request \<times> 'q \<Rightarrow> world \<Rightarrow> ('b handled, world) run"

text \<open>
  What a filter knows of its connection: the proxy's id, \<open>ctx.IsMITMing()\<close>, and what the browser
  controller will send for this request, on the stream of a CONNECT and on that of a session.
\<close>

record filterConf =
  f_proxyId :: int
  f_IsMITMing :: bool
  f_connectIn :: "recvResult list"
  f_incoming :: "recvResult list"

definition MethodConnect :: string where
  "MethodConnect = ''CONNECT''"

definition rawHandled :: "reader handled \<Rightarrow> respBody handled" where
  "rawHandled h = (map_option (apsnd RawResp) (fst h), snd h)"

section \<open>Error responses (recorderproxy/request_handler.go)\<close>

text \<open>
  \<open>errorResponse\<close>: the assignment \<open>resp, c, err := filters.Fail(...)\<close> overwrites \<open>err\<close>, so the headers
  describe the error that \<open>Fail\<close> returned; the message of a nil error panics.
\<close>

definition addErrorHeaders :: "go_error \<Rightarrow> http_response \<Rightarrow> http_response" where
  "addErrorHeaders e r = r\<lparr>rs_Header :=
     headerAdd (headerAdd (rs_Header r) HeaderProxyErrorCode (errorCodeString (Code e)))
       HeaderProxyError (Message e)\<rparr>"

definition errorResponse :: "env \<Rightarrow> go_error \<Rightarrow> world \<Rightarrow> (reader handled, world) run" where
  "errorResponse E err w = (case e_fail E (HttpStatusCode err) err of
     ((resp, body), None) \<Rightarrow> Panics w
   | ((resp, body), Some e) \<Rightarrow> Done (Some (addErrorHeaders e resp, body), Some e) w)"

text \<open>Without a record context \<open>rc\<close> is nil and \<open>SendRequestError\<close> dereferences it.\<close>

definition handleRequestError :: "env \<Rightarrow> go_error option \<Rightarrow> world \<Rightarrow> (reader handled, world) run" where
  "handleRequestError E reqErr w =
     (if GetRecordContext (w_data w) = None then Panics w
      else andThen (SendRequestError E reqErr w) (\<lambda>e w.
        case e of
          None \<Rightarrow> Panics w
        | Some e \<Rightarrow> andThen (CancelContentWriter E (Detail e) w) (\<lambda>_ w. errorResponse E e w)))"

section \<open>NonproxyFilter and TracingInitFilter\<close>

definition nonproxyError :: go_error where
  "nonproxyError = ErrorString ''This is a proxy server. Does not respond to non-proxy requests.''"

definition failWith :: "env \<Rightarrow> int \<Rightarrow> go_error \<Rightarrow> reader handled" where
  "failWith E status e = (case e_fail E status e of (resp, err) \<Rightarrow> (Some resp, err))"

definition NonproxyFilter_Apply ::
    "env \<Rightarrow> filterConf \<Rightarrow> ('q, respBody) nextFilter \<Rightarrow> ('q, respBody) nextFilter" where
  "NonproxyFilter_Apply E cf nxt req w =
     (if rq_Method (fst req) = MethodConnect then nxt req w
      else case rq_URL (fst req) of
        None \<Rightarrow> Panics w
      | Some u \<Rightarrow>
          if \<not> isAbs u \<and> \<not> f_IsMITMing cf then Done (rawHandled (failWith E 500 nonproxyError)) w
          else nxt req w)"

text \<open>The span is all that \<open>TracingInitFilter\<close> adds; it reads the URL of other requests than CONNECT.\<close>

definition TracingInitFilter_Apply :: "('q, respBody) nextFilter \<Rightarrow> ('q, respBody) nextFilter" where
  "TracingInitFilter_Apply nxt req w =
     (if rq_Method (fst req) = MethodConnect then nxt req w
      else if rq_URL (fst req) = None then Panics w else nxt req w)"

section \<open>ContextInitFilter\<close>

definition initConnect :: "env \<Rightarrow> filterConf \<Rightarrow> http_request \<Rightarrow> url \<Rightarrow> world \<Rightarrow> (unit, world) run" where
  "initConnect E cf req u w =
     andThen (onData (SetHost (urlHostname u)) w) (\<lambda>_ w.
     andThen (onData (SetPort (urlPort u)) w) (\<lambda>_ w.
     let uri = u\<lparr>u_Scheme := ''https''\<rparr>
     in andThen (onData (SetUri (Some uri)) w) (\<lambda>_ w.
        RegisterConnectRequest E (f_connectIn cf) (f_proxyId cf) req uri w)))"

definition initHost :: "url \<Rightarrow> world \<Rightarrow> (unit, world) run" where
  "initHost u w =
     (if GetHost (w_data w) = [] then
        andThen (onData (SetHost (urlHostname u)) w) (\<lambda>_ w. onData (SetPort (urlPort u)) w)
      else Done () w)"

definition requestUri :: "url \<Rightarrow> world \<Rightarrow> url" where
  "requestUri u w = (case GetUri (w_data w) of Some base \<Rightarrow> resolveReference base u | None \<Rightarrow> u)"

text \<open>A new record context for the request, initialised and stored in the context.\<close>

definition initRecord :: "env \<Rightarrow> filterConf \<Rightarrow> http_request \<Rightarrow> url \<Rightarrow> world \<Rightarrow> (http_request, world) run" where
  "initRecord E cf req uri w =
     (let w = NewRecordContext (f_incoming cf) w
      in andThen (onData (SetRecordContext (Some (rc_session (w_rc w)))) w) (\<lambda>_ w.
         rcInit E (f_proxyId cf) req uri w))"

definition ContextInitFilter_Apply ::
    "env \<Rightarrow> filterConf \<Rightarrow> ('q, respBody) nextFilter \<Rightarrow> ('q, respBody) nextFilter" where
  "ContextInitFilter_Apply E cf nxt req w = (case rq_URL (fst req) of
     None \<Rightarrow> Panics w
   | Some u \<Rightarrow>
      if rq_Method (fst req) = MethodConnect then
        andThen (initConnect E cf (fst req) u w) (\<lambda>_ w. nxt req w)
      else
        andThen (initHost u w) (\<lambda>_ w.
        andThen (initRecord E cf (fst req) (requestUri u w) w) (\<lambda>hreq w.
        andThen (RegisterNewRequest E w) (\<lambda>e w.
          if e \<noteq> None then andThen (handleRequestError E e w) (\<lambda>h w. Done (rawHandled h) w)
          else nxt (hreq, snd req) w))))"

section \<open>DnsLookupFilter\<close>

definition portError :: "string \<Rightarrow> go_error" where
  "portError port = ErrorString (''strconv.Atoi: parsing '' @ [char_of (34::nat)] @ port @ [char_of (34::nat)] @
     (if isDecimal (atoiDigits port) then '': value out of range'' else '': invalid syntax''))"

definition dnsError :: "env \<Rightarrow> string \<Rightarrow> string \<Rightarrow> go_error \<Rightarrow> go_error option" where
  "dnsError E host port e = Wrap (Some e) DomainLookupFailed
     (''Got '' @ [char_of (39::nat)] @ ''no such host'' @ [char_of (39::nat)] @ '' from DNS for host: '' @ host @ '', port: '' @ port)
     (e_statusMessage E e)"

definition dnsResolve :: "env \<Rightarrow> string \<Rightarrow> string \<Rightarrow> world \<Rightarrow> (go_error option, world) run" where
  "dnsResolve E host port w =
     (case (if port = [] then Some 0 else atoi port) of
        None \<Rightarrow> Done (Wrap (Some (portError port)) DomainLookupFailed ''illegal port'' port) w
      | Some p \<Rightarrow>
         (case e_dns E (w_tick w) \<lparr>rr_ExecutionId = GetCrawlExecutionId (w_data w),
             rr_CollectionRef = GetCollectionRef (w_data w), rr_Host = host, rr_Port = int32 p\<rparr> of
            Inl e \<Rightarrow> Done (dnsError E host port e) (tick w)
          | Inr ip \<Rightarrow> andThen (onData (SetIp ip) (tick w)) (\<lambda>_ w. Done None w)))"

definition DnsLookupFilter_Apply :: "env \<Rightarrow> ('q, respBody) nextFilter \<Rightarrow> ('q, respBody) nextFilter" where
  "DnsLookupFilter_Apply E nxt req w =
     (let host = GetHost (w_data w); port = GetPort (w_data w)
      in if GetIp (w_data w) = [] \<and> host \<noteq> [] then
           andThen (dnsResolve E host port w) (\<lambda>e w.
             if e \<noteq> None then andThen (handleRequestError E e w) (\<lambda>h w. Done (rawHandled h) w)
             else nxt req w)
         else nxt req w)"

section \<open>RecorderFilter\<close>

text \<open>\<open>isFromCache\<close> indexes the header map directly, with the key as it is written.\<close>

definition isFromCache :: "http_response \<Rightarrow> bool" where
  "isFromCache resp \<longleftrightarrow> list_ex (\<lambda>v. contains v ''HIT from veidemann_cache'') (headerValues (rs_Header resp) ''X-Cache'')"

definition recorderHeaders :: "world \<Rightarrow> header \<Rightarrow> header" where
  "recorderHeaders w h = headerSet (headerSet (headerSet h HeaderAcceptEncoding ''identity'')
     HeaderCrawlExecutionId (GetCrawlExecutionId (w_data w)))
     HeaderJobExecutionId (GetJobExecutionId (w_data w))"

definition newWriteMeta :: "world \<Rightarrow> writeMeta" where
  "newWriteMeta w = \<lparr>wm_RecordMeta = [], wm_TargetUri = urlString (rc_Uri (w_rc w)),
     wm_ExecutionId = GetCrawlExecutionId (w_data w), wm_IpAddress = GetIp (w_data w),
     wm_CollectionRef = GetCollectionRef (w_data w), wm_FetchTimeStamp = rc_FetchTime (w_rc w)\<rparr>"

definition lostGrpc :: "go_error \<Rightarrow> go_error option" where
  "lostGrpc e = WrapInternalError (Some e) RuntimeException
     ''Veidemann proxy lost connection to GRPC services'' (errText e)"

definition setMeta :: "writeMeta \<Rightarrow> url \<Rightarrow> world \<Rightarrow> world" where
  "setMeta m uri w = updLog (\<lambda>cl. cl\<lparr>cl_RequestedUri := urlString uri\<rparr>)
     (w_rc_update (rc_Meta_update (\<lambda>_. Some m)) w)"

text \<open>The prolog is that of the request before the headers are changed.\<close>

definition filterRequest ::
    "env \<Rightarrow> http_request \<times> reader \<Rightarrow> world \<Rightarrow> (go_error option + http_request \<times> reqBody, world) run" where
  "filterRequest E req w = (case writeRequestProlog (e_toASCII E) (fst req) of
     None \<Rightarrow> Panics w
   | Some (Inl err) \<Rightarrow> Done (Inl (WrapInternalError (Some err) RuntimeException
       ''Unable to write request headers'' (errText err))) w
   | Some (Inr prolog) \<Rightarrow>
       (let hreq = (fst req)\<lparr>rq_Header := recorderHeaders w (rq_Header (fst req))\<rparr>;
            w = setMeta (newWriteMeta w) (rc_Uri (w_rc w)) w;
            contentType = headerGet (rq_Header hreq) ''Content-Type''
        in andThen (WrapRequestBody E (snd req) contentType prolog w) (\<lambda>b w.
             case b of Inl err \<Rightarrow> Done (Inl (lostGrpc err)) w
             | Inr b \<Rightarrow> Done (Inr (hreq, RecordedReq b)) w)))"

definition hasBcError :: "world \<Rightarrow> bool" where
  "hasBcError w \<longleftrightarrow> (case rc_Error (w_rc w) of None \<Rightarrow> False
     | Some e \<Rightarrow> hasPrefix (errText e) ''unknown error from browser controller'')"

definition scriptLength :: "world \<Rightarrow> http_response \<Rightarrow> http_response" where
  "scriptLength w resp = (case rc_ReplacementScript (w_rc w) of None \<Rightarrow> resp
     | Some script \<Rightarrow> resp\<lparr>rs_ContentLength := int (length script)\<rparr>)"

text \<open>A nil response panics with \<open>http.ErrAbortHandler\<close>. Writing to a buffer never fails.\<close>

definition filterResponse ::
    "env \<Rightarrow> (http_response \<times> reader) option \<Rightarrow> world \<Rightarrow> (go_error option + http_response \<times> respBody, world) run" where
  "filterResponse E respOrig w = (case respOrig of
     None \<Rightarrow> Panics w
   | Some (resp, body) \<Rightarrow>
       if hasBcError w then Done (Inr (resp, RawResp body)) w
       else (let w = (if isFromCache resp then w_rc_update (rc_FoundInCache_update (\<lambda>_. True)) w else w);
                 prolog = writeResponseProlog resp;
                 contentType = headerGet (rs_Header resp) ''Content-Type''
             in andThen (WrapResponseBody E body (int32 (rs_StatusCode resp)) contentType RT_RESPONSE prolog w) (\<lambda>b w.
                  case b of Inl err \<Rightarrow> Done (Inl (lostGrpc err)) w
                  | Inr b \<Rightarrow> Done (Inr (scriptLength w resp, RecordedResp b)) w)))"

definition recordRoundTrip ::
    "env \<Rightarrow> (reqBody, reader) nextFilter \<Rightarrow> http_request \<times> reader \<Rightarrow> world \<Rightarrow> (respBody handled, world) run" where
  "recordRoundTrip E nxt req w = andThen (filterRequest E req w) (\<lambda>r w.
     case r of
       Inl err \<Rightarrow> andThen (handleRequestError E err w) (\<lambda>h w. Done (rawHandled h) w)
     | Inr req \<Rightarrow> andThen (nxt req w) (\<lambda>(resp, err) w.
         if err \<noteq> None then Done (rawHandled (resp, err)) w
         else andThen (filterResponse E resp w) (\<lambda>r w.
           case r of
             Inl err \<Rightarrow> andThen (handleRequestError E err w) (\<lambda>h w. Done (rawHandled h) w)
           | Inr resp \<Rightarrow> Done (Some resp, None) w)))"

definition connectOk :: http_response where
  "connectOk = \<lparr>rs_Status = [], rs_StatusCode = 200, rs_ProtoMajor = 0, rs_ProtoMinor = 0,
     rs_Header = [], rs_ContentLength = 0\<rparr>"

definition RecorderFilter_Apply ::
    "env \<Rightarrow> (reqBody, reader) nextFilter \<Rightarrow> (reader, respBody) nextFilter" where
  "RecorderFilter_Apply E nxt req w =
     (if GetConnectError (w_data w) \<noteq> None then
        andThen (nxt (fst req, RawReq (snd req)) w) (\<lambda>h w. Done (rawHandled h) w)
      else if rq_Method (fst req) = MethodConnect then
        andThen (nxt (fst req, RawReq (snd req)) w) (\<lambda>_ w.
          case e_shortCircuit E connectOk of (resp, err) \<Rightarrow> Done (rawHandled (Some resp, err)) w)
      else if GetRecordContext (w_data w) = None then Panics w
      else recordRoundTrip E nxt req w)"

section \<open>ErrorHandlerFilter\<close>

definition ErrorHandlerFilter_Apply :: "env \<Rightarrow> ('q, reader) nextFilter \<Rightarrow> ('q, reader) nextFilter" where
  "ErrorHandlerFilter_Apply E nxt req w =
     (case GetConnectError (w_data w) of
        Some e \<Rightarrow> handleRequestError E (normalizeError e) w
      | None \<Rightarrow> andThen (nxt req w) (\<lambda>(resp, err) w.
          case err of
            Some e \<Rightarrow> handleRequestError E (normalizeError e) w
          | None \<Rightarrow>
             (case resp of
                None \<Rightarrow> Panics w
              | Some (r, body) \<Rightarrow>
                 (let squidErr = headerGet (rs_Header r) ''X-Squid-Error''
                  in case (if squidErr = [] then None else handleSquidErrorString squidErr) of
                       Some e \<Rightarrow> handleRequestError E (Some e) w
                     | None \<Rightarrow> Done (resp, err) w))))"

section \<open>The chain and the response (recorderproxy/recorderproxy.go)\<close>

definition filterChain ::
    "env \<Rightarrow> filterConf \<Rightarrow> (reqBody, reader) nextFilter \<Rightarrow> (reader, respBody) nextFilter" where
  "filterChain E cf upstream =
     NonproxyFilter_Apply E cf (TracingInitFilter_Apply (ContextInitFilter_Apply E cf
       (DnsLookupFilter_Apply E (RecorderFilter_Apply E (ErrorHandlerFilter_Apply E upstream)))))"

text \<open>\<open>WriteResponseInterceptor\<close>: \<open>writeErr\<close> is what the invoker returned.\<close>

definition WriteResponseInterceptor ::
    "env \<Rightarrow> go_error option \<Rightarrow> world \<Rightarrow> (go_error option, world) run" where
  "WriteResponseInterceptor E writeErr w =
     (if GetRecordContext (w_data w) \<noteq> None then
        andThen (ResponseCompleted E writeErr w) (\<lambda>_ w.
        andThen (WaitForCompleted w) (\<lambda>_ w. Done writeErr w))
      else Done writeErr w)"

text \<open>\<open>MITM\<close> of the error forwarding interceptor: an error becomes the connect error of the context.\<close>

definition forwardMITMError :: "go_error option \<Rightarrow> world \<Rightarrow> (unit, world) run" where
  "forwardMITMError err w = (if err \<noteq> None then onData (SetConnectErrorIfNotExists err) w else Done () w)"

text \<open>\<open>Close\<close> polls until no session is open; \<open>counts\<close> are the polled values, and \<open>None\<close> is still polling.\<close>

fun closeWaits :: "int list \<Rightarrow> nat option" where
  "closeWaits [] = None"
| "closeWaits (n # counts) = (if n > 0 then map_option Suc (closeWaits counts) else Some 0)"

end
