(* ===== verification/Filter_Chain.thy ===== *)
theory Filter_Chain
  imports Filters
begin

text \<open>
  What the filter chain promises: a refused request is neither fetched nor recorded, an error
  reaches the client and the crawl log, the client's request is recorded and forwarded
  with the identifiers of its crawl, and when the hand-over of the response returns.
\<close>

section \<open>Nothing is recorded before a request is let through\<close>

text \<open>\<open>noCw\<close>: as long as there is no content writer session, none is opened and nothing is sent to it.\<close>

definition noCw :: "world \<Rightarrow> world \<Rightarrow> bool" where
  "noCw w w' \<longleftrightarrow> (rc_cwc (w_rc w) = None \<longrightarrow> rc_cwc (w_rc w') = None \<and> w_cwWire w' = w_cwWire w)"

interpretation ncw: state_relation noCw
  by unfold_locales (simp_all add: noCw_def)

lemma noCwI:
  "rc_cwc (w_rc w') = rc_cwc (w_rc w) \<Longrightarrow> w_cwWire w' = w_cwWire w \<Longrightarrow> noCw w w'"
  by (simp add: noCw_def)

lemma noCw_basic:
  "noCw w (tick w)" "noCw w (updLog f w)" "noCw w (setRcError e w)" "noCw w (setBcc b w)"
  "noCw w (w\<lparr>w_bcIn := evs\<rparr>)" "noCw w (w_rc_update (rc_PrecludedByRobots_update f1) w)"
  "noCw w (w_rc_update (rc_ReplacementScript_update f2) w)" "noCw w (updBcc h w)"
  "noCw w (snd (bcSend E r w))" "noCw w (endState (onData g w))"
  by (rule noCwI; simp add: setRcError_def updBcc_def bcSend_def onData_def split: option.split run.split)+

lemma noCw_getBccSession: "noCw w (endState (getBccSession E w))"
  by (rule noCwI) (simp_all add: getBccSession_def split: option.split)

lemma noCw_completeSend: "noCw w (endState (completeSend m w))"
  by (rule noCwI) (simp_all add: completeSend_def split: option.split)

lemma noCw_cancel: "noCw w (endState (CancelContentWriter E msg w))"
  by (simp add: noCw_def CancelContentWriter_def)

interpretation ncs: session_frame noCw
  by unfold_locales (simp_all add: noCw_basic noCw_getBccSession noCw_completeSend noCw_cancel)

lemma noCw_handleRequestError: "noCw w (endState (handleRequestError E e w))"
proof -
  have "noCw w (endState (errorResponse E e w))" for e w
    by (auto simp: errorResponse_def ncw.refl split: prod.split option.split)
  then show ?thesis
    by (auto simp: handleRequestError_def ncw.refl split: option.split
        intro!: ncw.end_andThen [OF ncs.SendRequestError_keeps] ncw.end_andThen [OF noCw_cancel])
qed

section \<open>Setting up the context of a request\<close>

definition setKey :: "ctxKey \<Rightarrow> ctxVal \<Rightarrow> world \<Rightarrow> world" where
  "setKey k v = w_data_update (map_option (AList.update k v))"

lemma onData_setValue:
  "w_data w \<noteq> None \<Longrightarrow> onData (setValue k v) w = Done () (setKey k v w)"
  by (auto simp: onData_def setValue_def getRecordProxyDataAware_def setKey_def)

lemma setKey_simps [simp]:
  "w_rc (setKey k v w) = w_rc w" "w_cwWire (setKey k v w) = w_cwWire w" "w_bcWire (setKey k v w) = w_bcWire w"
  "w_bcIn (setKey k v w) = w_bcIn w" "w_sess (setKey k v w) = w_sess w" "w_tick (setKey k v w) = w_tick w"
  "w_closedSess (setKey k v w) = w_closedSess w" "(w_data (setKey k v w) = None) = (w_data w = None)"
  by (simp_all add: setKey_def)

lemma setKey_aware [simp]:
  "(\<exists>y. w_data (setKey k v w) = Some y) = (\<exists>y. w_data w = Some y)"
  by (auto simp: setKey_def)

lemma getValue_setKey [simp]:
  "w_data w \<noteq> None \<Longrightarrow> getValue (w_data (setKey k v w)) k' = (if k' = k then v else getValue (w_data w) k')"
  by (auto simp: setKey_def getValue_def mapIndex_def update_conv)

lemmas data_ops = setter_defs getter_defs onData_setValue

lemma resolveIds_Done:
  assumes "w_data w \<noteq> None"
  shows "\<exists>w'. resolveIdsFromHttpHeader req w = Done () w' \<and> w_data w' \<noteq> None \<and> w_rc w' = w_rc w \<and>
     w_cwWire w' = w_cwWire w \<and> w_bcWire w' = w_bcWire w \<and> w_bcIn w' = w_bcIn w \<and> w_sess w' = w_sess w \<and>
     w_closedSess w' = w_closedSess w \<and> w_tick w' = w_tick w \<and>
     GetRecordContext (w_data w') = GetRecordContext (w_data w) \<and> GetIp (w_data w') = GetIp (w_data w) \<and>
     GetHost (w_data w') = GetHost (w_data w) \<and> GetPort (w_data w') = GetPort (w_data w) \<and>
     GetUri (w_data w') = GetUri (w_data w) \<and>
     GetCrawlExecutionId (w_data w') = headerGet (rq_Header req) HeaderCrawlExecutionId \<and>
     GetJobExecutionId (w_data w') = headerGet (rq_Header req) HeaderJobExecutionId"
  using assms by (simp add: resolveIdsFromHttpHeader_def Let_def data_ops)

text \<open>A record context right after \<open>Init\<close>.\<close>

definition freshRecord :: "filterConf \<Rightarrow> world \<Rightarrow> world \<Rightarrow> bool" where
  "freshRecord cf w w' \<longleftrightarrow> rc_bcc (w_rc w') = None \<and> rc_cwc (w_rc w') = None \<and> w_cwWire w' = [] \<and>
     w_bcWire w' = [] \<and> w_bcIn w' = f_incoming cf \<and> w_data w' \<noteq> None \<and>
     GetRecordContext (w_data w') \<noteq> None \<and> w_sess w' = w_sess w + 1 \<and> w_closedSess w' = w_closedSess w \<and>
     GetIp (w_data w') = GetIp (w_data w) \<and> GetHost (w_data w') = GetHost (w_data w) \<and>
     cl_IpAddress (rc_CrawlLog (w_rc w')) = GetIp (w_data w)"

lemma initRecord_Done:
  assumes "w_data w \<noteq> None"
  shows "\<exists>w'. initRecord E cf req uri w = Done (stripIdHeaders req) w' \<and> freshRecord cf w w'"
proof -
  let ?w0 = "NewRecordContext (f_incoming cf) w"
  let ?w1 = "setKey KeyRCTX (RecordVal (Some (rc_session (w_rc ?w0)))) ?w0"
  let ?w2 = "?w1\<lparr>w_rc := (w_rc ?w1)\<lparr>rc_ProxyId := f_proxyId cf, rc_Method := rq_Method req, rc_Uri := uri\<rparr>\<rparr>"
  have d: "w_data ?w0 \<noteq> None" "w_data ?w2 \<noteq> None" using assms by (simp_all add: NewRecordContext_def)
  have g: "GetRecordContext (w_data ?w2) \<noteq> None" "GetIp (w_data ?w2) = GetIp (w_data w)"
    "GetHost (w_data ?w2) = GetHost (w_data w)"
    using d(1) by (simp_all add: getter_defs) (simp_all add: NewRecordContext_def)
  obtain w3 where w3: "resolveIdsFromHttpHeader req ?w2 = Done () w3" "w_data w3 \<noteq> None" "w_rc w3 = w_rc ?w2"
    "w_cwWire w3 = w_cwWire ?w2" "w_bcWire w3 = w_bcWire ?w2" "w_bcIn w3 = w_bcIn ?w2" "w_sess w3 = w_sess ?w2"
    "w_closedSess w3 = w_closedSess ?w2" "GetRecordContext (w_data w3) = GetRecordContext (w_data ?w2)"
    "GetIp (w_data w3) = GetIp (w_data ?w2)" "GetHost (w_data w3) = GetHost (w_data ?w2)"
    using resolveIds_Done [OF d(2), of req] by blast
  have "onData (SetRecordContext (Some (rc_session (w_rc ?w0)))) ?w0 = Done () ?w1"
    by (simp add: SetRecordContext_def onData_setValue d(1))
  then show ?thesis using w3 g
    by (auto simp: initRecord_def rcInit_def Let_def freshRecord_def NewRecordContext_def blankRecordContext_def)
qed

lemma initHost_Done:
  assumes "w_data w \<noteq> None"
  shows "\<exists>w'. initHost u w = Done () w' \<and> w_data w' \<noteq> None \<and> w_sess w' = w_sess w \<and>
     w_closedSess w' = w_closedSess w \<and> GetIp (w_data w') = GetIp (w_data w) \<and>
     (GetHost (w_data w) \<noteq> [] \<longrightarrow> w' = w)"
  using assms by (auto simp: initHost_def data_ops)

lemma result_Done: "result m = Some x \<longleftrightarrow> (\<exists>s. m = Done x s)"
  by (cases m) auto

text \<open>A request and a connection for the witnesses.\<close>

definition plainRequest :: "string \<Rightarrow> url \<Rightarrow> http_request" where
  "plainRequest method u = \<lparr>rq_Method = method, rq_URL = Some u, rq_Host = u_Host u, rq_Header = []\<rparr>"

definition plainConf :: "recvResult list \<Rightarrow> filterConf" where
  "plainConf incoming = \<lparr>f_proxyId = 0, f_IsMITMing = False, f_connectIn = [], f_incoming = incoming\<rparr>"

text \<open>
  A request the browser controller refuses is neither fetched nor recorded: when the
  registration returns an error, the context filter answers without the rest of the chain, and
  nothing was sent to the content writer.
\<close>

theorem refused_not_fetched:
  assumes "rq_Method (fst req) \<noteq> MethodConnect" and "rq_URL (fst req) = Some u" and "w_data w \<noteq> None"
    and "\<forall>t. e_bcOpen E t = None"
    and "\<forall>v. RecvReply (ReplyNew v) \<in> set (f_incoming cf) \<longrightarrow> nr_CollectionRef v \<noteq> None"
    and "registerOutcome (f_incoming cf) = Some (Some e)"
  shows "ContextInitFilter_Apply E cf nxt req w = ContextInitFilter_Apply E cf nxt' req w \<and>
     w_cwWire (endState (ContextInitFilter_Apply E cf nxt req w)) = []"
proof -
  obtain w1 where w1: "initHost u w = Done () w1" "w_data w1 \<noteq> None" using initHost_Done [OF assms(3)] by blast
  obtain w2 where w2: "initRecord E cf (fst req) (requestUri u w1) w1 = Done (stripIdHeaders (fst req)) w2"
    "freshRecord cf w1 w2" using initRecord_Done [OF w1(2)] by blast
  have "result (RegisterNewRequest E w2) = registerOutcome (w_bcIn w2)"
    by (rule register_result) (use w2(2) assms(4,5) in \<open>auto simp: freshRecord_def\<close>)
  then obtain w3 where w3: "RegisterNewRequest E w2 = Done (Some e) w3"
    using assms(6) w2(2) by (auto simp: freshRecord_def result_Done)
  have eq: "ContextInitFilter_Apply E cf f req w =
      andThen (handleRequestError E (Some e) w3) (\<lambda>h w. Done (rawHandled h) w)" for f
    using assms(1,2) w1(1) w2(1) w3 by (simp add: ContextInitFilter_Apply_def)
  have "noCw w2 (endState (handleRequestError E (Some e) w3))"
    using ncw.trans [OF _ noCw_handleRequestError] ncs.RegisterNewRequest_keeps [of w2 E] w3 by simp
  then have "w_cwWire (endState (handleRequestError E (Some e) w3)) = []"
    using w2(2) by (simp add: noCw_def freshRecord_def)
  moreover have "endState (andThen m (\<lambda>h w. Done (rawHandled h) w)) = endState m" for m :: "(reader handled, world) run"
    by (cases m) simp_all
  ultimately show ?thesis by (simp add: eq)
qed

text \<open>A request the robots filter cancels: a chain that panics and one that blocks are both not entered.\<close>

theorem refused_not_fetched_witness:
  "ContextInitFilter_Apply okEnv (plainConf [RecvReply (ReplyCancel ''Blocked by robots.txt'')]) (\<lambda>r w. Panics w)
      (plainRequest ''GET'' (emptyUrl\<lparr>u_Host := ''b.no''\<rparr>), [] :: reader) (startWorld []) =
   ContextInitFilter_Apply okEnv (plainConf [RecvReply (ReplyCancel ''Blocked by robots.txt'')]) (\<lambda>r w. Blocks w)
      (plainRequest ''GET'' (emptyUrl\<lparr>u_Host := ''b.no''\<rparr>), [] :: reader) (startWorld [])"
proof -
  let ?cf = "plainConf [RecvReply (ReplyCancel ''Blocked by robots.txt'')]"
    and ?r = "plainRequest ''GET'' (emptyUrl\<lparr>u_Host := ''b.no''\<rparr>)"
  have "\<exists>e. registerOutcome (f_incoming ?cf) = Some (Some e)"
    by (simp add: plainConf_def hasPrefix_def)
  then obtain e where e: "registerOutcome (f_incoming ?cf) = Some (Some e)" ..
  have p: "rq_Method (fst (?r, [] :: reader)) \<noteq> MethodConnect" "rq_URL (fst (?r, [] :: reader)) = Some (emptyUrl\<lparr>u_Host := ''b.no''\<rparr>)"
    "w_data (startWorld []) \<noteq> None" "\<forall>t. e_bcOpen okEnv t = None"
    "\<forall>v. RecvReply (ReplyNew v) \<in> set (f_incoming ?cf) \<longrightarrow> nr_CollectionRef v \<noteq> None"
    by (simp_all add: plainRequest_def MethodConnect_def startWorld_def okEnv_def plainConf_def)
  show ?thesis
    by (rule refused_not_fetched [OF p e, where nxt = "\<lambda>r w. Panics w" and nxt' = "\<lambda>r w. Blocks w", THEN conjunct1])
qed

section \<open>Refusals before a session\<close>

text \<open>
  A request that is not meant for a proxy is answered with status 500 and leaves no trace: no session is counted,
  nothing is stored in the context, nothing is sent and the rest of the chain is not entered.
\<close>

theorem nonproxy_request_untouched:
  assumes "rq_Method (fst req) \<noteq> MethodConnect" and "rq_URL (fst req) = Some u"
    and "\<not> isAbs u" and "\<not> f_IsMITMing cf"
  shows "filterChain E cf upstream req w = Done (rawHandled (failWith E 500 nonproxyError)) w"
  using assms by (simp add: filterChain_def NonproxyFilter_Apply_def)

theorem nonproxy_request_untouched_witness:
  "\<exists>h. filterChain okEnv (plainConf []) (\<lambda>r w. Panics w) (plainRequest ''GET'' (emptyUrl\<lparr>u_EscPath := ''/a''\<rparr>), []) (startWorld [])
     = Done h (startWorld [])"
  using nonproxy_request_untouched [of "(plainRequest ''GET'' (emptyUrl\<lparr>u_EscPath := ''/a''\<rparr>), [])"
      "emptyUrl\<lparr>u_EscPath := ''/a''\<rparr>" "plainConf []" okEnv "\<lambda>r w. Panics w" "startWorld []"]
  by (auto simp: plainRequest_def plainConf_def MethodConnect_def isAbs_def emptyUrl_def)

lemma connectReply_Done:
  assumes "w_data w \<noteq> None"
  shows "\<exists>w'. connectReply ev w = Done () w' \<and> w_data w' \<noteq> None \<and>
     GetRecordContext (w_data w') = GetRecordContext (w_data w) \<and> GetIp (w_data w') = GetIp (w_data w) \<and>
     GetHost (w_data w') = GetHost (w_data w)"
  using assms by (cases ev) (auto simp: connectReply_def data_ops split: doReply.split)

lemma RegisterConnectRequest_Done:
  assumes "w_data w \<noteq> None" "list_ex isRecvErr incoming"
  shows "\<exists>w'. RegisterConnectRequest E incoming n req uri w = Done () w' \<and> w_data w' \<noteq> None \<and>
     GetRecordContext (w_data w') = GetRecordContext (w_data w) \<and> GetIp (w_data w') = GetIp (w_data w) \<and>
     GetHost (w_data w') = GetHost (w_data w)"
proof -
  obtain w1 where w1: "resolveIdsFromHttpHeader req w = Done () w1" "w_data w1 \<noteq> None"
    "GetRecordContext (w_data w1) = GetRecordContext (w_data w)" "GetIp (w_data w1) = GetIp (w_data w)"
    "GetHost (w_data w1) = GetHost (w_data w)"
    using resolveIds_Done [OF assms(1), of req] by blast
  obtain ev evs where inc: "incoming = ev # evs" using assms(2) by (cases incoming) auto
  have "\<exists>w'. andThen (connectReply ev w2) (\<lambda>_ w. if isRecvErr ev \<or> list_ex isRecvErr evs then Done () (tick w) else Blocks w) = Done () w' \<and>
     w_data w' \<noteq> None \<and> GetRecordContext (w_data w') = GetRecordContext (w_data w) \<and> GetIp (w_data w') = GetIp (w_data w) \<and>
     GetHost (w_data w') = GetHost (w_data w)" if "w_data w2 = w_data w1" for w2
    using connectReply_Done [of w2 ev] that w1 assms(2) inc by auto
  then show ?thesis using w1 inc by (auto simp: RegisterConnectRequest_def Let_def split: option.split)
qed

lemma initConnect_Done:
  assumes "w_data w \<noteq> None" "list_ex isRecvErr (f_connectIn cf)"
  shows "\<exists>w'. initConnect E cf req u w = Done () w' \<and> w_data w' \<noteq> None \<and>
     GetRecordContext (w_data w') = GetRecordContext (w_data w) \<and> GetIp (w_data w') = GetIp (w_data w) \<and>
     GetHost (w_data w') = urlHostname u"
proof -
  let ?w = "setKey KeyUrl (UriVal (Some (u\<lparr>u_Scheme := ''https''\<rparr>))) (setKey KeyPort (StringVal (urlPort u))
     (setKey KeyHost (StringVal (urlHostname u)) w))"
  have w: "w_data ?w \<noteq> None" using assms(1) by simp
  have "initConnect E cf req u w = RegisterConnectRequest E (f_connectIn cf) (f_proxyId cf) req (u\<lparr>u_Scheme := ''https''\<rparr>) ?w"
    using assms(1) by (simp add: initConnect_def SetHost_def SetPort_def SetUri_def onData_setValue Let_def)
  then show ?thesis
    using RegisterConnectRequest_Done [OF w assms(2), of E "f_proxyId cf" req "u\<lparr>u_Scheme := ''https''\<rparr>"] assms(1)
    by (auto simp: getter_defs)
qed

lemma dns_failure_panics:
  assumes "GetRecordContext (w_data w) = None" "GetIp (w_data w) = []" "GetHost (w_data w) \<noteq> []"
    and "\<forall>t r. \<exists>e. e_dns E t r = Inl e"
  shows "\<exists>w'. DnsLookupFilter_Apply E nxt req w = Panics w'"
proof -
  have dns: "e_dns E (w_tick w) r \<noteq> Inr ip" for r ip using assms(4) by (metis Inl_Inr_False)
  have "\<exists>e w'. dnsResolve E (GetHost (w_data w)) (GetPort (w_data w)) w = Done (Some e) w' \<and> w_data w' = w_data w"
    by (auto simp: dnsResolve_def dnsError_def dns split: option.split sum.split)
  then show ?thesis using assms(1-3) by (auto simp: DnsLookupFilter_Apply_def handleRequestError_def Let_def)
qed

text \<open>
  C25: A CONNECT to a host that cannot be resolved panics in the filter chain: the DNS filter handles its error with the
  record context, which a connection does not have before its first other request.
\<close>

theorem connect_dns_failure_panics:
  assumes "rq_Method (fst req) = MethodConnect" and "rq_URL (fst req) = Some u" and "urlHostname u \<noteq> []"
    and "w_data w = Some []" and "list_ex isRecvErr (f_connectIn cf)" and "\<forall>t r. \<exists>e. e_dns E t r = Inl e"
  shows "\<exists>w'. filterChain E cf upstream req w = Panics w'"
proof -
  have d: "w_data w \<noteq> None" "GetRecordContext (w_data w) = None" "GetIp (w_data w) = []"
    using assms(4) by (simp_all add: getter_defs getValue_def mapIndex_def)
  obtain w1 where w1: "initConnect E cf (fst req) u w = Done () w1" "GetRecordContext (w_data w1) = None"
    "GetIp (w_data w1) = []" "GetHost (w_data w1) = urlHostname u"
    using initConnect_Done [OF d(1) assms(5), of E "fst req" u] d(2,3) by auto
  show ?thesis
    using dns_failure_panics [OF w1(2,3) _ assms(6)] w1(1,4) assms(1-3)
    by (simp add: filterChain_def NonproxyFilter_Apply_def TracingInitFilter_Apply_def ContextInitFilter_Apply_def)
qed

theorem connect_dns_failure_panics_witness:
  "\<exists>w'. filterChain (okEnv\<lparr>e_dns := \<lambda>t r. Inl (ErrorString ''no such host'')\<rparr>) ((plainConf [])\<lparr>f_connectIn := [RecvEOF]\<rparr>)
      (\<lambda>r w. Panics w) (plainRequest ''CONNECT'' (emptyUrl\<lparr>u_Host := ''a.no''\<rparr>), []) ((startWorld [])\<lparr>w_data := Some []\<rparr>) = Panics w'"
proof -
  have "urlHostname (emptyUrl\<lparr>u_Host := ''a.no''\<rparr>) \<noteq> []"
    by (simp add: urlHostname_def urlSplitHostPort_def)
  then show ?thesis
    by (intro connect_dns_failure_panics)
      (simp_all add: plainRequest_def MethodConnect_def plainConf_def okEnv_def isRecvErr_def)
qed

section \<open>Errors\<close>

text \<open>The documented behaviour of \<open>filters.Fail\<close>: a response with the given status, and the given error.\<close>

definition failHonest :: "env \<Rightarrow> bool" where
  "failHonest E \<longleftrightarrow> (\<forall>status e. case e_fail E status e of ((resp, body), err) \<Rightarrow>
     err = Some e \<and> rs_StatusCode resp = status \<and> rs_Header resp = [])"

lemma canonical_error_keys:
  "canonicalKey HeaderProxyErrorCode = ''X-Recoderproxy-Err-Code''"
  "canonicalKey HeaderProxyError = ''X-Recoderproxy-Err''"
  by (simp_all add: HeaderProxyErrorCode_def HeaderProxyError_def canonicalKey_def tokenChar_def isAlnum_def
      upperChar_def lowerChar_def Let_def)

lemma HttpStatusCode_503: "HttpStatusCode e = 503"
  by (cases e) (simp_all add: HttpStatusCode_def StatusServiceUnavailable_def)

lemma errorHeaders:
  assumes "rs_Header r = []"
  shows "headerGet (rs_Header (addErrorHeaders e r)) HeaderProxyErrorCode = errorCodeString (Code e)"
    "headerGet (rs_Header (addErrorHeaders e r)) HeaderProxyError = Message e"
    "rs_StatusCode (addErrorHeaders e r) = rs_StatusCode r"
  using assms by (simp_all add: addErrorHeaders_def headerGet_def headerAdd_def headerValues_def canonical_error_keys)

lemma notify_open:
  assumes "rc_bcc (w_rc w) = Some b" "\<not> b_locked b" "b_complete b = None" "\<forall>t r. e_bcSend E t r = None"
  shows "\<exists>w'. notifyDataReceived E act w = Done None w' \<and> rc_bcc (w_rc w') = Some b"
  using assms
  by (simp add: notifyDataReceived_def getBccSession_def withLock_def updBcc_def notifyLocked_def bcSend_def)

lemma sendError_open:
  assumes "rc_bcc (w_rc w) = Some b" "\<not> b_locked b" "b_complete b = None" "b_loop b = LoopSelect"
  shows "\<exists>w' b'. withLock (sendErrorLocked (requestErrorLog e) e) w = Done (Some e) w' \<and>
     rc_bcc (w_rc w') = Some b' \<and>
     b_complete b' = Some \<lparr>cm_cl = requestErrorLog e (rc_CrawlLog (w_rc w)), cm_err = Some e\<rparr>"
  using assms
  by (simp add: withLock_def updBcc_def sendErrorLocked_def Let_def completeSend_def)

text \<open>
  An error of a request in progress reaches the client and the crawl log. With an open session the client gets status
  503 with code and message of the error in its headers, and the completion of the session carries the same
  code and the error in full.
\<close>

theorem error_reported:
  assumes "GetRecordContext (w_data w) \<noteq> None" and "rc_bcc (w_rc w) = Some b" and "\<not> b_locked b"
    and "b_loop b = LoopSelect" and "b_complete b = None" and "\<forall>t r. e_bcSend E t r = None" and "failHonest E"
  shows "\<exists>r body w' b' m. handleRequestError E (Some e) w = Done (Some (r, body), Some e) w' \<and>
     rs_StatusCode r = 503 \<and> headerGet (rs_Header r) HeaderProxyErrorCode = itoa (Code e) \<and>
     headerGet (rs_Header r) HeaderProxyError = Message e \<and>
     rc_bcc (w_rc w') = Some b' \<and> b_complete b' = Some m \<and> cm_err m = Some e \<and>
     cl_StatusCode (cm_cl m) = int32 (Code e) \<and> cl_Error (cm_cl m) = Some (AsCommonsError e)"
proof -
  obtain w0 where w0: "notifyDataReceived E ALL_DATA_RECEIVED w = Done None w0" "rc_bcc (w_rc w0) = Some b"
    using notify_open [OF assms(2,3,5,6)] by blast
  obtain w1 b1 where w1: "withLock (sendErrorLocked (requestErrorLog e) e) w0 = Done (Some e) w1"
    "rc_bcc (w_rc w1) = Some b1"
    "b_complete b1 = Some \<lparr>cm_cl = requestErrorLog e (rc_CrawlLog (w_rc w0)), cm_err = Some e\<rparr>"
    using sendError_open [OF w0(2) assms(3,5,4)] by blast
  have s: "SendRequestError E (Some e) w = Done (Some e) w1"
    using assms(2,5) w0(1) w1(1) by (simp add: SendRequestError_def getBccSession_def NotifyAllDataReceived_def)
  obtain e2 w2 where c: "CancelContentWriter E (Detail e) w1 = Done e2 w2" "cwFrame w1 w2"
    using CancelContentWriter_wire by blast
  obtain resp body err where fe: "e_fail E 503 e = ((resp, body), err)" by (metis prod.exhaust)
  have "case e_fail E 503 e of ((resp, body), err) \<Rightarrow>
     err = Some e \<and> rs_StatusCode resp = 503 \<and> rs_Header resp = []"
    by (rule assms(7) [unfolded failHonest_def, rule_format])
  then have f: "e_fail E 503 e = ((resp, body), Some e)" "rs_StatusCode resp = 503" "rs_Header resp = []"
    by (simp_all add: fe)
  have "handleRequestError E (Some e) w = Done (Some (addErrorHeaders e resp, body), Some e) w2"
    using assms(1) s c(1) f(1) by (simp add: handleRequestError_def errorResponse_def HttpStatusCode_503)
  then show ?thesis
    using errorHeaders [OF f(3), of e] f(2) w1 cwFrame_rc(1) [OF c(2)]
    by (simp add: errorCodeString_def requestErrorLog_def)
qed

theorem error_reported_witness:
  "\<exists>r body w'. handleRequestError okEnv (Some (newError EmptyResponse ''EMPTY_RESPONSE'' ''d''))
       (setBcc newBccSession (startWorld [])) = Done (Some (r, body), Some (newError EmptyResponse ''EMPTY_RESPONSE'' ''d'')) w' \<and>
     headerGet (rs_Header r) HeaderProxyError = ''EMPTY_RESPONSE''"
proof -
  let ?w = "setBcc newBccSession (startWorld [])"
  have "GetRecordContext (w_data ?w) \<noteq> None" "rc_bcc (w_rc ?w) = Some newBccSession" "\<not> b_locked newBccSession"
    "b_loop newBccSession = LoopSelect" "b_complete newBccSession = None" "\<forall>t r. e_bcSend okEnv t r = None" "failHonest okEnv"
    by (simp_all add: startWorld_def getter_defs getValue_def mapIndex_def newBccSession_def okEnv_def failHonest_def plainResponse_def)
  from error_reported [OF this, of "newError EmptyResponse ''EMPTY_RESPONSE'' ''d''"] show ?thesis by fastforce
qed

section \<open>The address of a connection\<close>



section \<open>Sessions that are never closed\<close>

text \<open>
  C24: A request for which the browser controller cannot be reached opens a session that is never closed: after the
  request was answered and its response was handed over, the number of open sessions is one higher, and
  \<open>Close\<close> keeps polling for as long as that number is polled.
\<close>

theorem unreachable_controller_leaks:
  assumes "rq_Method (fst req) \<noteq> MethodConnect" and "rq_URL (fst req) = Some u" and "w_data w \<noteq> None"
    and "\<forall>t. e_bcOpen E t \<noteq> None"
    and "w1 = endState (ContextInitFilter_Apply E cf nxt req w)"
    and "w2 = endState (WriteResponseInterceptor E writeErr w1)"
  shows "OpenSessions w2 = OpenSessions w + 1 \<and>
     (OpenSessions w \<ge> 0 \<longrightarrow> closeWaits (replicate n (OpenSessions w2)) = None)"
proof -
  obtain v1 where v1: "initHost u w = Done () v1" "w_data v1 \<noteq> None" "w_sess v1 = w_sess w" "w_closedSess v1 = w_closedSess w"
    using initHost_Done [OF assms(3)] by blast
  obtain v2 where v2: "initRecord E cf (fst req) (requestUri u v1) v1 = Done (stripIdHeaders (fst req)) v2"
    "freshRecord cf v1 v2" using initRecord_Done [OF v1(2)] by blast
  have open_fails: "\<exists>e. getBccSession E v = Done (Some e) (tick v)" if "rc_bcc (w_rc v) = None" for v
    using assms(4) that by (auto simp: getBccSession_def split: option.split)
  have none: "rc_bcc (w_rc v2) = None" "rc_cwc (w_rc v2) = None" "GetRecordContext (w_data v2) \<noteq> None"
    using v2(2) by (simp_all add: freshRecord_def)
  obtain e where e: "getBccSession E v2 = Done (Some e) (tick v2)" using open_fails none(1) by blast
  obtain e2 where e2: "getBccSession E (tick v2) = Done (Some e2) (tick (tick v2))" using open_fails [of "tick v2"] none(1) by auto
  have "SendRequestError E (Some e) (tick v2) = Done (Some e2) (tick (tick v2))"
    using e2 none(1) by (simp add: SendRequestError_def)
  then have "endState (handleRequestError E (Some e) (tick v2)) = tick (tick v2)"
    using none by (auto simp: handleRequestError_def CancelContentWriter_def errorResponse_def split: prod.split option.split)
  then have w1: "w1 = tick (tick v2)"
    using assms(1,2,5) v1(1) v2(1) e
    by (cases "handleRequestError E (Some e) (tick v2)") (simp_all add: ContextInitFilter_Apply_def RegisterNewRequest_def)
  obtain e3 where e3: "getBccSession E w1 = Done (Some e3) (tick w1)" using open_fails [of w1] none(1) w1 by auto
  have "w2 = tick w1"
    using none e3 w1 assms(6)
    by (auto simp: WriteResponseInterceptor_def ResponseCompleted_def handOverDone_def CancelContentWriter_def WaitForCompleted_def)
  then have leak: "OpenSessions w2 = OpenSessions w + 1"
    using w1 v2(2) v1(3,4) by (simp add: OpenSessions_def freshRecord_def)
  have "closeWaits (replicate n m) = None" if "m > 0" for m
    using that by (induction n) simp_all
  then show ?thesis using leak by simp
qed

theorem unreachable_controller_leaks_witness:
  "OpenSessions (endState (WriteResponseInterceptor (okEnv\<lparr>e_bcOpen := \<lambda>t. Some IoEOF\<rparr>) None
     (endState (ContextInitFilter_Apply (okEnv\<lparr>e_bcOpen := \<lambda>t. Some IoEOF\<rparr>) (plainConf []) (\<lambda>r w. Panics w)
        (plainRequest ''GET'' (emptyUrl\<lparr>u_Host := ''b.no''\<rparr>), []) (startWorld []))))) = 2"
proof -
  let ?E = "okEnv\<lparr>e_bcOpen := \<lambda>t. Some IoEOF\<rparr>" and ?r = "plainRequest ''GET'' (emptyUrl\<lparr>u_Host := ''b.no''\<rparr>)"
  have "rq_Method (fst (?r, [])) \<noteq> MethodConnect" "rq_URL (fst (?r, [])) = Some (emptyUrl\<lparr>u_Host := ''b.no''\<rparr>)"
    "w_data (startWorld []) \<noteq> None" "\<forall>t. e_bcOpen ?E t \<noteq> None"
    by (simp_all add: plainRequest_def MethodConnect_def startWorld_def)
  from unreachable_controller_leaks [OF this refl refl,
      where cf = "plainConf []" and nxt = "\<lambda>r w. Panics w" and writeErr = None]
  have "OpenSessions (endState (WriteResponseInterceptor ?E None
     (endState (ContextInitFilter_Apply ?E (plainConf []) (\<lambda>r w. Panics w) (?r, []) (startWorld []))))) =
     OpenSessions (startWorld []) + 1" by blast
  then show ?thesis by (simp add: OpenSessions_def startWorld_def del: fst_conv snd_conv)
qed

end
