(* ===== verification/Request_Flow.thy ===== *)
theory Request_Flow
  imports Filter_Chain Service_Mock
begin

text \<open>
  A request on its whole way: from the registration through the filters of \<open>src/recorderproxy/\<close> to the upstream
  server and back to the client, and the hand-over of the response in \<open>WriteResponseInterceptor\<close>.
\<close>

text \<open>The state of a request the browser controller has accepted: \<open>v\<close> is its reply.\<close>

definition acceptedState :: "newReply \<Rightarrow> url \<Rightarrow> world \<Rightarrow> bool" where
  "acceptedState v uri w \<longleftrightarrow> w_data w \<noteq> None \<and> GetRecordContext (w_data w) \<noteq> None \<and>
     GetConnectError (w_data w) = None \<and> GetCrawlExecutionId (w_data w) = nr_CrawlExecutionId v \<and>
     GetJobExecutionId (w_data w) = nr_JobExecutionId v \<and> rc_cwc (w_rc w) = None \<and> w_cwWire w = [] \<and>
     rc_Error (w_rc w) = None \<and> \<not> rc_FoundInCache (w_rc w) \<and> rc_Uri (w_rc w) = uri \<and>
     rc_ReplacementScript (w_rc w) = nr_ReplacementScript v \<and> (\<exists>rn. w_bcWire w = [DoNew rn] \<and> rn_Uri rn = urlString uri)"

lemma initRecord_record:
  assumes "w_data w \<noteq> None"
  obtains w' where "initRecord E cf req uri w = Done (stripIdHeaders req) w'" "freshRecord cf w w'"
    "rc_Uri (w_rc w') = uri" "rc_Error (w_rc w') = None" "\<not> rc_FoundInCache (w_rc w')"
    "GetConnectError (w_data w') = GetConnectError (w_data w)" "GetPort (w_data w') = GetPort (w_data w)"
proof -
  obtain w' where w': "initRecord E cf req uri w = Done (stripIdHeaders req) w'" "freshRecord cf w w'"
    using initRecord_Done [OF assms] by blast
  have d: "w_data (NewRecordContext (f_incoming cf) w) = w_data w" by (simp add: NewRecordContext_def)
  have "rc_Uri (w_rc w') = uri" "rc_Error (w_rc w') = None" "\<not> rc_FoundInCache (w_rc w')"
    "GetConnectError (w_data w') = GetConnectError (w_data w)" "GetPort (w_data w') = GetPort (w_data w)"
    using w'(1) assms by (auto simp: initRecord_def rcInit_def resolveIdsFromHttpHeader_def Let_def data_ops d
        NewRecordContext_def blankRecordContext_def split: if_splits)
  then show thesis using that w' by blast
qed

lemma rc_Uri_keeps [simp]:
  "rc_Uri (w_rc (setBcc b w)) = rc_Uri (w_rc w)" "rc_Uri (w_rc (updLog f w)) = rc_Uri (w_rc w)"
  "rc_Uri (w_rc (setCwc c w)) = rc_Uri (w_rc w)" "rc_cwc (w_rc (updLog f w)) = rc_cwc (w_rc w)"
  by (simp_all add: setBcc_def updLog_def setCwc_def)

text \<open>What a positive reply leaves of the state before the registration.\<close>

definition replyTaken :: "newReply \<Rightarrow> world \<Rightarrow> world \<Rightarrow> bool" where
  "replyTaken v w w' \<longleftrightarrow> w_data w' \<noteq> None \<and> w_bcWire w' = w_bcWire w @ [newRequestMsg w] \<and>
     w_cwWire w' = w_cwWire w \<and> rc_cwc (w_rc w') = rc_cwc (w_rc w) \<and> rc_Uri (w_rc w') = rc_Uri (w_rc w) \<and>
     rc_Error (w_rc w') = rc_Error (w_rc w) \<and> rc_FoundInCache (w_rc w') = rc_FoundInCache (w_rc w) \<and>
     rc_ReplacementScript (w_rc w') = nr_ReplacementScript v \<and>
     GetCrawlExecutionId (w_data w') = nr_CrawlExecutionId v \<and> GetJobExecutionId (w_data w') = nr_JobExecutionId v \<and>
     GetIp (w_data w') = GetIp (w_data w) \<and> GetHost (w_data w') = GetHost (w_data w) \<and>
     GetPort (w_data w') = GetPort (w_data w) \<and> GetRecordContext (w_data w') = GetRecordContext (w_data w) \<and>
     GetConnectError (w_data w') = GetConnectError (w_data w)"

lemma applyNewReply_Done:
  assumes "w_data w \<noteq> None" "nr_CollectionRef v \<noteq> None"
  shows "\<exists>w'. applyNewReply v w = Done None w' \<and> w_data w' \<noteq> None \<and> w_bcWire w' = w_bcWire w \<and>
     w_cwWire w' = w_cwWire w \<and> rc_cwc (w_rc w') = rc_cwc (w_rc w) \<and> rc_Uri (w_rc w') = rc_Uri (w_rc w) \<and>
     rc_Error (w_rc w') = rc_Error (w_rc w) \<and> rc_FoundInCache (w_rc w') = rc_FoundInCache (w_rc w) \<and>
     rc_ReplacementScript (w_rc w') = nr_ReplacementScript v \<and>
     GetCrawlExecutionId (w_data w') = nr_CrawlExecutionId v \<and> GetJobExecutionId (w_data w') = nr_JobExecutionId v \<and>
     GetIp (w_data w') = GetIp (w_data w) \<and> GetHost (w_data w') = GetHost (w_data w) \<and>
     GetPort (w_data w') = GetPort (w_data w) \<and> GetRecordContext (w_data w') = GetRecordContext (w_data w) \<and>
     GetConnectError (w_data w') = GetConnectError (w_data w)"
  using assms by (auto simp: applyNewReply_def data_ops)

lemma withLock_Done:
  assumes "rc_bcc (w_rc w) = Some b" "\<not> b_locked b" "f b (setBcc (b\<lparr>b_locked := True\<rparr>) w) = Done x w'"
  shows "withLock f w = Done x (updBcc (b_locked_update (\<lambda>_. False)) w')"
  using assms by (simp add: withLock_def updBcc_def)

lemma updBcc_keeps:
  "w_data (updBcc f w) = w_data w" "w_bcWire (updBcc f w) = w_bcWire w" "w_cwWire (updBcc f w) = w_cwWire w"
  "rc_cwc (w_rc (updBcc f w)) = rc_cwc (w_rc w)" "rc_Uri (w_rc (updBcc f w)) = rc_Uri (w_rc w)"
  "rc_Error (w_rc (updBcc f w)) = rc_Error (w_rc w)" "rc_FoundInCache (w_rc (updBcc f w)) = rc_FoundInCache (w_rc w)"
  "rc_ReplacementScript (w_rc (updBcc f w)) = rc_ReplacementScript (w_rc w)"
  by (simp_all add: updBcc_def split: option.split)

lemma RegisterNewRequest_accepted:
  assumes "rc_bcc (w_rc w) = None" "e_bcOpen E (w_tick w) = None" "\<forall>t r. e_bcSend E t r = None"
    "w_data w \<noteq> None" "w_bcIn w = RecvReply (ReplyNew v) # evs" "nr_CollectionRef v \<noteq> None"
  shows "\<exists>w'. RegisterNewRequest E w = Done None w' \<and> replyTaken v w w'"
proof -
  let ?l = "setBcc (newBccSession\<lparr>b_locked := True\<rparr>) (setBcc newBccSession (tick w))"
  let ?s = "tick (?l\<lparr>w_bcWire := w_bcWire w @ [newRequestMsg w]\<rparr>)"
  let ?o = "setBcc (newBccSession\<lparr>b_locked := True\<rparr>) (offer (Some (ReplyNew v)) False (?s\<lparr>w_bcIn := evs\<rparr>))"
  have msg: "newRequestMsg ?l = newRequestMsg w" by (simp add: newRequestMsg_def setBcc_def)
  have send: "bcSend E (newRequestMsg w) ?l = (None, ?s)" using assms(3) by (simp add: bcSend_def)
  have await: "awaitMsg E (w_bcIn ?s) ?s = Done (Some (ReplyNew v), True) ?o"
    using assms(5) by (simp add: awaitMsg.simps offer_def updBcc_def newBccSession_def)
  have "w_data ?o \<noteq> None" using assms(4) by (simp add: offer_def updBcc_keeps)
  from applyNewReply_Done [OF this assms(6)] obtain w2 where w2: "applyNewReply v ?o = Done None w2"
    and k: "w_data w2 \<noteq> None" "w_bcWire w2 = w_bcWire ?o" "w_cwWire w2 = w_cwWire ?o" "rc_cwc (w_rc w2) = rc_cwc (w_rc ?o)"
     "rc_Uri (w_rc w2) = rc_Uri (w_rc ?o)" "rc_Error (w_rc w2) = rc_Error (w_rc ?o)"
     "rc_FoundInCache (w_rc w2) = rc_FoundInCache (w_rc ?o)" "rc_ReplacementScript (w_rc w2) = nr_ReplacementScript v"
     "GetCrawlExecutionId (w_data w2) = nr_CrawlExecutionId v" "GetJobExecutionId (w_data w2) = nr_JobExecutionId v"
     "GetIp (w_data w2) = GetIp (w_data ?o)" "GetHost (w_data w2) = GetHost (w_data ?o)"
     "GetPort (w_data w2) = GetPort (w_data ?o)" "GetRecordContext (w_data w2) = GetRecordContext (w_data ?o)"
     "GetConnectError (w_data w2) = GetConnectError (w_data ?o)" by (elim exE conjE) (rule that; assumption)
  have "registerLocked E newBccSession ?l = Done None w2"
    using send await w2 msg by (simp add: registerLocked_def newBccSession_def)
  then have "withLock (registerLocked E) (setBcc newBccSession (tick w)) =
      Done None (updBcc (b_locked_update (\<lambda>_. False)) w2)"
    by (intro withLock_Done [where b = newBccSession]) (simp_all add: newBccSession_def)
  then have "RegisterNewRequest E w = Done None (updBcc (b_locked_update (\<lambda>_. False)) w2)"
    using assms(1,2) by (simp add: RegisterNewRequest_def getBccSession_def)
  moreover have "replyTaken v w (updBcc (b_locked_update (\<lambda>_. False)) w2)"
    using k by (simp add: replyTaken_def updBcc_keeps offer_def)
  ultimately show ?thesis by blast
qed

section \<open>From the registration to the upstream server\<close>

lemma DnsLookup_pass:
  assumes "w_data w \<noteq> None" "\<forall>t r. \<exists>ip. e_dns E t r = Inr ip"
    and "GetPort (w_data w) = [] \<or> atoi (GetPort (w_data w)) \<noteq> None"
  obtains w' where "DnsLookupFilter_Apply E nxt req w = nxt req w'"
    "\<And>v uri. acceptedState v uri w \<Longrightarrow> acceptedState v uri w'"
proof -
  have p: "\<exists>p. (if GetPort (w_data w) = [] then Some 0 else atoi (GetPort (w_data w))) = Some p"
    using assms(3) by auto
  have tk: "acceptedState v uri w \<Longrightarrow> acceptedState v uri (setKey KeyIp ip (tick w))" for v uri ip
    by (auto simp: acceptedState_def getter_defs)
  show thesis
  proof (cases "GetIp (w_data w) = [] \<and> GetHost (w_data w) \<noteq> []")
    case False
    then have "DnsLookupFilter_Apply E nxt req w = nxt req w" by (auto simp: DnsLookupFilter_Apply_def Let_def)
    then show thesis by (rule that)
  next
    case True
    obtain q where q: "(if GetPort (w_data w) = [] then Some 0 else atoi (GetPort (w_data w))) = Some q"
      using p by blast
    obtain ip where ip: "e_dns E (w_tick w) \<lparr>rr_ExecutionId = GetCrawlExecutionId (w_data w),
             rr_CollectionRef = GetCollectionRef (w_data w), rr_Host = GetHost (w_data w), rr_Port = int32 q\<rparr> = Inr ip"
      using assms(2) by blast
    have "w_data (tick w) \<noteq> None" using assms(1) by simp
    then have "dnsResolve E (GetHost (w_data w)) (GetPort (w_data w)) w = Done None (setKey KeyIp (StringVal ip) (tick w))"
      using q ip by (simp add: dnsResolve_def SetIp_def onData_setValue)
    then have "DnsLookupFilter_Apply E nxt req w = nxt req (setKey KeyIp (StringVal ip) (tick w))"
      using True by (simp add: DnsLookupFilter_Apply_def)
    then show thesis using tk by (rule that)
  qed
qed

lemma writeRequestProlog_Inr:
  "rq_URL r = Some u \<Longrightarrow> \<exists>p. writeRequestProlog f r = Some (Inr p)"
  by (simp add: writeRequestProlog_def Let_def)

lemma WrapRequestBody_wires:
  assumes "WrapRequestBody E body ct prolog w = Done r w'"
  shows "w_bcWire w' = w_bcWire w" "rc_Error (w_rc w') = rc_Error (w_rc w)"
proof -
  obtain u w1 where s: "startRecord (newRecordMeta 0 RT_REQUEST RecordContentTypeRequest) (-1) ct w = Done u w1"
    using assms by (auto simp: WrapRequestBody_def andThen_Done_iff)
  have w1: "w_bcWire w1 = w_bcWire w" "rc_Error (w_rc w1) = rc_Error (w_rc w)"
    using s by (auto simp: startRecord_def split: if_splits)
  have fr: "cwFrame w1 w'"
    using assms s sendOnSession_frame [of w1 E "ReqProtocolHeader 0 prolog"]
    by (auto simp: WrapRequestBody_def andThen_Done_iff SendProtocolHeader_def split: option.splits)
  then show "w_bcWire w' = w_bcWire w" using w1(1) by (simp add: cwFrame_def)
  show "rc_Error (w_rc w') = rc_Error (w_rc w)" using w1(2) cwFrame_rc(6) [OF fr] by simp
qed

section \<open>Through the recorder\<close>

text \<open>What an upstream that reads the recorded request leaves as it is.\<close>

definition keepsRecording :: "world \<Rightarrow> world \<Rightarrow> bool" where
  "keepsRecording w w' \<longleftrightarrow> w_data w' = w_data w \<and> rc_Error (w_rc w') = rc_Error (w_rc w) \<and>
     rc_FoundInCache (w_rc w') = rc_FoundInCache (w_rc w) \<and>
     rc_ReplacementScript (w_rc w') = rc_ReplacementScript (w_rc w) \<and>
     (rc_Meta (w_rc w) \<noteq> None \<longrightarrow> rc_Meta (w_rc w') \<noteq> None) \<and> (cwLive w \<longrightarrow> cwLive w')"

text \<open>The state while the request is upstream.\<close>

definition upstreamState :: "newReply \<Rightarrow> world \<Rightarrow> bool" where
  "upstreamState v w \<longleftrightarrow> GetRecordContext (w_data w) \<noteq> None \<and> GetConnectError (w_data w) = None \<and>
     cwLive w \<and> rc_Meta (w_rc w) \<noteq> None \<and> rc_Error (w_rc w) = None \<and> \<not> rc_FoundInCache (w_rc w) \<and>
     rc_ReplacementScript (w_rc w) = nr_ReplacementScript v"

lemma upstreamState_keeps: "upstreamState v w \<Longrightarrow> keepsRecording w w' \<Longrightarrow> upstreamState v w'"
  by (auto simp: upstreamState_def keepsRecording_def)

definition wrappedRequest :: "reader \<Rightarrow> bytes \<Rightarrow> wrappedRequestBody" where
  "wrappedRequest body prolog = \<lparr>q_ReadCloser = body, q_recNum = 0, q_size = int (length prolog),
     q_blockCrc = prolog, q_eof = False\<rparr>"

definition wrappedResponse :: "reader \<Rightarrow> bytes \<Rightarrow> wrappedResponseBody" where
  "wrappedResponse body prolog = \<lparr>p_ReadCloser = body, p_recNum = 1, p_size = int (length prolog),
     p_blockCrc = prolog, p_replacementReader = None, p_eof = False\<rparr>"

lemma filterRequest_accepted:
  assumes "acceptedState v uri w" "sendsSucceed E" "\<forall>t. e_cwOpen E t = None" "rq_URL (fst req) = Some u"
    "writeRequestProlog (e_toASCII E) (fst req) = Some (Inr prolog)"
  shows "\<exists>w'. filterRequest E req w = Done (Inr ((fst req)\<lparr>rq_Header := recorderHeaders w (rq_Header (fst req))\<rparr>,
       RecordedReq (wrappedRequest (snd req) prolog))) w' \<and> upstreamState v w' \<and>
     w_cwWire w' = [ReqProtocolHeader 0 prolog] \<and> w_bcWire w' = w_bcWire w"
proof -
  let ?w = "setMeta (newWriteMeta w) (rc_Uri (w_rc w)) w"
  let ?ct = "headerGet (recorderHeaders w (rq_Header (fst req))) ''Content-Type''"
  have w: "w_data ?w = w_data w" "rc_cwc (w_rc ?w) = None" "rc_Meta (w_rc ?w) = Some (newWriteMeta w)" "w_cwWire ?w = []"
    "rc_FoundInCache (w_rc ?w) = rc_FoundInCache (w_rc w)" "w_bcWire ?w = w_bcWire w" "rc_Error (w_rc ?w) = rc_Error (w_rc w)"
    "rc_ReplacementScript (w_rc ?w) = rc_ReplacementScript (w_rc w)"
    using assms(1) by (simp_all add: setMeta_def acceptedState_def)
  have o: "canOpen E ?w" using w(2) assms(3) by (simp add: canOpen_def)
  have d: "GetRecordContext (w_data ?w) \<noteq> None" using assms(1) w(1) by (simp add: acceptedState_def)
  from WrapRequestBody_open [OF assms(2) o d w(3), of "snd req" ?ct prolog] obtain w' where
    w': "WrapRequestBody E (snd req) ?ct prolog ?w = Done (Inr (wrappedRequest (snd req) prolog)) w'"
      "cwLive w'" "w_cwWire w' = [ReqProtocolHeader 0 prolog]" "rc_FoundInCache (w_rc w') = rc_FoundInCache (w_rc w)"
      "w_data w' = w_data w" "rc_ReplacementScript (w_rc w') = rc_ReplacementScript (w_rc w)" "rc_Meta (w_rc w') \<noteq> None"
    by (auto simp: wrappedRequest_def w)
  note k = WrapRequestBody_wires [OF w'(1)]
  have "upstreamState v w'" using w' k w(7) assms(1) by (simp add: upstreamState_def acceptedState_def)
  then show ?thesis using w'(1,3) k(1) w(6) assms(5) by (simp add: filterRequest_def Let_def)
qed

lemma filterResponse_upstream:
  assumes "upstreamState v w" "sendsSucceed E"
  shows "\<exists>w'. filterResponse E (Some (resp, body)) w =
       Done (Inr (case nr_ReplacementScript v of None \<Rightarrow> resp | Some s \<Rightarrow> resp\<lparr>rs_ContentLength := int (length s)\<rparr>,
         RecordedResp (wrappedResponse body (writeResponseProlog resp)))) w' \<and>
     w_cwWire w' = w_cwWire w @ (if isFromCache resp then [] else [ReqProtocolHeader 1 (writeResponseProlog resp)])"
proof -
  let ?p = "writeResponseProlog resp" and ?ct = "headerGet (rs_Header resp) ''Content-Type''"
  have e: "\<not> hasBcError w" using assms(1) by (simp add: hasBcError_def upstreamState_def)
  obtain m where m: "rc_Meta (w_rc w) = Some m" and d: "GetRecordContext (w_data w) \<noteq> None"
    and o: "canOpen E w" and f: "\<not> rc_FoundInCache (w_rc w)"
    and s: "rc_ReplacementScript (w_rc w) = nr_ReplacementScript v"
    using assms(1) by (auto simp: upstreamState_def canOpen_def)
  show ?thesis
  proof (cases "isFromCache resp")
    case True
    let ?w = "w_rc_update (rc_FoundInCache_update (\<lambda>_. True)) w"
    obtain w' where "WrapResponseBody E body (int32 (rs_StatusCode resp)) ?ct RT_RESPONSE ?p ?w =
        Done (Inr (wrappedResponse body ?p)) w'" "w_cwWire w' = w_cwWire w"
      "rc_ReplacementScript (w_rc w') = rc_ReplacementScript (w_rc w)"
      using m d by (simp add: WrapResponseBody_def startRecord_def wrappedResponse_def)
    then show ?thesis using True e s by (simp add: filterResponse_def scriptLength_def Let_def)
  next
    case False
    from WrapResponseBody_open [OF assms(2) o d m f, of body "int32 (rs_StatusCode resp)" ?ct RT_RESPONSE ?p]
    obtain w' where "WrapResponseBody E body (int32 (rs_StatusCode resp)) ?ct RT_RESPONSE ?p w =
        Done (Inr (wrappedResponse body ?p)) w'" "w_cwWire w' = w_cwWire w @ [ReqProtocolHeader 1 ?p]"
      "rc_ReplacementScript (w_rc w') = rc_ReplacementScript (w_rc w)"
      by (auto simp: wrappedResponse_def)
    then show ?thesis using False e s by (simp add: filterResponse_def scriptLength_def Let_def)
  qed
qed

section \<open>A whole request\<close>

lemma initHost_keeps:
  assumes "w_data w \<noteq> None"
  shows "\<exists>w'. initHost u w = Done () w' \<and> w_data w' \<noteq> None \<and> GetUri (w_data w') = GetUri (w_data w) \<and>
     GetConnectError (w_data w') = GetConnectError (w_data w) \<and> GetPort (w_data w') \<in> {GetPort (w_data w), urlPort u}"
  using assms by (auto simp: initHost_def data_ops)

lemma canonical_id_keys:
  "canonicalKey ''Accept-Encoding'' = ''Accept-Encoding''"
  "canonicalKey ''veidemann_eid'' = ''Veidemann_eid''" "canonicalKey ''veidemann_jeid'' = ''Veidemann_jeid''"
  by (simp_all add: canonicalKey_def tokenChar_def isAlnum_def upperChar_def lowerChar_def Let_def) code_simp+

lemma recorderHeaders_get:
  "headerGet (recorderHeaders w h) HeaderAcceptEncoding = ''identity''"
  "headerGet (recorderHeaders w h) HeaderCrawlExecutionId = GetCrawlExecutionId (w_data w)"
  "headerGet (recorderHeaders w h) HeaderJobExecutionId = GetJobExecutionId (w_data w)"
  by (simp_all add: recorderHeaders_def headerGet_Set HeaderAcceptEncoding_def HeaderCrawlExecutionId_def
      HeaderJobExecutionId_def canonical_id_keys)

lemma ContextInit_accepted:
  assumes "rq_Method (fst req) \<noteq> MethodConnect" "rq_URL (fst req) = Some u" "w_data w \<noteq> None"
    "GetConnectError (w_data w) = None" "\<forall>t. e_bcOpen E t = None" "\<forall>t r. e_bcSend E t r = None"
    "f_incoming cf = RecvReply (ReplyNew v) # evs" "nr_CollectionRef v \<noteq> None"
    "\<forall>p \<in> {GetPort (w_data w), urlPort u}. p = [] \<or> atoi p \<noteq> None" "\<forall>t r. \<exists>ip. e_dns E t r = Inr ip"
  shows "\<exists>w'. ContextInitFilter_Apply E cf (DnsLookupFilter_Apply E nxt) req w = nxt (stripIdHeaders (fst req), snd req) w' \<and>
     acceptedState v (requestUri u w) w'"
proof -
  obtain w1 where w1: "initHost u w = Done () w1" "w_data w1 \<noteq> None" "GetUri (w_data w1) = GetUri (w_data w)"
    "GetConnectError (w_data w1) = None" "GetPort (w_data w1) \<in> {GetPort (w_data w), urlPort u}"
    using initHost_keeps [OF assms(3), of u] assms(4) by auto
  have uri: "requestUri u w1 = requestUri u w" using w1(3) by (simp add: requestUri_def)
  obtain w2 where w2: "initRecord E cf (fst req) (requestUri u w) w1 = Done (stripIdHeaders (fst req)) w2" "freshRecord cf w1 w2"
    "rc_Uri (w_rc w2) = requestUri u w" "rc_Error (w_rc w2) = None" "\<not> rc_FoundInCache (w_rc w2)"
    "GetConnectError (w_data w2) = GetConnectError (w_data w1)" "GetPort (w_data w2) = GetPort (w_data w1)"
    by (rule initRecord_record [OF w1(2)])
  have f: "rc_bcc (w_rc w2) = None" "w_data w2 \<noteq> None" "w_bcIn w2 = RecvReply (ReplyNew v) # evs"
    "rc_cwc (w_rc w2) = None" "w_cwWire w2 = []" "w_bcWire w2 = []" "GetRecordContext (w_data w2) \<noteq> None"
    using w2(2) assms(7) by (simp_all add: freshRecord_def)
  have bo: "e_bcOpen E (w_tick w2) = None" using assms(5) by blast
  obtain w3 where w3: "RegisterNewRequest E w2 = Done None w3" "replyTaken v w2 w3"
    using RegisterNewRequest_accepted [OF f(1) bo assms(6) f(2,3) assms(8)] by blast
  have "\<exists>rn. newRequestMsg w2 = DoNew rn \<and> rn_Uri rn = urlString (requestUri u w)"
    using w2(3) by (simp add: newRequestMsg_def)
  then have acc: "acceptedState v (requestUri u w) w3"
    using w3(2) f w2(3-6) w1(4) by (simp add: acceptedState_def replyTaken_def)
  have port: "GetPort (w_data w3) = [] \<or> atoi (GetPort (w_data w3)) \<noteq> None"
  proof -
    have "GetPort (w_data w3) = GetPort (w_data w1)" using w3(2) w2(7) by (simp add: replyTaken_def)
    then show ?thesis using w1(5) assms(9) by metis
  qed
  have d: "w_data w3 \<noteq> None" using acc by (simp add: acceptedState_def)
  obtain w4 where w4: "DnsLookupFilter_Apply E nxt (stripIdHeaders (fst req), snd req) w3 =
      nxt (stripIdHeaders (fst req), snd req) w4" "acceptedState v (requestUri u w) w4"
    using DnsLookup_pass [OF d assms(10) port] acc by metis
  have "ContextInitFilter_Apply E cf (DnsLookupFilter_Apply E nxt) req w = nxt (stripIdHeaders (fst req), snd req) w4"
    using assms(1,2) w1(1) uri w2(1) w3(1) w4(1) by (simp add: ContextInitFilter_Apply_def)
  then show ?thesis using w4(2) by blast
qed

lemma Recorder_accepted:
  fixes upstream :: "(reqBody, reader) nextFilter"
  assumes "acceptedState v uri w" "rq_Method (fst req) \<noteq> MethodConnect" "rq_URL (fst req) = Some u" "sendsSucceed E"
    "\<forall>t. e_cwOpen E t = None" "\<forall>r w. \<exists>w'. upstream r w = Done (Some (resp, body), None) w' \<and> keepsRecording w w'"
    "headerGet (rs_Header resp) ''X-Squid-Error'' = []" "writeRequestProlog (e_toASCII E) (fst req) = Some (Inr prolog)"
  shows "\<exists>hreq w1 w2 w3. RecorderFilter_Apply E (ErrorHandlerFilter_Apply E upstream) req w =
       Done (Some (case nr_ReplacementScript v of None \<Rightarrow> resp | Some s \<Rightarrow> resp\<lparr>rs_ContentLength := int (length s)\<rparr>,
         RecordedResp (wrappedResponse body (writeResponseProlog resp))), None) w3 \<and>
     upstream (hreq, RecordedReq (wrappedRequest (snd req) prolog)) w1 = Done (Some (resp, body), None) w2 \<and>
     hreq = (fst req)\<lparr>rq_Header := recorderHeaders w (rq_Header (fst req))\<rparr> \<and>
     w_cwWire w1 = [ReqProtocolHeader 0 prolog] \<and> w_bcWire w1 = w_bcWire w \<and>
     w_cwWire w3 = w_cwWire w2 @ (if isFromCache resp then [] else [ReqProtocolHeader 1 (writeResponseProlog resp)])"
proof -
  let ?h = "(fst req)\<lparr>rq_Header := recorderHeaders w (rq_Header (fst req))\<rparr>" and ?b = "wrappedRequest (snd req) prolog"
  obtain w1 where w1: "filterRequest E req w = Done (Inr (?h, RecordedReq ?b)) w1" "upstreamState v w1"
     "w_cwWire w1 = [ReqProtocolHeader 0 prolog]" "w_bcWire w1 = w_bcWire w"
    using filterRequest_accepted [OF assms(1,4,5,3,8)] by blast
  obtain w2 where w2: "upstream (?h, RecordedReq ?b) w1 = Done (Some (resp, body), None) w2" "keepsRecording w1 w2"
    using assms(6) by blast
  have u2: "upstreamState v w2" by (rule upstreamState_keeps [OF w1(2) w2(2)])
  have e: "ErrorHandlerFilter_Apply E upstream (?h, RecordedReq ?b) w1 = Done (Some (resp, body), None) w2"
    using w1(2) w2(1) assms(7) by (simp add: ErrorHandlerFilter_Apply_def upstreamState_def)
  obtain w3 where w3: "filterResponse E (Some (resp, body)) w2 =
       Done (Inr (case nr_ReplacementScript v of None \<Rightarrow> resp | Some s \<Rightarrow> resp\<lparr>rs_ContentLength := int (length s)\<rparr>,
         RecordedResp (wrappedResponse body (writeResponseProlog resp)))) w3"
     "w_cwWire w3 = w_cwWire w2 @ (if isFromCache resp then [] else [ReqProtocolHeader 1 (writeResponseProlog resp)])"
    using filterResponse_upstream [OF u2 assms(4)] by blast
  have "RecorderFilter_Apply E (ErrorHandlerFilter_Apply E upstream) req w =
       Done (Some (case nr_ReplacementScript v of None \<Rightarrow> resp | Some s \<Rightarrow> resp\<lparr>rs_ContentLength := int (length s)\<rparr>,
         RecordedResp (wrappedResponse body (writeResponseProlog resp))), None) w3"
    using assms(1,2) w1(1) e w3(1) by (simp add: RecorderFilter_Apply_def recordRoundTrip_def acceptedState_def)
  then show ?thesis using w2(1) w1(3,4) w3(2) by blast
qed

lemma strip_simps [simp]:
  "rq_Method (stripIdHeaders r) = rq_Method r" "rq_URL (stripIdHeaders r) = rq_URL r"
  "(stripIdHeaders r)\<lparr>rq_Header := h\<rparr> = r\<lparr>rq_Header := h\<rparr>"
  by (simp_all add: stripIdHeaders_def)

text \<open>
  C14: A request the browser controller accepts goes through the whole chain: it is registered
  under its own URL, its host is resolved, and what reaches the upstream is the client's request with \<open>identity\<close> as
  its encoding and the ids of the reply, around a body that records it, after its prolog was sent to the content writer. The client gets the
  upstream's response, with the length of the replacement script if there is one, around a body that
  records it; its prolog is sent unless the response comes from the cache.
\<close>

theorem accepted_request_recorded:
  fixes upstream :: "(reqBody, reader) nextFilter"
  assumes "rq_Method (fst req) \<noteq> MethodConnect" "rq_URL (fst req) = Some u" "isAbs u \<or> f_IsMITMing cf" "w_data w \<noteq> None"
    "GetConnectError (w_data w) = None" "\<forall>t. e_bcOpen E t = None" "\<forall>t r. e_bcSend E t r = None"
    "f_incoming cf = RecvReply (ReplyNew v) # evs" "nr_CollectionRef v \<noteq> None"
    "\<forall>p \<in> {GetPort (w_data w), urlPort u}. p = [] \<or> atoi p \<noteq> None" "\<forall>t r. \<exists>ip. e_dns E t r = Inr ip"
    "sendsSucceed E" "\<forall>t. e_cwOpen E t = None"
    "\<forall>r w. \<exists>w'. upstream r w = Done (Some (resp, body), None) w' \<and> keepsRecording w w'"
    "headerGet (rs_Header resp) ''X-Squid-Error'' = []"
  shows "\<exists>hreq prolog w1 w2 w3 rn. filterChain E cf upstream req w =
       Done (Some (case nr_ReplacementScript v of None \<Rightarrow> resp | Some s \<Rightarrow> resp\<lparr>rs_ContentLength := int (length s)\<rparr>,
         RecordedResp (wrappedResponse body (writeResponseProlog resp))), None) w3 \<and>
     upstream (hreq, RecordedReq (wrappedRequest (snd req) prolog)) w1 = Done (Some (resp, body), None) w2 \<and>
     writeRequestProlog (e_toASCII E) (stripIdHeaders (fst req)) = Some (Inr prolog) \<and>
     hreq\<lparr>rq_Header := rq_Header (fst req)\<rparr> = fst req \<and>
     headerGet (rq_Header hreq) HeaderAcceptEncoding = ''identity'' \<and>
     headerGet (rq_Header hreq) HeaderCrawlExecutionId = nr_CrawlExecutionId v \<and>
     headerGet (rq_Header hreq) HeaderJobExecutionId = nr_JobExecutionId v \<and>
     w_bcWire w1 = [DoNew rn] \<and> rn_Uri rn = urlString (requestUri u w) \<and>
     w_cwWire w1 = [ReqProtocolHeader 0 prolog] \<and>
     w_cwWire w3 = w_cwWire w2 @ (if isFromCache resp then [] else [ReqProtocolHeader 1 (writeResponseProlog resp)])"
proof -
  let ?r = "(stripIdHeaders (fst req), snd req)"
  obtain w0 where w0: "ContextInitFilter_Apply E cf (DnsLookupFilter_Apply E
      (RecorderFilter_Apply E (ErrorHandlerFilter_Apply E upstream))) req w =
      RecorderFilter_Apply E (ErrorHandlerFilter_Apply E upstream) ?r w0" "acceptedState v (requestUri u w) w0"
    using ContextInit_accepted [OF assms(1,2,4-11)] by blast
  obtain prolog where p: "writeRequestProlog (e_toASCII E) (fst ?r) = Some (Inr prolog)"
    using writeRequestProlog_Inr [of "fst ?r" u] assms(2) by auto
  have r: "rq_Method (fst ?r) \<noteq> MethodConnect" "rq_URL (fst ?r) = Some u" using assms(1,2) by simp_all
  have chain: "filterChain E cf upstream req w = RecorderFilter_Apply E (ErrorHandlerFilter_Apply E upstream) ?r w0"
    using w0(1) assms(1-3) by (auto simp: filterChain_def NonproxyFilter_Apply_def TracingInitFilter_Apply_def)
  obtain hreq w1 w2 w3 where o: "RecorderFilter_Apply E (ErrorHandlerFilter_Apply E upstream) ?r w0 =
       Done (Some (case nr_ReplacementScript v of None \<Rightarrow> resp | Some s \<Rightarrow> resp\<lparr>rs_ContentLength := int (length s)\<rparr>,
         RecordedResp (wrappedResponse body (writeResponseProlog resp))), None) w3"
     "upstream (hreq, RecordedReq (wrappedRequest (snd ?r) prolog)) w1 = Done (Some (resp, body), None) w2"
     "hreq = (fst ?r)\<lparr>rq_Header := recorderHeaders w0 (rq_Header (fst ?r))\<rparr>"
     "w_cwWire w1 = [ReqProtocolHeader 0 prolog]" "w_bcWire w1 = w_bcWire w0"
     "w_cwWire w3 = w_cwWire w2 @ (if isFromCache resp then [] else [ReqProtocolHeader 1 (writeResponseProlog resp)])"
    using Recorder_accepted [OF w0(2) r assms(12-15) p] by blast
  obtain rn where rn: "w_bcWire w0 = [DoNew rn]" "rn_Uri rn = urlString (requestUri u w)"
    "GetCrawlExecutionId (w_data w0) = nr_CrawlExecutionId v" "GetJobExecutionId (w_data w0) = nr_JobExecutionId v"
    using w0(2) by (auto simp: acceptedState_def)
  show ?thesis
    using o p rn chain
    by (intro exI [of _ hreq] exI [of _ prolog] exI [of _ w1] exI [of _ w2] exI [of _ w3] exI [of _ rn])
      (simp add: recorderHeaders_get)
qed

theorem accepted_request_recorded_witness:
  "\<exists>prolog w3. filterChain okEnv (plainConf [RecvReply (ReplyNew (mockNewReply []))])
      (\<lambda>r w. Done (Some (plainResponse 200, []), None) w) (plainRequest ''GET'' (emptyUrl\<lparr>u_Scheme := ''http''\<rparr>), []) (startWorld []) =
    Done (Some (plainResponse 200, RecordedResp (wrappedResponse [] prolog)), None) w3"
proof -
  let ?u = "emptyUrl\<lparr>u_Scheme := ''http''\<rparr>" and ?r = "plainResponse 200"
    and ?cf = "plainConf [RecvReply (ReplyNew (mockNewReply []))]"
  let ?q = "(plainRequest ''GET'' ?u, [] :: reader)" and ?w = "startWorld []" and ?v = "mockNewReply []"
  let ?up = "\<lambda>r w. Done (Some (?r, [] :: reader), None :: go_error option) (w :: world)"
  have a: "rq_Method (fst ?q) \<noteq> MethodConnect" "rq_URL (fst ?q) = Some ?u" "isAbs ?u \<or> f_IsMITMing ?cf"
    by (simp_all add: plainRequest_def MethodConnect_def isAbs_def emptyUrl_def)
  have b: "w_data ?w \<noteq> None" "GetConnectError (w_data ?w) = None"
    "\<forall>t. e_bcOpen okEnv t = None" "\<forall>t r. e_bcSend okEnv t r = None"
    "f_incoming ?cf = RecvReply (ReplyNew ?v) # []" "nr_CollectionRef ?v \<noteq> None"
    "\<forall>p \<in> {GetPort (w_data ?w), urlPort ?u}. p = [] \<or> atoi p \<noteq> None" "\<forall>t r. \<exists>ip. e_dns okEnv t r = Inr ip"
    by (simp_all add: startWorld_def getter_defs getValue_def mapIndex_def okEnv_def plainConf_def mockNewReply_def
      urlPort_def urlSplitHostPort_def emptyUrl_def)
  have c: "sendsSucceed okEnv" "\<forall>t. e_cwOpen okEnv t = None"
    "\<forall>r w. \<exists>w'. ?up r w = Done (Some (?r, []), None) w' \<and> keepsRecording w w'"
    "headerGet (rs_Header ?r) ''X-Squid-Error'' = []"
    by (simp_all add: sendsSucceed_def okEnv_def keepsRecording_def plainResponse_def headerGet_def headerValues_def)
  have n: "nr_ReplacementScript ?v = None" by (simp add: mockNewReply_def hasSuffix_def hasPrefix_def)
  show ?thesis using accepted_request_recorded [OF a b c] by (auto simp: n)
qed

section \<open>When the interceptor returns\<close>

lemma recvEvent_cwc:
  "afterEvent ev \<noteq> RecvStuck \<Longrightarrow> rc_cwc (w_rc (recvEvent E ev w)) = rc_cwc (w_rc w)"
  by (cases "(E, ev, w)" rule: recvEvent.cases)
    (auto simp: offer_def updBcc_def setRcError_def split: option.split if_splits)

text \<open>A drain that reaches the end of the stream saw no cancel that would touch the content writer.\<close>

lemma drainMsgs_cwc:
  assumes "recvAt l k s d w" "l \<noteq> LoopSelect" "recvEnds s evs"
  shows "rc_cwc (w_rc (endState (drainMsgs E evs w))) = rc_cwc (w_rc w)"
  using assms
proof (induction evs arbitrary: w s)
  case Nil
  then obtain b where b: "rc_bcc (w_rc w) = Some b" "b_recv b = s" by (auto simp: recvAt_def)
  show ?case using drainMsgs_Some(1-3) [OF b(1), of E] b(2) by (cases "afterOffer s") auto
next
  case (Cons ev evs)
  then obtain b where b: "rc_bcc (w_rc w) = Some b" "b_loop b = l" "b_locked b = k" "b_recv b = s" "w_data w = d"
    by (auto simp: recvAt_def)
  note step = drainMsgs_Some [OF b(1), of E]
  show ?case
  proof (cases "afterOffer s")
    case Receiving
    let ?w1 = "(setBcc (b\<lparr>b_recv := Receiving\<rparr>) w)\<lparr>w_bcIn := evs\<rparr>"
    have "recvAt l k Receiving d ?w1" using recvAt_setBcc [OF b(1)] b by (simp add: recvAt_def)
    then have at: "recvAt l k (afterEvent ev) d (recvEvent E ev ?w1)" by (rule recvAt_recvEvent [OF _ Cons.prems(2)])
    have ends: "recvEnds (afterEvent ev) evs"
      using Cons.prems(3) by (simp only: recvEnds_afterOffer [of s] recvEnds_afterEvent) (simp add: Receiving)
    then have "afterEvent ev \<noteq> RecvStuck" by auto
    from recvEvent_cwc [OF this, of E ?w1] Cons.IH [OF at Cons.prems(2) ends]
    show ?thesis using step(4) b(4) Receiving by simp
  qed (use step(1,2) b(4) in auto)
qed

lemma saveCrawlLog_cwc:
  assumes "recvAt l k s d w" "l \<noteq> LoopSelect" "recvEnds s (w_bcIn w)"
  shows "rc_cwc (w_rc (endState (saveCrawlLogUnlocked E cl w))) = rc_cwc (w_rc w)"
proof -
  let ?r = "DoCompleted (stampLog E w cl) (rc_FoundInCache (w_rc w))"
  obtain e w1 where s: "bcSend E ?r (tick w) = (e, w1)" by (cases "bcSend E ?r (tick w)")
  have w1: "recvAt l k s d (tick w1)" "w_bcIn w1 = w_bcIn w" "rc_cwc (w_rc w1) = rc_cwc (w_rc w)"
    using bcSend_result [of E ?r "tick w"] s assms(1) by (auto simp: recvAt_def)
  have "rc_cwc (w_rc (endState (drainMsgs E (w_bcIn w) (tick w1)))) = rc_cwc (w_rc w)"
    using drainMsgs_cwc [OF w1(1) assms(2,3), of E] w1(3) by simp
  then show ?thesis
    by (cases "drainMsgs E (w_bcIn w) (tick w1)") (simp_all add: saveCrawlLogUnlocked_def s w1(2) Let_def)
qed

lemma finishBody_cwc:
  assumes "recvAt l k s d w" "l \<noteq> LoopSelect" "recvEnds s (w_bcIn w)"
  shows "rc_cwc (w_rc (endState (finishBody E b w))) = rc_cwc (w_rc w)"
proof -
  have t: "rc_cwc (w_rc (endState (andThen m (\<lambda>_ w. andThen (onData (SetRecordContext None) w) (\<lambda>_ w. Done () (markClosed w)))))) =
      rc_cwc (w_rc (endState m))" for m :: "('b, world) run"
    by (cases m) (auto simp: onData_def markClosed_def updBcc_def split: run.split option.split)
  have s: "rc_cwc (w_rc (endState (saveCrawlLogUnlocked E cl (updLog f (updLog g w))))) = rc_cwc (w_rc w)" for cl f g
  proof -
    have "recvAt l k s d (updLog f (updLog g w))" "recvEnds s (w_bcIn (updLog f (updLog g w)))"
      using assms(1,3) by (simp_all add: recvAt_def)
    then show ?thesis using saveCrawlLog_cwc [OF _ assms(2)] by simp
  qed
  show ?thesis
    using saveCrawlLog_cwc [OF assms] s by (simp add: finishBody_eq t split: option.split)
qed

lemma finish_cwc:
  assumes "rc_bcc (w_rc w) = Some b" "\<not> b_locked b" "recvEnds (b_recv b) (w_bcIn w)"
  shows "rc_cwc (w_rc (endState (finish E w))) = rc_cwc (w_rc w)"
proof -
  let ?b = "b\<lparr>b_loop := LoopFinishing\<rparr>"
  let ?w = "setBcc (?b\<lparr>b_locked := True\<rparr>) (setBcc ?b w)"
  have "recvAt LoopFinishing True (b_recv b) (w_data w) ?w" by (simp add: recvAt_def)
  from finishBody_cwc [OF this, of E ?b] assms(3)
  have "rc_cwc (w_rc (endState (finishBody E ?b ?w))) = rc_cwc (w_rc w)" by simp
  then show ?thesis
    using assms(1,2)
    by (cases "finishBody E ?b ?w") (auto simp: finish_def withLock_def updBcc_def split: option.split)
qed

text \<open>The wait for both sessions, after the response was handed over.\<close>

lemma WaitForCompleted_returns:
  "returns (WaitForCompleted w) \<longleftrightarrow> (\<forall>c. rc_cwc (w_rc w) = Some c \<longrightarrow> cw_CtxDone c) \<and>
     (\<forall>b. rc_bcc (w_rc w) = Some b \<longrightarrow> b_CtxDone b)"
  by (auto simp: WaitForCompleted_def split: option.split)

definition contentReleased :: "go_error option \<Rightarrow> world \<Rightarrow> bool" where
  "contentReleased writeErr w \<longleftrightarrow> (case rc_cwc (w_rc w) of None \<Rightarrow> True
     | Some c \<Rightarrow> cw_CtxDone c \<or> writeErr \<noteq> None \<and> \<not> cw_done c)"

lemma Cancel_releases:
  assumes "rc_cwc (w_rc w) = Some c"
  shows "\<exists>e w' c'. CancelContentWriter E msg w = Done e w' \<and> rc_bcc (w_rc w') = rc_bcc (w_rc w) \<and>
     rc_cwc (w_rc w') = Some c' \<and> cw_CtxDone c' = (cw_CtxDone c \<or> \<not> cw_done c)"
proof -
  obtain e w' where c: "CancelContentWriter E msg w = Done e w'" "cwFrame w w'"
    using CancelContentWriter_wire [of E msg w] by blast
  have "rc_bcc (w_rc w') = rc_bcc (w_rc w)" using cwFrame_rc(1) [OF c(2)] .
  moreover have "\<exists>c'. rc_cwc (w_rc w') = Some c' \<and> cw_CtxDone c' = (cw_CtxDone c \<or> \<not> cw_done c)"
    using c(1) assms
    by (auto simp: CancelContentWriter_def getCwcSession_def Let_def cwSend_def cwCloseAndRecv_def cwCtxCancel_def updCwc_def
        split: if_splits option.splits prod.splits)
  ultimately show ?thesis using c(1) by blast
qed

text \<open>
  C27: After the response was written, the interceptor returns exactly if the receiver of the session reaches the
  end of its stream and the content writer session was finished, or is still open and the write failed, which cancels it. Otherwise the connection
  is held for ever, for instance when the client got a response whose body was not read to its end.
\<close>

theorem interceptor_returns_iff:
  assumes "rc_bcc (w_rc w) = Some b" "\<not> b_locked b" "b_loop b = LoopSelect" "\<not> b_CtxDone b"
    and "GetRecordContext (w_data w) \<noteq> None" "filter isCompleted (w_bcWire w) = []"
  shows "returns (WriteResponseInterceptor E writeErr w) \<longleftrightarrow> recvEnds (b_recv b) (w_bcIn w) \<and> contentReleased writeErr w"
proof -
  obtain w1 b1 where w1: "endState (finish E w) = w1" "rc_bcc (w_rc w1) = Some b1"
    "b_CtxDone b1 = recvEnds (b_recv b) (w_bcIn w)"
  proof -
    obtain w' where f: "finish E w = (if recvEnds (b_recv b) (w_bcIn w) then Done () w' else Blocks w')"
      "w_closedSess w' = w_closedSess w + of_bool (recvEnds (b_recv b) (w_bcIn w))"
      using finish_outcome [OF assms(1,2,5), of E] by blast
    have "bcInv (w_closedSess w) w" using assms by (simp add: bcInv_def)
    from bcInv_finish [OF this assms(1,3), of E] have inv: "bcInv (w_closedSess w) w'"
      using f(1) by (simp split: if_splits)
    obtain b' where b': "rc_bcc (w_rc w') = Some b'"
      using finish_outcome [OF assms(1,2,5), of E] f(1) by (auto split: if_splits)
    have "endState (finish E w) = w'" using f(1) by simp
    moreover have "b_CtxDone b' = recvEnds (b_recv b) (w_bcIn w)"
      using inv b' f(2) by (auto simp: bcInv_def of_bool_def split: if_splits)
    ultimately show thesis using b' that by blast
  qed
  have h: "WriteResponseInterceptor E writeErr w = andThen (if writeErr \<noteq> None then
         andThen (CancelContentWriter E ''Veidemann recorder proxy lost connection to client'' w1) (\<lambda>_ w. Done () w)
       else Done () w1) (\<lambda>_ w. andThen (WaitForCompleted w) (\<lambda>_ w. Done writeErr w))"
    using assms(1,3,5) w1(1)
    by (simp add: WriteResponseInterceptor_def ResponseCompleted_def getBccSession_def handOverDone_def)
  have wait: "returns (andThen (WaitForCompleted v) (\<lambda>_ w. Done writeErr w)) = returns (WaitForCompleted v)" for v
    by (cases "WaitForCompleted v") simp_all
  show ?thesis
  proof (cases "recvEnds (b_recv b) (w_bcIn w)")
    case False
    have "rc_bcc (w_rc v) = Some b1 \<Longrightarrow> \<not> returns (WaitForCompleted v)" for v
      using False w1(3) by (auto simp: WaitForCompleted_returns)
    moreover obtain e w2 where "CancelContentWriter E ''Veidemann recorder proxy lost connection to client'' w1 = Done e w2"
      "cwFrame w1 w2" using CancelContentWriter_wire by blast
    ultimately show ?thesis using False w1(2) cwFrame_rc(1) by (auto simp: h wait)
  next
    case True
    have cwc: "rc_cwc (w_rc w1) = rc_cwc (w_rc w)" using finish_cwc [OF assms(1,2) True, of E] w1(1) by simp
    show ?thesis
    proof (cases "rc_cwc (w_rc w)")
      case None
      then show ?thesis using True w1 cwc by (simp add: h wait contentReleased_def CancelContentWriter_def WaitForCompleted_returns)
    next
      case (Some c)
      obtain e w2 c2 where "CancelContentWriter E ''Veidemann recorder proxy lost connection to client'' w1 = Done e w2"
        "rc_bcc (w_rc w2) = rc_bcc (w_rc w1)" "rc_cwc (w_rc w2) = Some c2" "cw_CtxDone c2 = (cw_CtxDone c \<or> \<not> cw_done c)"
        using Cancel_releases [of w1 c E "''Veidemann recorder proxy lost connection to client''"] cwc Some by auto
      then show ?thesis using True w1 cwc Some
        by (auto simp: h wait contentReleased_def WaitForCompleted_returns)
    qed
  qed
qed

theorem interceptor_returns_iff_witness:
  "returns (WriteResponseInterceptor okEnv None (setBcc newBccSession (startWorld [RecvReply ReplyOther, RecvEOF])))"
  using interceptor_returns_iff [of "setBcc newBccSession (startWorld [RecvReply ReplyOther, RecvEOF])" newBccSession okEnv None]
  by (simp add: startWorld_def newBccSession_def getter_defs getValue_def mapIndex_def contentReleased_def blankRecordContext_def)

end
