(* ===== verification/Utf8.thy ===== *)
theory Utf8
  imports Prelude
begin

text \<open>
  Package \<open>unicode/utf8\<close>: \<open>DecodeRune\<close>, the conversion \<open>string(rune)\<close>, and the runes of a string as
  \<open>range\<close> and package \<open>fmt\<close> count them. A byte that starts no valid encoding is a rune of its own, \<open>RuneError\<close> with width 1.
\<close>

section \<open>Decoding and encoding\<close>

definition RuneError :: nat where
  "RuneError = 0xFFFD"

definition inRange :: "nat \<Rightarrow> nat \<Rightarrow> char \<Rightarrow> bool" where
  "inRange lo hi c \<longleftrightarrow> lo \<le> byteVal c \<and> byteVal c \<le> hi"

text \<open>The range of the second byte, given the first (the table \<open>acceptRanges\<close>).\<close>

definition secondByte :: "nat \<Rightarrow> char \<Rightarrow> bool" where
  "secondByte p = (if p = 0xE0 then inRange 0xA0 0xBF else if p = 0xED then inRange 0x80 0x9F
     else if p = 0xF0 then inRange 0x90 0xBF else if p = 0xF4 then inRange 0x80 0x8F else inRange 0x80 0xBF)"

fun decode2 :: "nat \<Rightarrow> bytes \<Rightarrow> (nat \<times> nat) option" where
  "decode2 p (b # s) = (if secondByte p b then Some (p mod 32 * 64 + byteVal b mod 64, 2) else None)"
| "decode2 p [] = None"

fun decode3 :: "nat \<Rightarrow> bytes \<Rightarrow> (nat \<times> nat) option" where
  "decode3 p (b # c # s) = (if secondByte p b \<and> inRange 0x80 0xBF c
     then Some ((p mod 16 * 64 + byteVal b mod 64) * 64 + byteVal c mod 64, 3) else None)"
| "decode3 p s = None"

fun decode4 :: "nat \<Rightarrow> bytes \<Rightarrow> (nat \<times> nat) option" where
  "decode4 p (b # c # d # s) = (if secondByte p b \<and> inRange 0x80 0xBF c \<and> inRange 0x80 0xBF d
     then Some (((p mod 8 * 64 + byteVal b mod 64) * 64 + byteVal c mod 64) * 64 + byteVal d mod 64, 4) else None)"
| "decode4 p s = None"

fun decodeRune :: "bytes \<Rightarrow> nat \<times> nat" where
  "decodeRune [] = (RuneError, 0)"
| "decodeRune (a # s) = (let p = byteVal a in
     if p < 0x80 then (p, 1)
     else case (if p < 0xC2 then None else if p < 0xE0 then decode2 p s else if p < 0xF0 then decode3 p s
                else if p < 0xF5 then decode4 p s else None) of
       None \<Rightarrow> (RuneError, 1) | Some r \<Rightarrow> r)"

definition byteOf :: "nat \<Rightarrow> char" where
  "byteOf n = char_of n"

definition encodeValid :: "nat \<Rightarrow> bytes" where
  "encodeValid r = (if r < 0x80 then [byteOf r]
     else if r < 0x800 then [byteOf (0xC0 + r div 64), byteOf (0x80 + r mod 64)]
     else if r < 0x10000 then
       [byteOf (0xE0 + r div 64 div 64), byteOf (0x80 + r div 64 mod 64), byteOf (0x80 + r mod 64)]
     else [byteOf (0xF0 + r div 64 div 64 div 64), byteOf (0x80 + r div 64 div 64 mod 64),
       byteOf (0x80 + r div 64 mod 64), byteOf (0x80 + r mod 64)])"

text \<open>\<open>string(r)\<close>: surrogates and numbers beyond the last code point give \<open>RuneError\<close>.\<close>

definition encodeRune :: "nat \<Rightarrow> bytes" where
  "encodeRune r = (if 0xD800 \<le> r \<and> r \<le> 0xDFFF \<or> 0x10FFFF < r then encodeValid RuneError else encodeValid r)"

section \<open>Decoding and encoding agree\<close>

lemma byteVal_less [simp]: "byteVal c < 256"
  by (simp add: byteVal_def)

lemma byteOf_byteVal [simp]: "byteOf (byteVal c) = c"
  by (simp add: byteOf_def byteVal_def)

lemma byteVal_byteOf [simp]: "n < 256 \<Longrightarrow> byteVal (byteOf n) = n"
  by (simp add: byteOf_def byteVal_def)

lemma low_bits:
  assumes "m * q \<le> p" "p < m * q + (m :: nat)"
  shows "m * q + p mod m = p"
proof -
  obtain k where "p = m * q + k" using assms(1) le_Suc_ex by blast
  then show ?thesis using assms(2) by simp
qed

lemma continuation: "inRange 0x80 0xBF c \<Longrightarrow> 0x80 + byteVal c mod 64 = byteVal c"
  using low_bits [of 64 2 "byteVal c"] by (simp add: inRange_def)

lemma digit64: "y < 64 \<Longrightarrow> (x * 64 + y) div 64 = x" "y < 64 \<Longrightarrow> (x * 64 + y) mod 64 = (y :: nat)"
  by simp_all

lemma secondByte_range: "secondByte p b \<Longrightarrow> inRange 0x80 0xBF b"
  by (auto simp: secondByte_def inRange_def split: if_splits)

lemma decode2_encode:
  assumes "decode2 p s = Some (r, n)" "0xC2 \<le> p" "p < 0xE0"
  shows "encodeRune r = byteOf p # take 1 s \<and> n = 2 \<and> 1 \<le> length s"
proof -
  obtain b t where s: "s = b # t" "secondByte p b" and r: "r = p mod 32 * 64 + byteVal b mod 64" "n = 2"
    using assms(1) by (cases "(p, s)" rule: decode2.cases) (auto split: if_splits)
  have b: "0x80 + byteVal b mod 64 = byteVal b" by (rule continuation [OF secondByte_range [OF s(2)]])
  define x y where xy: "x = p mod 32" "y = byteVal b mod 64"
  have x: "0xC0 + x = p" "2 \<le> x" "x < 32" "y < 64"
    using low_bits [of 32 6 p] assms(2,3) by (simp_all add: xy)
  then have "0x80 \<le> r" "r < 0x800" "r div 64 = x" "r mod 64 = y"
    unfolding r(1) xy [symmetric] by simp_all
  then have "encodeRune r = [byteOf p, byteOf (byteVal b)]"
    using x b by (simp add: encodeRune_def encodeValid_def xy)
  then show ?thesis using s r by simp
qed

lemma decode3_encode:
  assumes "decode3 p s = Some (r, n)" "0xE0 \<le> p" "p < 0xF0"
  shows "encodeRune r = byteOf p # take 2 s \<and> n = 3 \<and> 2 \<le> length s"
proof -
  obtain b c t where s: "s = b # c # t" "secondByte p b" "inRange 0x80 0xBF c"
    and r: "r = (p mod 16 * 64 + byteVal b mod 64) * 64 + byteVal c mod 64" "n = 3"
    using assms(1) by (cases "(p, s)" rule: decode3.cases) (auto split: if_splits)
  have b: "0x80 + byteVal b mod 64 = byteVal b" by (rule continuation [OF secondByte_range [OF s(2)]])
  have c: "0x80 + byteVal c mod 64 = byteVal c" by (rule continuation [OF s(3)])
  define x y z where xyz: "x = p mod 16" "y = byteVal b mod 64" "z = byteVal c mod 64"
  have x: "0xE0 + x = p" "x < 16" "y < 64" "z < 64"
    using low_bits [of 16 14 p] assms(2,3) by (simp_all add: xyz)
  have e: "x = 0 \<longrightarrow> 32 \<le> y" "x = 13 \<longrightarrow> y < 32"
    using s(2) x(1) b unfolding secondByte_def inRange_def xyz(2) by (auto split: if_splits)
  have parts: "r div 64 = x * 64 + y" "r mod 64 = z" "r div 64 div 64 = x" "r div 64 mod 64 = y"
    unfolding r(1) xyz [symmetric] by (simp_all only: digit64 x)
  have r': "r = x * 4096 + y * 64 + z" unfolding r(1) xyz [symmetric] by simp
  have "r < 0x10000" using x(2-4) r' by linarith
  moreover have "0x800 \<le> r" using x(2-4) e(1) r' by (cases "x = 0") linarith+
  moreover have "\<not> (0xD800 \<le> r \<and> r \<le> 0xDFFF)"
    using x(2-4) e(2) r' by (cases "x = 13"; cases "x < 13") linarith+
  ultimately have bounds: "r < 0x10000" "0x800 \<le> r" "\<not> (0xD800 \<le> r \<and> r \<le> 0xDFFF)" by auto
  from bounds have "encodeRune r = [byteOf p, byteOf (byteVal b), byteOf (byteVal c)]"
    using x b c parts by (auto simp: encodeRune_def encodeValid_def xyz)
  then show ?thesis using s r by simp
qed

lemma decode4_encode:
  assumes "decode4 p s = Some (r, n)" "0xF0 \<le> p" "p < 0xF5"
  shows "encodeRune r = byteOf p # take 3 s \<and> n = 4 \<and> 3 \<le> length s"
proof -
  obtain b c d t where s: "s = b # c # d # t" "secondByte p b" "inRange 0x80 0xBF c" "inRange 0x80 0xBF d"
    and r: "r = ((p mod 8 * 64 + byteVal b mod 64) * 64 + byteVal c mod 64) * 64 + byteVal d mod 64" "n = 4"
    using assms(1) by (cases "(p, s)" rule: decode4.cases) (auto split: if_splits)
  have b: "0x80 + byteVal b mod 64 = byteVal b" by (rule continuation [OF secondByte_range [OF s(2)]])
  have c: "0x80 + byteVal c mod 64 = byteVal c" by (rule continuation [OF s(3)])
  have d: "0x80 + byteVal d mod 64 = byteVal d" by (rule continuation [OF s(4)])
  define x y z u where xyz: "x = p mod 8" "y = byteVal b mod 64" "z = byteVal c mod 64" "u = byteVal d mod 64"
  have x: "0xF0 + x = p" "x < 5" "y < 64" "z < 64" "u < 64"
    using low_bits [of 8 30 p] assms(2,3) by (simp_all add: xyz)
  have e: "x = 0 \<longrightarrow> 16 \<le> y" "x = 4 \<longrightarrow> y < 16"
    using s(2) x(1) b unfolding secondByte_def inRange_def xyz(2) by (auto split: if_splits)
  have parts: "r div 64 = (x * 64 + y) * 64 + z" "r mod 64 = u" "r div 64 div 64 = x * 64 + y" "r div 64 mod 64 = z"
    "r div 64 div 64 div 64 = x" "r div 64 div 64 mod 64 = y"
    unfolding r(1) xyz [symmetric] by (simp_all only: digit64 x)
  have r': "r = x * 262144 + y * 4096 + z * 64 + u" unfolding r(1) xyz [symmetric] by simp
  have lo: "0x10000 \<le> r" using x(2-5) e(1) r' by (cases "x = 0") linarith+
  have hi: "r \<le> 0x10FFFF" using x(2-5) e(2) r' by (cases "x = 4") linarith+
  from lo hi have "encodeRune r = [byteOf p, byteOf (byteVal b), byteOf (byteVal c), byteOf (byteVal d)]"
    using x b c d parts by (simp add: encodeRune_def encodeValid_def xyz)
  then show ?thesis using s r by simp
qed

text \<open>A decoded rune is printed as the bytes it was decoded from, and so is a valid \<open>RuneError\<close>, of three bytes.\<close>

lemma encode_decode:
  assumes "decodeRune s = (r, n)" "r \<noteq> RuneError \<or> 1 < n"
  shows "encodeRune r = take n s" "n \<le> length s"
proof -
  obtain a t where s: "s = a # t" using assms by (cases s) auto
  have "encodeRune r = take n s \<and> n \<le> length s"
  proof (cases "byteVal a < 0x80")
    case True
    then show ?thesis using assms s by (auto simp: encodeRune_def encodeValid_def)
  next
    case False
    define d where "d = (if byteVal a < 0xC2 then None else if byteVal a < 0xE0 then decode2 (byteVal a) t
        else if byteVal a < 0xF0 then decode3 (byteVal a) t
        else if byteVal a < 0xF5 then decode4 (byteVal a) t else None)"
    have "d = Some (r, n)"
      using assms False unfolding s decodeRune.simps(2) Let_def d_def [symmetric] by (cases d) auto
    note dec = this [unfolded d_def]
    consider "decode2 (byteVal a) t = Some (r, n)" "0xC2 \<le> byteVal a" "byteVal a < 0xE0"
      | "decode3 (byteVal a) t = Some (r, n)" "0xE0 \<le> byteVal a" "byteVal a < 0xF0"
      | "decode4 (byteVal a) t = Some (r, n)" "0xF0 \<le> byteVal a" "byteVal a < 0xF5"
      using dec by (metis linorder_not_less option.distinct(1))
    then show ?thesis
    proof cases
      case 1
      then show ?thesis using decode2_encode [OF 1] s by (simp add: eval_nat_numeral)
    next
      case 2
      then show ?thesis using decode3_encode [OF 2] s by (simp add: eval_nat_numeral)
    next
      case 3
      then show ?thesis using decode4_encode [OF 3] s by (simp add: eval_nat_numeral)
    qed
  qed
  then show "encodeRune r = take n s" "n \<le> length s" by auto
qed

lemma decodeRune_width:
  assumes "s \<noteq> []"
  shows "1 \<le> snd (decodeRune s)" "snd (decodeRune s) \<le> 4" "snd (decodeRune s) \<le> length s"
proof -
  obtain a t where s: "s = a # t" using assms by (cases s) auto
  have w: "decode2 p t = Some x \<Longrightarrow> snd x = 2 \<and> 1 \<le> length t" "decode3 p t = Some x \<Longrightarrow> snd x = 3 \<and> 2 \<le> length t"
    "decode4 p t = Some x \<Longrightarrow> snd x = 4 \<and> 3 \<le> length t" for p x
    subgoal by (cases "(p, t)" rule: decode2.cases) (auto split: if_splits)
    subgoal by (cases "(p, t)" rule: decode3.cases) (auto split: if_splits)
    subgoal by (cases "(p, t)" rule: decode4.cases) (auto split: if_splits)
    done
  show "1 \<le> snd (decodeRune s)" "snd (decodeRune s) \<le> 4" "snd (decodeRune s) \<le> length s"
    using w [of "byteVal a"] unfolding s by (auto simp: Let_def split: option.split)
qed

lemma high_bytes [simp]: "secondByte p b \<Longrightarrow> 128 \<le> byteVal b" "inRange 128 191 b \<Longrightarrow> 128 \<le> byteVal b"
  by (auto simp: secondByte_def inRange_def split: if_splits)

lemma decode_take:
  "decode2 p t = Some (r, n) \<Longrightarrow> n = 2 \<and> decode2 p (take 1 t) = Some (r, n) \<and> (\<forall>c \<in> set (take 1 t). 0x80 \<le> byteVal c)"
  "decode3 p t = Some (r, n) \<Longrightarrow> n = 3 \<and> decode3 p (take 2 t) = Some (r, n) \<and> (\<forall>c \<in> set (take 2 t). 0x80 \<le> byteVal c)"
  "decode4 p t = Some (r, n) \<Longrightarrow> n = 4 \<and> decode4 p (take 3 t) = Some (r, n) \<and> (\<forall>c \<in> set (take 3 t). 0x80 \<le> byteVal c)"
  subgoal by (cases "(p, t)" rule: decode2.cases) (auto split: if_splits)
  subgoal by (cases "(p, t)" rule: decode3.cases) (auto simp: numeral_2_eq_2 numeral_3_eq_3 split: if_splits)
  subgoal by (cases "(p, t)" rule: decode4.cases) (auto simp: numeral_2_eq_2 numeral_3_eq_3 split: if_splits)
  done

text \<open>A rune is decoded the same when the bytes after it are cut off; a rune of several bytes has no byte below 128.\<close>

lemma decodeRune_take:
  assumes "decodeRune s = (r, n)"
  shows "decodeRune (take n s) = (r, n)"
    and "n = 1 \<or> (\<forall>c \<in> set (take n s). 0x80 \<le> byteVal c)"
proof -
  have "decodeRune (take n s) = (r, n) \<and> (n = 1 \<or> (\<forall>c \<in> set (take n s). 0x80 \<le> byteVal c))"
  proof (cases s)
    case Nil
    then show ?thesis using assms by auto
  next
    case (Cons a t)
    consider "n = 1" "decodeRune [a] = (r, 1)"
      | "decode2 (byteVal a) t = Some (r, n)" "0xC2 \<le> byteVal a" "byteVal a < 0xE0"
      | "decode3 (byteVal a) t = Some (r, n)" "0xE0 \<le> byteVal a" "byteVal a < 0xF0"
      | "decode4 (byteVal a) t = Some (r, n)" "0xF0 \<le> byteVal a" "byteVal a < 0xF5"
      using assms unfolding Cons by (auto simp: Let_def split: if_splits option.splits)
    then show ?thesis
    proof cases
      case 1
      then show ?thesis using Cons by simp
    next
      case 2
      then show ?thesis using decode_take(1) [OF 2(1)] Cons by (auto simp: numeral_2_eq_2)
    next
      case 3
      then show ?thesis using decode_take(2) [OF 3(1)] Cons by (auto simp: numeral_3_eq_3 numeral_2_eq_2)
    next
      case 4
      then show ?thesis using decode_take(3) [OF 4(1)] Cons by (auto simp: eval_nat_numeral)
    qed
  qed
  then show "decodeRune (take n s) = (r, n)" "n = 1 \<or> (\<forall>c \<in> set (take n s). 0x80 \<le> byteVal c)"
    by auto
qed

section \<open>The runes of a string\<close>

function runesOf :: "bytes \<Rightarrow> bytes list" where
  "runesOf [] = []"
| "runesOf (c # s) = (let n = snd (decodeRune (c # s)) in take n (c # s) # runesOf (drop n (c # s)))"
  by pat_completeness auto
termination
proof (relation "measure length")
  fix c s n assume "n = snd (decodeRune (c # s))"
  then have "1 \<le> n" using decodeRune_width(1) [of "c # s"] by simp
  then show "(drop n (c # s), c # s) \<in> measure length" by simp
qed simp

declare runesOf.simps [simp del]

lemma runesOf_Nil [simp]: "runesOf [] = []"
  by (simp add: runesOf.simps)

lemma runesOf_step: "s \<noteq> [] \<Longrightarrow>
    runesOf s = take (snd (decodeRune s)) s # runesOf (drop (snd (decodeRune s)) s)"
  by (cases s) (simp_all add: runesOf.simps Let_def del: decodeRune.simps)

lemma concat_runesOf: "concat (runesOf s) = s"
proof (induction s rule: runesOf.induct)
  case (2 c s)
  then show ?case by (simp add: runesOf_step del: decodeRune.simps)
qed simp

text \<open>The rune a piece of \<open>runesOf\<close> stands for.\<close>

lemma runesOf_pieces:
  "u \<in> set (runesOf s) \<Longrightarrow> u \<noteq> [] \<and> length u \<le> 4 \<and> snd (decodeRune u) = length u"
proof (induction s rule: runesOf.induct)
  case (2 c s)
  obtain r n where d: "decodeRune (c # s) = (r, n)" by (cases "decodeRune (c # s)")
  then have n: "1 \<le> n" "n \<le> 4" "n \<le> length (c # s)" using decodeRune_width [of "c # s"] by simp_all
  show ?case
  proof (cases "u = take n (c # s)")
    case True
    then show ?thesis using decodeRune_take(1) [OF d] n by (cases n) (auto simp del: decodeRune.simps)
  next
    case False
    then show ?thesis using 2 d by (auto simp: runesOf_step simp del: decodeRune.simps)
  qed
qed simp

lemma runesOf_ascii:
  "\<forall>c \<in> set s. byteVal c < 0x80 \<Longrightarrow> runesOf s = map (\<lambda>c. [c]) s"
  by (induction s) (simp_all add: runesOf.simps)

text \<open>\<open>utf8.RuneCountInString\<close>, and the two uses of it in package \<open>fmt\<close>: padding to a width and cutting to a precision.\<close>

definition runeCount :: "bytes \<Rightarrow> nat" where
  "runeCount s = length (runesOf s)"

definition fmtCut :: "nat \<Rightarrow> bytes \<Rightarrow> bytes" where
  "fmtCut k s = concat (take k (runesOf s))"

definition padRight :: "nat \<Rightarrow> bytes \<Rightarrow> bytes" where
  "padRight k s = s @ replicate (k - runeCount s) CHR '' ''"

definition padLeft :: "nat \<Rightarrow> bytes \<Rightarrow> bytes" where
  "padLeft k s = replicate (k - runeCount s) CHR '' '' @ s"

end
