(* ===== verification/Payload_Format.thy ===== *)
theory Payload_Format
  imports Utf8
begin

text \<open>
  \<open>src/logger/payload_formatter.go\<close>: how traffic is shown in the log. Below the trace level a payload is cut after a number of
  runes; at the trace level it is shown in rows of code points and text. What is not printable becomes the byte \<open>0xBF\<close>.
  \<open>unicode.IsGraphic\<close>, a table of the Unicode standard, is the parameter \<open>graphic\<close>, and whether the trace level is
  enabled, a setting of the log library, is the parameter \<open>trace\<close>.
\<close>

section \<open>Runes\<close>

fun hexUpper :: "nat \<Rightarrow> string" where
  "hexUpper n = (if n < 16 then [hexDigit n] else hexUpper (n div 16) @ [hexDigit (n mod 16)])"

declare hexUpper.simps [simp del]

text \<open>The verb \<open>%04X\<close>.\<close>

definition hex04 :: "nat \<Rightarrow> string" where
  "hex04 n = pad0 4 (hexUpper n)"

definition unprintable :: bytes where
  "unprintable = [byteOf 0xBF]"

text \<open>Code, text and width of the first rune; without a byte the index in \<open>bytes[:width][0]\<close> panics (\<open>None\<close>).\<close>

fun replaceUnsafe :: "(nat \<Rightarrow> bool) \<Rightarrow> bytes \<Rightarrow> (string \<times> bytes \<times> nat) option" where
  "replaceUnsafe graphic [] = None"
| "replaceUnsafe graphic (b # s) = (case decodeRune (b # s) of (r, width) \<Rightarrow>
     Some (if r = RuneError then (hex04 (byteVal b), unprintable, width)
           else (hex04 r, if graphic r then encodeRune r else unprintable, width)))"

section \<open>The cut display\<close>

text \<open>The loop with \<open>k\<close> runes to go: the text so far and whether bytes are left.\<close>

fun cutLoop :: "(nat \<Rightarrow> bool) \<Rightarrow> nat \<Rightarrow> bytes \<Rightarrow> bytes \<Rightarrow> (bytes \<times> bool) option" where
  "cutLoop graphic 0 s shown = Some (shown, s \<noteq> [])"
| "cutLoop graphic (Suc k) s shown =
     (if s = [] then Some (shown, False)
      else case replaceUnsafe graphic s of
        None \<Rightarrow> None
      | Some (code, val, width) \<Rightarrow> cutLoop graphic k (drop width s) (shown @ val))"

section \<open>The display in rows\<close>

text \<open>
  \<open>fmt.Sprintf("%-[1]*.[1]*s", w, codes)\<close>. Package \<open>fmt\<close> refuses a width or precision beyond a million
  in absolute value; a negative width stands for its absolute value, a negative precision is refused.
\<close>

definition fmtColumn :: "int \<Rightarrow> string \<Rightarrow> string" where
  "fmtColumn w codes =
     (if \<bar>w\<bar> > 1000000 then ''%!(BADWIDTH)%!(BADPREC)'' @ codes
      else if w < 0 then ''%!(BADPREC)'' @ padRight (nat \<bar>w\<bar>) codes
      else padRight (nat w) (fmtCut (nat w) codes))"

definition appendRow :: "int \<Rightarrow> bytes \<Rightarrow> string \<Rightarrow> bytes \<Rightarrow> bytes" where
  "appendRow runesPerLine shown codes values = (if shown \<noteq> [] then shown @ [CHR 0x0A] else []) @
     fmtColumn (runesPerLine * 5 - 1) codes @ '' '' @ values"

lemma replaceUnsafe_Some:
  assumes "s \<noteq> []"
  shows "\<exists>code val. replaceUnsafe graphic s = Some (code, val, snd (decodeRune s))"
  using assms by (cases s) (auto simp del: decodeRune.simps split: prod.split)

text \<open>The loop with \<open>c\<close> runes shown; \<open>c % runesPerLine\<close> has the sign of \<open>c\<close>.\<close>

function rowLoop :: "(nat \<Rightarrow> bool) \<Rightarrow> int \<Rightarrow> nat \<Rightarrow> bytes \<Rightarrow> bytes \<Rightarrow> string \<Rightarrow> bytes \<Rightarrow> bytes option" where
  "rowLoop graphic runesPerLine c s shown codes values =
     (if s = [] then Some (if codes \<noteq> [] then appendRow runesPerLine shown codes values else shown)
      else case replaceUnsafe graphic s of
        None \<Rightarrow> None
      | Some (code, val, width) \<Rightarrow>
          if runesPerLine = 0 then None
          else if int c mod \<bar>runesPerLine\<bar> = runesPerLine - 1 then
            rowLoop graphic runesPerLine (Suc c) (drop width s)
              (appendRow runesPerLine shown (codes @ code) (values @ val)) [] []
          else rowLoop graphic runesPerLine (Suc c) (drop width s) shown (codes @ code @ '' '') (values @ val))"
  by pat_completeness auto
termination
proof (relation "measure (\<lambda>(g, r, c, s, _). length s)", goal_cases)
  case (2 g r c s shown cs vs x code y val width)
  then have "width = snd (decodeRune s)" using replaceUnsafe_Some [of s g] by auto
  then show ?case using decodeRune_width(1,3) [of s] 2(1) by simp
next
  case (3 g r c s shown cs vs x code y val width)
  then have "width = snd (decodeRune s)" using replaceUnsafe_Some [of s g] by auto
  then show ?case using decodeRune_width(1,3) [of s] 3(1) by simp
qed simp

declare rowLoop.simps [simp del]

definition formatTerminalSafe :: "(nat \<Rightarrow> bool) \<Rightarrow> bytes \<Rightarrow> int \<Rightarrow> bytes option" where
  "formatTerminalSafe graphic s runesPerLine = rowLoop graphic runesPerLine 0 s [] [] []"

text \<open>A negative length panics in the slice expression.\<close>

definition FormatPayload ::
    "(nat \<Rightarrow> bool) \<Rightarrow> bool \<Rightarrow> bytes \<Rightarrow> int \<Rightarrow> int \<Rightarrow> int \<Rightarrow> bytes option" where
  "FormatPayload graphic trace payload len cutLength runesPerLine =
     (let len = (if len > int (length payload) then int (length payload) else len)
      in if len < 0 then None
         else (let payload = take (nat len) payload
               in if trace then formatTerminalSafe graphic payload runesPerLine
                  else map_option (\<lambda>(shown, hasMore). shown @ (if hasMore then '' ... ('' else '' ('') @ itoa len @ '' bytes)'')
                    (cutLoop graphic (nat cutLength) payload [])))"

section \<open>What is shown of a rune\<close>

text \<open>The display of one piece of \<open>runesOf\<close>: the piece itself when it is a graphic rune, the byte \<open>0xBF\<close> when not.\<close>

definition showRune :: "(nat \<Rightarrow> bool) \<Rightarrow> bytes \<Rightarrow> bytes" where
  "showRune graphic u = (let r = fst (decodeRune u) in if r \<noteq> RuneError \<and> graphic r then u else unprintable)"

definition codeOf :: "bytes \<Rightarrow> string" where
  "codeOf u = (let r = fst (decodeRune u) in hex04 (if r = RuneError then byteVal (hd u) else r))"

lemma replaceUnsafe_piece:
  assumes "s \<noteq> []" "u = take (snd (decodeRune s)) s"
  shows "replaceUnsafe graphic s = Some (codeOf u, showRune graphic u, snd (decodeRune s))"
proof -
  obtain a t where s: "s = a # t" using assms by (cases s) auto
  obtain r n where d: "decodeRune s = (r, n)" by (cases "decodeRune s")
  then have u: "fst (decodeRune u) = r" using decodeRune_take(1) assms(2) by simp
  have "1 \<le> n" using decodeRune_width(1) [of s] assms(1) d by simp
  then have "hd u = a" using assms(2) d s by simp
  then show ?thesis
    using d u encode_decode(1) [OF d] assms(2) s
    by (auto simp: showRune_def codeOf_def Let_def simp del: decodeRune.simps)
qed

lemma showRune_length: "u \<in> set (runesOf s) \<Longrightarrow> length (showRune graphic u) \<le> 4"
  using runesOf_pieces [of u s] by (simp add: showRune_def unprintable_def Let_def)

text \<open>No control character is shown, when none is graphic.\<close>

definition control :: "char \<Rightarrow> bool" where
  "control c \<longleftrightarrow> byteVal c < 32 \<or> byteVal c = 127"

lemma showRune_safe:
  assumes "u \<in> set (runesOf s)" "c \<in> set (showRune graphic u)" "\<forall>r. r < 32 \<or> r = 127 \<longrightarrow> \<not> graphic r"
  shows "\<not> control c"
proof (cases "fst (decodeRune u) \<noteq> RuneError \<and> graphic (fst (decodeRune u))")
  case False
  then have "c = byteOf 0xBF" using assms(2) by (auto simp: showRune_def unprintable_def Let_def)
  then show ?thesis by (simp add: control_def)
next
  case True
  obtain r n where d: "decodeRune u = (r, n)" by (cases "decodeRune u")
  have n: "n = length u" "u \<noteq> []" using runesOf_pieces [OF assms(1)] d by simp_all
  have c: "c \<in> set u" using True assms(2) by (auto simp: showRune_def Let_def)
  from decodeRune_take(2) [OF d] show ?thesis
  proof
    assume "n = 1"
    then obtain a where u: "u = [a]" using n by (cases u) auto
    then have "r = byteVal a" using d True by (auto simp: Let_def split: if_splits option.splits)
    then show ?thesis using u c True d assms(3) by (auto simp: control_def simp del: decodeRune.simps)
  next
    assume "\<forall>c \<in> set (take n u). 0x80 \<le> byteVal c"
    then have "0x80 \<le> byteVal c" using c n by simp
    then show ?thesis by (simp add: control_def)
  qed
qed

section \<open>The cut display, rune by rune\<close>

lemma cutLoop_runes:
  "cutLoop graphic k s shown =
     Some (shown @ concat (map (showRune graphic) (take k (runesOf s))), k < length (runesOf s))"
proof (induction k arbitrary: s shown)
  case 0
  show ?case by (cases "s = []") (simp_all add: runesOf_step)
next
  case (Suc k)
  show ?case
    using Suc.IH by (cases "s = []") (simp_all add: replaceUnsafe_piece [OF _ refl] runesOf_step)
qed

text \<open>What follows the runes: the size of the payload, and dots when runes were left out.\<close>

definition cutSuffix :: "nat \<Rightarrow> bytes \<Rightarrow> string" where
  "cutSuffix k p = (if k < runeCount p then '' ... ('' else '' ('') @ itoa (int (length p)) @ '' bytes)''"

lemma FormatPayload_cut:
  assumes "\<not> trace" "0 \<le> len"
  shows "FormatPayload graphic trace payload len cutLength runesPerLine =
    (let p = take (nat len) payload; k = nat cutLength
     in Some (concat (map (showRune graphic) (take k (runesOf p))) @ cutSuffix k p))"
proof -
  have "take (nat (if len > int (length payload) then int (length payload) else len)) payload = take (nat len) payload"
    by simp
  moreover have "int (length (take (nat len) payload)) = (if len > int (length payload) then int (length payload) else len)"
    using assms(2) by simp
  ultimately show ?thesis
    using assms by (simp add: FormatPayload_def cutLoop_runes Let_def runeCount_def cutSuffix_def)
qed

lemma FormatPayload_trace:
  assumes "0 \<le> len"
  shows "FormatPayload graphic True payload len cutLength runesPerLine =
    formatTerminalSafe graphic (take (nat len) payload) runesPerLine"
  using assms by (simp add: FormatPayload_def Let_def)

lemma concat_length: "(\<And>x. x \<in> set xs \<Longrightarrow> length (f x) \<le> b) \<Longrightarrow> length (concat (map f xs)) \<le> b * length xs"
  by (induction xs) (auto simp: algebra_simps intro: add_mono)

lemma cut_length:
  "length (concat (map (showRune graphic) (take k (runesOf p))) @ cutSuffix k p) \<le> 4 * k + length (itoa (int (length p))) + 13"
proof -
  have "length (concat (map (showRune graphic) (take k (runesOf p)))) \<le> 4 * length (take k (runesOf p))"
    by (rule concat_length) (auto intro: showRune_length dest: in_set_takeD)
  also have "\<dots> \<le> 4 * k" by simp
  finally show ?thesis by (simp add: cutSuffix_def)
qed

lemma decimal_bytes: "c \<in> set (decimal n) \<Longrightarrow> 48 \<le> byteVal c \<and> byteVal c \<le> 57"
proof (induction n rule: decimal.induct)
  case (1 n)
  then show ?case
    by (subst (asm) (2) decimal.simps) (auto simp: digitChar_def byteVal_def split: if_splits)
qed

lemma cutSuffix_safe: "c \<in> set (cutSuffix k p) \<Longrightarrow> \<not> control c"
  using decimal_bytes [of c "length p"]
  by (auto simp: cutSuffix_def itoa_def control_def byteVal_def split: if_splits)

lemma showRune_all:
  "(\<And>u. u \<in> set us \<Longrightarrow> fst (decodeRune u) \<noteq> RuneError \<and> graphic (fst (decodeRune u))) \<Longrightarrow>
    map (showRune graphic) us = us"
  by (induction us) (simp_all add: showRune_def Let_def)

section \<open>The rows\<close>

fun chunks :: "nat \<Rightarrow> 'a list \<Rightarrow> 'a list list" where
  "chunks n [] = []"
| "chunks n (x # xs) = (if n = 0 then [] else take n (x # xs) # chunks n (drop (n - 1) xs))"

lemma chunks_full: "xs \<noteq> [] \<Longrightarrow> 0 < n \<Longrightarrow> chunks n xs = take n xs # chunks n (drop n xs)"
  by (cases xs; cases n) simp_all

fun joinSep :: "'a list \<Rightarrow> 'a list list \<Rightarrow> 'a list" where
  "joinSep sep [] = []"
| "joinSep sep [x] = x"
| "joinSep sep (x # y # xs) = x @ sep @ joinSep sep (y # xs)"

lemma joinSep_Cons: "ys \<noteq> [] \<Longrightarrow> joinSep sep (x # ys) = x @ sep @ joinSep sep ys"
  by (cases ys) simp_all

text \<open>A row: the codes cut or padded to the width of the column, a space, and the text.\<close>

definition rowOf :: "(nat \<Rightarrow> bool) \<Rightarrow> nat \<Rightarrow> bytes list \<Rightarrow> bytes" where
  "rowOf graphic w us = take w (joinSep '' '' (map codeOf us) @ replicate w CHR '' '') @ '' '' @
     concat (map (showRune graphic) us)"

definition ascii :: "string \<Rightarrow> bool" where
  "ascii s \<longleftrightarrow> (\<forall>c \<in> set s. byteVal c < 0x80)"

lemma ascii_simps [simp]: "ascii []" "ascii (c # s) \<longleftrightarrow> byteVal c < 0x80 \<and> ascii s" "ascii (s @ t) \<longleftrightarrow> ascii s \<and> ascii t"
  by (auto simp: ascii_def)

lemma ascii_joinSep: "ascii sep \<Longrightarrow> (\<And>x. x \<in> set xs \<Longrightarrow> ascii x) \<Longrightarrow> ascii (joinSep sep xs)"
  by (induction xs rule: joinSep.induct [of _ sep]) simp_all

lemma concat_singletons [simp]: "concat (map (\<lambda>c. [c]) s) = s"
  by (induction s) simp_all

lemma fmtColumn_ascii:
  assumes "ascii s" "0 \<le> w" "w \<le> 1000000"
  shows "fmtColumn w s = take (nat w) (s @ replicate (nat w) CHR '' '')"
proof -
  have r: "ascii t \<Longrightarrow> runesOf t = map (\<lambda>c. [c]) t" for t by (rule runesOf_ascii) (simp add: ascii_def)
  have c: "fmtCut (nat w) s = take (nat w) s"
    using r [OF assms(1)] by (simp add: fmtCut_def take_map)
  have "ascii (take (nat w) s)" using assms(1) by (auto simp: ascii_def dest: in_set_takeD)
  then have "runeCount (take (nat w) s) = length (take (nat w) s)" using r by (simp add: runeCount_def)
  then show ?thesis using assms(2,3) by (simp add: fmtColumn_def c padRight_def min_def)
qed

lemma take_trailing_space: "take w ((s @ [c]) @ replicate w c) = take w (s @ replicate w c)"
proof (cases "w \<le> length s")
  case False
  have "[c] @ replicate w c = replicate w c @ [c]" by (simp add: replicate_append_same)
  then have "(s @ [c]) @ replicate w c = (s @ replicate w c) @ [c]" by simp
  then show ?thesis by (simp only: take_append) simp
qed simp

lemma hexDigit_byte: "d < 16 \<Longrightarrow> byteVal (hexDigit d) = (if d < 10 then 48 + d else 55 + d)"
  by (simp add: hexDigit_def byteVal_def)

lemma hexUpper_bytes: "c \<in> set (hexUpper n) \<Longrightarrow> 48 \<le> byteVal c \<and> byteVal c \<le> 70"
proof (induction n rule: hexUpper.induct)
  case (1 n)
  then show ?case by (subst (asm) (2) hexUpper.simps) (auto simp: hexDigit_byte split: if_splits)
qed

lemma hexUpper_not_Nil [simp]: "hexUpper n \<noteq> []"
  by (subst hexUpper.simps) simp

lemma byteVal_char [simp]: "byteVal CHR '' '' = 32" "byteVal CHR ''0'' = 48"
  by (simp_all add: byteVal_def)

lemma codeOf_bytes: "c \<in> set (codeOf u) \<Longrightarrow> 48 \<le> byteVal c \<and> byteVal c \<le> 70"
  by (auto simp: codeOf_def hex04_def pad0_def Let_def dest: hexUpper_bytes split: if_splits)

lemma codeOf_not_Nil [simp]: "codeOf u \<noteq> []"
  by (simp add: codeOf_def hex04_def pad0_def Let_def)

lemma codes_ascii [simp]: "ascii (joinSep '' '' (map codeOf us))"
  by (rule ascii_joinSep) (auto simp: ascii_def dest: codeOf_bytes)

lemma appendRow_rowOf:
  assumes "codes = joinSep '' '' (map codeOf us) \<or> codes = joinSep '' '' (map codeOf us) @ '' ''"
    "vals = concat (map (showRune graphic) us)" "1 \<le> r" "5 * r - 1 \<le> 1000000"
  shows "appendRow r shown codes vals = (if shown \<noteq> [] then shown @ [CHR 0x0A] else []) @ rowOf graphic (nat (5 * r - 1)) us"
proof -
  have "ascii codes" using assms(1) by auto
  then have "fmtColumn (r * 5 - 1) codes = take (nat (5 * r - 1)) (codes @ replicate (nat (5 * r - 1)) CHR '' '')"
    using assms(3,4) by (subst fmtColumn_ascii) (simp_all add: mult.commute)
  also have "\<dots> = take (nat (5 * r - 1)) (joinSep '' '' (map codeOf us) @ replicate (nat (5 * r - 1)) CHR '' '')"
    using assms(1)
  proof
    assume c: "codes = joinSep '' '' (map codeOf us) @ '' ''"
    show ?thesis unfolding c by (rule take_trailing_space)
  qed simp
  finally show ?thesis using assms(2) by (simp add: appendRow_def rowOf_def mult.commute)
qed

lemma pending_codes:
  "concat (map (\<lambda>u. codeOf u @ '' '') us) @ codeOf u = joinSep '' '' (map codeOf (us @ [u]))"
  by (induction us) (simp_all add: joinSep_Cons)

lemma rowLoop_rows:
  assumes "1 \<le> r" "5 * r - 1 \<le> 1000000"
  shows "int c mod r = int (length us) \<Longrightarrow> length us < nat r \<Longrightarrow>
    codes = concat (map (\<lambda>u. codeOf u @ '' '') us) \<Longrightarrow> vals = concat (map (showRune graphic) us) \<Longrightarrow>
    rowLoop graphic r c s shown codes vals = Some (joinSep [CHR 0x0A] ((if shown = [] then [] else [shown]) @
      map (rowOf graphic (nat (5 * r - 1))) (chunks (nat r) (us @ runesOf s))))"
proof (induction "runesOf s" arbitrary: c s shown codes vals us)
  case Nil
  then have s: "s = []" using runesOf_step [of s] by fastforce
  show ?case
  proof (cases us rule: rev_cases)
    case Nil
    then show ?thesis using \<open>codes = _\<close> s by (simp add: rowLoop.simps)
  next
    case (snoc vs v)
    have codes: "codes = joinSep '' '' (map codeOf us) @ '' ''"
      using \<open>codes = _\<close> snoc pending_codes [of vs v] by simp
    have row: "appendRow r shown codes vals =
        (if shown \<noteq> [] then shown @ [CHR 0x0A] else []) @ rowOf graphic (nat (5 * r - 1)) us"
      using codes \<open>vals = _\<close> assms by (intro appendRow_rowOf) simp_all
    have "chunks (nat r) us = [us]" using \<open>length us < nat r\<close> snoc by (simp add: chunks_full)
    then show ?thesis using row codes s by (simp add: rowLoop.simps)
  qed
next
  case (Cons u us')
  then have s: "s \<noteq> []" by auto
  define n where "n = snd (decodeRune s)"
  have u: "u = take n s" "us' = runesOf (drop n s)"
    using runesOf_step [OF s] Cons.hyps(2) by (simp_all add: n_def)
  have rep: "replaceUnsafe graphic s = Some (codeOf u, showRune graphic u, n)"
    using replaceUnsafe_piece [OF s] u(1) by (simp add: n_def)
  have unf: "rowLoop graphic r c s shown codes vals =
     (if length us = nat r - 1
      then rowLoop graphic r (Suc c) (drop n s) (appendRow r shown (codes @ codeOf u) (vals @ showRune graphic u)) [] []
      else rowLoop graphic r (Suc c) (drop n s) shown (codes @ codeOf u @ '' '') (vals @ showRune graphic u))"
    using assms(1) Cons.prems(1,2) s by (subst rowLoop.simps) (auto simp: rep)
  have next_mod: "int (Suc c) mod r = (int (length us) + 1) mod r"
    using Cons.prems(1) by (metis mod_add_left_eq of_nat_Suc add.commute)
  show ?case
  proof (cases "length us = nat r - 1")
    case True
    have row: "appendRow r shown (codes @ codeOf u) (vals @ showRune graphic u) =
        (if shown \<noteq> [] then shown @ [CHR 0x0A] else []) @ rowOf graphic (nat (5 * r - 1)) (us @ [u])"
      using Cons.prems(3,4) assms pending_codes [of us u] by (intro appendRow_rowOf) simp_all
    have ne: "appendRow r shown (codes @ codeOf u) (vals @ showRune graphic u) \<noteq> []"
      using row by (simp add: rowOf_def)
    have "int (Suc c) mod r = 0" using next_mod True assms(1) by (simp add: of_nat_diff)
    then have "rowLoop graphic r (Suc c) (drop n s) (appendRow r shown (codes @ codeOf u) (vals @ showRune graphic u)) [] [] =
      Some (joinSep [CHR 0x0A] ([appendRow r shown (codes @ codeOf u) (vals @ showRune graphic u)] @
        map (rowOf graphic (nat (5 * r - 1))) (chunks (nat r) (runesOf (drop n s)))))"
      using Cons.hyps(1) [OF u(2), of "Suc c" "[]" "[]" "[]"] assms(1) ne by simp
    moreover have "chunks (nat r) (us @ runesOf s) = (us @ [u]) # chunks (nat r) (runesOf (drop n s))"
      using True assms(1) Cons.hyps(2) u by (subst chunks_full) (auto simp: Suc_diff_le simp flip: Cons.hyps(2))
    ultimately show ?thesis using unf True row by (cases "chunks (nat r) (runesOf (drop n s))") simp_all
  next
    case False
    then have "length (us @ [u]) < nat r" using Cons.prems(2) by simp
    moreover from this have "int (Suc c) mod r = int (length (us @ [u]))" using next_mod by simp
    ultimately show ?thesis
      using Cons.hyps(1) [OF u(2), of "Suc c" "us @ [u]" "codes @ codeOf u @ '' ''" "vals @ showRune graphic u"]
        unf False Cons.prems(3,4) by (simp flip: Cons.hyps(2) add: u(2))
  qed
qed


lemma formatTerminalSafe_rows:
  assumes "1 \<le> runesPerLine" "5 * runesPerLine - 1 \<le> 1000000"
  shows "formatTerminalSafe graphic s runesPerLine =
    Some (joinSep [CHR 0x0A] (map (rowOf graphic (nat (5 * runesPerLine - 1))) (chunks (nat runesPerLine) (runesOf s))))"
  using rowLoop_rows [OF assms, of 0 "[]" "[]" "[]" graphic s "[]"] assms(1) by (simp add: formatTerminalSafe_def)

lemma chunks_set: "us \<in> set (chunks n xs) \<Longrightarrow> set us \<subseteq> set xs"
  by (induction n xs rule: chunks.induct) (auto dest: in_set_takeD in_set_dropD split: if_splits)

lemma joinSep_set: "c \<in> set (joinSep sep xs) \<Longrightarrow> c \<in> set sep \<or> (\<exists>x \<in> set xs. c \<in> set x)"
  by (induction xs rule: joinSep.induct [of _ sep]) auto

lemma rowOf_safe:
  assumes "c \<in> set (rowOf graphic w us)" "set us \<subseteq> set (runesOf s)" "\<forall>r. r < 32 \<or> r = 127 \<longrightarrow> \<not> graphic r"
  shows "\<not> control c"
proof -
  consider "c \<in> set (joinSep '' '' (map codeOf us))" | "c = CHR '' ''" | u where "u \<in> set us" "c \<in> set (showRune graphic u)"
    using assms(1) by (auto simp: rowOf_def dest: in_set_takeD)
  then show ?thesis
  proof cases
    case 1
    then show ?thesis using joinSep_set [OF 1] by (auto simp: control_def dest: codeOf_bytes)
  next
    case 3
    then show ?thesis using showRune_safe [OF _ 3(2) assms(3)] assms(2) by blast
  qed (simp add: control_def)
qed

section \<open>Properties\<close>

lemma digit_chars:
  "digitChar 0 = CHR ''0''" "digitChar 2 = CHR ''2''" "digitChar 5 = CHR ''5''"
  "hexDigit 0 = CHR ''0''" "hexDigit 1 = CHR ''1''" "hexDigit (Suc 0) = CHR ''1''" "hexDigit 2 = CHR ''2''" "hexDigit 6 = CHR ''6''"
  "hexDigit 10 = CHR ''A''"
  by code_simp+

lemma unprintable_byte: "unprintable = [CHR 0xBF]"
  by code_simp

text \<open>
  Below the trace level the display of a payload of \<open>len\<close> bytes is its first \<open>cutLength\<close> runes, each of them as it is
  when it is a graphic rune and as the byte \<open>0xBF\<close> when not, followed by the number of bytes and by dots exactly if runes
  were left out. The display never takes more than four bytes for a rune.
\<close>

theorem payload_cut:
  assumes "\<not> trace" "0 \<le> len"
  shows "\<exists>out. FormatPayload graphic trace payload len cutLength runesPerLine = Some out \<and>
    out = concat (map (showRune graphic) (take (nat cutLength) (runesOf (take (nat len) payload)))) @
      cutSuffix (nat cutLength) (take (nat len) payload) \<and>
    length out \<le> 4 * nat cutLength + length (itoa (int (length (take (nat len) payload)))) + 13"
  using FormatPayload_cut [OF assms] cut_length by (simp only: Let_def option.inject simp_thms)

theorem payload_cut_witness:
  "FormatPayload (\<lambda>r. 32 \<le> r \<and> r < 127) False [CHR ''a'', CHR 0x0A, CHR 0xC3, CHR 0xA9, CHR ''b''] 5 2 10 =
     Some ([CHR ''a'', CHR 0xBF] @ '' ... (5 bytes)'')"
proof -
  let ?p = "[CHR ''a'', CHR 0x0A, CHR 0xC3, CHR 0xA9, CHR ''b'']"
  have r: "runesOf ?p = [[CHR ''a''], [CHR 0x0A], [CHR 0xC3, CHR 0xA9], [CHR ''b'']]"
    by (simp add: runesOf_step byteVal_def secondByte_def inRange_def)
  show ?thesis
    using payload_cut [of False 5 "\<lambda>r. 32 \<le> r \<and> r < 127" ?p 2 10] r
    by (simp add: showRune_def byteVal_def RuneError_def unprintable_byte
        cutSuffix_def runeCount_def itoa_def decimal.simps digit_chars)
qed

text \<open>
  A payload whose runes are all valid and graphic, and are not more than the limit, is shown byte for byte: the display
  starts with the payload itself and continues with its size.
\<close>

theorem payload_roundtrip:
  assumes "\<not> trace" "int (length payload) \<le> len" "int (runeCount payload) \<le> cutLength"
    "\<forall>u \<in> set (runesOf payload). fst (decodeRune u) \<noteq> RuneError \<and> graphic (fst (decodeRune u))"
  shows "FormatPayload graphic trace payload len cutLength runesPerLine =
    Some (payload @ '' ('' @ itoa (int (length payload)) @ '' bytes)'')"
proof -
  have len: "0 \<le> len" "take (nat len) payload = payload" using assms(2) by simp_all
  have cut: "length (runesOf payload) \<le> nat cutLength" using assms(3) by (simp add: runeCount_def)
  show ?thesis
    using FormatPayload_cut [OF assms(1) len(1)] len(2) cut showRune_all [of "runesOf payload" graphic] assms(4)
    by (simp add: Let_def cutSuffix_def runeCount_def concat_runesOf)
qed

theorem payload_roundtrip_witness:
  "FormatPayload (\<lambda>r. 32 \<le> r \<and> r < 127) False ''hi'' 2 2 10 = Some ''hi (2 bytes)''"
proof -
  have r: "runesOf ''hi'' = [''h'', ''i'']" by (simp add: runesOf_step byteVal_def)
  show ?thesis
    using payload_roundtrip [of False "''hi''" 2 2 "\<lambda>r. 32 \<le> r \<and> r < 127" 10] r
    by (auto simp: digit_chars runeCount_def byteVal_def RuneError_def itoa_def decimal.simps)
qed

text \<open>
  C39: At the trace level the display has a line for every \<open>runesPerLine\<close> runes: the hexadecimal codes of the runes separated
  by spaces in a column of exactly \<open>5 * runesPerLine - 1\<close> characters, a space, and the runes themselves with the byte
  \<open>0xBF\<close> for each one that is not graphic; the last line may have fewer runes, and there is no line break at the end.
\<close>

theorem payload_rows:
  assumes "0 \<le> len" "1 \<le> runesPerLine" "5 * runesPerLine - 1 \<le> 1000000"
  shows "FormatPayload graphic True payload len cutLength runesPerLine =
    Some (joinSep [CHR 0x0A] (map (rowOf graphic (nat (5 * runesPerLine - 1)))
      (chunks (nat runesPerLine) (runesOf (take (nat len) payload)))))"
  using FormatPayload_trace [OF assms(1)] formatTerminalSafe_rows [OF assms(2,3)] by simp

theorem payload_rows_witness:
  "FormatPayload (\<lambda>r. 32 \<le> r \<and> r < 127) True [CHR ''a'', CHR 0x0A, CHR ''b''] 3 0 2 =
     Some (''0061 000A a'' @ [CHR 0xBF, CHR 0x0A] @ ''0062      b'')"
proof -
  let ?p = "[CHR ''a'', CHR 0x0A, CHR ''b'']"
  have nine: "replicate 9 CHR '' '' = ''         ''" "replicate 2 CHR ''0'' = ''00''" "replicate 3 CHR ''0'' = ''000''" by (simp_all add: numeral_eq_Suc)
  have r: "runesOf ?p = [[CHR ''a''], [CHR 0x0A], [CHR ''b'']]"
    by (simp add: runesOf_step byteVal_def)
  show ?thesis
    using payload_rows [of 3 2 "\<lambda>r. 32 \<le> r \<and> r < 127" ?p 0] r nine
    by (simp add: showRune_def rowOf_def codeOf_def hex04_def hexUpper.simps pad0_def byteVal_def
        RuneError_def unprintable_byte digit_chars)
qed

text \<open>
  C40: No payload sends a control character to the terminal, whatever its bytes and the level, when no control character
  counts as graphic: the only one in the display is the line break between the rows of the trace level.
\<close>

theorem payload_terminal_safe:
  assumes "\<forall>r. r < 32 \<or> r = 127 \<longrightarrow> \<not> graphic r" "0 \<le> len" "1 \<le> runesPerLine" "5 * runesPerLine - 1 \<le> 1000000"
  shows "\<exists>out. FormatPayload graphic trace payload len cutLength runesPerLine = Some out \<and>
    (\<forall>c \<in> set out. control c \<longrightarrow> trace \<and> c = CHR 0x0A)"
proof (cases trace)
  case True
  have "\<forall>c \<in> set (joinSep [CHR 0x0A] (map (rowOf graphic (nat (5 * runesPerLine - 1)))
      (chunks (nat runesPerLine) (runesOf (take (nat len) payload))))). control c \<longrightarrow> c = CHR 0x0A"
    using rowOf_safe [OF _ _ assms(1)] by (fastforce dest: joinSep_set chunks_set)
  then show ?thesis
    using FormatPayload_trace [OF assms(2)] formatTerminalSafe_rows [OF assms(3,4)] True by simp
next
  case False
  then show ?thesis
    using FormatPayload_cut [OF _ assms(2)] showRune_safe [OF _ _ assms(1)] cutSuffix_safe
    by (fastforce simp: Let_def dest: in_set_takeD)
qed

theorem payload_terminal_safe_witness:
  "\<exists>out. FormatPayload (\<lambda>r. 32 \<le> r \<and> r < 127) True [CHR 0x1B, CHR 0x0A, CHR 0x07] 3 0 2 = Some out \<and>
    (\<forall>c \<in> set out. control c \<longrightarrow> c = CHR 0x0A)"
  using payload_terminal_safe [of "\<lambda>r. 32 \<le> r \<and> r < 127" 3 2 True "[CHR 0x1B, CHR 0x0A, CHR 0x07]" 0] by auto

end
