(* ===== verification/Log_Format.thy ===== *)
theory Log_Format
  imports Payload_Format
begin

text \<open>
  \<open>src/logger/log_text_formatter.go\<close>: the text of a log entry. The log library is not under \<open>src/\<close>: the names of its
  levels and of its default fields are the parameters \<open>levelString\<close> and the record \<open>fieldKeys\<close>; \<open>unicode.IsPrint\<close> is the
  parameter \<open>printable\<close>. A failed type assertion and an index out of range panic (\<open>None\<close>).
\<close>

section \<open>Quoted values\<close>

abbreviation backslash :: char where
  "backslash \<equiv> CHR 0x5C"

abbreviation dquote :: char where
  "dquote \<equiv> CHR 0x22"

definition lowerHexDigit :: "nat \<Rightarrow> char" where
  "lowerHexDigit d = (if d < 10 then char_of (48 + d) else char_of (87 + d))"

fun hexDigits :: "nat \<Rightarrow> nat \<Rightarrow> string" where
  "hexDigits 0 n = []"
| "hexDigits (Suc k) n = hexDigits k (n div 16) @ [lowerHexDigit (n mod 16)]"

text \<open>\<open>strconv.Quote\<close>, the verb \<open>%q\<close>, one piece of \<open>runesOf\<close> at a time.\<close>

definition quoteRune :: "(nat \<Rightarrow> bool) \<Rightarrow> bytes \<Rightarrow> string" where
  "quoteRune printable u = (case decodeRune u of (r, width) \<Rightarrow>
     if width = 1 \<and> r = RuneError then [backslash, CHR ''x''] @ hexDigits 2 (byteVal (hd u))
     else if r = byteVal dquote \<or> r = byteVal backslash then [backslash, byteOf r]
     else if printable r then encodeRune r
     else if r = 7 then [backslash, CHR ''a'']
     else if r = 8 then [backslash, CHR ''b'']
     else if r = 12 then [backslash, CHR ''f'']
     else if r = 10 then [backslash, CHR ''n'']
     else if r = 13 then [backslash, CHR ''r'']
     else if r = 9 then [backslash, CHR ''t'']
     else if r = 11 then [backslash, CHR ''v'']
     else if r < 32 then [backslash, CHR ''x''] @ hexDigits 2 r
     else if r < 0x10000 then [backslash, CHR ''u''] @ hexDigits 4 r
     else [backslash, CHR ''U''] @ hexDigits 8 r)"

definition quote :: "(nat \<Rightarrow> bool) \<Rightarrow> bytes \<Rightarrow> string" where
  "quote printable s = [dquote] @ concat (map (quoteRune printable) (runesOf s)) @ [dquote]"

section \<open>The formatter\<close>

text \<open>The value of a field: a string, an \<open>int64\<close>, or of another type, given by what \<open>fmt.Sprint\<close> prints for it.\<close>

datatype fieldValue = StringValue bytes | Int64Value int | OtherValue bytes

type_synonym fields = "(bytes \<times> fieldValue) list"

datatype logLevel = PanicLevel | FatalLevel | ErrorLevel | WarnLevel | InfoLevel | DebugLevel | TraceLevel

record fieldKeys =
  FieldKeyTime :: bytes
  FieldKeyMsg :: bytes
  FieldKeyLevel :: bytes
  FieldKeyLogrusError :: bytes
  FieldKeyFunc :: bytes
  FieldKeyFile :: bytes

record frame =
  fr_Function :: bytes
  fr_File :: bytes
  fr_Line :: int

text \<open>\<open>logrus.Entry\<close>: the caller is there when \<open>HasCaller\<close>; the buffer is what was written to it before; time in nanoseconds.\<close>

record logEntry =
  en_Data :: fields
  en_Time :: int
  en_Level :: logLevel
  en_Message :: bytes
  en_Caller :: "frame option"
  en_Buffer :: bytes

definition HasCaller :: "logEntry \<Rightarrow> bool" where
  "HasCaller entry \<longleftrightarrow> en_Caller entry \<noteq> None"

record textFormatter =
  DisableTimestamp :: bool
  TimestampFormat :: bytes
  DisableSorting :: bool
  SortingFunc :: "(bytes list \<Rightarrow> bytes list) option"
  DisableLevelTruncation :: bool
  QuoteEmptyFields :: bool
  FieldMap :: "(bytes \<times> bytes) list"
  ComponentMap :: "(bytes \<times> bytes) list"
  ColorMap :: "(bytes \<times> int) list"
  CallerPrettyfier :: "(frame \<Rightarrow> bytes \<times> bytes) option"
  initDone :: bool

definition red :: int where "red = 31"
definition yellow :: int where "yellow = 33"
definition blue :: int where "blue = 36"
definition gray :: int where "gray = 37"

definition resolve :: "(bytes \<times> bytes) list \<Rightarrow> bytes \<Rightarrow> bytes" where
  "resolve f key = (case map_of f key of Some k \<Rightarrow> k | None \<Rightarrow> key)"

definition colors :: "int list" where
  "colors = [31, 32, 33, 34, 35, 36]"

text \<open>The colour of a component, with the map and the global \<open>cIdx\<close> afterwards; an index out of range panics.\<close>

definition resolveColor :: "(bytes \<times> int) list \<Rightarrow> nat \<Rightarrow> bytes \<Rightarrow> (int \<times> (bytes \<times> int) list \<times> nat) option" where
  "resolveColor f cIdx key = (case map_of f key of
     Some col \<Rightarrow> Some (col, f, cIdx)
   | None \<Rightarrow> if cIdx < length colors
       then (let col = colors ! cIdx; cIdx = cIdx + 1; cIdx = (if cIdx \<ge> length colors then 0 else cIdx)
             in Some (col, AList.update key col f, cIdx))
       else None)"

definition initFormatter :: "textFormatter \<Rightarrow> textFormatter" where
  "initFormatter f = f\<lparr>ColorMap := [],
     ComponentMap := [(''ContentWriter'', ''CWR''), (''BrowserController'', ''BCR''), (''DNSResolver'', ''DNS'')]\<rparr>"

text \<open>\<open>terminalInitOnce.Do\<close>\<close>

definition ready :: "textFormatter \<Rightarrow> textFormatter" where
  "ready f = (if initDone f then f else (initFormatter f)\<lparr>initDone := True\<rparr>)"

definition isColored :: "textFormatter \<Rightarrow> bool" where
  "isColored f = True"

section \<open>Values and keys\<close>

definition plainRune :: "nat \<Rightarrow> bool" where
  "plainRune ch \<longleftrightarrow> 97 \<le> ch \<and> ch \<le> 122 \<or> 65 \<le> ch \<and> ch \<le> 90 \<or> 48 \<le> ch \<and> ch \<le> 57 \<or>
     ch \<in> byteVal ` {CHR ''-'', CHR ''.'', CHR ''_'', CHR ''/'', CHR ''@'', CHR ''^'', CHR ''+''}"

definition needsQuoting :: "bool \<Rightarrow> bytes \<Rightarrow> bool" where
  "needsQuoting quoteEmpty text \<longleftrightarrow> quoteEmpty \<and> length text = 0 \<or>
     list_ex (\<lambda>u. \<not> plainRune (fst (decodeRune u))) (runesOf text)"

fun stringVal :: "fieldValue \<Rightarrow> bytes" where
  "stringVal (StringValue s) = s"
| "stringVal (Int64Value i) = itoa i"
| "stringVal (OtherValue s) = s"

definition appendValue :: "(nat \<Rightarrow> bool) \<Rightarrow> textFormatter \<Rightarrow> bytes \<Rightarrow> fieldValue \<Rightarrow> bytes" where
  "appendValue printable f b v = (let s = stringVal v in
     if \<not> needsQuoting (QuoteEmptyFields f) s then b @ s else b @ quote printable s)"

definition appendKeyValue :: "(nat \<Rightarrow> bool) \<Rightarrow> textFormatter \<Rightarrow> bytes \<Rightarrow> bytes \<Rightarrow> fieldValue \<Rightarrow> bytes" where
  "appendKeyValue printable f b key v =
     appendValue printable f ((if length b > 0 then b @ '' '' else b) @ key @ ''='') v"

definition moveClash :: "bytes \<Rightarrow> fields \<Rightarrow> fields" where
  "moveClash key m = (case map_of m key of
     Some t \<Rightarrow> AList.delete key (AList.update (''fields.'' @ key) t m)
   | None \<Rightarrow> m)"

definition copyClash :: "bytes \<Rightarrow> fields \<Rightarrow> fields" where
  "copyClash key m = (case map_of m key of Some t \<Rightarrow> AList.update (''fields.'' @ key) t m | None \<Rightarrow> m)"

definition prefixFieldClashes :: "fieldKeys \<Rightarrow> fields \<Rightarrow> (bytes \<times> bytes) list \<Rightarrow> bool \<Rightarrow> fields" where
  "prefixFieldClashes K m fieldMap reportCaller =
     (let m = moveClash (resolve fieldMap (FieldKeyTime K)) m;
          m = moveClash (resolve fieldMap (FieldKeyMsg K)) m;
          m = moveClash (resolve fieldMap (FieldKeyLevel K)) m;
          m = moveClash (resolve fieldMap (FieldKeyLogrusError K)) m
      in if reportCaller
         then copyClash (resolve fieldMap (FieldKeyFile K)) (copyClash (resolve fieldMap (FieldKeyFunc K)) m)
         else m)"

text \<open>
  \<open>FindStringSubmatch\<close> with \<open>([^:]*:)?(.*)\<close>: the text up to the first colon with it, if there is one, and the rest of the
  line. There are always three entries, so the test for one never succeeds.
\<close>

definition compSubmatch :: "bytes \<Rightarrow> bytes \<times> bytes" where
  "compSubmatch component = (let k = (case indexOf (\<lambda>c. c = CHR '':'') component of Some i \<Rightarrow> Suc i | None \<Rightarrow> 0)
     in (take k component, takeWhile (\<lambda>c. c \<noteq> CHR 0x0A) (drop k component)))"

definition parseComp :: "textFormatter \<Rightarrow> nat \<Rightarrow> bytes \<Rightarrow> ((bytes \<times> bytes \<times> bytes \<times> int) \<times> textFormatter \<times> nat) option" where
  "parseComp f cIdx component = (case compSubmatch component of (proto, name) \<Rightarrow>
     let key = resolve (ComponentMap f) name
     in map_option (\<lambda>(color, cm, cIdx). ((proto, name, key, color), f\<lparr>ColorMap := cm\<rparr>, cIdx))
          (resolveColor (ColorMap f) cIdx key))"

section \<open>Rendering an entry\<close>

definition levelColor :: "logLevel \<Rightarrow> int" where
  "levelColor l = (case l of
     DebugLevel \<Rightarrow> gray | TraceLevel \<Rightarrow> gray
   | WarnLevel \<Rightarrow> yellow
   | ErrorLevel \<Rightarrow> red | FatalLevel \<Rightarrow> red | PanicLevel \<Rightarrow> red
   | _ \<Rightarrow> blue)"

text \<open>\<open>time.Time.Sub\<close> saturates at the 64 bits of a duration; the verb \<open>%09d\<close> counts the sign.\<close>

definition timeSub :: "int \<Rightarrow> int \<Rightarrow> int" where
  "timeSub t u = max (- (2 ^ 63)) (min (2 ^ 63 - 1) (t - u))"

definition itoa09 :: "int \<Rightarrow> string" where
  "itoa09 i = (if i < 0 then ''-'' @ pad0 8 (decimal (nat (- i))) else pad0 9 (decimal (nat i)))"

text \<open>The escape sequences \<open>\x1b[%dm\<close>.\<close>

definition ansi :: "int \<Rightarrow> string" where
  "ansi col = [CHR 0x1B] @ ''['' @ itoa col @ ''m''"

definition trimNewline :: "bytes \<Rightarrow> bytes" where
  "trimNewline s = (if s \<noteq> [] \<and> last s = CHR 0x0A then butlast s else s)"

definition callerText :: "textFormatter \<Rightarrow> frame option \<Rightarrow> bytes" where
  "callerText f caller = (case caller of
     None \<Rightarrow> []
   | Some c \<Rightarrow>
      (case (case CallerPrettyfier f of
               Some p \<Rightarrow> p c
             | None \<Rightarrow> (fr_Function c @ ''()'', fr_File c @ '':'' @ itoa (fr_Line c))) of
         (funcVal, fileVal) \<Rightarrow>
           if fileVal = [] then '' '' @ funcVal
           else if funcVal = [] then '' '' @ fileVal
           else '' '' @ fileVal @ '' '' @ funcVal))"

text \<open>A key that is not in the map reads as \<open>nil\<close>.\<close>

definition fieldAt :: "fields \<Rightarrow> bytes \<Rightarrow> fieldValue" where
  "fieldAt m k = (case map_of m k of Some v \<Rightarrow> v | None \<Rightarrow> OtherValue ''<nil>'')"

definition printFields :: "(nat \<Rightarrow> bool) \<Rightarrow> textFormatter \<Rightarrow> int \<Rightarrow> fields \<Rightarrow> bytes list \<Rightarrow> bytes \<Rightarrow> bytes" where
  "printFields printable f col m ks b = foldl (\<lambda>b k.
     if k = ''component'' \<or> k = ''session'' then b
     else appendValue printable f (b @ '' '' @ ansi col @ k @ ansi 0 @ ''='') (fieldAt m k)) b ks"

text \<open>Name and colour of the component; a component that is not a string panics.\<close>

definition componentText :: "textFormatter \<Rightarrow> nat \<Rightarrow> fields \<Rightarrow> (bytes \<times> int \<times> textFormatter \<times> nat) option" where
  "componentText f cIdx m = (case map_of m ''component'' of
     None \<Rightarrow> Some (''        '', 0, f, cIdx)
   | Some (StringValue component) \<Rightarrow>
       map_option (\<lambda>((proto, _, key, color), f, cIdx). (proto @ key, color, f, cIdx)) (parseComp f cIdx component)
   | Some _ \<Rightarrow> None)"

definition sessionText :: "fields \<Rightarrow> bytes option" where
  "sessionText m = (case map_of m ''session'' of
     None \<Rightarrow> Some []
   | Some (Int64Value i) \<Rightarrow> Some (itoa i)
   | Some _ \<Rightarrow> None)"

definition levelText :: "textFormatter \<Rightarrow> string \<Rightarrow> string option" where
  "levelText f name = (let t = map upperChar name in
     if DisableLevelTruncation f then Some t else if length t < 4 then None else Some (take 4 t))"

definition printColored ::
    "(nat \<Rightarrow> bool) \<Rightarrow> (logLevel \<Rightarrow> string) \<Rightarrow> int \<Rightarrow> textFormatter \<Rightarrow> nat \<Rightarrow> bytes \<Rightarrow> logEntry \<Rightarrow> bytes list \<Rightarrow>
      fields \<Rightarrow> (bytes \<times> logEntry \<times> textFormatter \<times> nat) option" where
  "printColored printable levelString baseTimestamp f cIdx b entry ks m =
     (let col = levelColor (en_Level entry) in
      case levelText f (levelString (en_Level entry)) of
        None \<Rightarrow> None
      | Some lt \<Rightarrow>
         (let entry = entry\<lparr>en_Message := trimNewline (en_Message entry)\<rparr>;
              caller = callerText f (en_Caller entry)
          in case componentText f cIdx m of
               None \<Rightarrow> None
             | Some (compName, compColor, f, cIdx) \<Rightarrow>
                (case sessionText m of
                   None \<Rightarrow> None
                 | Some session \<Rightarrow>
                    (let b = b @ ansi col @ lt @ ansi 0 @ ''['' @ itoa09 (timeSub (en_Time entry) baseTimestamp) @ '']'' @
                             ansi compColor @ padRight 10 (fmtCut 10 compName) @ ansi 0 @ padLeft 2 session @ caller @
                             '' '' @ padRight 44 (en_Message entry) @ '' ''
                     in Some (printFields printable f col m ks b, entry, f, cIdx)))))"

text \<open>
  The keys in the order they are printed, and the keys with the default ones, for the display without colours: \<open>order\<close> is
  the order in which \<open>range\<close> visits the map, different each time. \<open>sort.Strings\<close> compares bytes.
\<close>

definition fixedKeys :: "fieldKeys \<Rightarrow> textFormatter \<Rightarrow> logEntry \<Rightarrow> bytes \<times> bytes \<Rightarrow> bytes list" where
  "fixedKeys K f entry vals = (case vals of (funcVal, fileVal) \<Rightarrow>
     (if \<not> DisableTimestamp f then [resolve (FieldMap f) (FieldKeyTime K)] else []) @
     [resolve (FieldMap f) (FieldKeyLevel K)] @
     (if en_Message entry \<noteq> [] then [resolve (FieldMap f) (FieldKeyMsg K)] else []) @
     (if HasCaller entry
      then (if funcVal \<noteq> [] then [resolve (FieldMap f) (FieldKeyFunc K)] else []) @
           (if fileVal \<noteq> [] then [resolve (FieldMap f) (FieldKeyFile K)] else [])
      else []))"

definition callerVals :: "textFormatter \<Rightarrow> frame option \<Rightarrow> bytes \<times> bytes" where
  "callerVals f caller = (case caller of
     None \<Rightarrow> ([], [])
   | Some c \<Rightarrow> (case CallerPrettyfier f of
       Some p \<Rightarrow> p c | None \<Rightarrow> (fr_Function c, fr_File c @ '':'' @ itoa (fr_Line c))))"

definition orderKeys :: "textFormatter \<Rightarrow> bytes list \<Rightarrow> bytes list \<Rightarrow> bytes list \<times> bytes list" where
  "orderKeys f fixed ks =
     (if \<not> DisableSorting f then
        (case SortingFunc f of
           None \<Rightarrow> (fixed @ sort ks, sort ks)
         | Some g \<Rightarrow> if \<not> isColored f then (g (fixed @ ks), ks) else (fixed, g ks))
      else (fixed @ ks, ks))"

text \<open>The display without colours, which \<open>isColored\<close> never selects; \<open>timeFormat\<close> stands for \<open>time.Format\<close>.\<close>

definition printPlain ::
    "fieldKeys \<Rightarrow> (nat \<Rightarrow> bool) \<Rightarrow> (logLevel \<Rightarrow> string) \<Rightarrow> (bytes \<Rightarrow> int \<Rightarrow> bytes) \<Rightarrow> textFormatter \<Rightarrow> bytes \<Rightarrow> logEntry \<Rightarrow>
      bytes list \<Rightarrow> fields \<Rightarrow> bytes \<times> bytes \<Rightarrow> bytes" where
  "printPlain K printable levelString timeFormat f b entry fixed m vals =
     (let timestampFormat = (if TimestampFormat f = [] then ''2006-01-02T15:04:05Z07:00'' else TimestampFormat f)
      in foldl (\<lambda>b key. appendKeyValue printable f b key
           (if key = resolve (FieldMap f) (FieldKeyTime K) then StringValue (timeFormat timestampFormat (en_Time entry))
            else if key = resolve (FieldMap f) (FieldKeyLevel K) then StringValue (levelString (en_Level entry))
            else if key = resolve (FieldMap f) (FieldKeyMsg K) then StringValue (en_Message entry)
            else if key = resolve (FieldMap f) (FieldKeyFunc K) \<and> HasCaller entry then StringValue (fst vals)
            else if key = resolve (FieldMap f) (FieldKeyFile K) \<and> HasCaller entry then StringValue (snd vals)
            else fieldAt m key)) b fixed)"

record formatEnv =
  fe_keys :: fieldKeys
  fe_printable :: "nat \<Rightarrow> bool"
  fe_levelString :: "logLevel \<Rightarrow> string"
  fe_timeFormat :: "bytes \<Rightarrow> int \<Rightarrow> bytes"
  fe_baseTimestamp :: int
  fe_order :: "bytes list \<Rightarrow> bytes list"

definition Format :: "formatEnv \<Rightarrow> textFormatter \<Rightarrow> nat \<Rightarrow> logEntry \<Rightarrow> (bytes \<times> logEntry \<times> textFormatter \<times> nat) option" where
  "Format E f cIdx entry =
     (let m = prefixFieldClashes (fe_keys E) (en_Data entry) (FieldMap f) (HasCaller entry);
          vals = callerVals f (en_Caller entry);
          (fixed, ks) = orderKeys f (fixedKeys (fe_keys E) f entry vals) (fe_order E (map fst m));
          b = en_Buffer entry;
          f = ready f
      in map_option (\<lambda>(b, entry, f, cIdx). (b @ [CHR 0x0A], entry, f, cIdx))
           (if isColored f
            then printColored (fe_printable E) (fe_levelString E) (fe_baseTimestamp E) f cIdx b entry ks m
            else Some (printPlain (fe_keys E) (fe_printable E) (fe_levelString E) (fe_timeFormat E) f b entry fixed m vals,
                       entry, f, cIdx)))"

section \<open>Setting up the log\<close>

text \<open>
  \<open>src/logger/logger.go\<close>: the settings of the standard logger. \<open>parseLevel\<close> stands for the log library's reading of a level
  name. The level is set before the formatter is looked at.
\<close>

datatype formatter = Text_Formatter textFormatter | Logfmt_Formatter | Json_Formatter

record logSettings =
  ls_level :: logLevel
  ls_formatter :: formatter
  ls_reportCaller :: bool
  ls_redirected :: bool

definition emptyFormatter :: textFormatter where
  "emptyFormatter = \<lparr>DisableTimestamp = False, TimestampFormat = [], DisableSorting = False, SortingFunc = None,
     DisableLevelTruncation = False, QuoteEmptyFields = False, FieldMap = [], ComponentMap = [], ColorMap = [],
     CallerPrettyfier = None, initDone = False\<rparr>"

definition FORMATTER_TEXT :: string where "FORMATTER_TEXT = ''text''"
definition FORMATTER_JSON :: string where "FORMATTER_JSON = ''json''"
definition FORMATTER_LOGFMT :: string where "FORMATTER_LOGFMT = ''logfmt''"

definition InitLog ::
    "(string \<Rightarrow> logLevel option) \<Rightarrow> (nat \<Rightarrow> bool) \<Rightarrow> string \<Rightarrow> string \<Rightarrow> bool \<Rightarrow> logSettings \<Rightarrow> string option \<times> logSettings" where
  "InitLog parseLevel printable level formatter logMethod st =
     (let st = st\<lparr>ls_redirected := True\<rparr> in
      case parseLevel level of
        None \<Rightarrow> (Some (''failed to parse log level: '' @ quote printable level), st)
      | Some logLevel \<Rightarrow>
         (let st = st\<lparr>ls_level := logLevel\<rparr>;
              name = toLower formatter;
              fin = (\<lambda>fmt. (None, let st = st\<lparr>ls_formatter := fmt\<rparr>
                                   in if logMethod then st\<lparr>ls_reportCaller := True\<rparr> else st))
          in if name = FORMATTER_TEXT then fin (Text_Formatter emptyFormatter)
             else if name = FORMATTER_LOGFMT then fin Logfmt_Formatter
             else if name = FORMATTER_JSON then fin Json_Formatter
             else (Some (''unknown formatter type: '' @ quote printable formatter), st)))"

text \<open>A failed set-up leaves the formatter that was there; a successful one has set the level that was asked for.\<close>

lemma InitLog_cases:
  "case InitLog parseLevel printable level formatter logMethod st of
     (None, st') \<Rightarrow> parseLevel level = Some (ls_level st') \<and> (logMethod \<longrightarrow> ls_reportCaller st')
   | (Some _, st') \<Rightarrow> ls_formatter st' = ls_formatter st \<and> ls_reportCaller st' = ls_reportCaller st"
  by (auto simp: InitLog_def Let_def split: option.split)

end
