(* ===== verification/Log_Lines.thy ===== *)
theory Log_Lines
  imports Log_Format
begin

text \<open>
  What the text formatter of \<open>Log_Format\<close> promises: a printed value can be read back, clashing field names lose nothing, an
  entry is formatted unless a value has the wrong type, and it is printed on one line.
\<close>

section \<open>Quoting is undone by reading\<close>

definition hexVal :: "char \<Rightarrow> nat" where
  "hexVal c = (let n = byteVal c in if n < 58 then n - 48 else n - 87)"

definition readHex :: "string \<Rightarrow> nat" where
  "readHex = foldl (\<lambda>n c. 16 * n + hexVal c) 0"

text \<open>The reading of a quoted text after its opening quote, as \<open>strconv.Unquote\<close> does it on the output of \<open>quote\<close>.\<close>

fun unescape :: "char \<Rightarrow> char option" where
  "unescape c = (if c = CHR ''a'' then Some (byteOf 7) else if c = CHR ''b'' then Some (byteOf 8)
     else if c = CHR ''f'' then Some (byteOf 12) else if c = CHR ''n'' then Some (byteOf 10)
     else if c = CHR ''r'' then Some (byteOf 13) else if c = CHR ''t'' then Some (byteOf 9)
     else if c = CHR ''v'' then Some (byteOf 11) else if c = dquote \<or> c = backslash then Some c else None)"

definition onTail :: "bytes \<Rightarrow> bytes option \<Rightarrow> bytes option" where
  "onTail u = map_option (\<lambda>s. u @ s)"

function unquote :: "string \<Rightarrow> bytes option" where
  "unquote [] = None"
| "unquote (c # t) =
     (if c = dquote then (if t = [] then Some [] else None)
      else if c = backslash then
        (case t of
           [] \<Rightarrow> None
         | d # t' \<Rightarrow>
             if d = CHR ''x'' then onTail [byteOf (readHex (take 2 t'))] (unquote (drop 2 t'))
             else if d = CHR ''u'' then onTail (encodeRune (readHex (take 4 t'))) (unquote (drop 4 t'))
             else if d = CHR ''U'' then onTail (encodeRune (readHex (take 8 t'))) (unquote (drop 8 t'))
             else (case unescape d of None \<Rightarrow> None | Some e \<Rightarrow> onTail [e] (unquote t')))
      else onTail [c] (unquote t))"
  by pat_completeness auto
termination by (relation "measure length") auto

declare unquote.simps [simp del] unescape.simps [simp del]

definition readValue :: "string \<Rightarrow> bytes option" where
  "readValue t = (if t \<noteq> [] \<and> hd t = dquote then unquote (tl t) else Some t)"

lemma onTail_append [simp]: "onTail u (onTail v x) = onTail (u @ v) x"
  by (cases x) (simp_all add: onTail_def)

lemma onTail_Some [simp]: "onTail u (Some s) = Some (u @ s)"
  by (simp add: onTail_def)

lemma byteVal_lowerHex: "d < 16 \<Longrightarrow> byteVal (lowerHexDigit d) = (if d < 10 then 48 + d else 87 + d)"
  by (simp add: lowerHexDigit_def byteVal_def)

lemma hexVal_digit [simp]: "d < 16 \<Longrightarrow> hexVal (lowerHexDigit d) = d"
  by (simp add: hexVal_def byteVal_lowerHex)

lemma readHex_digits: "n < 16 ^ k \<Longrightarrow> readHex (hexDigits k n) = n"
proof (induction k arbitrary: n)
  case (Suc k)
  then have "readHex (hexDigits k (n div 16)) = n div 16" by (simp add: less_mult_imp_div_less mult.commute)
  then show ?case by (simp add: readHex_def)
qed (simp add: readHex_def)

lemma length_hexDigits [simp]: "length (hexDigits k n) = k"
  by (induction k arbitrary: n) simp_all

lemma hexDigits_bytes: "c \<in> set (hexDigits k n) \<Longrightarrow> 48 \<le> byteVal c \<and> byteVal c \<le> 102"
  by (induction k arbitrary: n) (auto simp: byteVal_lowerHex)

text \<open>The escapes, each read back whatever follows.\<close>

lemma unquote_hex:
  "n < 256 \<Longrightarrow> unquote (backslash # CHR ''x'' # hexDigits 2 n @ t) = onTail [byteOf n] (unquote t)"
  "n < 0x10000 \<Longrightarrow> unquote (backslash # CHR ''u'' # hexDigits 4 n @ t) = onTail (encodeRune n) (unquote t)"
  "n < 0x100000000 \<Longrightarrow> unquote (backslash # CHR ''U'' # hexDigits 8 n @ t) = onTail (encodeRune n) (unquote t)"
  by (simp_all add: unquote.simps readHex_digits)

lemma unquote_escape:
  "unescape d = Some e \<Longrightarrow> d \<noteq> CHR ''x'' \<Longrightarrow> d \<noteq> CHR ''u'' \<Longrightarrow> d \<noteq> CHR ''U'' \<Longrightarrow>
     unquote (backslash # d # t) = onTail [e] (unquote t)"
  by (simp add: unquote.simps)

lemma unquote_raw:
  "(\<And>c. c \<in> set u \<Longrightarrow> c \<noteq> dquote \<and> c \<noteq> backslash) \<Longrightarrow> unquote (u @ t) = onTail u (unquote t)"
proof (induction u)
  case Nil
  then show ?case by (cases "unquote t") (simp_all add: onTail_def)
next
  case (Cons c u)
  then show ?case by (simp add: unquote.simps)
qed

lemma byteVal_eq: "byteVal c = byteVal d \<longleftrightarrow> c = d"
  by (metis byteOf_byteVal)

lemma quote_bytes [simp]: "byteVal dquote = 34" "byteVal backslash = 92"
  by (simp_all add: byteVal_def)

lemma decode_less:
  "decode2 p t = Some (r, n) \<Longrightarrow> r < 0x200000" "decode3 p t = Some (r, n) \<Longrightarrow> r < 0x200000"
  "decode4 p t = Some (r, n) \<Longrightarrow> r < 0x200000"
proof -
  have m: "p mod 32 < 32" "p mod 16 < 16" "p mod 8 < 8" "byteVal b mod 64 < 64" for b by simp_all
  show "decode2 p t = Some (r, n) \<Longrightarrow> r < 0x200000"
    by (cases "(p, t)" rule: decode2.cases) (use m in \<open>auto split: if_splits intro: order_less_trans\<close>)
  show "decode3 p t = Some (r, n) \<Longrightarrow> r < 0x200000"
  proof (cases "(p, t)" rule: decode3.cases)
    case (1 p' b c s)
    then show "decode3 p t = Some (r, n) \<Longrightarrow> r < 0x200000"
      using m(2) m(4) [of b] m(4) [of c] by (auto split: if_splits)
  qed simp_all
  show "decode4 p t = Some (r, n) \<Longrightarrow> r < 0x200000"
  proof (cases "(p, t)" rule: decode4.cases)
    case (1 p' b c d s)
    then show "decode4 p t = Some (r, n) \<Longrightarrow> r < 0x200000"
      using m(3) m(4) [of b] m(4) [of c] m(4) [of d] by (auto split: if_splits)
  qed simp_all
qed

lemma decodeRune_less: "fst (decodeRune u) < 0x200000"
proof (cases u)
  case (Cons a t)
  then show ?thesis
    using decode_less [of "byteVal a" t] by (auto simp: Let_def RuneError_def split: option.split)
qed (simp add: RuneError_def)

text \<open>A piece is one byte, or the encoding of its rune without a byte below 128.\<close>

lemma piece_cases:
  assumes "u \<in> set (runesOf s)"
  obtains (byte) c where "u = [c]" "byteVal c < 0x80" "decodeRune u = (byteVal c, 1)"
    | (bad) c where "u = [c]" "decodeRune u = (RuneError, 1)"
    | (wide) r n where "decodeRune u = (r, n)" "1 < n" "encodeRune r = u" "\<forall>c \<in> set u. 0x80 \<le> byteVal c" "0x80 \<le> r" "r < 0x200000"
proof -
  obtain r n where d: "decodeRune u = (r, n)" by (cases "decodeRune u")
  have n: "u \<noteq> []" "n = length u" using runesOf_pieces [OF assms] d by auto
  show ?thesis
  proof (cases "n = 1")
    case True
    then obtain c where u: "u = [c]" using n by (cases u) auto
    have "decodeRune [c] = (if byteVal c < 0x80 then (byteVal c, 1) else (RuneError, 1))" by (simp add: Let_def)
    then show ?thesis using u byte [of c] bad [of c] by (auto split: if_splits)
  next
    case False
    then have w: "1 < n" using n by (cases u) auto
    have e: "encodeRune r = u" using encode_decode(1) [OF d] w n by simp
    have h: "\<forall>c \<in> set u. 0x80 \<le> byteVal c" using decodeRune_take(2) [OF d] False n by simp
    have "0x80 \<le> r" using e w n h by (auto simp: encodeRune_def encodeValid_def split: if_splits)
    moreover have "r < 0x200000" using decodeRune_less [of u] d by simp
    ultimately show ?thesis using wide [OF d w e h] by simp
  qed
qed

lemma unquote_quoteRune:
  assumes "u \<in> set (runesOf s)"
  shows "unquote (quoteRune printable u @ t) = onTail u (unquote t)"
  using assms
proof (cases rule: piece_cases)
  case (bad c)
  then show ?thesis using unquote_hex(1) [of "byteVal c" t] by (simp add: quoteRune_def)
next
  case (byte c)
  then have q: "quoteRune printable u = (if c = dquote \<or> c = backslash then [backslash, c]
     else if printable (byteVal c) then [c]
     else if byteVal c = 7 then [backslash, CHR ''a'']
     else if byteVal c = 8 then [backslash, CHR ''b'']
     else if byteVal c = 12 then [backslash, CHR ''f'']
     else if byteVal c = 10 then [backslash, CHR ''n'']
     else if byteVal c = 13 then [backslash, CHR ''r'']
     else if byteVal c = 9 then [backslash, CHR ''t'']
     else if byteVal c = 11 then [backslash, CHR ''v'']
     else if byteVal c < 32 then [backslash, CHR ''x''] @ hexDigits 2 (byteVal c)
     else [backslash, CHR ''u''] @ hexDigits 4 (byteVal c))"
    by (auto simp: quoteRune_def RuneError_def byteVal_eq simp flip: quote_bytes
        simp: encodeRune_def encodeValid_def)
  have e: "encodeRune (byteVal c) = [c]" using byte by (simp add: encodeRune_def encodeValid_def)
  have esc: "byteVal c = n \<Longrightarrow> byteOf n = c" for n by auto
  show ?thesis
    using byte(1,2) unquote_escape [of _ _ t] unquote_hex(1,2) [of "byteVal c" t] unquote_raw [of "[c]" t] e
    unfolding q by (auto simp: unescape.simps esc)
next
  case (wide r n)
  then have q: "quoteRune printable u = (if printable r then u
     else if r < 0x10000 then [backslash, CHR ''u''] @ hexDigits 4 r
     else [backslash, CHR ''U''] @ hexDigits 8 r)"
    by (simp add: quoteRune_def)
  have "unquote (u @ t) = onTail u (unquote t)"
    using wide(4) by (intro unquote_raw) (auto simp: quote_bytes)
  then show ?thesis
    using unquote_hex(2,3) [of r t] wide(3,6) unfolding q by auto
qed

lemma unquote_runes:
  "set us \<subseteq> set (runesOf s) \<Longrightarrow> unquote (concat (map (quoteRune printable) us) @ [dquote]) = Some (concat us)"
proof (induction us)
  case Nil
  show ?case by (simp add: unquote.simps)
next
  case (Cons u us)
  then show ?case using unquote_quoteRune [of u s printable "concat (map (quoteRune printable) us) @ [dquote]"] by simp
qed

lemma readValue_quote: "readValue (quote printable s) = Some s"
  using unquote_runes [of "runesOf s" s printable] by (simp add: readValue_def quote_def concat_runesOf)

lemma plainRune_byte: "plainRune n \<Longrightarrow> 43 \<le> n \<and> n \<le> 122 \<and> n \<noteq> 92"
  by (auto simp: plainRune_def byteVal_def)

lemma plain_piece:
  assumes "u \<in> set (runesOf s)" "plainRune (fst (decodeRune u))"
  obtains c where "u = [c]" "plainRune (byteVal c)"
  using assms(1)
proof (cases rule: piece_cases)
  case (bad c)
  then show ?thesis using plainRune_byte [OF assms(2)] by (simp add: RuneError_def)
next
  case (wide r n)
  then show ?thesis using plainRune_byte [OF assms(2)] by simp
qed (use assms(2) that in auto)

lemma needsQuoting_plain:
  assumes "\<not> needsQuoting q s" "c \<in> set s"
  shows "plainRune (byteVal c)"
proof -
  obtain u where u: "u \<in> set (runesOf s)" "c \<in> set u"
    using assms(2) concat_runesOf [of s] by (metis UN_E set_concat)
  then have p: "plainRune (fst (decodeRune u))" using assms(1) by (auto simp: needsQuoting_def list_ex_iff)
  obtain d where "u = [d]" "plainRune (byteVal d)" by (rule plain_piece [OF u(1) p])
  then show ?thesis using u(2) by simp
qed

lemma letters:
  "byteVal CHR ''a'' = 97" "byteVal CHR ''b'' = 98" "byteVal CHR ''f'' = 102" "byteVal CHR ''n'' = 110"
  "byteVal CHR ''r'' = 114" "byteVal CHR ''t'' = 116" "byteVal CHR ''v'' = 118" "byteVal CHR ''x'' = 120"
  "byteVal CHR ''u'' = 117" "byteVal CHR ''U'' = 85"
  by (simp_all add: byteVal_def)

lemma quoteRune_safe:
  assumes "u \<in> set (runesOf s)" "c \<in> set (quoteRune printable u)" "\<forall>r. r < 32 \<or> r = 127 \<longrightarrow> \<not> printable r"
  shows "\<not> control c"
  using assms(1)
proof (cases rule: piece_cases)
  case (bad d)
  then show ?thesis using assms(2) by (auto simp: quoteRune_def control_def letters dest: hexDigits_bytes)
next
  case (byte d)
  have e: "encodeRune (byteVal d) = [d]" using byte by (simp add: encodeRune_def encodeValid_def)
  show ?thesis
    using assms(2,3) byte e
    by (auto simp: quoteRune_def control_def RuneError_def letters dest: hexDigits_bytes split: if_splits)
next
  case (wide r n)
  then show ?thesis using assms(2)
    by (auto simp: quoteRune_def control_def letters dest: hexDigits_bytes split: if_splits)
qed

definition valueText :: "(nat \<Rightarrow> bool) \<Rightarrow> bool \<Rightarrow> bytes \<Rightarrow> bytes" where
  "valueText printable q s = (if needsQuoting q s then quote printable s else s)"

lemma appendValue_text: "appendValue printable f b v = b @ valueText printable (QuoteEmptyFields f) (stringVal v)"
  by (simp add: appendValue_def valueText_def Let_def)

lemma readValue_valueText: "readValue (valueText printable q s) = Some s"
proof (cases "needsQuoting q s")
  case False
  have "s = [] \<or> hd s \<noteq> dquote"
    using plainRune_byte [OF needsQuoting_plain [OF False]] by (cases s) (fastforce simp: quote_bytes)+
  then show ?thesis using False by (auto simp: valueText_def readValue_def)
qed (simp add: valueText_def readValue_quote)

lemma valueText_safe:
  assumes "c \<in> set (valueText printable q s)" "\<forall>r. r < 32 \<or> r = 127 \<longrightarrow> \<not> printable r"
  shows "\<not> control c"
proof (cases "needsQuoting q s")
  case True
  then show ?thesis
    using assms quoteRune_safe [OF _ _ assms(2)] by (auto simp: valueText_def quote_def control_def)
next
  case False
  then have "c \<in> set s" using assms(1) by (simp add: valueText_def)
  then show ?thesis using plainRune_byte [OF needsQuoting_plain [OF False], of c] by (simp add: control_def)
qed

section \<open>The map of the fields\<close>

lemma map_of_moveClash:
  "map_of (moveClash key m) = (case map_of m key of
     None \<Rightarrow> map_of m | Some v \<Rightarrow> (map_of m)(''fields.'' @ key \<mapsto> v, key := None))"
  by (cases "map_of m key") (simp_all add: moveClash_def AList.delete_conv' update_conv' restrict_complement_singleton_eq)

lemma map_of_copyClash:
  "map_of (copyClash key m) = (case map_of m key of
     None \<Rightarrow> map_of m | Some v \<Rightarrow> (map_of m)(''fields.'' @ key \<mapsto> v))"
  by (cases "map_of m key") (simp_all add: copyClash_def update_conv')

lemma moveClash_keys: "fst ` set (moveClash key m) \<subseteq> fst ` set m \<union> (\<lambda>k. ''fields.'' @ k) ` (fst ` set m)"
proof (cases "map_of m key")
  case (Some v)
  have "dom (map_of (moveClash key m)) \<subseteq> dom (map_of m) \<union> {''fields.'' @ key}"
    by (auto simp: map_of_moveClash Some split: if_splits)
  moreover have "key \<in> fst ` set m" using Some by (metis domI dom_map_of_conv_image_fst)
  ultimately show ?thesis unfolding dom_map_of_conv_image_fst by auto
qed (auto simp: moveClash_def)

lemma copyClash_keys: "fst ` set (copyClash key m) \<subseteq> fst ` set m \<union> (\<lambda>k. ''fields.'' @ k) ` (fst ` set m)"
proof (cases "map_of m key")
  case (Some v)
  have "dom (map_of (copyClash key m)) \<subseteq> dom (map_of m) \<union> {''fields.'' @ key}"
    by (auto simp: map_of_copyClash Some split: if_splits)
  moreover have "key \<in> fst ` set m" using Some by (metis domI dom_map_of_conv_image_fst)
  ultimately show ?thesis unfolding dom_map_of_conv_image_fst by auto
qed (auto simp: copyClash_def)

text \<open>Any property of keys that the prefix keeps carries over to the printed keys.\<close>

lemma prefixFieldClashes_keys:
  assumes "\<And>k. P k \<Longrightarrow> P (''fields.'' @ k)" "\<forall>k \<in> fst ` set m. P k" "k \<in> fst ` set (prefixFieldClashes K m fm rc)"
  shows "P k"
proof -
  have sub: "\<forall>k \<in> B. P k" if "B \<subseteq> A \<union> (\<lambda>k. ''fields.'' @ k) ` A" "\<forall>k \<in> A. P k" for A B :: "bytes set"
  proof
    fix k assume "k \<in> B"
    then have "k \<in> A \<or> k \<in> (\<lambda>k. ''fields.'' @ k) ` A" using that(1) by auto
    then show "P k" using that(2) assms(1) by (elim disjE imageE) simp_all
  qed
  note mv = sub [OF moveClash_keys] and cp = sub [OF copyClash_keys]
  note four = mv [OF mv [OF mv [OF mv [OF assms(2)]]]]
  have "\<forall>k \<in> fst ` set (prefixFieldClashes K m fm rc). P k"
  proof (cases rc)
    case True
    show ?thesis unfolding prefixFieldClashes_def Let_def by (simp only: True if_True) (rule cp [OF cp [OF four]])
  next
    case False
    show ?thesis unfolding prefixFieldClashes_def Let_def by (simp only: False if_False) (rule four)
  qed
  then show ?thesis using assms(3) by blast
qed

text \<open>Which field is found under which key, as long as no key has the prefix already.\<close>

lemma moveClash_lookup:
  assumes "map_of m (''fields.'' @ r) = None" "\<forall>k. r \<noteq> ''fields.'' @ k"
  shows "map_of (moveClash r m) k = (if k = r then None else if k = ''fields.'' @ r then map_of m r else map_of m k)"
  using assms by (auto simp: map_of_moveClash split: option.split)

lemma copyClash_lookup:
  assumes "map_of m (''fields.'' @ r) = None"
  shows "map_of (copyClash r m) k = (if k = ''fields.'' @ r then map_of m r else map_of m k)"
  using assms by (auto simp: map_of_copyClash split: option.split)

lemma moveClashes_lookup:
  assumes "\<forall>r \<in> set rs. map_of m (''fields.'' @ r) = None" "\<forall>r \<in> set rs. \<forall>k. r \<noteq> ''fields.'' @ k" "distinct rs"
  shows "map_of (fold moveClash rs m) k =
    (if k \<in> set rs then None else if \<exists>r \<in> set rs. k = ''fields.'' @ r then map_of m (drop 7 k) else map_of m k)"
  using assms
proof (induction rs arbitrary: m)
  case (Cons r rs)
  have look: "map_of (moveClash r m) k = (if k = r then None else if k = ''fields.'' @ r then map_of m r else map_of m k)" for k
    using Cons.prems by (intro moveClash_lookup) auto
  have "\<forall>q \<in> set rs. map_of (moveClash r m) (''fields.'' @ q) = None"
    unfolding look using Cons.prems by fastforce
  then have "map_of (fold moveClash rs (moveClash r m)) k = (if k \<in> set rs then None
      else if \<exists>q \<in> set rs. k = ''fields.'' @ q then map_of (moveClash r m) (drop 7 k) else map_of (moveClash r m) k)"
    using Cons.prems by (intro Cons.IH) auto
  also have "\<dots> = (if k \<in> set (r # rs) then None
      else if \<exists>q \<in> set (r # rs). k = ''fields.'' @ q then map_of m (drop 7 k) else map_of m k)"
    unfolding look using Cons.prems by fastforce
  finally show ?case by simp
qed simp

definition defaultKeys :: "fieldKeys \<Rightarrow> bytes list" where
  "defaultKeys K = [FieldKeyTime K, FieldKeyMsg K, FieldKeyLevel K, FieldKeyLogrusError K]"

lemma prefixFieldClashes_fold:
  "prefixFieldClashes K m [] rc = (let m = fold moveClash (defaultKeys K) m
     in if rc then copyClash (FieldKeyFile K) (copyClash (FieldKeyFunc K) m) else m)"
  by (simp add: prefixFieldClashes_def defaultKeys_def resolve_def Let_def)

section \<open>The colours of the components\<close>

text \<open>The index is one of the list and every component has a colour of the list.\<close>

definition colorsOk :: "textFormatter \<Rightarrow> nat \<Rightarrow> bool" where
  "colorsOk f cIdx \<longleftrightarrow> cIdx < length colors \<and> (\<forall>(k, col) \<in> set (ColorMap f). col \<in> set colors)"

lemma resolveColor_Some:
  assumes "cIdx < length colors"
  shows "\<exists>col cm i. resolveColor f cIdx key = Some (col, cm, i) \<and> i < length colors \<and>
    map_of cm key = Some col \<and> (\<forall>k c. map_of f k = Some c \<longrightarrow> map_of cm k = Some c) \<and>
    (col \<in> set colors \<or> (key, col) \<in> set f) \<and> set cm \<subseteq> set f \<union> {(key, col)}"
proof (cases "map_of f key")
  case None
  then have "key \<notin> fst ` set f" by (simp add: map_of_eq_None_iff)
  then have "AList.update key (colors ! cIdx) f = f @ [(key, colors ! cIdx)]"
    by (induction f) auto
  then show ?thesis using None assms by (auto simp: resolveColor_def Let_def map_add_def split: option.split)
next
  case (Some col)
  then show ?thesis using assms map_of_SomeD [OF Some] by (auto simp: resolveColor_def)
qed

lemma componentText_Some:
  assumes "colorsOk f cIdx" "\<forall>v. map_of m ''component'' = Some v \<longrightarrow> (\<exists>s. v = StringValue s)"
  shows "\<exists>name col cm i. componentText f cIdx m = Some (name, col, f\<lparr>ColorMap := cm\<rparr>, i) \<and>
    colorsOk (f\<lparr>ColorMap := cm\<rparr>) i \<and> (\<forall>k c. map_of (ColorMap f) k = Some c \<longrightarrow> map_of cm k = Some c)"
proof (cases "map_of m ''component''")
  case None
  then show ?thesis using assms(1) by (intro exI [of _ "''        ''"] exI [of _ 0] exI [of _ "ColorMap f"] exI [of _ cIdx])
      (simp add: componentText_def)
next
  case (Some v)
  then obtain s where s: "map_of m ''component'' = Some (StringValue s)" using assms(2) by auto
  obtain proto name where p: "compSubmatch s = (proto, name)" by (cases "compSubmatch s")
  define key where "key = resolve (ComponentMap f) name"
  obtain col cm i where r: "resolveColor (ColorMap f) cIdx key = Some (col, cm, i)" "i < length colors"
      "\<forall>k c. map_of (ColorMap f) k = Some c \<longrightarrow> map_of cm k = Some c"
      "col \<in> set colors \<or> (key, col) \<in> set (ColorMap f)" "set cm \<subseteq> set (ColorMap f) \<union> {(key, col)}"
    using resolveColor_Some [of cIdx "ColorMap f" key] assms(1) unfolding colorsOk_def by blast
  have "colorsOk (f\<lparr>ColorMap := cm\<rparr>) i" using r assms(1) by (fastforce simp: colorsOk_def)
  then show ?thesis
    using s p r(1,3)
    by (intro exI [of _ "proto @ key"] exI [of _ col] exI [of _ cm] exI [of _ i]) (simp add: componentText_def parseComp_def key_def)
qed

definition printedKeys :: "formatEnv \<Rightarrow> textFormatter \<Rightarrow> logEntry \<Rightarrow> fields \<Rightarrow> bytes list" where
  "printedKeys E f entry m =
     snd (orderKeys f (fixedKeys (fe_keys E) f entry (callerVals f (en_Caller entry))) (fe_order E (map fst m)))"

lemma Format_colored:
  assumes "m = prefixFieldClashes (fe_keys E) (en_Data entry) (FieldMap f) (HasCaller entry)"
  shows "Format E f cIdx entry = map_option (\<lambda>(b, entry, f, cIdx). (b @ [CHR 0x0A], entry, f, cIdx))
    (printColored (fe_printable E) (fe_levelString E) (fe_baseTimestamp E) (ready f) cIdx (en_Buffer entry) entry
      (printedKeys E f entry m) m)"
  unfolding assms printedKeys_def by (auto simp: Format_def isColored_def Let_def split: prod.split)

lemma printedKeys_set: "SortingFunc f = None \<Longrightarrow> set (printedKeys E f entry m) = set (fe_order E (map fst m))"
  by (simp add: printedKeys_def orderKeys_def)

lemma ready_ok [simp]:
  "colorsOk f cIdx \<Longrightarrow> colorsOk (ready f) cIdx" "DisableLevelTruncation (ready f) = DisableLevelTruncation f"
  "QuoteEmptyFields (ready f) = QuoteEmptyFields f" "CallerPrettyfier (ready f) = CallerPrettyfier f"
  by (simp_all add: ready_def initFormatter_def colorsOk_def)

text \<open>An environment and an entry.\<close>

definition exampleEnv :: formatEnv where
  "exampleEnv = \<lparr>fe_keys = \<lparr>FieldKeyTime = ''time'', FieldKeyMsg = ''msg'', FieldKeyLevel = ''level'',
       FieldKeyLogrusError = ''logrus_error'', FieldKeyFunc = ''func'', FieldKeyFile = ''file''\<rparr>,
     fe_printable = (\<lambda>r. 32 \<le> r \<and> r \<noteq> 127), fe_levelString = (\<lambda>_. ''info''), fe_timeFormat = (\<lambda>_ _. []),
     fe_baseTimestamp = 0, fe_order = (\<lambda>xs. xs)\<rparr>"

definition exampleEntry :: logEntry where
  "exampleEntry = \<lparr>en_Data = [(''url'', StringValue [CHR ''a'', CHR 0x0A])], en_Time = 1, en_Level = InfoLevel,
     en_Message = ''hi'', en_Caller = None, en_Buffer = []\<rparr>"

lemmas example_defs = exampleEnv_def emptyFormatter_def exampleEntry_def

lemma example_fields:
  "prefixFieldClashes (fe_keys exampleEnv) (en_Data exampleEntry) (FieldMap emptyFormatter) (HasCaller exampleEntry) =
     [(''url'', StringValue [CHR ''a'', CHR 0x0A])]"
  by (simp add: prefixFieldClashes_def moveClash_def resolve_def HasCaller_def example_defs)

section \<open>Properties\<close>

text \<open>
  C37: What is printed for the value of a field can be read back: the text after the buffer's contents is the value itself,
  or its quoted form, whose reading gives back exactly the bytes of the value, valid UTF-8 or not.
\<close>

theorem log_value_roundtrip:
  "\<exists>t. appendValue printable f b v = b @ t \<and> readValue t = Some (stringVal v)"
  by (simp add: appendValue_text readValue_valueText)

text \<open>
  Field names that clash with the default ones do not overwrite them and lose nothing: with the default names, and as long
  as no field is called \<open>fields.\<close>something, a field with the name of a default one is found under \<open>fields.\<close>name only, every other
  field under its own name, and with a caller the fields \<open>func\<close> and \<open>file\<close> under both.
\<close>

theorem log_fields_kept:
  assumes "distinct (defaultKeys K @ [FieldKeyFunc K, FieldKeyFile K])"
    "\<forall>r \<in> set (defaultKeys K @ [FieldKeyFunc K, FieldKeyFile K]). \<not> hasPrefix r ''fields.''"
    "\<forall>k \<in> dom (map_of m). \<not> hasPrefix k ''fields.''"
  shows "map_of (prefixFieldClashes K m [] reportCaller) k =
    (if k \<in> set (defaultKeys K) then None
     else if hasPrefix k ''fields.'' \<and>
        drop 7 k \<in> set (defaultKeys K) \<union> (if reportCaller then {FieldKeyFunc K, FieldKeyFile K} else {})
     then map_of m (drop 7 k) else map_of m k)"
proof -
  have none: "map_of m (''fields.'' @ r) = None" for r
    using assms(3) hasPrefix_append [of "''fields.''" r] by (metis domIff)
  have np: "\<forall>r \<in> set (defaultKeys K @ [FieldKeyFunc K, FieldKeyFile K]). \<forall>k. r \<noteq> ''fields.'' @ k"
    using assms(2) by (auto simp: hasPrefix_iff)
  have pre: "hasPrefix k ''fields.'' \<and> drop 7 k \<in> X \<longleftrightarrow> (\<exists>r \<in> X. k = ''fields.'' @ r)" for X and k :: bytes
    by (auto simp: hasPrefix_iff)
  let ?m = "fold moveClash (defaultKeys K) m"
  have look: "map_of ?m k = (if k \<in> set (defaultKeys K) then None
      else if \<exists>r \<in> set (defaultKeys K). k = ''fields.'' @ r then map_of m (drop 7 k) else map_of m k)" for k
    using none np assms(1) by (intro moveClashes_lookup) auto
  show ?thesis
  proof (cases reportCaller)
    case False
    then show ?thesis by (simp only: prefixFieldClashes_fold Let_def if_False look pre Un_empty_right)
  next
    case True
    have F: "FieldKeyFunc K \<notin> set (defaultKeys K)" "FieldKeyFile K \<notin> set (defaultKeys K)" "FieldKeyFunc K \<noteq> FieldKeyFile K"
      using assms(1) by auto
    have n1: "map_of ?m (''fields.'' @ FieldKeyFunc K) = None"
      unfolding look using F none np by auto
    have look1: "map_of (copyClash (FieldKeyFunc K) ?m) k =
        (if k = ''fields.'' @ FieldKeyFunc K then map_of ?m (FieldKeyFunc K) else map_of ?m k)" for k
      by (rule copyClash_lookup [OF n1])
    have n2: "map_of (copyClash (FieldKeyFunc K) ?m) (''fields.'' @ FieldKeyFile K) = None"
      unfolding look1 look using F none np by auto
    have look2: "map_of (copyClash (FieldKeyFile K) (copyClash (FieldKeyFunc K) ?m)) k =
        (if k = ''fields.'' @ FieldKeyFile K then map_of (copyClash (FieldKeyFunc K) ?m) (FieldKeyFile K)
         else map_of (copyClash (FieldKeyFunc K) ?m) k)" for k
      by (rule copyClash_lookup [OF n2])
    show ?thesis
      unfolding prefixFieldClashes_fold Let_def pre
      using F np by (auto simp: True look2 look1 look)
  qed
qed

lemma Format_cases:
  assumes "colorsOk f cIdx"
  shows "case Format E f cIdx entry of
      None \<Rightarrow> (let m = prefixFieldClashes (fe_keys E) (en_Data entry) (FieldMap f) (HasCaller entry)
        in \<not> DisableLevelTruncation f \<and> length (fe_levelString E (en_Level entry)) < 4 \<or>
           (\<exists>v. map_of m ''component'' = Some v \<and> (\<forall>s. v \<noteq> StringValue s)) \<or>
           (\<exists>v. map_of m ''session'' = Some v \<and> (\<forall>i. v \<noteq> Int64Value i)))
    | Some (out, entry', f', cIdx') \<Rightarrow> colorsOk f' cIdx' \<and>
        (\<exists>cm. f' = (ready f)\<lparr>ColorMap := cm\<rparr> \<and> (\<forall>k c. map_of (ColorMap (ready f)) k = Some c \<longrightarrow> map_of cm k = Some c)) \<and>
        entry' = entry\<lparr>en_Message := trimNewline (en_Message entry)\<rparr> \<and> last out = CHR 0x0A"
proof -
  define m where "m = prefixFieldClashes (fe_keys E) (en_Data entry) (FieldMap f) (HasCaller entry)"
  note F = Format_colored [OF m_def, of cIdx]
  show ?thesis
  proof (cases "levelText (ready f) (fe_levelString E (en_Level entry))")
    case None
    then show ?thesis unfolding F by (auto simp: printColored_def levelText_def Let_def split: if_splits)
  next
    case (Some lt)
    note lt = this
    show ?thesis
    proof (cases "\<forall>v. map_of m ''component'' = Some v \<longrightarrow> (\<exists>s. v = StringValue s)")
      case False
      then have "componentText (ready f) cIdx m = None"
        by (auto simp: componentText_def split: option.split fieldValue.split)
      then show ?thesis using False lt unfolding F by (auto simp: printColored_def Let_def m_def [symmetric])
    next
      case True
      obtain name col cm i where c: "componentText (ready f) cIdx m = Some (name, col, (ready f)\<lparr>ColorMap := cm\<rparr>, i)"
          "colorsOk ((ready f)\<lparr>ColorMap := cm\<rparr>) i" "\<forall>k c. map_of (ColorMap (ready f)) k = Some c \<longrightarrow> map_of cm k = Some c"
        using componentText_Some [OF ready_ok(1) [OF assms] True] by blast
      show ?thesis
      proof (cases "sessionText m")
        case None
        then have "\<exists>v. map_of m ''session'' = Some v \<and> (\<forall>i. v \<noteq> Int64Value i)"
          by (auto simp: sessionText_def split: option.splits fieldValue.splits)
        then show ?thesis using c(1) lt None unfolding F by (simp add: printColored_def Let_def m_def [symmetric])
      next
        case (Some session)
        then show ?thesis using c lt unfolding F by (auto simp: printColored_def Let_def)
      qed
    qed
  qed
qed

text \<open>
  The formatter fails for exactly three kinds of entry: a level name too short to be cut, a component that is not a string
  and a session that is not an \<open>int64\<close>; on every other entry it returns, the index of the colours stays in range, and a component
  keeps the colour it has once it was given one.
\<close>

theorem log_format_total:
  assumes "colorsOk f cIdx"
  shows "case Format E f cIdx entry of
      None \<Rightarrow> (let m = prefixFieldClashes (fe_keys E) (en_Data entry) (FieldMap f) (HasCaller entry)
        in \<not> DisableLevelTruncation f \<and> length (fe_levelString E (en_Level entry)) < 4 \<or>
           (\<exists>v. map_of m ''component'' = Some v \<and> (\<forall>s. v \<noteq> StringValue s)) \<or>
           (\<exists>v. map_of m ''session'' = Some v \<and> (\<forall>i. v \<noteq> Int64Value i)))
    | Some (out, entry', f', cIdx') \<Rightarrow> colorsOk f' cIdx' \<and>
        (\<exists>cm. f' = (ready f)\<lparr>ColorMap := cm\<rparr> \<and> (\<forall>k c. map_of (ColorMap (ready f)) k = Some c \<longrightarrow> map_of cm k = Some c)) \<and>
        entry' = entry\<lparr>en_Message := trimNewline (en_Message entry)\<rparr> \<and> last out = CHR 0x0A"
  using Format_cases [OF assms] .

section \<open>One line per entry\<close>

definition oneLine :: "bytes \<Rightarrow> bool" where
  "oneLine s \<longleftrightarrow> CHR 0x0A \<notin> set s"

lemma oneLine_simps [simp]: "oneLine []" "oneLine (s @ t) \<longleftrightarrow> oneLine s \<and> oneLine t"
    "oneLine (c # s) \<longleftrightarrow> c \<noteq> CHR 0x0A \<and> oneLine s"
  by (auto simp: oneLine_def)

lemma oneLine_take: "oneLine s \<Longrightarrow> oneLine (take k s)" "oneLine s \<Longrightarrow> oneLine (drop k s)"
  by (auto simp: oneLine_def dest: in_set_takeD in_set_dropD)

lemma oneLine_control: "(\<And>c. c \<in> set s \<Longrightarrow> \<not> control c) \<Longrightarrow> oneLine s"
proof -
  assume *: "\<And>c. c \<in> set s \<Longrightarrow> \<not> control c"
  have "control CHR 0x0A" by (simp add: control_def byteVal_def)
  then show "oneLine s" using * unfolding oneLine_def by blast
qed

lemma oneLine_decimal [simp]: "oneLine (decimal n)"
  using decimal_bytes by (intro oneLine_control) (fastforce simp: control_def)

lemma oneLine_numbers [simp]: "oneLine (itoa i)" "oneLine (itoa09 i)" "oneLine (ansi i)"
  by (auto simp: itoa_def itoa09_def ansi_def pad0_def oneLine_def [of "replicate _ _"])

lemma oneLine_padded: "oneLine s \<Longrightarrow> oneLine (padRight k s)" "oneLine s \<Longrightarrow> oneLine (padLeft k s)" "oneLine s \<Longrightarrow> oneLine (fmtCut k s)"
proof -
  assume s: "oneLine s"
  have "set (concat (take k (runesOf s))) \<subseteq> set (concat (runesOf s))"
    by (auto dest: in_set_takeD)
  then show "oneLine (fmtCut k s)" using s unfolding fmtCut_def concat_runesOf by (auto simp: oneLine_def)
qed (auto simp: padRight_def padLeft_def oneLine_def)

lemma oneLine_value:
  assumes "\<forall>r. r < 32 \<or> r = 127 \<longrightarrow> \<not> printable r"
  shows "oneLine (appendValue printable f b v) \<longleftrightarrow> oneLine b"
  using valueText_safe [OF _ assms] by (auto simp: appendValue_text intro: oneLine_control)

lemma oneLine_fields:
  assumes "\<forall>r. r < 32 \<or> r = 127 \<longrightarrow> \<not> printable r"
  shows "oneLine b \<Longrightarrow> (\<And>k. k \<in> set ks \<Longrightarrow> oneLine k) \<Longrightarrow> oneLine (printFields printable f col m ks b)"
  by (induction ks arbitrary: b) (simp_all add: printFields_def oneLine_value [OF assms])

lemma oneLine_upper: "oneLine s \<Longrightarrow> oneLine (map upperChar s)"
proof -
  assume "oneLine s"
  moreover have "upperChar c = CHR 0x0A \<Longrightarrow> c = CHR 0x0A" for c
  proof -
    assume a: "upperChar c = CHR 0x0A"
    define n where "n = (of_char c :: nat)"
    have "n < 256" by (simp add: n_def)
    show "c = CHR 0x0A"
    proof (cases "97 \<le> n \<and> n \<le> 122")
      case True
      moreover have "(n - 32) mod 256 = n - 32" using True by (intro mod_less) linarith
      ultimately have "of_char (upperChar c) = n - 32" by (simp add: upperChar_def n_def [symmetric])
      then have "n - 32 = 10" using a by simp
      then show ?thesis using True by linarith
    next
      case False
      then show ?thesis using a by (auto simp: upperChar_def n_def [symmetric] Let_def split: if_splits)
    qed
  qed
  ultimately have "upperChar c \<noteq> CHR 0x0A" if "c \<in> set s" for c
    using that unfolding oneLine_def by blast
  then show ?thesis unfolding oneLine_def set_map by (metis imageE)
qed

text \<open>The names and texts of an entry that are printed as they are have no line break.\<close>

definition oneLineEntry :: "formatEnv \<Rightarrow> textFormatter \<Rightarrow> logEntry \<Rightarrow> bool" where
  "oneLineEntry E f entry \<longleftrightarrow> oneLine (trimNewline (en_Message entry)) \<and> oneLine (en_Buffer entry) \<and>
     oneLine (fe_levelString E (en_Level entry)) \<and> oneLine (callerText f (en_Caller entry)) \<and>
     (\<forall>k \<in> fst ` set (en_Data entry). oneLine k) \<and>
     (\<forall>v \<in> snd ` set (ComponentMap (ready f)). oneLine v) \<and>
     (\<forall>s. map_of (prefixFieldClashes (fe_keys E) (en_Data entry) (FieldMap f) (HasCaller entry)) ''component'' =
        Some (StringValue s) \<longrightarrow> oneLine s)"

lemma oneLine_component:
  assumes "componentText f cIdx m = Some (name, col, f', i)"
    "\<forall>s. map_of m ''component'' = Some (StringValue s) \<longrightarrow> oneLine s" "\<forall>v \<in> snd ` set (ComponentMap f). oneLine v"
  shows "oneLine name"
proof (cases "map_of m ''component''")
  case None
  then show ?thesis using assms(1) by (auto simp: componentText_def)
next
  case (Some v)
  then obtain s where s: "v = StringValue s" "oneLine s" using assms(1,2) by (cases v) (auto simp: componentText_def)
  obtain proto k where p: "compSubmatch s = (proto, k)" by (cases "compSubmatch s")
  then have "oneLine proto" using s(2) by (auto simp: compSubmatch_def Let_def oneLine_take)
  moreover have "oneLine k" using p by (auto simp: compSubmatch_def Let_def oneLine_def dest: set_takeWhileD)
  ultimately have "oneLine (proto @ resolve (ComponentMap f) k)"
    using assms(3) by (force simp: resolve_def split: option.split dest: map_of_SomeD)
  moreover have "name = proto @ resolve (ComponentMap f) k"
    using assms(1) Some s(1) p by (auto simp: componentText_def parseComp_def Let_def split: option.splits)
  ultimately show ?thesis by simp
qed

lemma Format_oneLine:
  assumes "Format E f cIdx entry = Some (out, entry', f', cIdx')" "oneLineEntry E f entry"
    "\<forall>r. r < 32 \<or> r = 127 \<longrightarrow> \<not> fe_printable E r" "\<forall>xs. set (fe_order E xs) = set xs" "SortingFunc f = None"
  shows "\<exists>line. out = line @ [CHR 0x0A] \<and> oneLine line"
proof -
  define m where "m = prefixFieldClashes (fe_keys E) (en_Data entry) (FieldMap f) (HasCaller entry)"
  have ks: "oneLine k" if "k \<in> set (printedKeys E f entry m)" for k
  proof (rule prefixFieldClashes_keys [where P = oneLine])
    show "k \<in> fst ` set (prefixFieldClashes (fe_keys E) (en_Data entry) (FieldMap f) (HasCaller entry))"
      using that assms(4,5) by (simp add: printedKeys_set m_def)
  qed (use assms(2) in \<open>auto simp: oneLineEntry_def\<close>)
  obtain b where F: "printColored (fe_printable E) (fe_levelString E) (fe_baseTimestamp E) (ready f) cIdx (en_Buffer entry)
      entry (printedKeys E f entry m) m = Some (b, entry', f', cIdx')" and out: "out = b @ [CHR 0x0A]"
    using assms(1) unfolding Format_colored [OF m_def, of cIdx] by auto
  obtain lt name col session where parts: "levelText (ready f) (fe_levelString E (en_Level entry)) = Some lt"
      "componentText (ready f) cIdx m = Some (name, col, f', cIdx')" "sessionText m = Some session"
    and b: "b = printFields (fe_printable E) f' (levelColor (en_Level entry)) m (printedKeys E f entry m)
      (en_Buffer entry @ ansi (levelColor (en_Level entry)) @ lt @ ansi 0 @ ''['' @
       itoa09 (timeSub (en_Time entry) (fe_baseTimestamp E)) @ '']'' @ ansi col @ padRight 10 (fmtCut 10 name) @ ansi 0 @
       padLeft 2 session @ callerText (ready f) (en_Caller entry) @ '' '' @ padRight 44 (trimNewline (en_Message entry)) @ '' '')"
    using F by (auto simp: printColored_def Let_def split: option.splits)
  have "oneLine lt"
    using parts(1) oneLine_upper assms(2) by (auto simp: levelText_def oneLineEntry_def oneLine_take Let_def split: if_splits)
  moreover have "oneLine name"
    using oneLine_component [OF parts(2)] assms(2) by (simp add: oneLineEntry_def m_def)
  moreover have "oneLine session"
    using parts(3) by (auto simp: sessionText_def split: option.splits fieldValue.splits)
  moreover have "callerText (ready f) c = callerText f c" for c
    by (simp add: callerText_def split: option.split)
  ultimately have "oneLine b"
    unfolding b using assms(2) ks by (intro oneLine_fields [OF assms(3)]) (simp_all add: oneLineEntry_def oneLine_padded)
  then show ?thesis using out by blast
qed

text \<open>
  C38: An entry is printed on one line, whatever the values of its fields, as long as its message (after one final line break is
  removed), the names of its fields, its component and its caller have no line break: values cannot forge a log line.
\<close>

theorem log_one_line:
  assumes "Format E f cIdx entry = Some (out, entry', f', cIdx')" "oneLineEntry E f entry"
    "\<forall>r. r < 32 \<or> r = 127 \<longrightarrow> \<not> fe_printable E r" "\<forall>xs. set (fe_order E xs) = set xs" "SortingFunc f = None"
  shows "\<exists>line. out = line @ [CHR 0x0A] \<and> oneLine line"
  using Format_oneLine [OF assms] .

theorem log_one_line_witness:
  "\<exists>line. fst (the (Format exampleEnv emptyFormatter 0 exampleEntry)) = line @ [CHR 0x0A] \<and> oneLine line"
proof -
  have "\<exists>out e f' c. Format exampleEnv emptyFormatter 0 exampleEntry = Some (out, e, f', c)"
    unfolding Format_colored [OF refl] example_fields
    by (simp add: example_defs printColored_def levelText_def componentText_def sessionText_def Let_def)
  then obtain out e f' c where F: "Format exampleEnv emptyFormatter 0 exampleEntry = Some (out, e, f', c)" by blast
  have "oneLineEntry exampleEnv emptyFormatter exampleEntry"
    unfolding oneLineEntry_def example_fields
    by (simp add: example_defs trimNewline_def callerText_def ready_def initFormatter_def)
  then show ?thesis
    using log_one_line [OF F] F by (simp add: example_defs)
qed

theorem log_fields_kept_witness:
  "\<forall>k. map_of (prefixFieldClashes (fe_keys exampleEnv) [(''time'', StringValue ''x''), (''func'', StringValue ''y'')] [] True) k =
    (if k = ''fields.time'' then Some (StringValue ''x'')
     else if k = ''func'' \<or> k = ''fields.func'' then Some (StringValue ''y'') else None)"
proof
  fix k :: bytes
  have "k = ''fields.'' @ drop 7 k" if "hasPrefix k ''fields.''"
    using that by (auto simp: hasPrefix_iff)
  then show "map_of (prefixFieldClashes (fe_keys exampleEnv) [(''time'', StringValue ''x''), (''func'', StringValue ''y'')] [] True) k =
    (if k = ''fields.time'' then Some (StringValue ''x'')
     else if k = ''func'' \<or> k = ''fields.func'' then Some (StringValue ''y'') else None)"
    using log_fields_kept [of "fe_keys exampleEnv" "[(''time'', StringValue ''x''), (''func'', StringValue ''y'')]" True k]
    by (auto simp: example_defs defaultKeys_def hasPrefix_def)
qed

theorem log_format_total_witness:
  "case Format exampleEnv emptyFormatter 0 exampleEntry of
     None \<Rightarrow> False | Some (out, entry', f', i) \<Rightarrow> colorsOk f' i \<and> last out = CHR 0x0A"
proof -
  have "colorsOk emptyFormatter 0" by (simp add: colorsOk_def example_defs colors_def)
  from log_format_total [OF this, of exampleEnv exampleEntry] show ?thesis
    unfolding example_fields by (simp add: example_defs split: option.splits prod.splits)
qed

end
