(* ===== verification/Log_Context.thy ===== *)
theory Log_Context
  imports Log_Lines Proxy_State
begin

text \<open>
  The loggers: \<open>src/logger/logger.go\<close> and the logger functions of \<open>src/context/recordcontext.go\<close>. A logger is known by the
  fields it adds to each entry; the nil pointer is \<open>None\<close>, and using it panics, which is \<open>None\<close> again.
\<close>

type_synonym logger = "fields option"

section \<open>Loggers (logger.go)\<close>

definition Log :: logger where
  "Log = Some []"

definition StandardLogger :: logger where
  "StandardLogger = Log"

definition WithField :: "bytes \<Rightarrow> fieldValue \<Rightarrow> logger \<Rightarrow> logger" where
  "WithField key v l = map_option (AList.update key v) l"

definition WithFields :: "fields \<Rightarrow> logger \<Rightarrow> logger" where
  "WithFields fs l = map_option (\<lambda>m. foldl (\<lambda>m (k, v). AList.update k v m) m fs) l"

text \<open>\<open>ErrorKey\<close> of the log library is the argument; the error is printed with its text.\<close>

definition WithError :: "bytes \<Rightarrow> go_error option \<Rightarrow> logger \<Rightarrow> logger" where
  "WithError errorKey err = WithField errorKey (OtherValue (case err of Some e \<Rightarrow> errText e | None \<Rightarrow> ''<nil>''))"

definition WithComponent :: "bytes \<Rightarrow> logger \<Rightarrow> logger" where
  "WithComponent c = WithField ''component'' (StringValue c)"

definition LogWithComponent :: "bytes \<Rightarrow> logger" where
  "LogWithComponent c = WithField ''component'' (StringValue c) Log"

section \<open>Loggers of a request (recordcontext.go)\<close>

definition Session :: "recordContext \<Rightarrow> int" where
  "Session rc = rc_session rc"

text \<open>\<open>rc.log\<close>, which \<open>Init\<close> sets.\<close>

definition rcLog :: "recordContext \<Rightarrow> logger" where
  "rcLog rc = (if rc_InitDone rc then WithFields [(''component'', StringValue ''PROXY''), (''method'', StringValue (rc_Method rc)),
     (''url'', StringValue (urlString (rc_Uri rc))), (''session'', Int64Value (Session rc))] Log else None)"

definition LogWithRecordContext :: "recordContext \<Rightarrow> bytes \<Rightarrow> logger" where
  "LogWithRecordContext rc componentName = WithField ''component'' (StringValue componentName) (rcLog rc)"

definition LogWithContext :: "world \<Rightarrow> bytes \<Rightarrow> logger" where
  "LogWithContext w componentName =
     (let l = (if GetRecordContext (w_data w) \<noteq> None then rcLog (w_rc w) else Log)
      in WithField ''component'' (StringValue componentName) l)"

text \<open>A request without a URL panics when its context has no record.\<close>

definition LogWithContextAndRequest :: "world \<Rightarrow> http_request \<Rightarrow> bytes \<Rightarrow> logger" where
  "LogWithContextAndRequest w req componentName =
     (let l = (if GetRecordContext (w_data w) \<noteq> None then rcLog (w_rc w)
               else (case rq_URL req of None \<Rightarrow> None
                 | Some u \<Rightarrow> WithFields [(''method'', StringValue (rq_Method req)), (''url'', StringValue (urlString u))] Log))
      in WithField ''component'' (StringValue componentName) l)"

text \<open>An entry logged through a logger.\<close>

definition logEntryOf :: "fields \<Rightarrow> logLevel \<Rightarrow> bytes \<Rightarrow> int \<Rightarrow> logEntry" where
  "logEntryOf fs level msg t =
     \<lparr>en_Data = fs, en_Time = t, en_Level = level, en_Message = msg, en_Caller = None, en_Buffer = []\<rparr>"

text \<open>
  \<open>Trace\<close>, \<open>Traceln\<close> and \<open>Tracef\<close> pass the call on to the logger or the entry of the log library that is inside, which logs at its
  own level \<open>enabled\<close>; the text is the one of \<open>Sprint\<close>, \<open>Sprintln\<close> and \<open>Sprintf\<close>. The result is the entries logged.
\<close>

definition Trace :: "(logLevel \<Rightarrow> bool) \<Rightarrow> ('a \<Rightarrow> bytes) \<Rightarrow> int \<Rightarrow> 'a \<Rightarrow> logger \<Rightarrow> logEntry list option" where
  "Trace enabled sprint t args l =
     map_option (\<lambda>fs. if enabled TraceLevel then [logEntryOf fs TraceLevel (sprint args) t] else []) l"

definition Traceln :: "(logLevel \<Rightarrow> bool) \<Rightarrow> ('a \<Rightarrow> bytes) \<Rightarrow> int \<Rightarrow> 'a \<Rightarrow> logger \<Rightarrow> logEntry list option" where
  "Traceln enabled sprintln t args l =
     map_option (\<lambda>fs. if enabled TraceLevel then [logEntryOf fs TraceLevel (trimNewline (sprintln args)) t] else []) l"

definition Tracef ::
    "(logLevel \<Rightarrow> bool) \<Rightarrow> (bytes \<Rightarrow> 'a \<Rightarrow> bytes) \<Rightarrow> int \<Rightarrow> bytes \<Rightarrow> 'a \<Rightarrow> logger \<Rightarrow> logEntry list option" where
  "Tracef enabled sprintf t format args l =
     map_option (\<lambda>fs. if enabled TraceLevel then [logEntryOf fs TraceLevel (sprintf format args) t] else []) l"

text \<open>An entry of a request's logger carries the session of the request.\<close>

lemma Trace_session:
  assumes "rc_InitDone rc" "Trace enabled sprint t args (LogWithRecordContext rc c) = Some (e # es)"
  shows "es = [] \<and> map_of (en_Data e) ''session'' = Some (Int64Value (rc_session rc)) \<and> en_Level e = TraceLevel"
  using assms by (auto simp: Trace_def LogWithRecordContext_def rcLog_def WithField_def WithFields_def Log_def Session_def logEntryOf_def
      split: if_splits)

section \<open>The fields of a request's entries\<close>

lemma requestLogger:
  assumes "GetRecordContext (w_data w) \<noteq> None" "rc_InitDone (w_rc w)"
  shows "LogWithContextAndRequest w req c = Some [(''component'', StringValue c), (''method'', StringValue (rc_Method (w_rc w))),
    (''url'', StringValue (urlString (rc_Uri (w_rc w)))), (''session'', Int64Value (rc_session (w_rc w)))]"
    "LogWithContext w c = LogWithContextAndRequest w req c" "LogWithRecordContext (w_rc w) c = LogWithContextAndRequest w req c"
  using assms by (simp_all add: LogWithContextAndRequest_def LogWithContext_def LogWithRecordContext_def rcLog_def WithFields_def
      WithField_def Log_def Session_def Let_def)

text \<open>None of the fields clashes with a default one.\<close>

definition usualKeys :: "fieldKeys \<Rightarrow> bool" where
  "usualKeys K \<longleftrightarrow> set (defaultKeys K) \<inter> {''component'', ''method'', ''url'', ''session''} = {}"

lemma request_fields_kept:
  assumes "usualKeys K" "set (map fst fs) \<subseteq> {''component'', ''method'', ''url'', ''session''}"
  shows "prefixFieldClashes K fs [] False = fs"
proof -
  have "moveClash k fs = fs" if "k \<in> set (defaultKeys K)" for k
  proof -
    have "k \<notin> fst ` set fs" using assms that by (auto simp: usualKeys_def)
    then show ?thesis by (simp add: moveClash_def map_of_eq_None_iff [THEN iffD2])
  qed
  then show ?thesis by (simp add: prefixFieldClashes_def resolve_def defaultKeys_def)
qed

text \<open>
  What is logged for a request, with whichever of the loggers of its record context, is printed, and on one line, whatever method and
  address the client sent: a component name and a message without a line break are all it takes.
\<close>

theorem request_log_line:
  assumes "GetRecordContext (w_data w) \<noteq> None" "rc_InitDone (w_rc w)" "usualKeys (fe_keys E)"
    "oneLine component" "oneLine msg" "\<forall>l. oneLine (fe_levelString E l) \<and> 4 \<le> length (fe_levelString E l)"
    "\<forall>r. r < 32 \<or> r = 127 \<longrightarrow> \<not> fe_printable E r" "\<forall>xs. set (fe_order E xs) = set xs" "cIdx < length colors"
  shows "\<exists>fs line e' f' i. LogWithContextAndRequest w req component = Some fs \<and>
    map_of fs ''session'' = Some (Int64Value (rc_session (w_rc w))) \<and>
    Format E emptyFormatter cIdx (logEntryOf fs level msg t) = Some (line @ [CHR 0x0A], e', f', i) \<and> oneLine line"
proof -
  obtain fs where fs: "LogWithContextAndRequest w req component = Some fs" "fs = [(''component'', StringValue component),
      (''method'', StringValue (rc_Method (w_rc w))), (''url'', StringValue (urlString (rc_Uri (w_rc w)))),
      (''session'', Int64Value (rc_session (w_rc w)))]"
    using requestLogger(1) [OF assms(1,2)] by simp
  let ?e = "logEntryOf fs level msg t"
  have m: "prefixFieldClashes (fe_keys E) (en_Data ?e) (FieldMap emptyFormatter) (HasCaller ?e) = fs"
    using request_fields_kept [OF assms(3), of fs] fs(2) by (simp add: logEntryOf_def emptyFormatter_def HasCaller_def)
  have "colorsOk emptyFormatter cIdx" using assms(9) by (simp add: colorsOk_def emptyFormatter_def)
  note total = Format_cases [OF this, of E ?e]
  have len: "\<not> length (fe_levelString E (en_Level ?e)) < 4" using assms(6) by (simp add: not_less)
  obtain out e' f' i where F: "Format E emptyFormatter cIdx ?e = Some (out, e', f', i)"
  proof (cases "Format E emptyFormatter cIdx ?e")
    case None
    then show ?thesis using total len unfolding m Let_def by (simp add: fs(2))
  next
    case (Some x)
    then show ?thesis using that by (cases x) auto
  qed
  have "oneLine (trimNewline msg)" using assms(5) by (auto simp: trimNewline_def oneLine_def dest: in_set_butlastD)
  then have "oneLineEntry E emptyFormatter ?e"
    using m fs(2) assms(4,6) unfolding oneLineEntry_def
    by (simp add: logEntryOf_def callerText_def ready_def initFormatter_def emptyFormatter_def)
  from Format_oneLine [OF F this assms(7,8)] show ?thesis using fs F by (auto simp: emptyFormatter_def)
qed

theorem request_log_line_witness:
  "\<exists>line e' f' i. Format exampleEnv emptyFormatter 0 (logEntryOf
      (the (LogWithContextAndRequest ((startWorld [])\<lparr>w_rc := (blankRecordContext 1)\<lparr>rc_InitDone := True, rc_Method := [CHR 0x0A]\<rparr>\<rparr>)
        \<lparr>rq_Method = [], rq_URL = None, rq_Host = [], rq_Header = []\<rparr> ''PROXY'')) InfoLevel ''New session'' 1) =
      Some (line @ [CHR 0x0A], e', f', i) \<and> oneLine line"
proof -
  let ?w = "(startWorld [])\<lparr>w_rc := (blankRecordContext 1)\<lparr>rc_InitDone := True, rc_Method := [CHR 0x0A]\<rparr>\<rparr>"
  have w: "GetRecordContext (w_data ?w) \<noteq> None" "rc_InitDone (w_rc ?w)"
    by (simp_all add: startWorld_def GetRecordContext_def getValue_def mapIndex_def)
  have K: "usualKeys (fe_keys exampleEnv)" by (simp add: usualKeys_def defaultKeys_def exampleEnv_def)
  show ?thesis
    using request_log_line [OF w K, of "''PROXY''" "''New session''" 0 "\<lparr>rq_Method = [], rq_URL = None, rq_Host = [], rq_Header = []\<rparr>"
        InfoLevel 1]
    by (auto simp: exampleEnv_def colors_def)
qed

end
