(* ===== verification/Dialer.thy ===== *)
theory Dialer
  imports Filters Utf8
begin

text \<open>
  How the proxy reaches the next hop: \<open>recorderproxy/dial.go\<close> and \<open>recorderproxy/chained_proxy_filter.go\<close>. Dialling, writing
  a request to a connection and reading a response from it are parameters (\<open>dialEnv\<close>). Of \<open>url.Parse\<close> the code
  uses the case of an argument that starts with \<open>http:\<close>; what it makes of a rest that starts with a slash, which
  is not what the code is after, is the parameter \<open>de_rooted\<close>.
\<close>

section \<open>Parsing a URL that starts with http:\<close>

definition cutAt :: "char \<Rightarrow> string \<Rightarrow> string \<times> string" where
  "cutAt c s = (takeWhile (\<lambda>d. d \<noteq> c) s, drop (Suc (length (takeWhile (\<lambda>d. d \<noteq> c) s))) s)"

definition isCTL :: "char \<Rightarrow> bool" where
  "isCTL c \<longleftrightarrow> byteVal c < 32 \<or> byteVal c = 127"

definition isHexDigit :: "char \<Rightarrow> bool" where
  "isHexDigit c = (let n = byteVal c in 48 \<le> n \<and> n \<le> 57 \<or> 97 \<le> n \<and> n \<le> 102 \<or> 65 \<le> n \<and> n \<le> 70)"

definition unhex :: "char \<Rightarrow> nat" where
  "unhex c = (let n = byteVal c in if n \<le> 57 then n - 48 else if n \<le> 70 then n - 55 else n - 87)"

fun percentDecode :: "string \<Rightarrow> string option" where
  "percentDecode [] = Some []"
| "percentDecode (c # s) =
     (if c \<noteq> CHR ''%'' then map_option (\<lambda>t. c # t) (percentDecode s)
      else (case s of
              a # b # t \<Rightarrow> if isHexDigit a \<and> isHexDigit b
                then map_option (\<lambda>u. byteOf (16 * unhex a + unhex b) # u) (percentDecode t) else None
            | _ \<Rightarrow> None))"

definition fragmentPlain :: string where
  "fragmentPlain = ''-_.~$&+,/:;=?@!()*''"

definition escapeFragment :: "string \<Rightarrow> string" where
  "escapeFragment s = concat (map (\<lambda>c. if isAlnum c \<or> c \<in> set fragmentPlain then [c]
     else [CHR ''%'', hexDigit (byteVal c div 16), hexDigit (byteVal c mod 16)]) s)"

text \<open>
  \<open>url.Parse("http:" + rest)\<close>: the fragment is cut off, then the query; control bytes before the fragment are refused, and
  a rest that does not start with a slash is opaque.
\<close>

definition parseHttpUrl :: "(string \<Rightarrow> url option) \<Rightarrow> string \<Rightarrow> url option" where
  "parseHttpUrl rooted s = (case cutAt CHR ''#'' s of (rest, frag) \<Rightarrow>
     if list_ex isCTL rest then None
     else (let force = (rest \<noteq> [] \<and> last rest = CHR ''?'' \<and> CHR ''?'' \<notin> set (butlast rest));
               path = (if force then butlast rest else fst (cutAt CHR ''?'' rest));
               query = (if force then [] else snd (cutAt CHR ''?'' rest));
               parsed = (if hasPrefix path ''/'' then rooted path else Some (emptyUrl\<lparr>u_Opaque := path\<rparr>))
           in case parsed of
                None \<Rightarrow> None
              | Some u \<Rightarrow>
                  (let u = u\<lparr>u_Scheme := ''http'', u_ForceQuery := force, u_RawQuery := query\<rparr>
                   in if frag = [] then Some u
                      else map_option (\<lambda>f. u\<lparr>u_Fragment := escapeFragment f\<rparr>) (percentDecode frag))))"

section \<open>ChainedProxyFilter (chained_proxy_filter.go)\<close>

text \<open>
  With the next proxy's address. A parse error is only logged, and leaves the request without a URL; a missing record
  context panics.
\<close>

definition ChainedProxyFilter_Apply ::
    "(string \<Rightarrow> url option) \<Rightarrow> string \<Rightarrow> filterConf \<Rightarrow> ('q, 'b) nextFilter \<Rightarrow> ('q, 'b) nextFilter" where
  "ChainedProxyFilter_Apply rooted nextProxy cf nxt req w =
     (if rq_Method (fst req) = MethodConnect then nxt req w
      else if GetHost (w_data w) = [] \<or> (nextProxy \<noteq> [] \<and> \<not> f_IsMITMing cf) then
        (if GetRecordContext (w_data w) = None then Panics w
         else nxt ((fst req)\<lparr>rq_URL := parseHttpUrl rooted (urlString (rc_Uri (w_rc w)))\<rparr>, snd req) w)
      else nxt req w)"

section \<open>NewConnectReq (dial.go)\<close>

record connect_request = http_request +
  cr_RequestURI :: string
  cr_Proto :: string
  cr_ProtoMajor :: int
  cr_ProtoMinor :: int

text \<open>
  The result of \<open>url.ParseRequestURI\<close> is overwritten and its error only printed. An address \<open>url.Parse\<close> refuses gives
  a nil URL, whose assignment panics (\<open>None\<close>).
\<close>

definition NewConnectReq :: "(string \<Rightarrow> url option) \<Rightarrow> string \<Rightarrow> connect_request option" where
  "NewConnectReq rooted addr =
     (let justAuthority = \<not> hasPrefix addr ''/'' in
      case parseHttpUrl rooted addr of
        None \<Rightarrow> None
      | Some uri \<Rightarrow>
         (let uri = uri\<lparr>u_Host := addr\<rparr>;
              uri = (if justAuthority then uri\<lparr>u_Scheme := []\<rparr> else uri)
          in Some \<lparr>rq_Method = MethodConnect, rq_URL = Some uri, rq_Host = u_Host uri, rq_Header = [],
               cr_RequestURI = addr, cr_Proto = ''HTTP/1.1'', cr_ProtoMajor = 1, cr_ProtoMinor = 1\<rparr>))"

section \<open>Dial (dial.go)\<close>

text \<open>
  Connections: one that was dialled, the in-memory pipe whose other end is closed at once, and a wrapped one. \<open>None\<close> is the
  nil connection.
\<close>

datatype netConn = DialedConn string | FakeConn | WrappedConn string bool netConn

record dialEnv =
  de_dial :: "string \<Rightarrow> string \<Rightarrow> int \<Rightarrow> go_error option"
  de_write :: "connect_request \<Rightarrow> go_error option"
  de_read :: "connect_request \<Rightarrow> go_error + http_response"
  de_rooted :: "string \<Rightarrow> url option"
  de_deadline :: "int option"
  de_now :: int
  de_debug :: bool

definition dialTimeout :: "dialEnv \<Rightarrow> int" where
  "dialTimeout D = (case de_deadline D of None \<Rightarrow> 30 * 10 ^ 9 | Some d \<Rightarrow> d - de_now D)"

definition wrapUp :: "dialEnv \<Rightarrow> netConn \<Rightarrow> netConn" where
  "wrapUp D c = (if de_debug D then WrappedConn ''up'' True c else c)"

text \<open>The CONNECT handshake with the next proxy; a context without a URI panics.\<close>

definition connectUpstream ::
    "dialEnv \<Rightarrow> netConn \<Rightarrow> world \<Rightarrow> (netConn option \<times> go_error option, world) run" where
  "connectUpstream D conn w =
     (case GetUri (w_data w) of
        None \<Rightarrow> Panics w
      | Some uri \<Rightarrow>
         (case NewConnectReq (de_rooted D) (u_Host uri) of
            None \<Rightarrow> Panics w
          | Some req \<Rightarrow>
             (case de_write D req of
                Some e \<Rightarrow> Done (Some conn, Some e) w
              | None \<Rightarrow>
                 (case de_read D req of
                    Inl e \<Rightarrow> Done (Some conn, Some e) w
                  | Inr resp \<Rightarrow>
                     (let squidErr = headerGet (rs_Header resp) ''X-Squid-Error''
                      in if squidErr \<noteq> [] then
                           (case handleSquidErrorString squidErr of
                              Some e \<Rightarrow> andThen (onData (SetConnectError (Some e)) w) (\<lambda>_ w. Done (Some conn, None) w)
                            | None \<Rightarrow> Done (Some conn, None) w)
                         else if rs_StatusCode resp \<noteq> 200 then
                           andThen (onData (SetConnectError (Some (newError RuntimeException
                               (''could not connect too upstream proxy ('' @ itoa (rs_StatusCode resp) @ '')'') squidErr))) w)
                             (\<lambda>_ w. Done (Some conn, None) w)
                         else Done (Some conn, None) w)))))"

definition Dial ::
    "dialEnv \<Rightarrow> string \<Rightarrow> bool \<Rightarrow> string \<Rightarrow> string \<Rightarrow> world \<Rightarrow> (netConn option \<times> go_error option, world) run" where
  "Dial D nextProxy isConnect network addr w =
     (if nextProxy \<noteq> [] then
        (case de_dial D network nextProxy (dialTimeout D) of
           Some e \<Rightarrow> andThen (onData (SetConnectError (Some e)) w) (\<lambda>_ w. Done (None, None) w)
         | None \<Rightarrow>
            (let conn = wrapUp D (DialedConn nextProxy)
             in if isConnect then connectUpstream D conn w else Done (Some conn, None) w))
      else
        (case de_dial D network addr (dialTimeout D) of
           Some e \<Rightarrow> andThen (onData (SetConnectError (Some e)) w) (\<lambda>_ w.
             if isConnect then Done (Some (WrappedConn ''fake'' True FakeConn), None) w else Done (None, Some e) w)
         | None \<Rightarrow> Done (Some (wrapUp D (DialedConn addr)), None) w))"

section \<open>The rewritten URL\<close>

lemma cutAt_found: "c \<in> set s \<Longrightarrow> s = fst (cutAt c s) @ c # snd (cutAt c s) \<and> c \<notin> set (fst (cutAt c s))"
proof (induction s)
  case (Cons d s)
  then show ?case by (cases "d = c") (auto simp: cutAt_def)
qed simp

lemma cutAt_none: "c \<notin> set s \<Longrightarrow> cutAt c s = (s, [])"
  by (induction s) (auto simp: cutAt_def)

text \<open>What the next proxy is asked for: a rest that is opaque is the request URI, without its fragment.\<close>

definition withoutFragment :: "string \<Rightarrow> string" where
  "withoutFragment s = takeWhile (\<lambda>c. c \<noteq> CHR ''#'') s"

definition opaqueRest :: "string \<Rightarrow> bool" where
  "opaqueRest s \<longleftrightarrow> withoutFragment s \<noteq> [] \<and> hd s \<noteq> CHR ''/'' \<and> hd s \<noteq> CHR ''?'' \<and>
     (\<forall>c \<in> set (withoutFragment s). \<not> isCTL c) \<and> percentDecode (snd (cutAt CHR ''#'' s)) \<noteq> None"

lemma opaque_query:
  assumes "rest \<noteq> []" "hd rest \<noteq> CHR ''?''" "hd rest \<noteq> CHR ''/''"
    "force = (rest \<noteq> [] \<and> last rest = CHR ''?'' \<and> CHR ''?'' \<notin> set (butlast rest))"
    "path = (if force then butlast rest else fst (cutAt CHR ''?'' rest))"
    "query = (if force then [] else snd (cutAt CHR ''?'' rest))"
  shows "path \<noteq> [] \<and> hd path = hd rest \<and> path @ (if force \<or> query \<noteq> [] then ''?'' @ query else []) = rest"
proof (cases force)
  case True
  then have l: "last rest = CHR ''?''" using assms(4) by simp
  have r: "butlast rest @ [last rest] = rest" by (rule append_butlast_last_id [OF assms(1)])
  have n: "butlast rest \<noteq> []"
  proof
    assume "butlast rest = []"
    then have "rest = [last rest]" using r by simp
    then show False using l assms(2) by (metis list.sel(1))
  qed
  then have "hd (butlast rest) = hd rest" using r by (metis hd_append2)
  then show ?thesis using True assms(5,6) r l n by simp
next
  case False
  show ?thesis
  proof (cases "CHR ''?'' \<in> set rest")
    case True
    let ?p = "fst (cutAt CHR ''?'' rest)" and ?q = "snd (cutAt CHR ''?'' rest)"
    have r: "rest = ?p @ CHR ''?'' # ?q" "CHR ''?'' \<notin> set ?p" using cutAt_found [OF True] by auto
    have "?q \<noteq> []"
    proof
      assume "?q = []"
      then have "rest = ?p @ [CHR ''?'']" using r(1) by simp
      then have "last rest = CHR ''?''" "butlast rest = ?p" by (metis last_snoc, metis butlast_snoc)
      then show False using False assms(1,4) r(2) by auto
    qed
    moreover have "?p \<noteq> []" using r(1) assms(2) by (metis append_Nil list.sel(1))
    moreover from this have "hd ?p = hd rest" using r(1) by (metis hd_append2)
    ultimately show ?thesis using False assms(5,6) r(1) by simp
  next
    case none: False
    then show ?thesis using False assms(1,5,6) by (simp add: cutAt_none)
  qed
qed

lemma parseHttpUrl_opaque:
  assumes "opaqueRest s"
  shows "\<exists>u. parseHttpUrl rooted s = Some u \<and> requestURI u = withoutFragment s \<and> u_Scheme u = ''http'' \<and>
    u_Host u = [] \<and> u_EscPath u = [] \<and> u_User u = None \<and>
    (CHR ''?'' \<notin> set (withoutFragment s) \<longrightarrow> u_Opaque u = withoutFragment s)"
proof -
  define rest frag where "rest = withoutFragment s" and "frag = snd (cutAt CHR ''#'' s)"
  have cut: "cutAt CHR ''#'' s = (rest, frag)" by (simp add: rest_def frag_def cutAt_def withoutFragment_def)
  define force where "force = (rest \<noteq> [] \<and> last rest = CHR ''?'' \<and> CHR ''?'' \<notin> set (butlast rest))"
  define path where "path = (if force then butlast rest else fst (cutAt CHR ''?'' rest))"
  define query where "query = (if force then [] else snd (cutAt CHR ''?'' rest))"
  have hd: "hd rest = hd s" using assms by (cases s) (auto simp: opaqueRest_def rest_def withoutFragment_def)
  have r: "rest \<noteq> []" "hd rest \<noteq> CHR ''?''" "hd rest \<noteq> CHR ''/''" "\<not> list_ex isCTL rest"
    using assms hd by (auto simp: opaqueRest_def rest_def list_ex_iff)
  have q: "path \<noteq> []" "hd path = hd rest" "path @ (if force \<or> query \<noteq> [] then ''?'' @ query else []) = rest"
    using opaque_query [OF r(1-3) force_def path_def query_def] by auto
  have "\<not> hasPrefix path ''/''" using q(1,2) r(3) by (cases path) (auto simp: hasPrefix_iff)
  define u where "u = emptyUrl\<lparr>u_Opaque := path, u_Scheme := ''http'', u_ForceQuery := force, u_RawQuery := query\<rparr>"
  have "\<not> hasPrefix path ''//''" using q(1,2) r(3) by (cases path) (auto simp: hasPrefix_iff)
  then have uri: "requestURI (u\<lparr>u_Fragment := f\<rparr>) = rest" "requestURI u = rest" for f
    using q(1,3) by (auto simp: requestURI_def u_def queryPart_def Let_def split: if_splits)
  have opq: "CHR ''?'' \<notin> set rest \<longrightarrow> path = rest"
  proof
    assume n: "CHR ''?'' \<notin> set rest"
    then have "last rest \<noteq> CHR ''?''" using r(1) by (metis last_in_set)
    then show "path = rest" using n by (simp add: path_def force_def cutAt_none)
  qed
  have p: "parseHttpUrl rooted s = (if frag = [] then Some u else map_option (\<lambda>f. u\<lparr>u_Fragment := escapeFragment f\<rparr>) (percentDecode frag))"
    using r(4) \<open>\<not> hasPrefix path ''/''\<close>
    by (simp add: parseHttpUrl_def cut Let_def force_def [symmetric] path_def [symmetric] query_def [symmetric] u_def)
  obtain f where "percentDecode frag = Some f" using assms by (auto simp: opaqueRest_def frag_def)
  then show ?thesis
    using p uri opq unfolding rest_def [symmetric] by (cases "frag = []") (simp_all add: u_def emptyUrl_def)
qed

section \<open>Properties\<close>

text \<open>
  With a next proxy, a request that is not intercepted is forwarded in absolute form: the rest of the chain gets the request
  with a URL whose request URI is the whole address of the page without its fragment; method, host and headers are unchanged.
  A CONNECT and, when the host is known, an intercepted request are forwarded as they are.
\<close>

theorem chained_absolute_form:
  assumes "GetRecordContext (w_data w) \<noteq> None" "opaqueRest (urlString (rc_Uri (w_rc w)))"
  shows "\<exists>u. requestURI u = withoutFragment (urlString (rc_Uri (w_rc w))) \<and> u_Scheme u = ''http'' \<and> u_Host u = [] \<and>
    ChainedProxyFilter_Apply rooted nextProxy cf nxt req w =
      (if rq_Method (fst req) = MethodConnect \<or> GetHost (w_data w) \<noteq> [] \<and> (nextProxy = [] \<or> f_IsMITMing cf) then nxt req w
       else nxt ((fst req)\<lparr>rq_URL := Some u\<rparr>, snd req) w)"
proof -
  obtain u where u: "parseHttpUrl rooted (urlString (rc_Uri (w_rc w))) = Some u"
      "requestURI u = withoutFragment (urlString (rc_Uri (w_rc w)))" "u_Scheme u = ''http''" "u_Host u = []"
    using parseHttpUrl_opaque [OF assms(2), of rooted] by auto
  then show ?thesis using assms(1) by (intro exI [of _ u]) (auto simp: ChainedProxyFilter_Apply_def)
qed

lemma NewConnectReq_authority:
  assumes "opaqueRest addr" "CHR ''?'' \<notin> set addr" "CHR ''#'' \<notin> set addr"
  shows "\<exists>req u. NewConnectReq rooted addr = Some req \<and> rq_Method req = MethodConnect \<and> rq_Host req = addr \<and>
    cr_RequestURI req = addr \<and> rq_Header req = [] \<and> rq_URL req = Some u \<and> u_Opaque u = addr \<and> u_Host u = addr \<and> \<not> isAbs u"
proof -
  have w: "withoutFragment addr = addr" using assms(3) by (auto simp: withoutFragment_def takeWhile_eq_all_conv)
  then obtain u where u: "parseHttpUrl rooted addr = Some u" "u_Opaque u = addr"
    using parseHttpUrl_opaque [OF assms(1), of rooted] assms(2) by auto
  have "\<not> hasPrefix addr ''/''" using assms(1) by (cases addr) (auto simp: opaqueRest_def hasPrefix_iff)
  then show ?thesis using u by (simp add: NewConnectReq_def Let_def isAbs_def)
qed

lemma onData_SetConnectError:
  "w_data w \<noteq> None \<Longrightarrow> \<exists>d. onData (SetConnectError e) w = Done () (w\<lparr>w_data := d\<rparr>) \<and> GetConnectError d = e \<and>
     d \<noteq> None \<and> (\<forall>k. k \<noteq> KeyConnectErr \<longrightarrow> getValue d k = getValue (w_data w) k)"
  by (auto simp: onData_def SetConnectError_def GetConnectError_def)

text \<open>What becomes of an answer of the next proxy to the CONNECT.\<close>

definition connectAnswerError :: "http_response \<Rightarrow> go_error option" where
  "connectAnswerError resp =
     (let squidErr = headerGet (rs_Header resp) ''X-Squid-Error''
      in if squidErr \<noteq> [] then handleSquidErrorString squidErr
         else if rs_StatusCode resp \<noteq> 200 then Some (newError RuntimeException
           (''could not connect too upstream proxy ('' @ itoa (rs_StatusCode resp) @ '')'') [])
         else None)"

definition leftError :: "go_error option \<Rightarrow> world \<Rightarrow> world \<Rightarrow> bool" where
  "leftError e w w' \<longleftrightarrow> (\<exists>d. w' = w\<lparr>w_data := d\<rparr> \<and>
     GetConnectError d = (case e of Some _ \<Rightarrow> e | None \<Rightarrow> GetConnectError (w_data w)) \<and>
     (\<forall>k. k \<noteq> KeyConnectErr \<longrightarrow> getValue d k = getValue (w_data w) k))"

lemma leftError_None: "leftError None w w"
  by (auto simp: leftError_def intro: exI [of _ "w_data w"])

lemma leftError_Some:
  assumes "w_data w \<noteq> None"
  shows "\<exists>w'. andThen (onData (SetConnectError (Some e)) w) (\<lambda>_ w. Done x w) = Done x w' \<and> leftError (Some e) w w'"
  using onData_SetConnectError [OF assms, of "Some e"] by (auto simp: leftError_def)

lemma connectUpstream_outcome:
  assumes "w_data w \<noteq> None" "GetUri (w_data w) = Some uri" "NewConnectReq (de_rooted D) (u_Host uri) = Some req"
  shows "\<exists>w' err. connectUpstream D conn w = Done (Some conn, err) w' \<and>
    (case de_write D req of
       Some e \<Rightarrow> err = Some e \<and> w' = w
     | None \<Rightarrow> (case de_read D req of
         Inl e \<Rightarrow> err = Some e \<and> w' = w
       | Inr resp \<Rightarrow> err = None \<and> leftError (connectAnswerError resp) w w'))"
  using leftError_Some [OF assms(1)] leftError_None [of w]
  by (auto simp: connectUpstream_def assms(2,3) connectAnswerError_def Let_def split: option.split sum.split)

text \<open>
  C28: What dialling leaves behind. Without a next proxy a failed dial becomes the connect error of the context, and is returned as
  an error unless the request is a CONNECT, which gets a connection whose other end is closed. With a next proxy that cannot be
  dialled there is neither a connection nor an error. A CONNECT through the next proxy fails with an error only if the
  handshake cannot be written or read; an answer that refuses it is left in the context as the connect error. In all other
  cases there is a connection, no error and the context is unchanged.
\<close>

theorem dial_outcome:
  assumes "w_data w \<noteq> None" "GetUri (w_data w) = Some uri" "opaqueRest (u_Host uri)"
    "CHR ''?'' \<notin> set (u_Host uri)" "CHR ''#'' \<notin> set (u_Host uri)"
  shows "\<exists>conn err w' req. Dial D nextProxy isConnect network addr w = Done (conn, err) w' \<and>
    NewConnectReq (de_rooted D) (u_Host uri) = Some req \<and>
    (case de_dial D network (if nextProxy \<noteq> [] then nextProxy else addr) (dialTimeout D) of
       Some e \<Rightarrow> leftError (Some e) w w' \<and> err = (if nextProxy = [] \<and> \<not> isConnect then Some e else None) \<and>
         conn = (if nextProxy = [] \<and> isConnect then Some (WrappedConn ''fake'' True FakeConn) else None)
     | None \<Rightarrow> conn = Some (wrapUp D (DialedConn (if nextProxy \<noteq> [] then nextProxy else addr))) \<and>
         (if \<not> isConnect \<or> nextProxy = [] then err = None \<and> w' = w
          else (case de_write D req of
             Some e \<Rightarrow> err = Some e \<and> w' = w
           | None \<Rightarrow> (case de_read D req of
               Inl e \<Rightarrow> err = Some e \<and> w' = w
             | Inr resp \<Rightarrow> err = None \<and> leftError (connectAnswerError resp) w w'))))"
proof -
  obtain req where req: "NewConnectReq (de_rooted D) (u_Host uri) = Some req"
    using NewConnectReq_authority [OF assms(3-5), of "de_rooted D"] by auto
  note up = connectUpstream_outcome [OF assms(1,2) req]
  show ?thesis
  proof (cases "de_dial D network (if nextProxy \<noteq> [] then nextProxy else addr) (dialTimeout D)")
    case (Some e)
    then show ?thesis using req leftError_Some [OF assms(1), of e] by (auto simp: Dial_def)
  next
    case None
    then show ?thesis using req up [of "wrapUp D (DialedConn nextProxy)"] by (cases isConnect) (auto simp: Dial_def Let_def)
  qed
qed

text \<open>A dialler with two connections to fail or refuse, and a connection to dial for.\<close>

definition refusingDialer :: dialEnv where
  "refusingDialer = \<lparr>de_dial = (\<lambda>_ a _. if a = ''down:1'' then Some (ErrorString ''refused'') else None), de_write = (\<lambda>_. None),
     de_read = (\<lambda>_. Inr (plainResponse 407)), de_rooted = (\<lambda>_. None), de_deadline = None, de_now = 0, de_debug = False\<rparr>"

definition dialWorld :: world where
  "dialWorld = (startWorld [])\<lparr>w_data := Some [(KeyUrl, UriVal (Some (emptyUrl\<lparr>u_Scheme := ''https'', u_Host := ''a.no:443''\<rparr>)))],
     w_rc := (blankRecordContext 1)\<lparr>rc_Uri := emptyUrl\<lparr>u_Scheme := ''http'', u_Host := ''a.no'', u_EscPath := ''/x'',
       u_RawQuery := ''q=1'', u_Fragment := ''top''\<rparr>\<rparr>\<rparr>"

lemma dialWorld_uri:
  "w_data dialWorld \<noteq> None" "\<exists>uri. GetUri (w_data dialWorld) = Some uri \<and> u_Host uri = ''a.no:443''"
  by (simp_all add: dialWorld_def GetUri_def getValue_def mapIndex_def)

lemma dialHost_opaque: "opaqueRest ''a.no:443''"
  by (auto simp: opaqueRest_def withoutFragment_def isCTL_def byteVal_def cutAt_def)

theorem dial_outcome_witness:
  "\<exists>conn w'. Dial refusingDialer ''up:2'' True ''tcp'' ''a.no:443'' dialWorld = Done (conn, None) w' \<and> conn \<noteq> None \<and>
     GetConnectError (w_data w') = Some (newError RuntimeException ''could not connect too upstream proxy (407)'' [])"
proof -
  have e: "connectAnswerError (plainResponse 407) = Some (newError RuntimeException ''could not connect too upstream proxy (407)'' [])"
  proof -
    have "digitChar 4 = CHR ''4''" "digitChar 0 = CHR ''0''" "digitChar 7 = CHR ''7''" by code_simp+
    then show ?thesis
      by (simp add: connectAnswerError_def plainResponse_def headerGet_def headerValues_def itoa_def decimal.simps)
  qed
  obtain uri where u: "GetUri (w_data dialWorld) = Some uri" "u_Host uri = ''a.no:443''" using dialWorld_uri(2) by blast
  show ?thesis
    using dial_outcome [OF dialWorld_uri(1) u(1), of refusingDialer "''up:2''" True "''tcp''" "''a.no:443''"] dialHost_opaque
    by (auto simp: u(2) refusingDialer_def e leftError_def)
qed

theorem chained_absolute_form_witness:
  "\<exists>u. requestURI u = ''http://a.no/x?q=1'' \<and>
    ChainedProxyFilter_Apply (\<lambda>_. None) ''up:2'' \<lparr>f_proxyId = 0, f_IsMITMing = False, f_connectIn = [], f_incoming = []\<rparr>
      (\<lambda>(r, b) w. Done (Some (plainResponse 200, map_option requestURI (rq_URL r)), None) w)
      (\<lparr>rq_Method = ''GET'', rq_URL = None, rq_Host = [], rq_Header = []\<rparr>, ()) (dialWorld\<lparr>w_data := Some [(KeyRCTX, RecordVal (Some 1))]\<rparr>) =
      Done (Some (plainResponse 200, Some (requestURI u)), None) (dialWorld\<lparr>w_data := Some [(KeyRCTX, RecordVal (Some 1))]\<rparr>)"
proof -
  let ?w = "dialWorld\<lparr>w_data := Some [(KeyRCTX, RecordVal (Some 1))]\<rparr>"
  have uri: "urlString (rc_Uri (w_rc ?w)) = ''http://a.no/x?q=1#top''"
    by (simp add: dialWorld_def urlString_def emptyUrl_def authorityPart_def queryPart_def escapeHost_def isAlnum_def hostPlain_def)
  have o: "opaqueRest ''http://a.no/x?q=1#top''"
    by (auto simp: opaqueRest_def withoutFragment_def isCTL_def byteVal_def cutAt_def)
  have g: "GetRecordContext (w_data ?w) \<noteq> None" "GetHost (w_data ?w) = []"
    by (simp_all add: GetRecordContext_def GetHost_def getValue_def mapIndex_def)
  show ?thesis
    using chained_absolute_form [OF g(1), of "\<lambda>_. None" "''up:2''"
        "\<lparr>f_proxyId = 0, f_IsMITMing = False, f_connectIn = [], f_incoming = []\<rparr>"
        "\<lambda>(r, b) w. Done (Some (plainResponse 200, map_option requestURI (rq_URL r)), None) w"
        "(\<lparr>rq_Method = ''GET'', rq_URL = None, rq_Host = [], rq_Header = []\<rparr>, ())"] o g(2)
    unfolding uri by (auto simp: withoutFragment_def MethodConnect_def)
qed

end
