(* ===== verification/Services.thy ===== *)
theory Services
  imports Go_Errors
begin

text \<open>
  \<open>src/serviceconnections/\<close>: the options of a connection to one of the three gRPC services, and the connections themselves.
  Dialling a service is the parameter \<open>grpcDial\<close>, which gets the address, the time limit and the dial options and gives the
  connection (nil is \<open>None\<close>) and an error; the type of dial options is left open.
\<close>

section \<open>Options (options.go)\<close>

record 'o connectionOptions =
  co_serviceName :: string
  co_host :: string
  co_port :: string
  co_connectTimeout :: int
  co_dialOptions :: "'o list"

definition Addr :: "'o connectionOptions \<Rightarrow> string" where
  "Addr c = co_host c @ '':'' @ co_port c"

text \<open>The two implementations of the interface \<open>ConnectionOption\<close>.\<close>

datatype 'o connectionOption = EmptyConnectionOption
  | FuncConnectionOption "'o connectionOptions \<Rightarrow> 'o connectionOptions"

fun applyOption :: "'o connectionOption \<Rightarrow> 'o connectionOptions \<Rightarrow> 'o connectionOptions" where
  "applyOption EmptyConnectionOption c = c"
| "applyOption (FuncConnectionOption f) c = f c"

definition defaultConnectionOptions :: "string \<Rightarrow> 'o connectionOptions" where
  "defaultConnectionOptions serviceName =
     \<lparr>co_serviceName = serviceName, co_host = [], co_port = [], co_connectTimeout = 0, co_dialOptions = []\<rparr>"

definition NewConnectionOptions :: "string \<Rightarrow> 'o connectionOption list \<Rightarrow> 'o connectionOptions" where
  "NewConnectionOptions serviceName opts = foldl (\<lambda>p opt. applyOption opt p) (defaultConnectionOptions serviceName) opts"

definition WithHost :: "string \<Rightarrow> 'o connectionOption" where
  "WithHost host = FuncConnectionOption (\<lambda>c. c\<lparr>co_host := host\<rparr>)"

definition WithPort :: "string \<Rightarrow> 'o connectionOption" where
  "WithPort port = FuncConnectionOption (\<lambda>c. c\<lparr>co_port := port\<rparr>)"

definition WithDialOptions :: "'o list \<Rightarrow> 'o connectionOption" where
  "WithDialOptions dialOption = FuncConnectionOption (\<lambda>c. c\<lparr>co_dialOptions := dialOption\<rparr>)"

definition WithConnectTimeout :: "int \<Rightarrow> 'o connectionOption" where
  "WithConnectTimeout t = FuncConnectionOption (\<lambda>c. c\<lparr>co_connectTimeout := t\<rparr>)"

text \<open>Options of different kinds commute, the later of two of the same kind wins.\<close>

lemma options_last_wins:
  "NewConnectionOptions n (opts @ [WithHost h, WithPort p]) = NewConnectionOptions n (opts @ [WithPort p, WithHost h])"
  "NewConnectionOptions n (opts @ [WithHost h, WithHost h']) = NewConnectionOptions n (opts @ [WithHost h'])"
  "Addr (NewConnectionOptions n (opts @ [WithHost h, WithPort p])) = h @ '':'' @ p"
  by (simp_all add: NewConnectionOptions_def WithHost_def WithPort_def Addr_def)

section \<open>Connections (connection.go)\<close>

text \<open>A client is known by the connection it was made for.\<close>

record ('o, 'c) connections =
  contentWriterOptions :: "'o connectionOptions"
  dnsOptions :: "'o connectionOptions"
  browserControllerOptions :: "'o connectionOptions"
  contentWriterClientConn :: "'c option"
  contentWriterClient :: "'c option option"
  dnsResolverClientConn :: "'c option"
  dnsResolverClient :: "'c option option"
  browserControllerClientConn :: "'c option"
  browserControllerClient :: "'c option option"

definition NewConnections ::
    "'o connectionOptions \<Rightarrow> 'o connectionOptions \<Rightarrow> 'o connectionOptions \<Rightarrow> ('o, 'c) connections" where
  "NewConnections cw dns bc = \<lparr>contentWriterOptions = cw, dnsOptions = dns, browserControllerOptions = bc,
     contentWriterClientConn = None, contentWriterClient = None, dnsResolverClientConn = None, dnsResolverClient = None,
     browserControllerClientConn = None, browserControllerClient = None\<rparr>"

text \<open>The library: dialling, and its options \<open>WithInsecure\<close> and \<open>WithBlock\<close>. The trace holds the addresses dialled, in order.\<close>

record ('o, 'c) grpcEnv =
  g_dial :: "string \<Rightarrow> int \<Rightarrow> 'o list \<Rightarrow> 'c option \<times> go_error option"
  g_WithInsecure :: 'o
  g_WithBlock :: 'o

definition connectService ::
    "('o, 'c) grpcEnv \<Rightarrow> 'o connectionOptions \<Rightarrow> string list \<Rightarrow> ('c option \<times> go_error option) \<times> string list" where
  "connectService G opts trace =
     (g_dial G (Addr opts) (co_connectTimeout opts) (co_dialOptions opts @ [g_WithInsecure G, g_WithBlock G]),
      trace @ [Addr opts])"

definition Connect ::
    "('o, 'c) grpcEnv \<Rightarrow> ('o, 'c) connections \<Rightarrow> (go_error option \<times> ('o, 'c) connections) \<times> string list" where
  "Connect G c =
     (case connectService G (contentWriterOptions c) [] of ((conn, err), tr) \<Rightarrow>
        let c = c\<lparr>contentWriterClientConn := conn\<rparr> in
        if err \<noteq> None then ((err, c), tr)
        else let c = c\<lparr>contentWriterClient := Some conn\<rparr> in
        case connectService G (dnsOptions c) tr of ((conn, err), tr) \<Rightarrow>
        let c = c\<lparr>dnsResolverClientConn := conn\<rparr> in
        if err \<noteq> None then ((err, c), tr)
        else let c = c\<lparr>dnsResolverClient := Some conn\<rparr> in
        case connectService G (browserControllerOptions c) tr of ((conn, err), tr) \<Rightarrow>
        let c = c\<lparr>browserControllerClientConn := conn\<rparr> in
        if err \<noteq> None then ((err, c), tr)
        else ((None, c\<lparr>browserControllerClient := Some conn\<rparr>), tr))"

text \<open>The connections \<open>Close\<close> is called on, in order.\<close>

definition CloseConnections :: "('o, 'c) connections \<Rightarrow> 'c option list" where
  "CloseConnections c = [contentWriterClientConn c, dnsResolverClientConn c, browserControllerClientConn c]"

text \<open>What dialling the service of some options gives.\<close>

definition dialService :: "('o, 'c) grpcEnv \<Rightarrow> 'o connectionOptions \<Rightarrow> 'c option \<times> go_error option" where
  "dialService G opts = g_dial G (Addr opts) (co_connectTimeout opts) (co_dialOptions opts @ [g_WithInsecure G, g_WithBlock G])"

definition serviceList :: "('o, 'c) connections \<Rightarrow> 'o connectionOptions list" where
  "serviceList c = [contentWriterOptions c, dnsOptions c, browserControllerOptions c]"

section \<open>Properties\<close>

text \<open>
  \<open>Connect\<close> dials content writer, DNS resolver and browser controller in this order, and stops at the first that fails with
  the error of that one; the later services are not dialled and have no client. Exactly if all three answer it returns without an
  error, and then each client uses the connection to the address of its own service.
\<close>

theorem connect_first_failure:
  "case Connect G c of ((err, c'), trace) \<Rightarrow>
     (err = None \<longleftrightarrow> (\<forall>s \<in> set (serviceList c). snd (dialService G s) = None)) \<and>
     (case find (\<lambda>s. snd (dialService G s) \<noteq> None) (serviceList c) of
        None \<Rightarrow> trace = map Addr (serviceList c) \<and>
          [contentWriterClient c', dnsResolverClient c', browserControllerClient c'] =
            map (\<lambda>s. Some (fst (dialService G s))) (serviceList c) \<and>
          CloseConnections c' = map (\<lambda>s. fst (dialService G s)) (serviceList c)
      | Some s \<Rightarrow> err = snd (dialService G s) \<and>
          (\<exists>before after. serviceList c = before @ s # after \<and> (\<forall>x \<in> set before. snd (dialService G x) = None) \<and>
             trace = map Addr (before @ [s])) \<and>
          browserControllerClient c' = browserControllerClient c)"
proof -
  let ?ok = "\<lambda>s. snd (dialService G s) = None"
  obtain a b d where s: "serviceList c = [a, b, d]" "a = contentWriterOptions c" "b = dnsOptions c" "d = browserControllerOptions c"
    by (simp add: serviceList_def)
  note C = Connect_def connectService_def dialService_def [symmetric] Let_def
  have split: "\<exists>before after. serviceList c = before @ x # after \<and> (\<forall>y \<in> set before. ?ok y) \<and> tr = map Addr (before @ [x])"
    if "serviceList c = p @ x # q" "\<forall>y \<in> set p. ?ok y" "tr = map Addr (p @ [x])" for p x q tr
    using that by blast
  consider "\<not> ?ok a" | "?ok a" "\<not> ?ok b" | "?ok a" "?ok b" "\<not> ?ok d" | "?ok a" "?ok b" "?ok d" by blast
  then show ?thesis
  proof cases
    case 1
    then show ?thesis using split [of "[]" a "[b, d]"] s by (auto simp: C split: prod.split)
  next
    case 2
    then show ?thesis using split [of "[a]" b "[d]"] s by (auto simp: C split: prod.split)
  next
    case 3
    then show ?thesis using split [of "[a, b]" d "[]"] s by (auto simp: C split: prod.split)
  next
    case 4
    then show ?thesis using s by (auto simp: C CloseConnections_def split: prod.split)
  qed
qed

text \<open>A library under which the DNS resolver does not answer.\<close>

definition noDns :: "(unit, string) grpcEnv" where
  "noDns = \<lparr>g_dial = (\<lambda>a _ _. if a = ''d:2'' then (None, Some (ErrorString ''timeout'')) else (Some a, None)),
     g_WithInsecure = (), g_WithBlock = ()\<rparr>"

definition threeServices :: "(unit, string) connections" where
  "threeServices = NewConnections (NewConnectionOptions ''ContentWriter'' [WithHost ''c'', WithPort ''1''])
     (NewConnectionOptions ''DnsService'' [WithHost ''d'', WithPort ''2''])
     (NewConnectionOptions ''BrowserController'' [WithHost ''b'', WithPort ''3''])"

theorem connect_first_failure_witness:
  "fst (fst (Connect noDns threeServices)) = Some (ErrorString ''timeout'') \<and> snd (Connect noDns threeServices) = [''c:1'', ''d:2'']"
proof -
  obtain err c' tr where C: "Connect noDns threeServices = ((err, c'), tr)" by (metis surj_pair)
  have l: "map Addr (serviceList threeServices) = [''c:1'', ''d:2'', ''b:3'']"
    by (simp add: serviceList_def threeServices_def NewConnections_def NewConnectionOptions_def WithHost_def WithPort_def Addr_def)
  then obtain x y z where xyz: "serviceList threeServices = [x, y, z]" "Addr x = ''c:1''" "Addr y = ''d:2''" "Addr z = ''b:3''"
    by auto
  then have d: "snd (dialService noDns x) = None" "snd (dialService noDns y) = Some (ErrorString ''timeout'')"
    by (simp_all add: dialService_def noDns_def)
  have "err = Some (ErrorString ''timeout'') \<and> (\<exists>before after. [x, y, z] = before @ y # after \<and>
      (\<forall>v \<in> set before. snd (dialService noDns v) = None) \<and> tr = map Addr (before @ [y]))"
    using connect_first_failure [where G = noDns and c = threeServices] C d by (simp add: xyz(1))
  then obtain before after where b: "[x, y, z] = before @ y # after" "tr = map Addr (before @ [y])"
      "err = Some (ErrorString ''timeout'')" by blast
  have "x \<noteq> y" "z \<noteq> y" using xyz by auto
  then have "before = [x]" using b(1) by (auto simp: Cons_eq_append_conv)
  then show ?thesis using C b xyz by simp
qed

end
