(* ===== verification/Proxy_Server.thy ===== *)
theory Proxy_Server
  imports Dialer Services Payload_Format "HOL-Library.Multiset"
begin

text \<open>
  The proxies and their connections: \<open>recorderproxy/recorderproxy.go\<close> and \<open>main.go\<close>. Listening and the construction of the
  proxy of the library are parameters (\<open>listenEnv\<close>); flags and environment variables are read into the record \<open>settings\<close>. A fatal
  log entry and a panic end the process (\<open>None\<close>).
\<close>

section \<open>Assembly of a proxy (recorderproxy.go)\<close>

text \<open>The filters of a proxy: with a next proxy the chain ends in the chained proxy filter.\<close>

definition proxyChain ::
    "env \<Rightarrow> filterConf \<Rightarrow> (string \<Rightarrow> url option) \<Rightarrow> string \<Rightarrow> (reqBody, reader) nextFilter \<Rightarrow> (reader, respBody) nextFilter" where
  "proxyChain E cf rooted nextProxyAddr upstream = filterChain E cf
     (if nextProxyAddr \<noteq> [] then ChainedProxyFilter_Apply rooted nextProxyAddr cf upstream else upstream)"

definition ShouldMITM :: "http_request \<Rightarrow> string \<Rightarrow> bool" where
  "ShouldMITM req upstreamAddr = True"

definition OnError :: "env \<Rightarrow> go_error \<Rightarrow> http_response \<times> reader" where
  "OnError E err = (case e_fail E 500 err of (res, _) \<Rightarrow> res)"

record recorderProxy =
  rp_id :: int
  rp_Addr :: string
  rp_ConnectionTimeout :: int
  rp_nextProxy :: string
  rp_shouldRun :: bool
  rp_chained :: bool

record listenEnv =
  l_listen :: "string \<Rightarrow> string \<Rightarrow> go_error + string"
  l_newProxy :: "go_error option"

text \<open>The second attempt to listen puts the interface before the name of the network.\<close>

definition listenOn :: "listenEnv \<Rightarrow> string \<Rightarrow> int \<Rightarrow> string option" where
  "listenOn L addr port = (case l_listen L ''tcp'' (addr @ '':'' @ itoa port) of
     Inr a \<Rightarrow> Some a
   | Inl _ \<Rightarrow> (case l_listen L (addr @ ''tcp6'') ('':'' @ itoa port) of Inr a \<Rightarrow> Some a | Inl _ \<Rightarrow> None))"

definition initialProxy :: "int \<Rightarrow> string \<Rightarrow> recorderProxy" where
  "initialProxy proxyId nextProxyAddr = \<lparr>rp_id = int32 proxyId, rp_Addr = [], rp_ConnectionTimeout = 0,
     rp_nextProxy = nextProxyAddr, rp_shouldRun = True, rp_chained = (nextProxyAddr \<noteq> [])\<rparr>"

definition NewRecorderProxy :: "listenEnv \<Rightarrow> int \<Rightarrow> string \<Rightarrow> int \<Rightarrow> int \<Rightarrow> string \<Rightarrow> recorderProxy option" where
  "NewRecorderProxy L proxyId addr port connectionTimeout nextProxyAddr =
     (let port = port + proxyId; r = initialProxy proxyId nextProxyAddr
      in if l_newProxy L \<noteq> None then None
         else map_option (\<lambda>a. r\<lparr>rp_Addr := a\<rparr>) (listenOn L addr port))"

section \<open>Start of the program (main.go)\<close>

record settings =
  st_interface :: string
  st_port :: int
  st_proxyCount :: int
  st_timeout :: int
  st_contentWriterHost :: string
  st_contentWriterPort :: string
  st_dnsResolverHost :: string
  st_dnsResolverPort :: string
  st_browserControllerHost :: string
  st_browserControllerPort :: string
  st_cacheHost :: string
  st_cachePort :: string

text \<open>The values of the flags when none is given; a duration is in nanoseconds.\<close>

definition defaultSettings :: settings where
  "defaultSettings = \<lparr>st_interface = [], st_port = 8080, st_proxyCount = 10, st_timeout = 10 * 60 * 10 ^ 9,
     st_contentWriterHost = ''localhost'', st_contentWriterPort = ''7777'', st_dnsResolverHost = ''localhost'',
     st_dnsResolverPort = ''7778'', st_browserControllerHost = ''localhost'', st_browserControllerPort = ''7779'',
     st_cacheHost = [], st_cachePort = []\<rparr>"

definition cacheAddr :: "settings \<Rightarrow> string" where
  "cacheAddr st = st_cacheHost st @ '':'' @ st_cachePort st"

definition serviceOptions ::
    "settings \<Rightarrow> 'o connectionOptions \<times> 'o connectionOptions \<times> 'o connectionOptions" where
  "serviceOptions st =
     (NewConnectionOptions ''ContentWriter'' [WithConnectTimeout (st_timeout st), WithHost (st_contentWriterHost st),
        WithPort (st_contentWriterPort st)],
      NewConnectionOptions ''DnsService'' [WithConnectTimeout (st_timeout st), WithHost (st_dnsResolverHost st),
        WithPort (st_dnsResolverPort st)],
      NewConnectionOptions ''BrowserController'' [WithConnectTimeout (st_timeout st), WithHost (st_browserControllerHost st),
        WithPort (st_browserControllerPort st)])"

text \<open>The loop, with \<open>k\<close> proxies to go of which the next is number \<open>i\<close>.\<close>

fun startProxies :: "listenEnv \<Rightarrow> settings \<Rightarrow> nat \<Rightarrow> nat \<Rightarrow> recorderProxy list option" where
  "startProxies L st 0 i = Some []"
| "startProxies L st (Suc k) i =
     (case NewRecorderProxy L (int i) (st_interface st) (st_port st) (st_timeout st) (cacheAddr st) of
        None \<Rightarrow> None
      | Some r \<Rightarrow> map_option (\<lambda>rs. r # rs) (startProxies L st k (Suc i)))"

text \<open>\<open>main\<close> after the flags: connect to the services, then start the proxies; the trace holds the service addresses dialled.\<close>

definition mainStart ::
    "('o, 'c) grpcEnv \<Rightarrow> listenEnv \<Rightarrow> settings \<Rightarrow> recorderProxy list option \<times> string list" where
  "mainStart G L st = (case serviceOptions st of (cw, dns, bc) \<Rightarrow>
     (case Connect G (NewConnections cw dns bc) of ((err, c), tr) \<Rightarrow>
        if err \<noteq> None then (None, tr) else (startProxies L st (nat (st_proxyCount st)) 0, tr)))"

text \<open>
  \<open>close\<close> of \<open>main.go\<close> closes one proxy after the other. Each one polls the number of open sessions of the whole process;
  \<open>counts\<close> are the values polled, and \<open>False\<close> says that a proxy is still polling when they end.
\<close>

definition closeProxy :: "recorderProxy \<Rightarrow> recorderProxy" where
  "closeProxy r = r\<lparr>rp_shouldRun := False\<rparr>"

fun closeAll :: "int list \<Rightarrow> recorderProxy list \<Rightarrow> recorderProxy list \<times> bool" where
  "closeAll counts [] = ([], True)"
| "closeAll counts (r # rs) = (case closeWaits counts of
     None \<Rightarrow> (closeProxy r # rs, False)
   | Some k \<Rightarrow> (case closeAll (drop (Suc k) counts) rs of (rs', fin) \<Rightarrow> (closeProxy r # rs', fin)))"

text \<open>While one proxy waits for its sessions to end, the proxies after it are not told to stop.\<close>

lemma closeAll_prefix:
  "\<exists>k. fst (closeAll counts rs) = map closeProxy (take k rs) @ drop k rs \<and>
     (snd (closeAll counts rs) \<longleftrightarrow> k = length rs \<and> snd (closeAll counts rs))"
proof (induction rs arbitrary: counts)
  case (Cons r rs)
  show ?case
  proof (cases "closeWaits counts")
    case None
    then show ?thesis by (intro exI [of _ 1]) simp
  next
    case (Some n)
    obtain k where "fst (closeAll (drop (Suc n) counts) rs) = map closeProxy (take k rs) @ drop k rs"
        "snd (closeAll (drop (Suc n) counts) rs) \<longleftrightarrow> k = length rs \<and> snd (closeAll (drop (Suc n) counts) rs)"
      using Cons.IH by blast
    then show ?thesis using Some by (intro exI [of _ "Suc k"]) (auto split: prod.split)
  qed
qed simp

lemma closeAll_first_waits:
  "\<forall>n \<in> set counts. n > 0 \<Longrightarrow> closeAll counts (r # rs) = (closeProxy r # rs, False)"
proof -
  have "\<forall>n \<in> set counts. n > 0 \<Longrightarrow> closeWaits counts = None" by (induction counts) auto
  then show "\<forall>n \<in> set counts. n > 0 \<Longrightarrow> closeAll counts (r # rs) = (closeProxy r # rs, False)" by simp
qed

section \<open>Accepting connections\<close>

text \<open>
  The goroutine of \<open>Start\<close>: it looks at \<open>shouldRun\<close>, waits in \<open>Accept\<close>, has closed the listener, or has ended the
  process: with a fatal log entry, or with the panic of \<open>WrapConn\<close> on the nil connection of a failed \<open>Accept\<close>.
\<close>

datatype serverPc = Checking | Accepting | Finished | Fatal | Panicked

record server =
  sv_pc :: serverPc
  sv_shouldRun :: bool
  sv_handled :: "(netConn \<times> dataCtx) list"
  sv_listenerClosed :: bool

definition started :: server where
  "started = \<lparr>sv_pc = Checking, sv_shouldRun = True, sv_handled = [], sv_listenerClosed = False\<rparr>"

definition handleConn :: "string \<Rightarrow> netConn \<times> dataCtx" where
  "handleConn co = (WrappedConn ''down'' False (DialedConn co), RecordProxyDataAware None)"

inductive serve :: "server \<Rightarrow> server \<Rightarrow> bool" where
  loop: "sv_pc s = Checking \<Longrightarrow> sv_shouldRun s \<Longrightarrow> serve s (s\<lparr>sv_pc := Accepting\<rparr>)"
| accept: "sv_pc s = Accepting \<Longrightarrow> serve s (s\<lparr>sv_pc := Checking, sv_handled := sv_handled s @ [handleConn co]\<rparr>)"
| accept_error: "sv_pc s = Accepting \<Longrightarrow> serve s (s\<lparr>sv_pc := Panicked\<rparr>)"
| stop: "sv_pc s = Checking \<Longrightarrow> \<not> sv_shouldRun s \<Longrightarrow> serve s (s\<lparr>sv_pc := Finished, sv_listenerClosed := True\<rparr>)"
| stop_error: "sv_pc s = Checking \<Longrightarrow> \<not> sv_shouldRun s \<Longrightarrow> serve s (s\<lparr>sv_pc := Fatal\<rparr>)"
| shutdown: "serve s (s\<lparr>sv_shouldRun := False\<rparr>)"

inductive_cases serveE: "serve s t"

inductive_simps serve_Accepting: "serve \<lparr>sv_pc = Accepting, sv_shouldRun = r, sv_handled = h, sv_listenerClosed = l\<rparr> t"

section \<open>Wrapped connections\<close>

text \<open>
  One connection with calls of \<open>Close\<close> from any number of goroutines. A call swaps the flag, calls \<open>CancelFunc\<close> if it
  was the first and there is one, and closes the connection below.
\<close>

datatype closePc = CloseCalled | CloseWon | CloseInner | CloseDone

record connState =
  cs_closed :: int
  cs_hasCancel :: bool
  cs_cancels :: nat
  cs_innerCloses :: nat
  cs_calls :: "closePc list"

definition newConn :: "bool \<Rightarrow> nat \<Rightarrow> connState" where
  "newConn hasCancel n = \<lparr>cs_closed = 0, cs_hasCancel = hasCancel, cs_cancels = 0, cs_innerCloses = 0,
     cs_calls = replicate n CloseCalled\<rparr>"

inductive closeStep :: "connState \<Rightarrow> connState \<Rightarrow> bool" where
  swap: "i < length (cs_calls s) \<Longrightarrow> cs_calls s ! i = CloseCalled \<Longrightarrow> cs_closed s = 0 \<Longrightarrow>
    closeStep s (s\<lparr>cs_closed := 1, cs_calls := (cs_calls s)[i := CloseWon]\<rparr>)"
| noSwap: "i < length (cs_calls s) \<Longrightarrow> cs_calls s ! i = CloseCalled \<Longrightarrow> cs_closed s \<noteq> 0 \<Longrightarrow>
    closeStep s (s\<lparr>cs_calls := (cs_calls s)[i := CloseInner]\<rparr>)"
| cancel: "i < length (cs_calls s) \<Longrightarrow> cs_calls s ! i = CloseWon \<Longrightarrow>
    closeStep s (s\<lparr>cs_cancels := cs_cancels s + (if cs_hasCancel s then 1 else 0), cs_calls := (cs_calls s)[i := CloseInner]\<rparr>)"
| inner: "i < length (cs_calls s) \<Longrightarrow> cs_calls s ! i = CloseInner \<Longrightarrow>
    closeStep s (s\<lparr>cs_innerCloses := Suc (cs_innerCloses s), cs_calls := (cs_calls s)[i := CloseDone]\<rparr>)"

inductive_cases closeStepE: "closeStep s t"

text \<open>
  \<open>Read\<close> and \<open>Write\<close> return what the connection below returned, after the display of the bytes was logged; the
  log line is the second part.
\<close>

definition logIO :: "(nat \<Rightarrow> bool) \<Rightarrow> bool \<Rightarrow> string \<Rightarrow> bytes \<Rightarrow> int \<times> go_error option \<Rightarrow> ((int \<times> go_error option) \<times> bytes) option" where
  "logIO graphic trace verb b res = map_option (\<lambda>d. (res, if trace then verb @ '':'' @ [CHR 0x0A] @ d @ [CHR 0x0A] else verb @ '': '' @ d))
     (FormatPayload graphic trace b (fst res) 10 20)"

definition wrappedRead :: "(nat \<Rightarrow> bool) \<Rightarrow> bool \<Rightarrow> bytes \<Rightarrow> int \<times> go_error option \<Rightarrow> ((int \<times> go_error option) \<times> bytes) option" where
  "wrappedRead graphic trace b res = logIO graphic trace ''read'' b res"

definition wrappedWrite :: "(nat \<Rightarrow> bool) \<Rightarrow> bool \<Rightarrow> bytes \<Rightarrow> int \<times> go_error option \<Rightarrow> ((int \<times> go_error option) \<times> bytes) option" where
  "wrappedWrite graphic trace b res = logIO graphic trace ''write'' b res"

section \<open>Invariants of the accepting goroutine\<close>

text \<open>The listener is closed only after the end of the loop; every handled connection has a context of its own.\<close>

definition serverOk :: "server \<Rightarrow> bool" where
  "serverOk s \<longleftrightarrow> (sv_listenerClosed s \<longleftrightarrow> sv_pc s = Finished) \<and> (sv_pc s \<in> {Finished, Fatal} \<longrightarrow> \<not> sv_shouldRun s) \<and>
     set (sv_handled s) \<subseteq> range handleConn"

lemma serve_keeps_ok: "serve s t \<Longrightarrow> serverOk s \<Longrightarrow> serverOk t"
  by (induction rule: serve.induct) (auto simp: serverOk_def)

lemma serve_reachable_ok: "serve\<^sup>*\<^sup>* started s \<Longrightarrow> serverOk s"
proof (induction rule: rtranclp_induct)
  case base
  show ?case by (simp add: serverOk_def started_def)
next
  case (step s t)
  then show ?case by (blast intro: serve_keeps_ok)
qed

text \<open>How many connections may still be accepted once \<open>Close\<close> was called.\<close>

definition mayAccept :: "server \<Rightarrow> nat" where
  "mayAccept s = (if sv_pc s = Accepting then 1 else 0)"

lemma serve_after_close:
  "serve s t \<Longrightarrow> \<not> sv_shouldRun s \<Longrightarrow>
     \<not> sv_shouldRun t \<and> length (sv_handled t) + mayAccept t \<le> length (sv_handled s) + mayAccept s"
  by (induction rule: serve.induct) (auto simp: mayAccept_def)

lemma serve_after_close_star:
  "serve\<^sup>*\<^sup>* s t \<Longrightarrow> \<not> sv_shouldRun s \<Longrightarrow>
     \<not> sv_shouldRun t \<and> length (sv_handled t) + mayAccept t \<le> length (sv_handled s) + mayAccept s"
  by (induction rule: rtranclp_induct) (auto dest: serve_after_close)

lemma serve_ended:
  "serve s t \<Longrightarrow> sv_pc s \<in> {Finished, Fatal, Panicked} \<Longrightarrow> sv_pc t = sv_pc s \<and> sv_handled t = sv_handled s"
  by (induction rule: serve.induct) auto

lemma serve_ended_star:
  "serve\<^sup>*\<^sup>* s t \<Longrightarrow> sv_pc s \<in> {Finished, Fatal, Panicked} \<Longrightarrow> sv_pc t = sv_pc s \<and> sv_handled t = sv_handled s"
  by (induction rule: rtranclp_induct) (auto dest: serve_ended)

section \<open>Invariant of the calls of Close\<close>

definition callsAt :: "closePc \<Rightarrow> connState \<Rightarrow> nat" where
  "callsAt p s = count (mset (cs_calls s)) p"

lemma callsAt_update:
  assumes "i < length (cs_calls s)"
  shows "count (mset ((cs_calls s)[i := q])) p + (if cs_calls s ! i = p then 1 else 0) = callsAt p s + (if p = q then 1 else 0)"
proof -
  have "cs_calls s ! i \<in># mset (cs_calls s)" using assms by simp
  then have "0 < count (mset (cs_calls s)) (cs_calls s ! i)" by (simp add: count_greater_zero_iff)
  then show ?thesis using assms by (auto simp: callsAt_def mset_update)
qed

text \<open>The flag counts the call that won the swap, before and after it called \<open>CancelFunc\<close>.\<close>

definition connOk :: "connState \<Rightarrow> bool" where
  "connOk s \<longleftrightarrow> (cs_closed s = 0 \<and> set (cs_calls s) \<subseteq> {CloseCalled} \<and> cs_cancels s = 0 \<or> cs_closed s = 1) \<and>
     cs_cancels s + (if cs_hasCancel s then callsAt CloseWon s else 0) = (if cs_hasCancel s then nat (cs_closed s) else 0) \<and>
     cs_innerCloses s = callsAt CloseDone s"

lemma newConn_ok: "connOk (newConn hasCancel n)"
  by (auto simp: connOk_def newConn_def callsAt_def)

lemma closeStep_ok: "closeStep s t \<Longrightarrow> connOk s \<Longrightarrow> connOk t"
proof (induction rule: closeStep.induct)
  case (swap i s)
  have "count (mset ((cs_calls s)[i := CloseWon])) CloseWon = callsAt CloseWon s + 1"
    "count (mset ((cs_calls s)[i := CloseWon])) CloseDone = callsAt CloseDone s"
    using callsAt_update [OF swap(1), of CloseWon CloseWon] callsAt_update [OF swap(1), of CloseWon CloseDone] swap(2) by simp_all
  then show ?case using swap by (auto simp: connOk_def callsAt_def)
next
  case (noSwap i s)
  have "count (mset ((cs_calls s)[i := CloseInner])) CloseWon = callsAt CloseWon s"
    "count (mset ((cs_calls s)[i := CloseInner])) CloseDone = callsAt CloseDone s"
    using callsAt_update [OF noSwap(1), of CloseInner CloseWon] callsAt_update [OF noSwap(1), of CloseInner CloseDone] noSwap(2)
    by simp_all
  then show ?case using noSwap by (auto simp: connOk_def callsAt_def)
next
  case (cancel i s)
  define k where "k = count (mset ((cs_calls s)[i := CloseInner])) CloseWon"
  have "CloseWon \<in> set ((cs_calls s)[i := CloseInner]) \<longleftrightarrow> 0 < k" unfolding k_def by simp
  moreover have "k + 1 = callsAt CloseWon s"
    "count (mset ((cs_calls s)[i := CloseInner])) CloseDone = callsAt CloseDone s"
    using callsAt_update [OF cancel(1), of CloseInner CloseWon] callsAt_update [OF cancel(1), of CloseInner CloseDone] cancel(2)
    unfolding k_def by simp_all
  moreover have "cs_closed s = 1" using cancel nth_mem [OF cancel(1)] by (auto simp: connOk_def)
  ultimately show ?case using cancel by (auto simp: connOk_def callsAt_def k_def [symmetric] split: if_splits)
next
  case (inner i s)
  have "count (mset ((cs_calls s)[i := CloseDone])) CloseWon = callsAt CloseWon s"
    "count (mset ((cs_calls s)[i := CloseDone])) CloseDone = callsAt CloseDone s + 1"
    using callsAt_update [OF inner(1), of CloseDone CloseWon] callsAt_update [OF inner(1), of CloseDone CloseDone] inner(2)
    by simp_all
  moreover have "cs_closed s = 1" using inner nth_mem [OF inner(1)] by (auto simp: connOk_def)
  ultimately show ?case using inner by (auto simp: connOk_def callsAt_def)
qed

lemma closeStep_frame: "closeStep s t \<Longrightarrow> cs_hasCancel t = cs_hasCancel s \<and> length (cs_calls t) = length (cs_calls s)"
  by (induction rule: closeStep.induct) simp_all

lemma closeStep_star:
  assumes "closeStep\<^sup>*\<^sup>* (newConn hasCancel n) s"
  shows "connOk s \<and> cs_hasCancel s = hasCancel \<and> length (cs_calls s) = n"
  using assms
proof (induction rule: rtranclp_induct)
  case base
  show ?case using newConn_ok by (simp add: newConn_def)
next
  case (step s t)
  then show ?case using closeStep_ok closeStep_frame by metis
qed

text \<open>Logging does not change what is read or written.\<close>

lemma logIO_transparent:
  assumes "0 \<le> fst res"
  shows "\<exists>line. logIO graphic trace verb b res = Some (res, line)"
proof (cases trace)
  case True
  then show ?thesis
    using FormatPayload_trace [OF assms, of graphic b 10 20] formatTerminalSafe_rows [of 20 graphic] by (simp add: logIO_def)
next
  case False
  then show ?thesis using FormatPayload_cut [OF False assms, of graphic b 10 20] by (simp add: logIO_def Let_def)
qed

section \<open>Properties\<close>

text \<open>
  C32: However the calls of \<open>Close\<close> on a connection are interleaved, \<open>CancelFunc\<close> is called at most once, and when all
  calls have returned it was called exactly once, if there is one, and the connection below was closed by every call.
\<close>

theorem connection_canceled_once:
  assumes "closeStep\<^sup>*\<^sup>* (newConn hasCancel n) s"
  shows "cs_cancels s \<le> 1 \<and> (n > 0 \<and> set (cs_calls s) \<subseteq> {CloseDone} \<longrightarrow>
    cs_cancels s = (if hasCancel then 1 else 0) \<and> cs_innerCloses s = n)"
proof -
  note ok = closeStep_star [OF assms]
  have "cs_cancels s \<le> 1" using ok by (auto simp: connOk_def split: if_splits)
  moreover have "cs_cancels s = (if hasCancel then 1 else 0) \<and> cs_innerCloses s = n"
    if "n > 0" "set (cs_calls s) \<subseteq> {CloseDone}"
  proof -
    have r: "cs_calls s = replicate n CloseDone"
      using that(2) ok by (auto intro: replicate_eqI)
    then have "callsAt CloseWon s = 0" "callsAt CloseDone s = n" by (simp_all add: callsAt_def)
    moreover have "cs_closed s = 1" using ok r that(1) by (auto simp: connOk_def)
    ultimately show ?thesis using ok by (auto simp: connOk_def)
  qed
  ultimately show ?thesis by blast
qed

text \<open>
  C33: After \<open>Close\<close> of a proxy at most one more connection is accepted, and only if the goroutine was already waiting for one;
  the listener is closed only after the loop has ended. A failed \<open>Accept\<close> is not survived: from then on no
  connection is accepted.
\<close>

theorem accept_after_close:
  assumes "serve\<^sup>*\<^sup>* started s" "serve\<^sup>*\<^sup>* s t"
  shows "(\<not> sv_shouldRun s \<longrightarrow> length (sv_handled t) \<le> length (sv_handled s) + (if sv_pc s = Accepting then 1 else 0)) \<and>
    (sv_listenerClosed s \<longrightarrow> \<not> sv_shouldRun s \<and> sv_handled t = sv_handled s) \<and>
    (sv_pc s = Panicked \<longrightarrow> sv_pc t = Panicked \<and> sv_handled t = sv_handled s) \<and>
    (sv_pc s = Accepting \<longrightarrow> serve s (s\<lparr>sv_pc := Panicked\<rparr>))"
  using serve_after_close_star [OF assms(2)] serve_ended_star [OF assms(2)] serve_reachable_ok [OF assms(1)]
  by (auto simp: mayAccept_def serverOk_def intro: serve.accept_error)

text \<open>
  C34: The program starts exactly the configured number of proxies: number \<open>i\<close> has \<open>i\<close> as its id and listens where
  port \<open>first + i\<close> of the interface leads, so no two have the same port; and every one of them forwards to a next proxy,
  also when no cache is configured, because the cache address always contains a colon.
\<close>

theorem proxies_started:
  assumes "mainStart G L st = (Some ps, tr)" "st_proxyCount st \<le> 2 ^ 31"
  shows "length ps = nat (st_proxyCount st) \<and>
    (\<forall>i < length ps. rp_id (ps ! i) = int i \<and> listenOn L (st_interface st) (st_port st + int i) = Some (rp_Addr (ps ! i)) \<and>
       rp_nextProxy (ps ! i) = st_cacheHost st @ '':'' @ st_cachePort st \<and> rp_nextProxy (ps ! i) \<noteq> [] \<and> rp_chained (ps ! i) \<and>
       rp_shouldRun (ps ! i)) \<and>
    inj_on (\<lambda>i. st_port st + int i) {..<length ps}"
proof -
  have start: "length rs = k \<and> (\<forall>j < k. rp_id (rs ! j) = int32 (int (i + j)) \<and>
       listenOn L (st_interface st) (st_port st + int (i + j)) = Some (rp_Addr (rs ! j)) \<and>
       rp_nextProxy (rs ! j) = cacheAddr st \<and> rp_chained (rs ! j) \<and> rp_shouldRun (rs ! j))"
    if "startProxies L st k i = Some rs" for k i rs
    using that
  proof (induction k arbitrary: i rs)
    case (Suc k)
    then obtain r rs' where r: "NewRecorderProxy L (int i) (st_interface st) (st_port st) (st_timeout st) (cacheAddr st) = Some r"
        "startProxies L st k (Suc i) = Some rs'" "rs = r # rs'"
      by (auto split: option.splits)
    have h: "rp_id r = int32 (int i)" "listenOn L (st_interface st) (st_port st + int i) = Some (rp_Addr r)"
        "rp_nextProxy r = cacheAddr st" "rp_chained r" "rp_shouldRun r"
      using r(1) by (auto simp: NewRecorderProxy_def initialProxy_def Let_def cacheAddr_def split: if_splits)
    show ?case
      using Suc.IH [OF r(2)] h unfolding r(3) by (auto simp: nth_Cons ac_simps split: nat.split)
  qed simp
  have "startProxies L st (nat (st_proxyCount st)) 0 = Some ps"
    using assms(1) by (auto simp: mainStart_def split: prod.splits if_splits)
  note ps = start [OF this]
  have "int32 (int i) = int i" if "i < length ps" for i
    using that ps assms(2) by (intro int32_id) auto
  then show ?thesis using ps by (auto simp: cacheAddr_def inj_on_def)
qed

theorem connection_canceled_once_witness:
  "\<exists>s. closeStep\<^sup>*\<^sup>* (newConn True 2) s \<and> cs_calls s = [CloseDone, CloseDone] \<and> cs_cancels s = 1 \<and> cs_innerCloses s = 2"
proof -
  let ?s = "\<lambda>c k m pcs. \<lparr>cs_closed = c, cs_hasCancel = True, cs_cancels = k, cs_innerCloses = m, cs_calls = pcs\<rparr>"
  have "newConn True 2 = ?s 0 0 0 [CloseCalled, CloseCalled]" by (simp add: newConn_def numeral_2_eq_2)
  also have "closeStep\<^sup>*\<^sup>* \<dots> (?s 1 0 0 [CloseWon, CloseCalled])"
    by (rule r_into_rtranclp) (use closeStep.swap [of 0 "?s 0 0 0 [CloseCalled, CloseCalled]"] in simp)
  also have "closeStep\<^sup>*\<^sup>* (?s 1 0 0 [CloseWon, CloseCalled]) (?s 1 0 0 [CloseWon, CloseInner])"
    by (rule r_into_rtranclp) (use closeStep.noSwap [of 1 "?s 1 0 0 [CloseWon, CloseCalled]"] in simp)
  also have "closeStep\<^sup>*\<^sup>* (?s 1 0 0 [CloseWon, CloseInner]) (?s 1 0 1 [CloseWon, CloseDone])"
    by (rule r_into_rtranclp) (use closeStep.inner [of 1 "?s 1 0 0 [CloseWon, CloseInner]"] in simp)
  also have "closeStep\<^sup>*\<^sup>* (?s 1 0 1 [CloseWon, CloseDone]) (?s 1 1 1 [CloseInner, CloseDone])"
    by (rule r_into_rtranclp) (use closeStep.cancel [of 0 "?s 1 0 1 [CloseWon, CloseDone]"] in simp)
  also have "closeStep\<^sup>*\<^sup>* (?s 1 1 1 [CloseInner, CloseDone]) (?s 1 1 2 [CloseDone, CloseDone])"
    by (rule r_into_rtranclp) (use closeStep.inner [of 0 "?s 1 1 1 [CloseInner, CloseDone]"] in \<open>simp add: numeral_2_eq_2\<close>)
  finally have r: "closeStep\<^sup>*\<^sup>* (newConn True 2) (?s 1 1 2 [CloseDone, CloseDone])" by simp
  from connection_canceled_once [OF r] show ?thesis using r by auto
qed

theorem accept_after_close_witness:
  "\<exists>s t. serve\<^sup>*\<^sup>* started s \<and> \<not> sv_shouldRun s \<and> serve\<^sup>*\<^sup>* s t \<and> length (sv_handled s) = 0 \<and> length (sv_handled t) = 1 \<and>
     (\<forall>u. serve\<^sup>*\<^sup>* s u \<longrightarrow> length (sv_handled u) \<le> 1)"
proof -
  define s where "s = started\<lparr>sv_pc := Accepting, sv_shouldRun := False\<rparr>"
  have "serve\<^sup>*\<^sup>* started (started\<lparr>sv_pc := Accepting\<rparr>)"
    by (rule r_into_rtranclp) (use serve.loop [of started] in \<open>simp add: started_def\<close>)
  also have "serve\<^sup>*\<^sup>* (started\<lparr>sv_pc := Accepting\<rparr>) s"
    unfolding s_def by (rule r_into_rtranclp) (use serve.shutdown [of "started\<lparr>sv_pc := Accepting\<rparr>"] in simp)
  finally have s: "serve\<^sup>*\<^sup>* started s" by simp
  have t: "serve s (s\<lparr>sv_pc := Checking, sv_handled := sv_handled s @ [handleConn ''c'']\<rparr>)"
    using serve.accept [of s] by (simp add: s_def)
  have "length (sv_handled u) \<le> 1" if "serve\<^sup>*\<^sup>* s u" for u
    using accept_after_close [OF s that] by (simp add: s_def started_def)
  moreover have "\<not> sv_shouldRun s" "length (sv_handled s) = 0" by (simp_all add: s_def started_def)
  moreover have "serve\<^sup>*\<^sup>* s (s\<lparr>sv_pc := Checking, sv_handled := sv_handled s @ [handleConn ''c'']\<rparr>)" using t by blast
  ultimately show ?thesis
    using s by (intro exI [of _ s] exI [of _ "s\<lparr>sv_pc := Checking, sv_handled := sv_handled s @ [handleConn ''c'']\<rparr>"]) simp
qed

theorem proxies_started_witness:
  "\<exists>ps tr. mainStart (\<lparr>g_dial = (\<lambda>a _ _. (Some a, None)), g_WithInsecure = (), g_WithBlock = ()\<rparr>)
      \<lparr>l_listen = (\<lambda>n a. Inr a), l_newProxy = None\<rparr> (defaultSettings\<lparr>st_proxyCount := 2\<rparr>) = (Some ps, tr) \<and>
     length ps = 2 \<and> rp_nextProxy (ps ! 0) = '':'' \<and> rp_chained (ps ! 1) \<and> rp_id (ps ! 1) = 1"
proof -
  let ?G = "\<lparr>g_dial = (\<lambda>a _ _. (Some a, None)), g_WithInsecure = (), g_WithBlock = ()\<rparr> :: (unit, string) grpcEnv"
  let ?L = "\<lparr>l_listen = (\<lambda>n a. Inr a), l_newProxy = None\<rparr>" and ?st = "defaultSettings\<lparr>st_proxyCount := 2\<rparr>"
  obtain ps tr where m: "mainStart ?G ?L ?st = (Some ps, tr)"
    by (simp add: mainStart_def serviceOptions_def Connect_def connectService_def NewConnections_def Let_def numeral_2_eq_2
        NewRecorderProxy_def initialProxy_def listenOn_def defaultSettings_def)
  from proxies_started [OF m] have "length ps = 2" "\<forall>i < 2. rp_id (ps ! i) = int i \<and> rp_nextProxy (ps ! i) = '':'' \<and> rp_chained (ps ! i)"
    by (simp_all add: defaultSettings_def)
  then show ?thesis using m by auto
qed

end
