(* ===== verification/Test_Services.thy ===== *)
theory Test_Services
  imports Service_Mock Services Filter_Chain Dialer
begin

text \<open>
  The rest of the test environment: the mock of the three services (\<open>testutil/servicemocks.go\<close>) with its options, its log of
  requests and its DNS service, and the stand-in for the Squid cache (\<open>testutil/secondary_proxy.go\<close>) that the proxy under test
  talks to as its next proxy.
\<close>

section \<open>The mock of the services (servicemocks.go)\<close>

record requests =
  BrowserControllerRequests :: "doRequest list"
  DnsResolverRequests :: "resolveRequest list"
  ContentWriterRequests :: "writeRequest list"

definition noRequests :: requests where
  "noRequests = \<lparr>BrowserControllerRequests = [], DnsResolverRequests = [], ContentWriterRequests = []\<rparr>"

datatype mockService = MockDns | MockContentWriter | MockBrowserController

record ('o, 'c) grpcServiceMock =
  gm_dnsOpts :: "'o connectionOptions option"
  gm_contentWriterOpts :: "'o connectionOptions option"
  gm_browserControllerOpts :: "'o connectionOptions option"
  gm_Requests :: requests
  gm_registered :: "mockService list"
  gm_ClientConn :: "('o, 'c) connections option"

type_synonym ('o, 'c) mockOption = "('o, 'c) grpcServiceMock \<Rightarrow> ('o, 'c) grpcServiceMock"

definition WithExternalBrowserController :: "'o connectionOptions option \<Rightarrow> ('o, 'c) mockOption" where
  "WithExternalBrowserController option c = c\<lparr>gm_browserControllerOpts := option\<rparr>"

definition WithExternalContentWriter :: "'o connectionOptions option \<Rightarrow> ('o, 'c) mockOption" where
  "WithExternalContentWriter option c = c\<lparr>gm_contentWriterOpts := option\<rparr>"

definition WithExternalDns :: "'o connectionOptions option \<Rightarrow> ('o, 'c) mockOption" where
  "WithExternalDns option c = c\<lparr>gm_dnsOpts := option\<rparr>"

definition emptyMock :: "('o, 'c) grpcServiceMock" where
  "emptyMock = \<lparr>gm_dnsOpts = None, gm_contentWriterOpts = None, gm_browserControllerOpts = None, gm_Requests = noRequests,
     gm_registered = [], gm_ClientConn = None\<rparr>"

text \<open>The services that are not external are registered with the server of the mock.\<close>

definition registerServices :: "('o, 'c) grpcServiceMock \<Rightarrow> ('o, 'c) grpcServiceMock" where
  "registerServices m = m\<lparr>gm_registered := gm_registered m @
     (if gm_dnsOpts m = None then [MockDns] else []) @
     (if gm_contentWriterOpts m = None then [MockContentWriter] else []) @
     (if gm_browserControllerOpts m = None then [MockBrowserController] else [])\<rparr>"

text \<open>The options of a connection to the mock itself: its dialler and the statistics of the service.\<close>

definition mockOptions :: "'o \<Rightarrow> (string \<Rightarrow> 'o) \<Rightarrow> string \<Rightarrow> 'o connectionOptions" where
  "mockOptions dialOption statsHandler name = NewConnectionOptions name
     [WithConnectTimeout (60 * 10 ^ 9), WithDialOptions [dialOption, statsHandler name]]"

definition orMock :: "'o connectionOptions option \<Rightarrow> 'o connectionOptions \<Rightarrow> 'o connectionOptions" where
  "orMock ext own = (case ext of None \<Rightarrow> own | Some opts \<Rightarrow> opts)"

text \<open>A failed connection panics (\<open>None\<close>).\<close>

definition NewGrpcServiceMock ::
    "('o, 'c) grpcEnv \<Rightarrow> 'o \<Rightarrow> (string \<Rightarrow> 'o) \<Rightarrow> ('o, 'c) mockOption list \<Rightarrow> ('o, 'c) grpcServiceMock option" where
  "NewGrpcServiceMock G dialOption statsHandler opts =
     (let m = registerServices (foldl (\<lambda>m opt. opt m) emptyMock opts);
          cw = orMock (gm_contentWriterOpts m) (mockOptions dialOption statsHandler ''ContentWriter'');
          dns = orMock (gm_dnsOpts m) (mockOptions dialOption statsHandler ''DnsService'');
          bc = orMock (gm_browserControllerOpts m) (mockOptions dialOption statsHandler ''BrowserController'');
          m = m\<lparr>gm_contentWriterOpts := Some cw, gm_dnsOpts := Some dns, gm_browserControllerOpts := Some bc\<rparr>
      in case Connect G (NewConnections cw dns bc) of ((err, conn), _) \<Rightarrow>
           if err \<noteq> None then None else Some (m\<lparr>gm_ClientConn := Some conn\<rparr>))"

definition Clear :: "('o, 'c) grpcServiceMock \<Rightarrow> ('o, 'c) grpcServiceMock" where
  "Clear m = m\<lparr>gm_Requests := noRequests\<rparr>"

definition addBcRequest :: "doRequest \<Rightarrow> requests \<Rightarrow> requests" where
  "addBcRequest r s = s\<lparr>BrowserControllerRequests := BrowserControllerRequests s @ [r]\<rparr>"

definition addDnsRequest :: "resolveRequest \<Rightarrow> requests \<Rightarrow> requests" where
  "addDnsRequest r s = s\<lparr>DnsResolverRequests := DnsResolverRequests s @ [r]\<rparr>"

text \<open>
  A payload is logged with its first five bytes, \<open>Data[0:5]\<close>, which panics (\<open>None\<close>) when the slice has not the capacity for them. The
  capacity the protobuf library gives to the bytes it decodes is the argument.
\<close>

definition addCwRequest :: "(bytes \<Rightarrow> nat) \<Rightarrow> writeRequest \<Rightarrow> requests \<Rightarrow> requests option" where
  "addCwRequest capOf r s = (case r of
     ReqPayload n d \<Rightarrow> if capOf d < 5 then None else Some (s\<lparr>ContentWriterRequests := ContentWriterRequests s @ [r]\<rparr>)
   | _ \<Rightarrow> Some (s\<lparr>ContentWriterRequests := ContentWriterRequests s @ [r]\<rparr>))"

text \<open>An address is known by its raw text and that of its four byte form, if it has one.\<close>

record ipAddr =
  ip_raw :: string
  ip_To4 :: "string option"

record resolveReply =
  ry_Host :: string
  ry_Port :: int
  ry_TextualIp :: string
  ry_RawIp :: string

definition Resolve ::
    "(string \<Rightarrow> go_error + ipAddr list) \<Rightarrow> resolveRequest \<Rightarrow> requests \<Rightarrow> (resolveReply option \<times> go_error option) \<times> requests" where
  "Resolve lookupIP req s =
     (let s = addDnsRequest req s in
      case lookupIP (rr_Host req) of
        Inl err \<Rightarrow> ((None, Some err), s)
      | Inr ips \<Rightarrow>
         (case List.find (\<lambda>ip. ip_To4 ip \<noteq> None) ips of
            Some ip \<Rightarrow> ((Some \<lparr>ry_Host = rr_Host req, ry_Port = rr_Port req, ry_TextualIp = the (ip_To4 ip), ry_RawIp = ip_raw ip\<rparr>, None), s)
          | None \<Rightarrow> ((None, None), s)))"

text \<open>For a host that has only addresses of sixteen bytes the mock answers with neither a reply nor an error.\<close>

lemma Resolve_only_ipv6:
  "lookupIP (rr_Host req) = Inr ips \<Longrightarrow> \<forall>ip \<in> set ips. ip_To4 ip = None \<Longrightarrow> fst (Resolve lookupIP req s) = (None, None)"
proof -
  assume "\<forall>ip \<in> set ips. ip_To4 ip = None"
  then have "List.find (\<lambda>ip. ip_To4 ip \<noteq> None) ips = None" by (induction ips) auto
  then show "lookupIP (rr_Host req) = Inr ips \<Longrightarrow> fst (Resolve lookupIP req s) = (None, None)"
    by (simp add: Resolve_def Let_def)
qed

text \<open>Without external services the mock serves all three, and its clients reach it through its own dialler.\<close>

lemma NewGrpcServiceMock_own:
  assumes "NewGrpcServiceMock G dialOption statsHandler [] = Some m"
  shows "set (gm_registered m) = {MockDns, MockContentWriter, MockBrowserController}"
    "map_option co_dialOptions (gm_dnsOpts m) = Some [dialOption, statsHandler ''DnsService'']"
  using assms by (auto simp: NewGrpcServiceMock_def registerServices_def emptyMock_def orMock_def mockOptions_def
      NewConnectionOptions_def WithConnectTimeout_def WithDialOptions_def Let_def split: prod.splits if_splits)

section \<open>The secondary proxy (secondary_proxy.go)\<close>

definition squidRefused :: "http_response \<times> 'b \<Rightarrow> http_response \<times> 'b" where
  "squidRefused r = (case r of (resp, body) \<Rightarrow>
     (resp\<lparr>rs_Header := headerAdd (rs_Header resp) ''X-Squid-Error'' ''ERR_CONNECT_FAIL 111''\<rparr>, body))"

text \<open>The filter of the secondary proxy: \<open>filters.Fail\<close> gives the answer that replaces the one of a refused connection.\<close>

definition secondaryFilter :: "env \<Rightarrow> ('q, reader) nextFilter \<Rightarrow> ('q, reader) nextFilter" where
  "secondaryFilter E nxt req w = andThen (nxt req w) (\<lambda>(r, e) w.
     case (r, e) of
       (Some resp, Some err) \<Rightarrow>
         if rs_StatusCode (fst resp) = 502 \<and> contains (errText err) ''connection refused''
         then (case e_fail E StatusServiceUnavailable err of (resp, e) \<Rightarrow> Done (Some (squidRefused resp), e) w)
         else Done (r, e) w
     | _ \<Rightarrow> Done (r, e) w)"

text \<open>The regular expression \<open>Unable to round-trip .*: EOF\<close>, whose dot does not match a line break.\<close>

fun eofMatch :: "string \<Rightarrow> bool" where
  "eofMatch [] = False"
| "eofMatch (c # s) \<longleftrightarrow> hasPrefix (c # s) ''Unable to round-trip '' \<and>
     contains (takeWhile (\<lambda>d. d \<noteq> CHR 0x0A) (drop 21 (c # s))) '': EOF'' \<or> eofMatch s"

definition squidHeader :: "string \<Rightarrow> http_response \<times> 'b \<Rightarrow> http_response \<times> 'b" where
  "squidHeader v r = (case r of (resp, body) \<Rightarrow> (resp\<lparr>rs_Header := headerSet (rs_Header resp) ''X-Squid-Error'' v\<rparr>, body))"

text \<open>The error inside a refused connection; a failed type assertion panics (\<open>None\<close>).\<close>

fun refusedCause :: "go_error \<Rightarrow> go_error option" where
  "refusedCause (GetlanternError t (NetOpError op addr inner)) = Some inner"
| "refusedCause e = None"

text \<open>The answer of \<open>OnError\<close>, and the bytes it writes to the connection of the client.\<close>

definition secondaryOnError :: "env \<Rightarrow> go_error \<Rightarrow> ((http_response \<times> reader) option \<times> bytes) option" where
  "secondaryOnError E err =
     (let s = errText err in
      if contains s ''tls: handshake failure'' then
        Some (Some (squidHeader ''ERR_CONNECT_FAIL 111'' (fst (e_fail E 503 (ErrorString ''tls: handshake failure'')))), [])
      else if contains s ''connect: connection refused'' then
        map_option (\<lambda>inner. (Some (squidHeader ''ERR_CONNECT_FAIL 111'' (fst (e_fail E 503 inner))), [])) (refusedCause err)
      else if contains s ''first record does not look like a TLS handshake'' then Some (None, ''HTTP/'')
      else if eofMatch s then
        Some (Some (squidHeader ''ERR_ZERO_SIZE_OBJECT 0'' (fst (e_fail E 502 (ErrorString ''ERR_ZERO_SIZE_OBJECT 0'')))), [])
      else Some (Some (fst (e_fail E 555 err)), []))"

text \<open>\<open>badCertConn.Read\<close>: what was read, and what is written to the client, for the host of the server with the bad certificate.\<close>

record badCertConn =
  bd_readCount :: int
  bd_shouldReturnBadCert :: bool

definition badCertRead ::
    "string option \<Rightarrow> bytes \<times> go_error option \<Rightarrow> badCertConn \<Rightarrow> ((bytes \<times> go_error option) \<times> bytes) \<times> badCertConn" where
  "badCertRead badHost res conn =
     (let conn = conn\<lparr>bd_readCount := bd_readCount conn + 1\<rparr> in
      case badHost of
        None \<Rightarrow> ((res, []), conn)
      | Some host \<Rightarrow>
         (let conn = (if contains (fst res) host then conn\<lparr>bd_shouldReturnBadCert := True\<rparr> else conn)
          in ((res, if bd_shouldReturnBadCert conn \<and> bd_readCount conn = 2 then ''HTTP/'' else []), conn)))"

text \<open>
  The goroutine that accepts connections: all of them share the variable \<open>downstreamConn\<close>, which holds the last one. An \<open>Accept\<close> that
  fails leaves nil in it and ends the loop, which closes the listener. For every connection a goroutine is started (\<open>se_pending\<close>), which handles the
  connection that is in the variable when it runs (\<open>SpHandle\<close>); \<open>OnError\<close> writes to the connection in the variable. With nil in it both
  panic (\<open>None\<close>).
\<close>

datatype secondaryEvent = SpAccept "go_error + string" | SpHandle | SpError go_error

record secondaryState =
  se_downstream :: "string option"
  se_pending :: nat
  se_handled :: "string list"
  se_written :: "(string \<times> bytes) list"
  se_listenerClosed :: bool

definition secondaryStarted :: secondaryState where
  "secondaryStarted = \<lparr>se_downstream = None, se_pending = 0, se_handled = [], se_written = [], se_listenerClosed = False\<rparr>"

fun secondaryStep :: "env \<Rightarrow> secondaryEvent \<Rightarrow> secondaryState \<Rightarrow> secondaryState option" where
  "secondaryStep E (SpAccept (Inr co)) s = Some (if se_listenerClosed s then s
     else s\<lparr>se_downstream := Some co, se_pending := se_pending s + 1\<rparr>)"
| "secondaryStep E (SpAccept (Inl err)) s = Some (if se_listenerClosed s then s
     else s\<lparr>se_downstream := None, se_listenerClosed := True\<rparr>)"
| "secondaryStep E SpHandle s = (if se_pending s = 0 then Some s
     else map_option (\<lambda>d. s\<lparr>se_pending := se_pending s - 1, se_handled := se_handled s @ [d]\<rparr>) (se_downstream s))"
| "secondaryStep E (SpError err) s = (case secondaryOnError E err of
     None \<Rightarrow> None
   | Some (resp, out) \<Rightarrow> if out = [] then Some s
       else map_option (\<lambda>d. s\<lparr>se_written := se_written s @ [(d, out)]\<rparr>) (se_downstream s))"

fun secondaryRun :: "env \<Rightarrow> secondaryEvent list \<Rightarrow> secondaryState \<Rightarrow> secondaryState option" where
  "secondaryRun E [] s = Some s"
| "secondaryRun E (ev # evs) s = (case secondaryStep E ev s of None \<Rightarrow> None | Some s \<Rightarrow> secondaryRun E evs s)"

definition secondaryDial :: "dialEnv \<Rightarrow> string \<Rightarrow> string \<Rightarrow> netConn option \<times> go_error option" where
  "secondaryDial D network addr = (case de_dial D network addr (dialTimeout D) of
     None \<Rightarrow> (Some (DialedConn addr), None) | Some e \<Rightarrow> (None, Some e))"

text \<open>
  When a second connection is accepted before the goroutine of the first one runs, the second one is handled twice and the first one never; an answer
  for the first one goes to the second one, and a failed \<open>Accept\<close> makes the goroutine panic.
\<close>

lemma shared_connection:
  assumes "secondaryOnError E err = Some (None, ''HTTP/'')"
  shows "map_option se_handled (secondaryRun E [SpAccept (Inr a), SpAccept (Inr b), SpHandle, SpHandle] secondaryStarted) = Some [b, b]"
    "map_option se_written (secondaryRun E [SpAccept (Inr a), SpHandle, SpAccept (Inr b), SpError err] secondaryStarted) = Some [(b, ''HTTP/'')]"
    "secondaryRun E [SpAccept (Inr a), SpAccept (Inl e), SpHandle] secondaryStarted = None"
  using assms by (simp_all add: secondaryStarted_def)

section \<open>The two proxies together\<close>

lemma squid_canonical: "canonicalKey ''X-Squid-Error'' = ''X-Squid-Error''"
  by code_simp

text \<open>An answer of the secondary proxy with the header of a refused connection becomes error -2 of the proxy under test.\<close>

lemma secondary_refusal_reported:
  assumes "GetConnectError (w_data w) = None" "\<And>w. nxt req w = Done (Some (squidHeader ''ERR_CONNECT_FAIL 111'' r), None) w"
  shows "ErrorHandlerFilter_Apply E nxt req w =
    handleRequestError E (Some (newError ConnectFailed ''CONNECT_FAILED'' ''connect: connection refused'')) w"
proof -
  obtain resp body where r: "r = (resp, body)" by (cases r)
  have "headerGet (rs_Header (fst (squidHeader ''ERR_CONNECT_FAIL 111'' r))) ''X-Squid-Error'' = ''ERR_CONNECT_FAIL 111''"
    by (simp add: squidHeader_def r headerGet_Set)
  moreover have "handleSquidErrorString ''ERR_CONNECT_FAIL 111'' =
      Some (newError ConnectFailed ''CONNECT_FAILED'' ''connect: connection refused'')"
    by (simp add: handleSquidErrorString_def hasPrefix_def splitN2_def TcpSocketErrTxt_def)
  ultimately show ?thesis
    using assms by (simp add: ErrorHandlerFilter_Apply_def squidHeader_def r)
qed

lemma secondary_empty_reported:
  assumes "GetConnectError (w_data w) = None" "\<And>w. nxt req w = Done (Some (squidHeader ''ERR_ZERO_SIZE_OBJECT 0'' r), None) w"
  shows "ErrorHandlerFilter_Apply E nxt req w =
    handleRequestError E (Some (newError EmptyResponse ''EMPTY_RESPONSE'' ''Empty reply from server'')) w"
proof -
  obtain resp body where r: "r = (resp, body)" by (cases r)
  have "headerGet (rs_Header (fst (squidHeader ''ERR_ZERO_SIZE_OBJECT 0'' r))) ''X-Squid-Error'' = ''ERR_ZERO_SIZE_OBJECT 0''"
    by (simp add: squidHeader_def r headerGet_Set)
  moreover have "handleSquidErrorString ''ERR_ZERO_SIZE_OBJECT 0'' =
      Some (newError EmptyResponse ''EMPTY_RESPONSE'' ''Empty reply from server'')"
    by (simp add: handleSquidErrorString_def hasPrefix_def splitN2_def)
  ultimately show ?thesis
    using assms by (simp add: ErrorHandlerFilter_Apply_def squidHeader_def r)
qed

end
