(* ===== verification/Mock_Servers.thy ===== *)
theory Mock_Servers
  imports Test_Services
begin

text \<open>
  The handlers of the services of the test environment (\<open>testutil/servicemocks.go\<close>) with the log of the requests they keep: \<open>Write\<close> of the
  content writer around the steps of \<open>Service_Mock\<close>, and \<open>Do\<close> of the browser controller as a run over what its stream receives. The lemmas say
  that the shorter accounts of \<open>Service_Mock\<close>, on which the flow of a page rests, are what these loops do.
\<close>

section \<open>Write\<close>

text \<open>The loop ends with the stream, for which \<open>recvErr\<close> is the error of \<open>Recv\<close>, \<open>None\<close> for \<open>io.EOF\<close>.\<close>

fun cwMockServe :: "(bytes \<Rightarrow> nat) \<Rightarrow> go_error option \<Rightarrow> writeRequest list \<Rightarrow> cwMock \<Rightarrow> requests
    \<Rightarrow> ((go_error + writeReply) \<times> requests) option" where
  "cwMockServe capOf recvErr [] s q = Some (case recvErr of
     Some err \<Rightarrow> Inl err
   | None \<Rightarrow> if \<not> mk_gotMeta s \<and> \<not> mk_gotCancel s then Inl (ErrorString ''missing metadata'') else Inr (Some (mk_records s)), q)"
| "cwMockServe capOf recvErr (r # rs) s q = (case addCwRequest capOf r q of
     None \<Rightarrow> None
   | Some q \<Rightarrow> (case cwMockStep r s of
       None \<Rightarrow> None
     | Some (Inl e) \<Rightarrow> Some (Inl e, q)
     | Some (Inr s) \<Rightarrow> cwMockServe capOf recvErr rs s q))"

definition printable :: "(bytes \<Rightarrow> nat) \<Rightarrow> writeRequest \<Rightarrow> bool" where
  "printable capOf r \<longleftrightarrow> (case r of ReqPayload n d \<Rightarrow> 5 \<le> capOf d | _ \<Rightarrow> True)"

lemma addCwRequest_cases:
  "addCwRequest capOf r q = (if printable capOf r then Some (q\<lparr>ContentWriterRequests := ContentWriterRequests q @ [r]\<rparr>) else None)"
  by (cases r) (auto simp: addCwRequest_def printable_def)

text \<open>
  With payloads the log can print, the handler answers as \<open>cwMockRun\<close> says, and a stream it accepts is logged completely and in its order.
\<close>

lemma cwMockServe_run:
  assumes "\<forall>r \<in> set rs. printable capOf r"
  shows "map_option fst (cwMockServe capOf None rs s q) = cwMockRun rs s"
  using assms by (induction rs arbitrary: s q) (auto simp: addCwRequest_cases split: option.splits sum.splits)

lemma cwMockServe_keeps:
  assumes "cwMockServe capOf recvErr rs s q = Some (res, q')"
  shows "\<exists>before after. rs = before @ after \<and> q' = q\<lparr>ContentWriterRequests := ContentWriterRequests q @ before\<rparr> \<and>
    (\<forall>reply. res = Inr reply \<longrightarrow> after = [])"
  using assms
proof (induction rs arbitrary: s q)
  case Nil
  then show ?case by auto
next
  case (Cons r rs)
  let ?q = "q\<lparr>ContentWriterRequests := ContentWriterRequests q @ [r]\<rparr>"
  have p: "addCwRequest capOf r q = Some ?q" using Cons.prems by (auto simp: addCwRequest_cases split: if_splits)
  then obtain x where x: "cwMockStep r s = Some x" using Cons.prems by (auto split: option.splits)
  show ?case
  proof (cases x)
    case (Inl e)
    then show ?thesis using Cons.prems p x by (intro exI [of _ "[r]"] exI [of _ rs]) auto
  next
    case (Inr s')
    then have "cwMockServe capOf recvErr rs s' ?q = Some (res, q')" using Cons.prems p x by simp
    from Cons.IH [OF this] obtain a b where "rs = a @ b" "\<forall>reply. res = Inr reply \<longrightarrow> b = []"
      "q' = ?q\<lparr>ContentWriterRequests := ContentWriterRequests ?q @ a\<rparr>" by blast
    then show ?thesis by (intro exI [of _ "r # a"] exI [of _ b]) simp
  qed
qed

lemma cwMockServe_log:
  assumes "cwMockServe capOf recvErr rs s q = Some (Inr reply, q')"
  shows "q' = q\<lparr>ContentWriterRequests := ContentWriterRequests q @ rs\<rparr>"
  using cwMockServe_keeps [OF assms] by auto

text \<open>A payload whose bytes came without the capacity for five of them ends the process.\<close>

lemma short_payload_panics:
  "capOf d < 5 \<Longrightarrow> cwMockServe capOf recvErr (ReqPayload n d # rs) s q = None"
  by (simp add: addCwRequest_def)

section \<open>Do\<close>

text \<open>
  What happens to the handler of one stream: a request or the end of the stream (\<open>BcEnd None\<close> is \<open>io.EOF\<close>), the goroutine of a delayed cancel that has slept,
  and the end of the context of the stream. A reply sent after the handler has returned is lost. \<open>bm_DoneBC\<close> says whether the
  channel of the mock is set, \<open>bm_signals\<close> how often its goroutine sent.
\<close>

datatype bcMockEvent = BcRecv doRequest | BcEnd "go_error option" | BcDelayed | BcContextDone

record bcMock =
  bm_sent :: "doReply list"
  bm_delayed :: nat
  bm_watching :: bool
  bm_DoneBC :: bool
  bm_signals :: nat
  bm_Requests :: requests
  bm_returned :: "go_error option option"

definition newBcMock :: bcMock where
  "newBcMock = \<lparr>bm_sent = [], bm_delayed = 0, bm_watching = False, bm_DoneBC = False, bm_signals = 0, bm_Requests = noRequests,
     bm_returned = None\<rparr>"

definition bcMockSend :: "doReply \<Rightarrow> bcMock \<Rightarrow> bcMock" where
  "bcMockSend reply s = (if bm_returned s = None then s\<lparr>bm_sent := bm_sent s @ [reply]\<rparr> else s)"

definition bcMockWatch :: "bcMock \<Rightarrow> bcMock" where
  "bcMockWatch s = (if bm_DoneBC s then s else s\<lparr>bm_DoneBC := True, bm_watching := True\<rparr>)"

definition bcMockNew :: "string \<Rightarrow> bcMock \<Rightarrow> bcMock" where
  "bcMockNew uri s =
     (if hasSuffix uri ''blocked'' then bcMockSend (ReplyCancel ''Blocked by robots.txt'') s
      else if hasSuffix uri ''bccerr'' then s\<lparr>bm_returned := Some (Some (ErrorString ''browser controller error''))\<rparr>
      else let s = bcMockSend (ReplyNew (mockNewReply uri)) s in
        if hasSuffix uri ''cancel'' then s\<lparr>bm_delayed := Suc (bm_delayed s)\<rparr> else s)"

fun bcMockStep :: "bcMockEvent \<Rightarrow> bcMock \<Rightarrow> bcMock" where
  "bcMockStep (BcRecv r) s = (if bm_returned s \<noteq> None then s else
     let s = bcMockWatch s; s = s\<lparr>bm_Requests := addBcRequest r (bm_Requests s)\<rparr> in
     case r of DoNew v \<Rightarrow> bcMockNew (rn_Uri v) s | DoNotify a \<Rightarrow> s | DoCompleted cl found \<Rightarrow> s)"
| "bcMockStep (BcEnd err) s = (if bm_returned s \<noteq> None then s else s\<lparr>bm_returned := Some err\<rparr>)"
| "bcMockStep BcDelayed s = (if bm_delayed s = 0 then s
     else bcMockSend (ReplyCancel ''Cancelled by browser controller'') (s\<lparr>bm_delayed := bm_delayed s - 1\<rparr>))"
| "bcMockStep BcContextDone s = (if bm_watching s
     then s\<lparr>bm_watching := False, bm_DoneBC := False, bm_signals := Suc (bm_signals s)\<rparr> else s)"

definition bcMockDo :: "bcMockEvent list \<Rightarrow> bcMock \<Rightarrow> bcMock" where
  "bcMockDo evs s = foldl (\<lambda>s ev. bcMockStep ev s) s evs"

lemma bcMockDo_simps [simp]:
  "bcMockDo [] s = s" "bcMockDo (ev # evs) s = bcMockDo evs (bcMockStep ev s)"
  "bcMockDo (evs @ evs') s = bcMockDo evs' (bcMockDo evs s)"
  by (simp_all add: bcMockDo_def)

text \<open>What the client of the stream receives.\<close>

definition bcClientView :: "bcMock \<Rightarrow> recvResult list" where
  "bcClientView s = map RecvReply (bm_sent s) @ (case bm_returned s of
     None \<Rightarrow> []
   | Some None \<Rightarrow> [RecvEOF]
   | Some (Some e) \<Rightarrow> [RecvError (''rpc error: code = Unknown desc = '' @ errText e)])"

fun isNew :: "doRequest \<Rightarrow> bool" where
  "isNew (DoNew v) = True"
| "isNew r = False"

lemma bcMockStep_returned:
  assumes "bm_returned s = Some e"
  shows "bm_returned (bcMockStep ev s) = Some e" "bm_sent (bcMockStep ev s) = bm_sent s"
proof -
  have "bm_returned (bcMockStep ev s) = Some e \<and> bm_sent (bcMockStep ev s) = bm_sent s"
    using assms by (cases ev) (simp_all add: bcMockSend_def)
  then show "bm_returned (bcMockStep ev s) = Some e" "bm_sent (bcMockStep ev s) = bm_sent s" by simp_all
qed

lemma bcMockDo_returned:
  assumes "bm_returned s = Some e"
  shows "bcClientView (bcMockDo evs s) = bcClientView s"
  using assms
proof (induction evs arbitrary: s)
  case (Cons ev evs)
  note step = bcMockStep_returned [OF Cons.prems, of ev]
  have "bcClientView (bcMockDo evs (bcMockStep ev s)) = bcClientView (bcMockStep ev s)" by (rule Cons.IH [OF step(1)])
  then show ?case unfolding bcMockDo_simps(2) bcClientView_def step Cons.prems .
qed simp

lemma bcMockDo_others:
  assumes "\<forall>r \<in> set rs. \<not> isNew r"
  shows "bm_sent (bcMockDo (map BcRecv rs) s) = bm_sent s" "bm_returned (bcMockDo (map BcRecv rs) s) = bm_returned s"
    "bm_delayed (bcMockDo (map BcRecv rs) s) = bm_delayed s"
    "bm_returned s = None \<Longrightarrow> bm_Requests (bcMockDo (map BcRecv rs) s) =
       (bm_Requests s)\<lparr>BrowserControllerRequests := BrowserControllerRequests (bm_Requests s) @ rs\<rparr>"
proof -
  have step: "bm_sent (bcMockStep (BcRecv r) s) = bm_sent s" "bm_returned (bcMockStep (BcRecv r) s) = bm_returned s"
    "bm_delayed (bcMockStep (BcRecv r) s) = bm_delayed s"
    "bm_returned s = None \<Longrightarrow> bm_Requests (bcMockStep (BcRecv r) s) = addBcRequest r (bm_Requests s)"
    if "\<not> isNew r" for r s
    using that by (cases r; simp add: bcMockWatch_def Let_def)+
  show "bm_sent (bcMockDo (map BcRecv rs) s) = bm_sent s" "bm_returned (bcMockDo (map BcRecv rs) s) = bm_returned s"
    "bm_delayed (bcMockDo (map BcRecv rs) s) = bm_delayed s"
    using assms by (induction rs arbitrary: s) (simp_all add: step del: bcMockStep.simps)
  show "bm_returned s = None \<Longrightarrow> bm_Requests (bcMockDo (map BcRecv rs) s) =
       (bm_Requests s)\<lparr>BrowserControllerRequests := BrowserControllerRequests (bm_Requests s) @ rs\<rparr>"
    using assms by (induction rs arbitrary: s) (simp_all add: step addBcRequest_def del: bcMockStep.simps)
qed

lemma bcMockDo_served:
  assumes "\<forall>r \<in> set rs. \<not> isNew r" "bm_returned s = None \<or> bm_returned s = Some err"
  shows "bcClientView (bcMockDo (map BcRecv rs @ [BcEnd final] @ late) s) = map RecvReply (bm_sent s) @
    bcClientView (newBcMock\<lparr>bm_returned := Some (case bm_returned s of None \<Rightarrow> final | Some err \<Rightarrow> err)\<rparr>)"
proof -
  let ?t = "bcMockStep (BcEnd final) (bcMockDo (map BcRecv rs) s)"
  note o = bcMockDo_others [OF assms(1), of s]
  have "bm_returned ?t = Some (case bm_returned s of None \<Rightarrow> final | Some err \<Rightarrow> err)" "bm_sent ?t = bm_sent s"
    using o(1,2) assms(2) by auto
  moreover from this(1) have "bcClientView (bcMockDo late ?t) = bcClientView ?t" by (rule bcMockDo_returned)
  ultimately show ?thesis by (simp add: bcClientView_def newBcMock_def)
qed

lemma bcMockNew_view:
  fixes uri :: string and q :: requests
  defines "s \<equiv> bcMockNew uri (newBcMock\<lparr>bm_DoneBC := True, bm_watching := True, bm_Requests := q\<rparr>)"
  shows "hasSuffix uri ''blocked'' \<Longrightarrow> bm_returned s = None \<and> bm_sent s = [ReplyCancel ''Blocked by robots.txt''] \<and> bm_delayed s = 0"
    "\<not> hasSuffix uri ''blocked'' \<Longrightarrow> hasSuffix uri ''bccerr'' \<Longrightarrow>
       bm_returned s = Some (Some (ErrorString ''browser controller error'')) \<and> bm_sent s = [] \<and> bm_delayed s = 0"
    "\<not> hasSuffix uri ''blocked'' \<Longrightarrow> \<not> hasSuffix uri ''bccerr'' \<Longrightarrow>
       bm_returned s = None \<and> bm_sent s = [ReplyNew (mockNewReply uri)] \<and> bm_delayed s = (if hasSuffix uri ''cancel'' then 1 else 0)"
  by (simp_all add: s_def bcMockNew_def bcMockSend_def newBcMock_def Let_def)

text \<open>
  For a proxy that registers one request, then reports and notifies, and closes the stream, the handler is what \<open>bcMockReplies\<close> says, provided the
  goroutine of a cancel has slept before the stream is closed.
\<close>

lemma bcMockDo_replies:
  assumes "\<forall>r \<in> set rs. \<not> isNew r"
  shows "bcClientView (bcMockDo ([BcRecv (DoNew v), BcDelayed] @ map BcRecv rs @ [BcEnd None] @ late) newBcMock) = bcMockReplies (rn_Uri v)"
proof -
  let ?uri = "rn_Uri v"
  let ?n = "bcMockNew ?uri (newBcMock\<lparr>bm_DoneBC := True, bm_watching := True, bm_Requests := addBcRequest (DoNew v) noRequests\<rparr>)"
  let ?s = "bcMockStep BcDelayed ?n"
  have "bcMockDo [BcRecv (DoNew v), BcDelayed] newBcMock = ?s"
    by (simp add: newBcMock_def bcMockWatch_def Let_def del: bcMockStep.simps(3))
  then have run: "bcMockDo ([BcRecv (DoNew v), BcDelayed] @ map BcRecv rs @ [BcEnd None] @ late) newBcMock =
      bcMockDo (map BcRecv rs @ [BcEnd None] @ late) ?s" by (simp only: bcMockDo_simps(3))
  note view = bcMockNew_view [of ?uri "addBcRequest (DoNew v) noRequests"]
  note tail = bcMockDo_served [OF assms, of ?s _ None late]
  consider (blocked) "hasSuffix ?uri ''blocked''" | (failed) "\<not> hasSuffix ?uri ''blocked''" "hasSuffix ?uri ''bccerr''"
    | (answered) "\<not> hasSuffix ?uri ''blocked''" "\<not> hasSuffix ?uri ''bccerr''" by blast
  then show ?thesis
  proof cases
    case blocked
    then have "bm_returned ?s = None" "bm_sent ?s = [ReplyCancel ''Blocked by robots.txt'']" using view(1) by simp_all
    with tail blocked show ?thesis unfolding run by (simp add: bcMockReplies_def bcClientView_def newBcMock_def)
  next
    case failed
    then have "bm_returned ?s = Some (Some (ErrorString ''browser controller error''))" "bm_sent ?s = []" using view(2) by simp_all
    with tail failed show ?thesis unfolding run by (simp add: bcMockReplies_def bcClientView_def newBcMock_def)
  next
    case answered
    then have "bm_returned ?s = None" "bm_sent ?s = ReplyNew (mockNewReply ?uri) #
        (if hasSuffix ?uri ''cancel'' then [ReplyCancel ''Cancelled by browser controller''] else [])"
      using view(3) by (simp_all add: bcMockSend_def)
    with tail answered show ?thesis unfolding run by (simp add: bcMockReplies_def bcClientView_def newBcMock_def)
  qed
qed

text \<open>A cancel that comes after the end of the stream never reaches the proxy: then the page was fetched as any other.\<close>

lemma bcMockDo_late_cancel:
  assumes "\<forall>r \<in> set rs. \<not> isNew r" "hasSuffix (rn_Uri v) ''cancel''"
  shows "bcClientView (bcMockDo ([BcRecv (DoNew v)] @ map BcRecv rs @ [BcEnd None, BcDelayed] @ late) newBcMock) =
    [RecvReply (ReplyNew (mockNewReply (rn_Uri v))), RecvEOF]"
proof -
  have no: "\<not> hasSuffix (rn_Uri v) ''blocked''" "\<not> hasSuffix (rn_Uri v) ''bccerr''"
    using assms(2) by (cases "rev (rn_Uri v)"; auto simp: hasSuffix_def hasPrefix_def)+
  let ?s = "bcMockNew (rn_Uri v) (newBcMock\<lparr>bm_DoneBC := True, bm_watching := True, bm_Requests := addBcRequest (DoNew v) noRequests\<rparr>)"
  have "bcMockDo [BcRecv (DoNew v)] newBcMock = ?s" by (simp add: newBcMock_def bcMockWatch_def Let_def)
  then have "bcMockDo ([BcRecv (DoNew v)] @ rest) newBcMock = bcMockDo rest ?s" for rest by (simp only: bcMockDo_simps(3))
  from this [of "map BcRecv rs @ [BcEnd None] @ BcDelayed # late"]
  have run: "bcMockDo ([BcRecv (DoNew v)] @ map BcRecv rs @ [BcEnd None, BcDelayed] @ late) newBcMock =
      bcMockDo (map BcRecv rs @ [BcEnd None] @ BcDelayed # late) ?s" by simp
  note s = bcMockNew_view(3) [OF no, of "addBcRequest (DoNew v) noRequests"]
  show ?thesis unfolding run using bcMockDo_served [OF assms(1), of ?s _ None "BcDelayed # late"] s
    by (simp add: bcClientView_def newBcMock_def)
qed

text \<open>The channel of the mock is signalled at most once for each stream that set it, and is free again afterwards.\<close>

lemma bcMockDo_watch:
  assumes "bm_watching s \<longrightarrow> bm_DoneBC s"
  shows "bm_watching (bcMockDo evs s) \<longrightarrow> bm_DoneBC (bcMockDo evs s)"
  using assms
proof (induction evs arbitrary: s)
  case (Cons ev evs)
  have "bm_watching (bcMockStep ev s) \<longrightarrow> bm_DoneBC (bcMockStep ev s)"
  proof (cases ev)
    case (BcRecv r)
    then show ?thesis using Cons.prems
      by (cases r) (auto simp: bcMockWatch_def bcMockNew_def bcMockSend_def Let_def)
  qed (use Cons.prems in \<open>auto simp: bcMockSend_def\<close>)
  then show ?case using Cons.IH by simp
qed simp

end
