(* ===== verification/Session_Steps.thy ===== *)
theory Session_Steps
  imports Session_Accounting
begin

text \<open>
  A browser controller session statement by statement (\<open>context/browsercontroller_client.go\<close>). \<open>Browser_Controller\<close> runs each
  exported operation as one step; here any number of calls, the two goroutines of the session and the loss of the client
  interleave at every point where another goroutine can get in between: before the mutex is taken, between a check and a channel
  operation, and at each rendezvous on \<open>completeChan\<close>, \<open>done\<close> and \<open>msgChan\<close>. The state is what the goroutines share; what
  arrives from the controller and whether a send succeeds is left open in each step.
\<close>

section \<open>Goroutines and their positions\<close>

text \<open>\<open>NotifyFirst\<close> is the notification inside \<open>SendRequestError\<close>, which takes the mutex on its own.\<close>

datatype sessionCall = RegisterCall | NotifyCall activity | SaveCall | RequestErrorCall go_error
  | NotifyFirst go_error | ResponseErrorCall go_error | CompletedCall

datatype outcome = Ret "go_error option" | Crash

datatype callPc = Entering sessionCall | Locking sessionCall | Locked sessionCall | AwaitingReply sessionCall
  | Completing sessionCall completeMsg outcome | Unlocking sessionCall outcome | Ended outcome

text \<open>\<open>Reporting None\<close> is about to send \<open>rc.CrawlLog\<close> itself, to which the code has a pointer, not a copy.\<close>

datatype loopPc = InSelect | GotComplete completeMsg | LockForFinish | Finishing | Reporting "crawlLog option"
  | Draining | EndOfSession | UnlockAfterFinish | LoopEnded

datatype recvPc = InRecv | Offers "doReply option" bool | ClosingChan | RecvEnded
  | CancelArrived | CancelLogged | SendsComplete completeMsg

datatype holder = LoopHolds | CallHolds nat

record session =
  ss_loop :: loopPc
  ss_recv :: recvPc
  ss_calls :: "callPc list"
  ss_mutex :: "holder option"
  ss_complete :: "completeMsg option"
  ss_CrawlLog :: crawlLog
  ss_current :: bool
  ss_clientGone :: bool
  ss_bccDone :: bool
  ss_wire :: "doRequest list"
  ss_closedSess :: nat

text \<open>A new session with the calls that will be made on it.\<close>

definition newSession :: "crawlLog \<Rightarrow> sessionCall list \<Rightarrow> session" where
  "newSession log cs = \<lparr>ss_loop = InSelect, ss_recv = InRecv, ss_calls = map Entering cs, ss_mutex = None,
     ss_complete = None, ss_CrawlLog = log, ss_current = True, ss_clientGone = False, ss_bccDone = False,
     ss_wire = [], ss_closedSess = 0\<rparr>"

definition setCall :: "nat \<Rightarrow> callPc \<Rightarrow> session \<Rightarrow> session" where
  "setCall i pc s = s\<lparr>ss_calls := (ss_calls s)[i := pc]\<rparr>"

section \<open>The statements of a call\<close>

text \<open>\<open>SendRequestError\<close> looks at \<open>b.complete\<close> before it takes the mutex; no other call does.\<close>

fun enterCall :: "completeMsg option \<Rightarrow> sessionCall \<Rightarrow> callPc" where
  "enterCall complete (RequestErrorCall e) = (case complete of
     Some m \<Rightarrow> Ended (Ret (case cm_err m of Some ce \<Rightarrow> Some ce | None \<Rightarrow> Some e))
   | None \<Rightarrow> Locking (NotifyFirst e))"
| "enterCall complete c = Locking c"

fun afterUnlock :: "sessionCall \<Rightarrow> outcome \<Rightarrow> callPc" where
  "afterUnlock (NotifyFirst e) (Ret None) = Locking (RequestErrorCall e)"
| "afterUnlock (NotifyFirst e) (Ret (Some ne)) = Ended (Ret (WrapInternalError (Some ne) RuntimeException
     ''error notifying browser controller'' (errText ne)))"
| "afterUnlock c out = Ended out"

fun alreadyError :: "sessionCall \<Rightarrow> go_error option" where
  "alreadyError (RequestErrorCall e) = alreadyCompletedError"
| "alreadyError (ResponseErrorCall e) = alreadyCompletedError"
| "alreadyError c = Some AlreadyCompleted"

definition sendDo :: "go_error option \<Rightarrow> doRequest \<Rightarrow> session \<Rightarrow> session" where
  "sendDo err r s = (if err = None then s\<lparr>ss_wire := ss_wire s @ [r]\<rparr> else s)"

definition completing :: "(crawlLog \<Rightarrow> crawlLog) \<Rightarrow> go_error option \<Rightarrow> sessionCall \<Rightarrow> session \<Rightarrow> callPc \<times> session" where
  "completing f err c s =
     (let s = s\<lparr>ss_CrawlLog := f (ss_CrawlLog s)\<rparr>
      in (Completing c \<lparr>cm_cl = ss_CrawlLog s, cm_err = err\<rparr> (Ret err), s))"

text \<open>
  From the check of \<open>b.complete\<close> under the mutex to the next channel operation; \<open>err\<close> is the outcome of a send to the
  controller. The registration \<open>r\<close> is made from the context data, which are not in this state.
\<close>

fun underLock :: "go_error option \<Rightarrow> registerNew \<Rightarrow> sessionCall \<Rightarrow> session \<Rightarrow> callPc \<times> session" where
  "underLock err r c s =
     (if ss_complete s \<noteq> None then (Unlocking c (Ret (alreadyError c)), s)
      else (case c of
        RegisterCall \<Rightarrow> (AwaitingReply c, sendDo err (DoNew r) s)
      | NotifyCall act \<Rightarrow> (Unlocking c (Ret err), sendDo err (DoNotify act) s)
      | NotifyFirst e \<Rightarrow> (Unlocking c (Ret err), sendDo err (DoNotify ALL_DATA_RECEIVED) s)
      | SaveCall \<Rightarrow> completing id None c s
      | RequestErrorCall e \<Rightarrow> completing (requestErrorLog e) (Some e) c s
      | ResponseErrorCall e \<Rightarrow> completing (responseErrorLog e) (Some e) c s
      | CompletedCall \<Rightarrow> (Unlocking c (Ret None), s)))"

declare underLock.simps [simp del]

fun gotReply :: "doReply option \<times> bool \<Rightarrow> crawlLog \<Rightarrow> outcome \<times> crawlLog" where
  "gotReply (Some (ReplyCancel m), True) log = (Ret (Some robotsError), log)"
| "gotReply (Some (ReplyNew v), True) log =
     (if nr_CollectionRef v = None then (Crash, log)
      else (Ret None, log\<lparr>cl_JobExecutionId := nr_JobExecutionId v, cl_ExecutionId := nr_CrawlExecutionId v\<rparr>))"
| "gotReply (Some ReplyOther, True) log = (Ret None, log)"
| "gotReply (reply, ok) log = (Ret (Some browserClosedError), log)"

fun recvNext :: "recvResult \<Rightarrow> recvPc" where
  "recvNext (RecvReply (ReplyCancel m)) =
     (if contains m ''robots.txt'' then Offers (Some (ReplyCancel m)) False else CancelArrived)"
| "recvNext (RecvReply r) = Offers (Some r) False"
| "recvNext (RecvError txt) = Offers (Some (ReplyCancel (unknownBcError txt))) True"
| "recvNext ev = Offers None True"

definition offerTaken :: "bool \<Rightarrow> recvPc" where
  "offerTaken close = (if close then ClosingChan else InRecv)"

definition stamped :: "int \<Rightarrow> string \<Rightarrow> crawlLog \<Rightarrow> crawlLog" where
  "stamped ms ip cl = cl\<lparr>cl_FetchTimeMs := ms, cl_IpAddress := ip\<rparr>"

section \<open>The step relation\<close>

definition callAt :: "session \<Rightarrow> nat \<Rightarrow> callPc \<Rightarrow> bool" where
  "callAt s i pc \<longleftrightarrow> i < length (ss_calls s) \<and> ss_calls s ! i = pc"

inductive sessionStep :: "session \<Rightarrow> session \<Rightarrow> bool" where
  enter: "callAt s i (Entering c) \<Longrightarrow> c \<noteq> CompletedCall \<Longrightarrow>
    sessionStep s (setCall i (enterCall (ss_complete s) c) s)"
| lock: "callAt s i (Locking c) \<Longrightarrow> ss_mutex s = None \<Longrightarrow>
    sessionStep s (setCall i (Locked c) (s\<lparr>ss_mutex := Some (CallHolds i)\<rparr>))"
| critical: "callAt s i (Locked c) \<Longrightarrow> underLock err r c s = (pc, s') \<Longrightarrow> sessionStep s (setCall i pc s')"
| reply: "callAt s i (AwaitingReply c) \<Longrightarrow> ss_recv s = Offers r close \<Longrightarrow>
    gotReply (r, True) (ss_CrawlLog s) = (out, log) \<Longrightarrow>
    sessionStep s (setCall i (Unlocking c out) (s\<lparr>ss_recv := offerTaken close, ss_CrawlLog := log\<rparr>))"
| reply_closed: "callAt s i (AwaitingReply c) \<Longrightarrow> ss_recv s = RecvEnded \<Longrightarrow>
    gotReply (None, False) (ss_CrawlLog s) = (out, log) \<Longrightarrow>
    sessionStep s (setCall i (Unlocking c out) (s\<lparr>ss_CrawlLog := log\<rparr>))"
| complete: "callAt s i (Completing c m out) \<Longrightarrow> ss_loop s = InSelect \<Longrightarrow>
    sessionStep s (setCall i (Unlocking c out) (s\<lparr>ss_loop := GotComplete m\<rparr>))"
| unlock: "callAt s i (Unlocking c out) \<Longrightarrow>
    sessionStep s (setCall i (afterUnlock c out) (s\<lparr>ss_mutex := None\<rparr>))"
| hand_over: "callAt s i (Entering CompletedCall) \<Longrightarrow> ss_loop s = InSelect \<Longrightarrow>
    sessionStep s (setCall i (Ended (Ret None)) (s\<lparr>ss_loop := LockForFinish\<rparr>))"
| client_gone: "sessionStep s (s\<lparr>ss_clientGone := True\<rparr>)"
| keep_complete: "ss_loop s = GotComplete m \<Longrightarrow> sessionStep s (s\<lparr>ss_loop := InSelect,
    ss_complete := (case ss_complete s of None \<Rightarrow> Some m | Some m' \<Rightarrow> Some m')\<rparr>)"
| leave_select: "ss_loop s = InSelect \<Longrightarrow> ss_clientGone s \<Longrightarrow> sessionStep s (s\<lparr>ss_loop := LockForFinish\<rparr>)"
| lock_finish: "ss_loop s = LockForFinish \<Longrightarrow> ss_mutex s = None \<Longrightarrow>
    sessionStep s (s\<lparr>ss_loop := Finishing, ss_mutex := Some LoopHolds\<rparr>)"
| finish_skip: "ss_loop s = Finishing \<Longrightarrow> \<not> ss_current s \<Longrightarrow> sessionStep s (s\<lparr>ss_loop := UnlockAfterFinish\<rparr>)"
| finish_completed: "ss_loop s = Finishing \<Longrightarrow> ss_current s \<Longrightarrow> ss_complete s = Some m \<Longrightarrow>
    sessionStep s (s\<lparr>ss_loop := Reporting (Some (cm_cl m))\<rparr>)"
| finish_canceled: "ss_loop s = Finishing \<Longrightarrow> ss_current s \<Longrightarrow> ss_complete s = None \<Longrightarrow>
    sessionStep s (s\<lparr>ss_loop := Reporting None, ss_CrawlLog := canceledLog canceledByClient (ss_CrawlLog s)\<rparr>)"
| report: "ss_loop s = Reporting (Some cl) \<Longrightarrow>
    sessionStep s ((sendDo err (DoCompleted (stamped ms ip cl) cached) s)\<lparr>ss_loop := Draining\<rparr>)"
| report_log: "ss_loop s = Reporting None \<Longrightarrow> log = stamped ms ip (ss_CrawlLog s) \<Longrightarrow>
    sessionStep s ((sendDo err (DoCompleted log cached) s)\<lparr>ss_loop := Draining, ss_CrawlLog := log\<rparr>)"
| drain: "ss_loop s = Draining \<Longrightarrow> ss_recv s = Offers r close \<Longrightarrow> sessionStep s (s\<lparr>ss_recv := offerTaken close\<rparr>)"
| drained: "ss_loop s = Draining \<Longrightarrow> ss_recv s = RecvEnded \<Longrightarrow> sessionStep s (s\<lparr>ss_loop := EndOfSession\<rparr>)"
| end_session: "ss_loop s = EndOfSession \<Longrightarrow> sessionStep s (s\<lparr>ss_loop := UnlockAfterFinish, ss_current := False,
    ss_closedSess := ss_closedSess s + 1, ss_bccDone := True\<rparr>)"
| unlock_finish: "ss_loop s = UnlockAfterFinish \<Longrightarrow> sessionStep s (s\<lparr>ss_loop := LoopEnded, ss_mutex := None\<rparr>)"
| receive: "ss_recv s = InRecv \<Longrightarrow> sessionStep s (s\<lparr>ss_recv := recvNext ev\<rparr>)"
| close_chan: "ss_recv s = ClosingChan \<Longrightarrow> sessionStep s (s\<lparr>ss_recv := RecvEnded\<rparr>)"
| cancel_log: "ss_recv s = CancelArrived \<Longrightarrow> sessionStep s (s\<lparr>ss_recv := CancelLogged,
    ss_CrawlLog := canceledLog canceledByController (ss_CrawlLog s)\<rparr>)"
| cancel_copy: "ss_recv s = CancelLogged \<Longrightarrow> sessionStep s (s\<lparr>ss_recv :=
    SendsComplete \<lparr>cm_cl = ss_CrawlLog s, cm_err = Some canceledByController\<rparr>\<rparr>)"
| cancel_send: "ss_recv s = SendsComplete m \<Longrightarrow> ss_loop s = InSelect \<Longrightarrow>
    sessionStep s (s\<lparr>ss_recv := InRecv, ss_loop := GotComplete m\<rparr>)"

abbreviation sessionSteps :: "session \<Rightarrow> session \<Rightarrow> bool" where
  "sessionSteps \<equiv> sessionStep\<^sup>*\<^sup>*"

inductive_cases sessionStepE: "sessionStep s t"

section \<open>What the steps of a call touch\<close>

lemma setCall_simps [simp]:
  "ss_loop (setCall i pc s) = ss_loop s" "ss_recv (setCall i pc s) = ss_recv s" "ss_mutex (setCall i pc s) = ss_mutex s"
  "ss_complete (setCall i pc s) = ss_complete s" "ss_CrawlLog (setCall i pc s) = ss_CrawlLog s"
  "ss_current (setCall i pc s) = ss_current s" "ss_clientGone (setCall i pc s) = ss_clientGone s"
  "ss_bccDone (setCall i pc s) = ss_bccDone s" "ss_wire (setCall i pc s) = ss_wire s"
  "ss_closedSess (setCall i pc s) = ss_closedSess s" "ss_calls (setCall i pc s) = (ss_calls s)[i := pc]"
  by (simp_all add: setCall_def)

lemma sendDo_simps [simp]:
  "ss_loop (sendDo err r s) = ss_loop s" "ss_recv (sendDo err r s) = ss_recv s" "ss_mutex (sendDo err r s) = ss_mutex s"
  "ss_complete (sendDo err r s) = ss_complete s" "ss_CrawlLog (sendDo err r s) = ss_CrawlLog s"
  "ss_current (sendDo err r s) = ss_current s" "ss_clientGone (sendDo err r s) = ss_clientGone s"
  "ss_bccDone (sendDo err r s) = ss_bccDone s" "ss_calls (sendDo err r s) = ss_calls s"
  "ss_closedSess (sendDo err r s) = ss_closedSess s"
  "ss_wire (sendDo err r s) = (if err = None then ss_wire s @ [r] else ss_wire s)"
  by (simp_all add: sendDo_def)

definition inside :: "callPc \<Rightarrow> bool" where
  "inside pc \<longleftrightarrow> (case pc of Locked c \<Rightarrow> True | AwaitingReply c \<Rightarrow> True | Completing c m out \<Rightarrow> True
     | Unlocking c out \<Rightarrow> True | _ \<Rightarrow> False)"

definition finishes :: "loopPc \<Rightarrow> bool" where
  "finishes pc \<longleftrightarrow> (case pc of Finishing \<Rightarrow> True | Reporting cl \<Rightarrow> True | Draining \<Rightarrow> True | EndOfSession \<Rightarrow> True
     | UnlockAfterFinish \<Rightarrow> True | _ \<Rightarrow> False)"

lemma inside_simps [simp]:
  "\<not> inside (Entering c)" "\<not> inside (Locking c)" "inside (Locked c)" "inside (AwaitingReply c)" "inside (Completing c m out)"
  "inside (Unlocking c out)" "\<not> inside (Ended out)" "\<not> inside (enterCall complete c)" "\<not> inside (afterUnlock c out)"
  by (simp_all add: inside_def)
    (cases "(complete, c)" rule: enterCall.cases; simp split: option.split;
     cases "(c, out)" rule: afterUnlock.cases; simp)+

lemma finishes_simps [simp]:
  "\<not> finishes InSelect" "\<not> finishes (GotComplete m)" "\<not> finishes LockForFinish" "finishes Finishing" "finishes (Reporting cl)"
  "finishes Draining" "finishes EndOfSession" "finishes UnlockAfterFinish" "\<not> finishes LoopEnded"
  by (simp_all add: finishes_def)

lemma underLock_keeps:
  assumes "underLock err r c s = (pc, s')"
  shows "inside pc" "ss_calls s' = ss_calls s" "ss_loop s' = ss_loop s" "ss_recv s' = ss_recv s" "ss_mutex s' = ss_mutex s"
    "ss_complete s' = ss_complete s" "ss_current s' = ss_current s" "ss_clientGone s' = ss_clientGone s"
    "ss_bccDone s' = ss_bccDone s" "ss_closedSess s' = ss_closedSess s"
    "filter isCompleted (ss_wire s') = filter isCompleted (ss_wire s)"
  using assms by (cases c; auto simp: underLock.simps completing_def Let_def split: if_splits)+

section \<open>Mutual exclusion\<close>

definition lockOk :: "session \<Rightarrow> bool" where
  "lockOk s \<longleftrightarrow> (\<forall>i < length (ss_calls s). inside (ss_calls s ! i) \<longleftrightarrow> ss_mutex s = Some (CallHolds i)) \<and>
     (\<forall>i. ss_mutex s = Some (CallHolds i) \<longrightarrow> i < length (ss_calls s)) \<and>
     (finishes (ss_loop s) \<longleftrightarrow> ss_mutex s = Some LoopHolds)"

lemma newSession_lockOk: "lockOk (newSession log cs)"
  by (simp add: lockOk_def newSession_def)

lemma lockOk_call:
  assumes "lockOk s" "callAt s i pc" "inside pc"
  shows "ss_mutex s = Some (CallHolds i)" "\<not> finishes (ss_loop s)"
  using assms by (auto simp: lockOk_def callAt_def)

text \<open>A step of call \<open>i\<close> that stays inside or outside of the mutex, or a step of the other goroutines.\<close>

lemma lockOk_setCall:
  assumes "lockOk s" "callAt s i pc" "inside pc' \<longleftrightarrow> inside pc" "ss_calls s' = ss_calls s" "ss_mutex s' = ss_mutex s"
    "finishes (ss_loop s') \<longleftrightarrow> finishes (ss_loop s)"
  shows "lockOk (setCall i pc' s')"
  using assms by (auto simp: lockOk_def callAt_def nth_list_update)

lemma lockOk_other:
  assumes "lockOk s" "ss_calls s' = ss_calls s" "ss_mutex s' = ss_mutex s" "finishes (ss_loop s') \<longleftrightarrow> finishes (ss_loop s)"
  shows "lockOk s'"
  using assms by (simp add: lockOk_def)

lemma sessionStep_lockOk: "sessionStep s t \<Longrightarrow> lockOk s \<Longrightarrow> lockOk t"
proof (induction rule: sessionStep.induct)
  case (lock s i c)
  then show ?case by (auto simp: lockOk_def callAt_def nth_list_update)
next
  case (critical s i c err r pc s')
  show ?case
    by (rule lockOk_setCall [OF critical(3,1)]) (simp_all add: underLock_keeps [OF critical(2)])
next
  case (unlock s i c out)
  then show ?case by (auto simp: lockOk_def callAt_def nth_list_update)
next
  case (lock_finish s)
  then show ?case by (auto simp: lockOk_def)
next
  case (unlock_finish s)
  then show ?case by (auto simp: lockOk_def)
next
  case (enter s i c)
  show ?case by (rule lockOk_setCall [OF enter(3,1)]) simp_all
next
  case (reply s i c r close out log)
  show ?case by (rule lockOk_setCall [OF reply(4,1)]) simp_all
next
  case (reply_closed s i c out log)
  show ?case by (rule lockOk_setCall [OF reply_closed(4,1)]) simp_all
next
  case (complete s i c m out)
  show ?case by (rule lockOk_setCall [OF complete(3,1)]) (simp_all add: complete)
next
  case (hand_over s i)
  show ?case by (rule lockOk_setCall [OF hand_over(3,1)]) (simp_all add: hand_over)
qed (erule lockOk_other; simp)+

section \<open>One report, of the first completion\<close>

definition atEnd :: "loopPc \<Rightarrow> bool" where
  "atEnd pc \<longleftrightarrow> pc = UnlockAfterFinish \<or> pc = LoopEnded"

definition reported :: "loopPc \<Rightarrow> bool" where
  "reported pc \<longleftrightarrow> pc = Draining \<or> pc = EndOfSession \<or> atEnd pc"

lemma atEnd_simps [simp]:
  "\<not> atEnd InSelect" "\<not> atEnd (GotComplete m)" "\<not> atEnd LockForFinish" "\<not> atEnd Finishing" "\<not> atEnd (Reporting cl)"
  "\<not> atEnd Draining" "\<not> atEnd EndOfSession" "atEnd UnlockAfterFinish" "atEnd LoopEnded"
  by (simp_all add: atEnd_def)

lemma reported_simps [simp]:
  "\<not> reported InSelect" "\<not> reported (GotComplete m)" "\<not> reported LockForFinish" "\<not> reported Finishing"
  "\<not> reported (Reporting cl)" "reported Draining" "reported EndOfSession" "reported UnlockAfterFinish" "reported LoopEnded"
  by (simp_all add: reported_def)

text \<open>A report is the completion the session kept or, when there is none, that the client has gone.\<close>

definition reportOk :: "completeMsg option \<Rightarrow> doRequest \<Rightarrow> bool" where
  "reportOk complete r \<longleftrightarrow> (\<exists>ms ip cl cached. r = DoCompleted (stamped ms ip cl) cached \<and>
     (case complete of Some m \<Rightarrow> cl = cm_cl m | None \<Rightarrow> cl_StatusCode cl = int32 CanceledByBrowser))"

definition sessionOk :: "session \<Rightarrow> bool" where
  "sessionOk s \<longleftrightarrow> (ss_bccDone s \<longleftrightarrow> atEnd (ss_loop s)) \<and> (ss_current s \<longleftrightarrow> \<not> ss_bccDone s) \<and>
     ss_closedSess s = (if ss_bccDone s then 1 else 0) \<and>
     (\<not> reported (ss_loop s) \<longrightarrow> filter isCompleted (ss_wire s) = []) \<and>
     (filter isCompleted (ss_wire s) = [] \<or> (\<exists>r. filter isCompleted (ss_wire s) = [r] \<and> reportOk (ss_complete s) r)) \<and>
     (\<forall>cl. ss_loop s = Reporting (Some cl) \<longrightarrow> (\<exists>m. ss_complete s = Some m \<and> cl = cm_cl m)) \<and>
     (ss_loop s = Reporting None \<longrightarrow> ss_complete s = None \<and> cl_StatusCode (ss_CrawlLog s) = int32 CanceledByBrowser)"

lemma newSession_ok: "sessionOk (newSession log cs)"
  by (simp add: sessionOk_def newSession_def)

text \<open>Steps that leave the first goroutine where it is, and no report on the wire.\<close>

lemma sessionOk_keep:
  assumes "sessionOk s" "ss_loop t = ss_loop s" "ss_bccDone t = ss_bccDone s" "ss_current t = ss_current s"
    "ss_closedSess t = ss_closedSess s" "filter isCompleted (ss_wire t) = filter isCompleted (ss_wire s)"
    "ss_complete t = ss_complete s"
    "ss_CrawlLog t = ss_CrawlLog s \<or> \<not> finishes (ss_loop s) \<or> cl_StatusCode (ss_CrawlLog t) = int32 CanceledByBrowser"
  shows "sessionOk t"
proof -
  have "\<not> finishes (ss_loop s) \<longrightarrow> ss_loop s \<noteq> Reporting None" by auto
  with assms show ?thesis unfolding sessionOk_def by metis
qed

lemma sessionStep_ok: "sessionStep s t \<Longrightarrow> lockOk s \<Longrightarrow> sessionOk s \<Longrightarrow> sessionOk t"
proof (induction rule: sessionStep.induct)
  case (critical s i c err r pc s')
  have "\<not> finishes (ss_loop s)" using lockOk_call critical by fastforce
  then show ?case
    by (intro sessionOk_keep [OF critical(4)]) (simp_all add: underLock_keeps [OF critical(2)])
next
  case (reply s i c r close out log)
  have "\<not> finishes (ss_loop s)" using lockOk_call reply by fastforce
  then show ?case by (intro sessionOk_keep [OF reply(5)]) simp_all
next
  case (reply_closed s i c out log)
  have "\<not> finishes (ss_loop s)" using lockOk_call reply_closed by fastforce
  then show ?case by (intro sessionOk_keep [OF reply_closed(5)]) simp_all
next
  case (cancel_log s)
  then show ?case by (intro sessionOk_keep [OF cancel_log(3)]) (simp_all add: canceledLog_def)
next
  case (report s cl err ms ip cached)
  obtain m where "ss_complete s = Some m" "cl = cm_cl m" using report by (auto simp: sessionOk_def)
  then have "reportOk (ss_complete s) (DoCompleted (stamped ms ip cl) cached)" by (auto simp: reportOk_def)
  then show ?case using report by (simp add: sessionOk_def)
next
  case (report_log s log ms ip err cached)
  have "reportOk (ss_complete s) (DoCompleted log cached)"
    using report_log by (auto simp: reportOk_def sessionOk_def)
  then show ?case using report_log by (simp add: sessionOk_def)
next
  case (enter s i c) then show ?case by (intro sessionOk_keep [OF enter(4)]) simp_all
next
  case (lock s i c) then show ?case by (intro sessionOk_keep [OF lock(4)]) simp_all
next
  case (unlock s i c out) then show ?case by (intro sessionOk_keep [OF unlock(3)]) simp_all
next
  case (keep_complete s m) then show ?case by (simp add: sessionOk_def)
next
  case (finish_canceled s) then show ?case by (simp add: sessionOk_def canceledLog_def)
next
  case (finish_completed s m) then show ?case by (simp add: sessionOk_def)
next
  case (finish_skip s) then show ?case by (auto simp: sessionOk_def)
qed (simp add: sessionOk_def)+

text \<open>The completion a session keeps is never replaced, and none is accepted any more once the report is on its way.\<close>

definition leftSelect :: "loopPc \<Rightarrow> bool" where
  "leftSelect pc \<longleftrightarrow> (case pc of InSelect \<Rightarrow> False | GotComplete m \<Rightarrow> False | _ \<Rightarrow> True)"

lemma leftSelect_simps [simp]:
  "\<not> leftSelect InSelect" "\<not> leftSelect (GotComplete m)" "leftSelect LockForFinish" "leftSelect Finishing"
  "leftSelect (Reporting cl)" "leftSelect Draining" "leftSelect EndOfSession" "leftSelect UnlockAfterFinish" "leftSelect LoopEnded"
  by (simp_all add: leftSelect_def)

definition keepsCompletion :: "session \<Rightarrow> session \<Rightarrow> bool" where
  "keepsCompletion s t \<longleftrightarrow> (ss_complete s \<noteq> None \<or> leftSelect (ss_loop s) \<longrightarrow> ss_complete t = ss_complete s) \<and>
     (leftSelect (ss_loop s) \<longrightarrow> leftSelect (ss_loop t)) \<and> length (ss_calls t) = length (ss_calls s)"

lemma sessionStep_keepsCompletion: "sessionStep s t \<Longrightarrow> keepsCompletion s t"
  by (induction rule: sessionStep.induct) (auto simp: keepsCompletion_def underLock_keeps split: option.split)

lemma sessionSteps_keepsCompletion: "sessionSteps s t \<Longrightarrow> keepsCompletion s t"
proof (induction rule: rtranclp_induct)
  case (step t u)
  then show ?case using sessionStep_keepsCompletion [OF step(2)] by (auto simp: keepsCompletion_def)
qed (simp add: keepsCompletion_def)

interpretation sessionInv: step_invariant sessionStep "\<lambda>s. lockOk s \<and> sessionOk s"
  by unfold_locales (blast intro: sessionStep_lockOk sessionStep_ok)

lemma session_reachable: "sessionSteps (newSession log cs) s \<Longrightarrow> lockOk s \<and> sessionOk s"
  by (erule sessionInv.reachable) (simp_all add: newSession_lockOk newSession_ok)

end
