(* ===== verification/Session_Interleavings.thy ===== *)
theory Session_Interleavings
  imports Session_Steps
begin

text \<open>
  What the interleavings of \<open>Session_Steps\<close> promise: the session is reported and counted at most once in all of them, and exactly
  which states can no longer come to an end.
\<close>

section \<open>Sessions that can no longer end\<close>

text \<open>
  \<open>completeChan\<close> is read only in the \<open>select\<close>. Once the first goroutine has left it to finish the session, a goroutine that
  is about to send a completion waits for ever: a call that does so holds the mutex \<open>finish\<close> needs, and the receiving goroutine
  never closes the channel \<open>finish\<close> drains.
\<close>

definition completes :: "sessionCall \<Rightarrow> bool" where
  "completes c \<longleftrightarrow> (case c of SaveCall \<Rightarrow> True | RequestErrorCall e \<Rightarrow> True | ResponseErrorCall e \<Rightarrow> True | _ \<Rightarrow> False)"

definition sendsCompletion :: "completeMsg option \<Rightarrow> callPc \<Rightarrow> bool" where
  "sendsCompletion complete pc \<longleftrightarrow> (case pc of Completing c m out \<Rightarrow> True
     | Locked c \<Rightarrow> complete = None \<and> completes c | _ \<Rightarrow> False)"

definition recvCancels :: "recvPc \<Rightarrow> bool" where
  "recvCancels r \<longleftrightarrow> (case r of CancelArrived \<Rightarrow> True | CancelLogged \<Rightarrow> True | SendsComplete m \<Rightarrow> True | _ \<Rightarrow> False)"

definition onTheWay :: "loopPc \<Rightarrow> bool" where
  "onTheWay pc \<longleftrightarrow> (case pc of LockForFinish \<Rightarrow> True | Finishing \<Rightarrow> True | Reporting cl \<Rightarrow> True | Draining \<Rightarrow> True | _ \<Rightarrow> False)"

definition doomed :: "session \<Rightarrow> bool" where
  "doomed s \<longleftrightarrow> onTheWay (ss_loop s) \<and>
     (recvCancels (ss_recv s) \<or> (\<exists>pc \<in> set (ss_calls s). sendsCompletion (ss_complete s) pc))"

lemma sendsCompletion_simps [simp]:
  "sendsCompletion complete (Completing c m out)" "sendsCompletion complete (Locked c) \<longleftrightarrow> complete = None \<and> completes c"
  "\<not> sendsCompletion complete (Entering c)" "\<not> sendsCompletion complete (Locking c)"
  "\<not> sendsCompletion complete (AwaitingReply c)" "\<not> sendsCompletion complete (Unlocking c out)"
  "\<not> sendsCompletion complete (Ended out)"
  by (simp_all add: sendsCompletion_def)

lemma recvCancels_simps [simp]:
  "\<not> recvCancels InRecv" "\<not> recvCancels (Offers r close)" "\<not> recvCancels ClosingChan" "\<not> recvCancels RecvEnded"
  "recvCancels CancelArrived" "recvCancels CancelLogged" "recvCancels (SendsComplete m)"
  by (simp_all add: recvCancels_def)

lemma onTheWay_simps [simp]:
  "\<not> onTheWay InSelect" "\<not> onTheWay (GotComplete m)" "onTheWay LockForFinish" "onTheWay Finishing" "onTheWay (Reporting cl)"
  "onTheWay Draining" "\<not> onTheWay EndOfSession" "\<not> onTheWay UnlockAfterFinish" "\<not> onTheWay LoopEnded"
  by (simp_all add: onTheWay_def)

lemma sendsCompletion_inside: "sendsCompletion complete pc \<Longrightarrow> inside pc"
  by (cases pc) simp_all

lemma underLock_completes:
  "underLock err r c s = (pc, s') \<Longrightarrow> ss_complete s = None \<Longrightarrow> completes c \<Longrightarrow> sendsCompletion None pc"
  by (cases c) (auto simp: underLock.simps completing_def completes_def Let_def)

lemma doomed_recv:
  "sessionStep s t \<Longrightarrow> sessionOk s \<Longrightarrow> onTheWay (ss_loop s) \<Longrightarrow> recvCancels (ss_recv s) \<Longrightarrow>
     onTheWay (ss_loop t) \<and> recvCancels (ss_recv t)"
  by (induction rule: sessionStep.induct) (auto simp: underLock_keeps sessionOk_def)

text \<open>The call that is about to send holds the mutex, so the first goroutine waits for it.\<close>

lemma doomed_call:
  assumes "sessionStep s t" "lockOk s" "onTheWay (ss_loop s)" "callAt s i pc" "sendsCompletion (ss_complete s) pc"
  shows "onTheWay (ss_loop t) \<and> ss_complete t = ss_complete s \<and> callAt t i (ss_calls t ! i) \<and>
    sendsCompletion (ss_complete s) (ss_calls t ! i) \<and> (\<forall>c m out. pc = Completing c m out \<longrightarrow> ss_calls t ! i = pc)"
proof -
  have m: "ss_mutex s = Some (CallHolds i)" and nf: "\<not> finishes (ss_loop s)"
    using lockOk_call [OF assms(2,4) sendsCompletion_inside [OF assms(5)]] by blast+
  then have l: "ss_loop s = LockForFinish" using assms(3) by (cases "ss_loop s") simp_all
  have pc: "i < length (ss_calls s)" "ss_calls s ! i = pc" using assms(4) by (simp_all add: callAt_def)
  have other: "\<And>j pc'. callAt s j pc' \<Longrightarrow> \<not> sendsCompletion (ss_complete s) pc' \<Longrightarrow> j \<noteq> i"
    using assms(5) pc by (auto simp: callAt_def)
  from assms(1) show ?thesis
  proof cases
    case (critical j c err r pc' s')
    show ?thesis
    proof (cases "j = i")
      case True
      then have c: "pc = Locked c" using critical(2) pc by (simp add: callAt_def)
      then have "sendsCompletion (ss_complete s) pc'"
        using underLock_completes [OF critical(3)] assms(5) by simp
      then show ?thesis using True critical l pc c by (simp add: underLock_keeps [OF critical(3)] callAt_def)
    next
      case False
      then show ?thesis using critical l pc assms(5) by (auto simp: underLock_keeps [OF critical(3)] callAt_def)
    qed
  qed (insert l m pc assms(5), auto simp: callAt_def nth_list_update)
qed

lemma doomed_step:
  assumes "sessionStep s t" "lockOk s" "sessionOk s" "doomed s"
  shows "doomed t"
proof (cases "recvCancels (ss_recv s)")
  case True
  then show ?thesis using doomed_recv [OF assms(1,3)] assms(4) by (simp add: doomed_def)
next
  case False
  then obtain i where i: "callAt s i (ss_calls s ! i)" "sendsCompletion (ss_complete s) (ss_calls s ! i)"
    using assms(4) by (auto simp: doomed_def callAt_def in_set_conv_nth)
  have w: "onTheWay (ss_loop s)" using assms(4) by (simp add: doomed_def)
  have "ss_calls t ! i \<in> set (ss_calls t)"
    using doomed_call [OF assms(1,2) w i] by (simp add: callAt_def)
  then show ?thesis using doomed_call [OF assms(1,2) w i] unfolding doomed_def by auto
qed

interpretation doomedInv: step_invariant sessionStep "\<lambda>s. lockOk s \<and> sessionOk s \<and> doomed s"
proof
  fix s t
  assume a: "lockOk s \<and> sessionOk s \<and> doomed s" and b: "sessionStep s t"
  then show "lockOk t \<and> sessionOk t \<and> doomed t"
    using sessionInv.step_keeps [of s t] doomed_step [OF b] by simp
qed

lemma doomed_not_ended: "sessionOk s \<Longrightarrow> doomed s \<Longrightarrow> \<not> ss_bccDone s"
  by (cases "ss_loop s") (simp_all add: sessionOk_def doomed_def)

lemma doomed_never_ends: "lockOk s \<Longrightarrow> sessionOk s \<Longrightarrow> doomed s \<Longrightarrow> \<not> reaches sessionStep ss_bccDone s"
  using doomedInv.never_reaches doomed_not_ended by simp

section \<open>Sessions that can still end\<close>

lemmas goOn = reaches_step [where step = sessionStep]

text \<open>From a state in which \<open>finish\<close> has the mutex and the receiving goroutine can go on.\<close>

lemma draining_ends:
  assumes "ss_loop s = Draining" "\<not> recvCancels (ss_recv s)"
  shows "reaches sessionStep ss_bccDone s"
proof -
  have ended: "reaches sessionStep ss_bccDone s" if "ss_loop s = Draining" "ss_recv s = RecvEnded" for s
    by (rule goOn [OF sessionStep.drained [OF that]], rule goOn [OF sessionStep.end_session], simp)
      (rule reaches_now, simp)
  have closing: "reaches sessionStep ss_bccDone s" if "ss_loop s = Draining" "ss_recv s = ClosingChan" for s
    by (rule goOn [OF sessionStep.close_chan [OF that(2)]], rule ended) (simp_all add: that)
  have offer: "reaches sessionStep ss_bccDone s" if "ss_loop s = Draining" "ss_recv s = Offers r True" for s r
    by (rule goOn [OF sessionStep.drain [OF that]], rule closing) (simp_all add: that offerTaken_def)
  have inRecv: "reaches sessionStep ss_bccDone s" if "ss_loop s = Draining" "ss_recv s = InRecv" for s
    by (rule goOn [OF sessionStep.receive [OF that(2), of RecvEOF]], rule offer) (simp_all add: that)
  show ?thesis
  proof (cases "ss_recv s")
    case (Offers r close)
    show ?thesis
      by (cases close; rule goOn [OF sessionStep.drain [OF assms(1) Offers]])
        (simp_all add: closing inRecv assms offerTaken_def)
  qed (use assms ended closing inRecv in simp_all)
qed

lemma finishing_ends:
  assumes "finishes (ss_loop s)" "sessionOk s" "\<not> recvCancels (ss_recv s)"
  shows "reaches sessionStep ss_bccDone s"
proof -
  have rep: "reaches sessionStep ss_bccDone s" if l: "ss_loop s = Reporting src" and r: "\<not> recvCancels (ss_recv s)" for s src
  proof (cases src)
    case None
    show ?thesis
      by (rule goOn [OF sessionStep.report_log [OF _ refl]])
        (use l r None in \<open>auto intro: draining_ends\<close>)
  next
    case (Some cl)
    show ?thesis
      by (rule goOn [OF sessionStep.report]) (use l r Some in \<open>auto intro: draining_ends\<close>)
  qed
  show ?thesis
  proof (cases "ss_loop s")
    case Finishing
    then have cur: "ss_current s" using assms(2) by (simp add: sessionOk_def)
    show ?thesis
    proof (cases "ss_complete s")
      case None
      show ?thesis
        by (rule goOn [OF sessionStep.finish_canceled [OF Finishing cur None]], rule rep) (use assms in simp_all)
    next
      case (Some m)
      show ?thesis
        by (rule goOn [OF sessionStep.finish_completed [OF Finishing cur Some]], rule rep) (use assms in simp_all)
    qed
  next
    case EndOfSession
    show ?thesis by (rule goOn [OF sessionStep.end_session [OF EndOfSession]], rule reaches_now) simp
  next
    case UnlockAfterFinish
    then show ?thesis using assms(2) by (auto intro!: reaches_now simp: sessionOk_def)
  qed (use assms rep draining_ends in simp_all)
qed

text \<open>The call that holds the mutex can give it back.\<close>

definition released :: "loopPc \<Rightarrow> session \<Rightarrow> bool" where
  "released l s \<longleftrightarrow> ss_loop s = l \<and> ss_mutex s = None \<and> \<not> recvCancels (ss_recv s)"

lemma unlocking_releases:
  assumes "callAt s i (Unlocking c out)" "ss_loop s = l" "\<not> recvCancels (ss_recv s)"
  shows "reaches sessionStep (released l) s"
  by (rule goOn [OF sessionStep.unlock [OF assms(1)]], rule reaches_now) (simp add: released_def assms)

lemma callAt_setCall: "callAt s i pc \<Longrightarrow> ss_calls s' = ss_calls s \<Longrightarrow> callAt (setCall i pc' s') i pc'"
  by (simp add: callAt_def)

lemma awaiting_releases:
  assumes call: "callAt s i (AwaitingReply c)" and l: "ss_loop s = l" and r: "\<not> recvCancels (ss_recv s)"
  shows "reaches sessionStep (released l) s"
proof -
  have offer: "reaches sessionStep (released l) s"
    if "callAt s i (AwaitingReply c)" "ss_loop s = l" "ss_recv s = Offers m close" for s m close
  proof -
    obtain out log where g: "gotReply (m, True) (ss_CrawlLog s) = (out, log)" by (rule prod.exhaust)
    show ?thesis
      by (rule goOn [OF sessionStep.reply [OF that(1,3) g]], rule unlocking_releases [of _ i c out])
        (use that in \<open>auto simp: offerTaken_def intro: callAt_setCall\<close>)
  qed
  have ended: "reaches sessionStep (released l) s"
    if "callAt s i (AwaitingReply c)" "ss_loop s = l" "ss_recv s = RecvEnded" for s
    by (rule goOn [OF sessionStep.reply_closed [OF that(1,3) gotReply.simps(4)]], rule unlocking_releases)
      (use that in \<open>auto intro: callAt_setCall\<close>)
  show ?thesis
  proof (cases "ss_recv s")
    case InRecv
    show ?thesis
      by (rule goOn [OF sessionStep.receive [OF InRecv, of RecvEOF]], rule offer)
        (use call l in \<open>auto simp: callAt_def\<close>)
  next
    case ClosingChan
    show ?thesis
      by (rule goOn [OF sessionStep.close_chan [OF ClosingChan]], rule ended) (use call l in \<open>auto simp: callAt_def\<close>)
  qed (use assms offer ended in simp_all)
qed

lemma completing_releases:
  assumes "callAt s i (Completing c m out)" "ss_loop s = InSelect" "\<not> recvCancels (ss_recv s)"
  shows "reaches sessionStep (released InSelect) s"
proof -
  have keep: "reaches sessionStep (released InSelect) s"
    if "callAt s i (Unlocking c out)" "ss_loop s = GotComplete m" "\<not> recvCancels (ss_recv s)" for s
    by (rule goOn [OF sessionStep.keep_complete [OF that(2)]], rule unlocking_releases)
      (use that in \<open>auto simp: callAt_def\<close>)
  show ?thesis
    by (rule goOn [OF sessionStep.complete [OF assms(1,2)]], rule keep)
      (use assms in \<open>auto intro: callAt_setCall\<close>)
qed

lemma locked_releases:
  assumes call: "callAt s i (Locked c)" and l: "ss_loop s = l" "\<not> recvCancels (ss_recv s)"
    and safe: "l = InSelect \<or> \<not> sendsCompletion (ss_complete s) (Locked c)"
  shows "reaches sessionStep (released l) s"
proof -
  obtain pc s' r where u: "underLock None r c s = (pc, s')" by (metis prod.exhaust)
  define t where "t = setCall i pc s'"
  have t: "callAt t i pc" "ss_loop t = l" "\<not> recvCancels (ss_recv t)"
    unfolding t_def
    using callAt_setCall [OF call underLock_keeps(2) [OF u]] l by (simp_all add: underLock_keeps [OF u])
  have pc: "(\<exists>out. pc = Unlocking c out) \<or> pc = AwaitingReply c \<or> l = InSelect \<and> (\<exists>m out. pc = Completing c m out)"
    using u safe by (cases c) (auto simp: underLock.simps completing_def completes_def Let_def split: if_splits)
  have "reaches sessionStep (released l) t"
    using pc t by (auto intro: unlocking_releases awaiting_releases completing_releases)
  with sessionStep.critical [OF call u] show ?thesis unfolding t_def by (rule goOn)
qed

lemma holder_releases:
  assumes "lockOk s" "ss_mutex s = Some (CallHolds i)" "ss_loop s = l" "\<not> recvCancels (ss_recv s)"
    "l = InSelect \<or> (\<forall>pc \<in> set (ss_calls s). \<not> sendsCompletion (ss_complete s) pc)"
  shows "reaches sessionStep (released l) s"
proof -
  have i: "i < length (ss_calls s)" "inside (ss_calls s ! i)" using assms(1,2) by (auto simp: lockOk_def)
  then have call: "callAt s i (ss_calls s ! i)" by (simp add: callAt_def)
  have safe: "l = InSelect \<or> \<not> sendsCompletion (ss_complete s) (ss_calls s ! i)" using assms(5) i(1) by auto
  show ?thesis
  proof (cases "ss_calls s ! i")
    case (Locked c)
    show ?thesis by (rule locked_releases [of s i c]) (use call safe Locked assms in simp_all)
  next
    case (AwaitingReply c)
    then show ?thesis using awaiting_releases call assms by metis
  next
    case (Completing c m out)
    then show ?thesis using completing_releases [of s i c m out] call safe assms by simp
  next
    case (Unlocking c out)
    then show ?thesis using unlocking_releases call assms by metis
  qed (use i in simp_all)
qed

lemma mutex_releases:
  assumes "lockOk s" "\<not> finishes (ss_loop s)" "ss_loop s = l" "\<not> recvCancels (ss_recv s)"
    "l = InSelect \<or> (\<forall>pc \<in> set (ss_calls s). \<not> sendsCompletion (ss_complete s) pc)"
  shows "reaches sessionStep (released l) s"
proof (cases "ss_mutex s")
  case None
  then show ?thesis using assms by (intro reaches_now) (simp add: released_def)
next
  case (Some h)
  then show ?thesis using assms holder_releases by (cases h) (auto simp: lockOk_def)
qed

lemma released_ends:
  assumes "released l s" "l = InSelect \<or> l = LockForFinish" "lockOk s" "sessionOk s"
  shows "reaches sessionStep ss_bccDone s"
proof -
  have lock: "reaches sessionStep ss_bccDone s" if "released LockForFinish s" "lockOk s" "sessionOk s" for s
  proof -
    have st: "sessionStep s (s\<lparr>ss_loop := Finishing, ss_mutex := Some LoopHolds\<rparr>)"
      using that by (intro sessionStep.lock_finish) (simp_all add: released_def)
    show ?thesis
      by (rule goOn [OF st], rule finishing_ends) (use that sessionStep_ok [OF st] in \<open>simp_all add: released_def\<close>)
  qed
  have leave: "reaches sessionStep ss_bccDone s" if "released InSelect s" "ss_clientGone s" "lockOk s" "sessionOk s" for s
  proof -
    have st: "sessionStep s (s\<lparr>ss_loop := LockForFinish\<rparr>)"
      using that by (intro sessionStep.leave_select) (simp_all add: released_def)
    show ?thesis
      by (rule goOn [OF st], rule lock)
        (use that sessionStep_ok [OF st] sessionStep_lockOk [OF st] in \<open>simp_all add: released_def\<close>)
  qed
  show ?thesis
  proof (cases "l = InSelect")
    case True
    have st: "sessionStep s (s\<lparr>ss_clientGone := True\<rparr>)" by (rule sessionStep.client_gone)
    show ?thesis
      by (rule goOn [OF st], rule leave)
        (use True assms sessionStep_ok [OF st] sessionStep_lockOk [OF st] in \<open>simp_all add: released_def\<close>)
  qed (use assms lock in simp)
qed

lemma mutex_ends:
  assumes "lockOk s" "sessionOk s" "ss_loop s = InSelect \<or> ss_loop s = LockForFinish" "\<not> recvCancels (ss_recv s)"
    "ss_loop s = InSelect \<or> (\<forall>pc \<in> set (ss_calls s). \<not> sendsCompletion (ss_complete s) pc)"
  shows "reaches sessionStep ss_bccDone s"
proof (rule reaches_trans)
  show "reaches sessionStep (released (ss_loop s)) s" using assms by (intro mutex_releases) auto
  show "reaches sessionStep ss_bccDone t" if "sessionSteps s t" "released (ss_loop s) t" for t
    using released_ends [OF that(2) assms(3)] sessionInv.reachable [OF that(1)] assms(1,2) by simp
qed

text \<open>While the first goroutine is in its loop, it takes the completion the receiving goroutine sends.\<close>

definition atSelect :: "session \<Rightarrow> bool" where
  "atSelect s \<longleftrightarrow> ss_loop s = InSelect \<and> \<not> recvCancels (ss_recv s)"

lemma looping_atSelect:
  assumes "ss_loop s = InSelect \<or> (\<exists>m. ss_loop s = GotComplete m)"
  shows "reaches sessionStep atSelect s"
proof -
  have got: "reaches sessionStep atSelect s" if "ss_loop s = GotComplete m" "\<not> recvCancels (ss_recv s)" for s m
    by (rule goOn [OF sessionStep.keep_complete [OF that(1)]], rule reaches_now) (simp add: atSelect_def that)
  have send: "reaches sessionStep atSelect s" if "ss_loop s = InSelect" "ss_recv s = SendsComplete m" for s m
    by (rule goOn [OF sessionStep.cancel_send [OF that(2,1)]], rule got) simp_all
  have copy: "reaches sessionStep atSelect s" if "ss_loop s = InSelect" "ss_recv s = CancelLogged" for s
    by (rule goOn [OF sessionStep.cancel_copy [OF that(2)]], rule send) (simp_all add: that)
  have arrived: "reaches sessionStep atSelect s" if "ss_loop s = InSelect" "ss_recv s = CancelArrived" for s
    by (rule goOn [OF sessionStep.cancel_log [OF that(2)]], rule copy) (simp_all add: that)
  have select: "reaches sessionStep atSelect s" if "ss_loop s = InSelect" for s
    using that send copy arrived by (cases "ss_recv s") (auto intro: reaches_now simp: atSelect_def)
  have "reaches sessionStep atSelect s" if "ss_loop s = GotComplete m" for m
    by (rule goOn [OF sessionStep.keep_complete [OF that]], rule select) simp
  then show ?thesis using assms select by blast
qed

lemma not_doomed_ends:
  assumes "lockOk s" "sessionOk s" "\<not> doomed s"
  shows "reaches sessionStep ss_bccDone s"
proof -
  have looping: "reaches sessionStep ss_bccDone s" if "ss_loop s = InSelect \<or> (\<exists>m. ss_loop s = GotComplete m)"
  proof (rule reaches_trans [OF looping_atSelect [OF that]])
    show "reaches sessionStep ss_bccDone t" if "sessionSteps s t" "atSelect t" for t
      using that sessionInv.reachable [OF that(1)] assms(1,2) by (intro mutex_ends) (auto simp: atSelect_def)
  qed
  show ?thesis
  proof (cases "ss_loop s")
    case LockForFinish
    then show ?thesis using assms by (intro mutex_ends) (auto simp: doomed_def)
  next
    case LoopEnded
    then show ?thesis using assms by (auto intro!: reaches_now simp: sessionOk_def)
  next
    case EndOfSession
    show ?thesis by (rule goOn [OF sessionStep.end_session [OF EndOfSession]], rule reaches_now) simp
  next
    case UnlockAfterFinish
    then show ?thesis using assms by (auto intro!: reaches_now simp: sessionOk_def)
  qed (use assms looping in \<open>auto intro: finishing_ends simp: doomed_def\<close>)
qed

text \<open>A call that waits to send a completion after the first goroutine left its \<open>select\<close> waits for ever.\<close>

lemma completing_stuck:
  assumes "sessionSteps s t" "lockOk s" "callAt s i (Completing c m out)" "ss_loop s = LockForFinish"
  shows "lockOk t \<and> callAt t i (Completing c m out) \<and> ss_loop t = LockForFinish"
  using assms
proof (induction rule: rtranclp_induct)
  case (step t u)
  then have t: "lockOk t" "callAt t i (Completing c m out)" "ss_loop t = LockForFinish" by simp_all
  have u: "callAt u i (Completing c m out)" "onTheWay (ss_loop u)"
    using doomed_call [OF step(2) t(1) _ t(2)] t(3) by (simp_all add: callAt_def)
  have l: "lockOk u" using sessionStep_lockOk step(2) t(1) .
  have "ss_loop u = LockForFinish"
    using lockOk_call [OF l u(1)] u(2) by (cases "ss_loop u") simp_all
  with l u(1) show ?case by simp
qed simp

lemma save_waits:
  assumes "i < length cs" "cs ! i = SaveCall"
  shows "\<exists>s m out. sessionSteps (newSession log cs) s \<and> ss_clientGone s \<and> callAt s i (Completing SaveCall m out) \<and>
    ss_loop s = LockForFinish"
proof -
  let ?P = "\<lambda>s. ss_clientGone s \<and> (\<exists>m out. callAt s i (Completing SaveCall m out)) \<and> ss_loop s = LockForFinish"
  have leave: "reaches sessionStep ?P s" if "callAt s i (Completing SaveCall m out)" "ss_loop s = InSelect" "ss_clientGone s" for s m out
    by (rule goOn [OF sessionStep.leave_select [OF that(2,3)]], rule reaches_now) (use that in \<open>auto simp: callAt_def\<close>)
  have gone: "reaches sessionStep ?P s" if "callAt s i (Completing SaveCall m out)" "ss_loop s = InSelect" for s m out
    by (rule goOn [OF sessionStep.client_gone], rule leave) (use that in \<open>auto simp: callAt_def\<close>)
  have locked: "reaches sessionStep ?P s" if "callAt s i (Locked SaveCall)" "ss_loop s = InSelect" "ss_complete s = None" for s
  proof -
    note a = that
    obtain pc s' r where u: "underLock None r SaveCall s = (pc, s')" by (metis prod.exhaust)
    obtain m out where pc: "pc = Completing SaveCall m out"
      using u a(3) by (auto simp: underLock.simps completing_def Let_def)
    have "callAt (setCall i pc s') i pc" "ss_loop (setCall i pc s') = InSelect"
      using callAt_setCall [OF a(1) underLock_keeps(2) [OF u]] a(2) by (simp_all add: underLock_keeps [OF u])
    with sessionStep.critical [OF a(1) u] show ?thesis unfolding pc by (blast intro: goOn gone)
  qed
  have locking: "reaches sessionStep ?P s"
    if "callAt s i (Locking SaveCall)" "ss_loop s = InSelect" "ss_complete s = None" "ss_mutex s = None" for s
    by (rule goOn [OF sessionStep.lock [OF that(1,4)]], rule locked) (use that in \<open>auto intro: callAt_setCall\<close>)
  have "callAt (newSession log cs) i (Entering SaveCall)" using assms by (simp add: callAt_def newSession_def)
  from sessionStep.enter [OF this] have "reaches sessionStep ?P (newSession log cs)"
    by (rule goOn) (simp, rule locking, use assms in \<open>auto simp: callAt_def newSession_def\<close>)
  then show ?thesis unfolding reaches_def by blast
qed

section \<open>Properties\<close>

text \<open>
  C19: However calls, goroutines and the loss of the client are interleaved statement by statement: at most one goroutine is inside the
  mutex, a session reports at most one crawl log and is counted as closed at most once, and the report is the first completion
  the session took or, if it took none, that the client has gone.
\<close>

theorem session_interleavings_safe:
  assumes "sessionSteps (newSession log cs) s"
  shows "card {i. i < length cs \<and> inside (ss_calls s ! i)} + (if finishes (ss_loop s) then 1 else 0) \<le> 1 \<and>
    ss_closedSess s = (if ss_bccDone s then 1 else 0) \<and>
    (filter isCompleted (ss_wire s) = [] \<or>
      (\<exists>ms ip cl cached. filter isCompleted (ss_wire s) = [DoCompleted (stamped ms ip cl) cached] \<and>
        (case ss_complete s of Some m \<Rightarrow> cl = cm_cl m | None \<Rightarrow> cl_StatusCode cl = int32 CanceledByBrowser))) \<and>
    (\<forall>t. sessionSteps s t \<longrightarrow> (ss_complete s \<noteq> None \<or> filter isCompleted (ss_wire s) \<noteq> [] \<longrightarrow> ss_complete t = ss_complete s))"
proof -
  note ok = session_reachable [OF assms]
  have n: "length (ss_calls s) = length cs"
    using sessionSteps_keepsCompletion [OF assms] by (simp add: keepsCompletion_def newSession_def)
  let ?I = "{i. i < length cs \<and> inside (ss_calls s ! i)}"
  have eq: "?I = {i. ss_mutex s = Some (CallHolds i)}" using ok n by (auto simp: lockOk_def)
  have one: "card ?I + (if finishes (ss_loop s) then 1 else 0) \<le> 1"
  proof (cases "ss_mutex s")
    case (Some h)
    then show ?thesis using ok unfolding eq by (cases h) (simp_all add: lockOk_def)
  next
    case None
    then show ?thesis using ok unfolding eq by (simp add: lockOk_def)
  qed
  have kept: "ss_complete t = ss_complete s"
    if "sessionSteps s t" "ss_complete s \<noteq> None \<or> filter isCompleted (ss_wire s) \<noteq> []" for t
  proof -
    have "ss_complete s \<noteq> None \<or> leftSelect (ss_loop s)"
      using that(2) ok by (cases "ss_loop s") (auto simp: sessionOk_def)
    then show ?thesis using sessionSteps_keepsCompletion [OF that(1)] by (simp add: keepsCompletion_def)
  qed
  have report: "filter isCompleted (ss_wire s) = [] \<or>
      (\<exists>ms ip cl cached. filter isCompleted (ss_wire s) = [DoCompleted (stamped ms ip cl) cached] \<and>
        (case ss_complete s of Some m \<Rightarrow> cl = cm_cl m | None \<Rightarrow> cl_StatusCode cl = int32 CanceledByBrowser))"
    using ok by (auto simp: sessionOk_def reportOk_def)
  have closed: "ss_closedSess s = (if ss_bccDone s then 1 else 0)" using ok by (simp add: sessionOk_def)
  show ?thesis by (intro conjI allI impI) (fact one, fact closed, fact report, rule kept)
qed

text \<open>
  C20: A session can still be ended, released and counted as closed exactly if it is not the case that the first goroutine has left
  its \<open>select\<close> to finish the session while a call holds the mutex to send a completion, or the receiving goroutine has a cancel
  to send; then all of them wait for ever.
\<close>

theorem session_can_end_iff:
  assumes "sessionSteps (newSession log cs) s"
  shows "(\<exists>t. sessionSteps s t \<and> ss_bccDone t) \<longleftrightarrow> \<not> doomed s"
  using session_reachable [OF assms] doomed_never_ends not_doomed_ends unfolding reaches_def by blast

text \<open>
  C21: When the client goes away while \<open>SaveCrawlLog\<close> is about to send its completion, \<open>SaveCrawlLog\<close> holds the mutex that
  \<open>finish\<close> waits for, and \<open>finish\<close> is where the channel was read: neither ever returns and the session is never counted as closed.
\<close>

theorem save_against_client_loss:
  assumes "i < length cs" "cs ! i = SaveCall"
  shows "\<exists>s m out. sessionSteps (newSession log cs) s \<and> ss_clientGone s \<and> callAt s i (Completing SaveCall m out) \<and>
    (\<forall>t. sessionSteps s t \<longrightarrow> callAt t i (Completing SaveCall m out) \<and> ss_loop t = LockForFinish \<and> ss_closedSess t = 0)"
proof -
  obtain s m out where s: "sessionSteps (newSession log cs) s" "ss_clientGone s" "callAt s i (Completing SaveCall m out)"
      "ss_loop s = LockForFinish"
    using save_waits [OF assms] by blast
  have "callAt t i (Completing SaveCall m out) \<and> ss_loop t = LockForFinish \<and> ss_closedSess t = 0" if "sessionSteps s t" for t
  proof -
    have "callAt t i (Completing SaveCall m out) \<and> ss_loop t = LockForFinish"
      using completing_stuck [OF that _ s(3,4)] session_reachable [OF s(1)] by simp
    moreover have "sessionOk t" using session_reachable s(1) that by (meson rtranclp_trans)
    ultimately show ?thesis by (simp add: sessionOk_def)
  qed
  with s show ?thesis by blast
qed

theorem session_interleavings_safe_witness:
  "\<exists>s. sessionSteps (newSession emptyCrawlLog [SaveCall, NotifyCall DATA_RECEIVED]) s \<and> ss_closedSess s = 1 \<and>
     \<not> (inside (ss_calls s ! 0) \<and> inside (ss_calls s ! 1))"
proof -
  let ?cs = "[SaveCall, NotifyCall DATA_RECEIVED]"
  have "\<not> doomed (newSession emptyCrawlLog ?cs)" by (simp add: doomed_def newSession_def)
  then obtain s where s: "sessionSteps (newSession emptyCrawlLog ?cs) s" "ss_bccDone s"
    using not_doomed_ends newSession_lockOk newSession_ok unfolding reaches_def by blast
  note safe = session_interleavings_safe [OF s(1)]
  have fin: "finite {i. i < length ?cs \<and> inside (ss_calls s ! i)}" by simp
  have "\<not> {0, 1} \<subseteq> {i. i < length ?cs \<and> inside (ss_calls s ! i)}"
    using safe card_mono [OF fin, of "{0, 1}"] by auto
  then have "\<not> (inside (ss_calls s ! 0) \<and> inside (ss_calls s ! 1))" by auto
  moreover have "ss_closedSess s = 1" using safe s(2) by simp
  ultimately show ?thesis using s(1) by blast
qed

theorem session_can_end_iff_witness:
  "\<exists>t. sessionSteps (newSession emptyCrawlLog [SaveCall]) t \<and> ss_bccDone t"
  using session_can_end_iff [of emptyCrawlLog "[SaveCall]" "newSession emptyCrawlLog [SaveCall]"]
  by (simp add: doomed_def newSession_def)

theorem save_against_client_loss_witness:
  "\<exists>s. sessionSteps (newSession emptyCrawlLog [SaveCall]) s \<and> (\<forall>t. sessionSteps s t \<longrightarrow> ss_closedSess t = 0)"
  using save_against_client_loss [of 0 "[SaveCall]" emptyCrawlLog] by auto

end
