(* ===== verification/Session_Refinement.thy ===== *)
theory Session_Refinement
  imports Session_Interleavings Session_End
begin

text \<open>
  \<open>Browser_Controller\<close> runs each exported operation as one step. Here every such run is shown to be one of the interleavings of
  \<open>Session_Steps\<close>, also where the operation waits for ever or panics.
\<close>

section \<open>The two views of a session\<close>

fun recvMatch :: "recvState \<Rightarrow> recvPc \<Rightarrow> bool" where
  "recvMatch Receiving pc \<longleftrightarrow> pc = InRecv"
| "recvMatch (Offering r close) pc \<longleftrightarrow> pc = Offers r close"
| "recvMatch RecvReturned pc \<longleftrightarrow> pc = RecvEnded"
| "recvMatch RecvStuck pc \<longleftrightarrow> (\<exists>m. pc = SendsComplete m)"

fun loopMatch :: "loopState \<Rightarrow> loopPc \<Rightarrow> bool" where
  "loopMatch LoopSelect pc \<longleftrightarrow> pc = InSelect"
| "loopMatch LoopFinishing pc \<longleftrightarrow> onTheWay pc"
| "loopMatch LoopReturned pc \<longleftrightarrow> pc = LoopEnded"

definition matches :: "world \<Rightarrow> session \<Rightarrow> bool" where
  "matches w s \<longleftrightarrow> (\<exists>b. rc_bcc (w_rc w) = Some b \<and> recvMatch (b_recv b) (ss_recv s) \<and> loopMatch (b_loop b) (ss_loop s) \<and>
       (b_locked b \<longleftrightarrow> ss_mutex s \<noteq> None) \<and> ss_complete s = b_complete b \<and> ss_bccDone s = b_CtxDone b) \<and>
     ss_CrawlLog s = rc_CrawlLog (w_rc w) \<and> (ss_current s \<longleftrightarrow> GetRecordContext (w_data w) \<noteq> None) \<and>
     w_data w \<noteq> None \<and> ss_wire s = w_bcWire w"

lemma matches_cong:
  assumes "rc_bcc (w_rc w') = rc_bcc (w_rc w)" "rc_CrawlLog (w_rc w') = rc_CrawlLog (w_rc w)"
    "GetRecordContext (w_data w') = GetRecordContext (w_data w)" "w_data w' \<noteq> None \<longleftrightarrow> w_data w \<noteq> None" "w_bcWire w' = w_bcWire w"
  shows "matches w' s = matches w s"
  using assms by (simp add: matches_def)

lemma matchesE:
  assumes "matches w s"
  obtains b where "rc_bcc (w_rc w) = Some b" "recvMatch (b_recv b) (ss_recv s)" "loopMatch (b_loop b) (ss_loop s)"
    "b_locked b \<longleftrightarrow> ss_mutex s \<noteq> None" "ss_complete s = b_complete b" "ss_bccDone s = b_CtxDone b"
    "ss_CrawlLog s = rc_CrawlLog (w_rc w)" "ss_current s \<longleftrightarrow> GetRecordContext (w_data w) \<noteq> None" "w_data w \<noteq> None"
    "ss_wire s = w_bcWire w"
  using assms unfolding matches_def by blast

section \<open>The receiving goroutine\<close>

text \<open>
  \<open>goes s cs m w\<close>: from \<open>s\<close> a state is reached that matches \<open>w\<close>, with calls \<open>cs\<close> and mutex \<open>m\<close>; where the first
  goroutine has left its \<open>select\<close>, it stays where it is.
\<close>

definition goes :: "session \<Rightarrow> callPc list \<Rightarrow> holder option \<Rightarrow> world \<Rightarrow> bool" where
  "goes s cs m w \<longleftrightarrow> reaches sessionStep (\<lambda>t. matches w t \<and> ss_calls t = cs \<and> ss_mutex t = m \<and>
     (leftSelect (ss_loop s) \<longrightarrow> ss_loop t = ss_loop s)) s"

abbreviation follows :: "session \<Rightarrow> world \<Rightarrow> bool" where
  "follows s w \<equiv> goes s (ss_calls s) (ss_mutex s) w"

lemma goes_now: "matches w s \<Longrightarrow> ss_calls s = cs \<Longrightarrow> ss_mutex s = m \<Longrightarrow> goes s cs m w"
  unfolding goes_def by (rule reaches_now) simp

lemmas follows_now = goes_now [OF _ refl refl]

lemma goes_step:
  assumes "sessionStep s t" "leftSelect (ss_loop s) \<longrightarrow> ss_loop t = ss_loop s" "goes t cs m w"
  shows "goes s cs m w"
  using assms unfolding goes_def by (auto elim!: reaches_mono intro!: goOn [OF assms(1)])

lemma follows_step:
  assumes "sessionStep s t" "ss_calls t = ss_calls s" "ss_mutex t = ss_mutex s"
    "leftSelect (ss_loop s) \<longrightarrow> ss_loop t = ss_loop s" "follows t w"
  shows "follows s w"
  by (rule goes_step [OF assms(1,4)]) (use assms in simp)

lemma goes_trans:
  assumes "goes s cs m w" "\<And>t. matches w t \<Longrightarrow> ss_calls t = cs \<Longrightarrow> ss_mutex t = m \<Longrightarrow>
      (leftSelect (ss_loop s) \<longrightarrow> ss_loop t = ss_loop s) \<Longrightarrow> goes t cs' m' w'"
  shows "goes s cs' m' w'"
  using assms(1) unfolding goes_def
proof (rule reaches_trans)
  fix t
  assume t: "matches w t \<and> ss_calls t = cs \<and> ss_mutex t = m \<and> (leftSelect (ss_loop s) \<longrightarrow> ss_loop t = ss_loop s)"
  then have "goes t cs' m' w'" by (intro assms(2)) simp_all
  then show "reaches sessionStep (\<lambda>u. matches w' u \<and> ss_calls u = cs' \<and> ss_mutex u = m' \<and>
      (leftSelect (ss_loop s) \<longrightarrow> ss_loop u = ss_loop s)) t"
    unfolding goes_def by (rule reaches_mono) (use t in auto)
qed

lemma recv_offer:
  assumes "matches w s" "ss_recv s = InRecv" "recvNext ev = Offers r close"
  shows "follows s (offer r close w)"
proof (rule follows_step [OF sessionStep.receive [OF assms(2), of ev]])
  show "follows (s\<lparr>ss_recv := recvNext ev\<rparr>) (offer r close w)"
    using assms by (intro follows_now) (auto simp: matches_def offer_def updBcc_def)
qed simp_all

lemma recv_cancel:
  assumes "matches w s" "ss_recv s = InRecv" "recvNext ev = CancelArrived"
  shows "follows s (recvCancel E w)"
proof -
  from assms(1) obtain b where b: "rc_bcc (w_rc w) = Some b" "loopMatch (b_loop b) (ss_loop s)" by (rule matchesE)
  let ?w1 = "endState (CancelContentWriter E ''canceled by browser controller'' w)"
  have fr: "cwFrame w ?w1" by (rule CancelContentWriter_frame)
  let ?w2 = "updLog (canceledLog canceledByController) ?w1"
  let ?m = "\<lparr>cm_cl = rc_CrawlLog (w_rc ?w2), cm_err = Some canceledByController\<rparr>"
  let ?s1 = "s\<lparr>ss_recv := CancelLogged, ss_CrawlLog := canceledLog canceledByController (ss_CrawlLog s)\<rparr>"
  let ?s2 = "?s1\<lparr>ss_recv := SendsComplete \<lparr>cm_cl = ss_CrawlLog ?s1, cm_err = Some canceledByController\<rparr>\<rparr>"
  have m2: "ss_recv ?s2 = SendsComplete ?m" "matches ?w2 (?s2\<lparr>ss_recv := InRecv\<rparr>)" and bcc: "rc_bcc (w_rc ?w2) = Some b"
    using assms(1,2) b cwFrame_rc [OF fr] fr by (auto simp: matches_def cwFrame_def)
  have sent: "follows ?s2 (recvCancel E w)"
  proof (cases "b_loop b = LoopSelect")
    case True
    then have l: "ss_loop ?s2 = InSelect" using b by simp
    let ?s3 = "?s2\<lparr>ss_recv := InRecv, ss_loop := GotComplete ?m\<rparr>"
    let ?s4 = "?s3\<lparr>ss_loop := InSelect, ss_complete := (case ss_complete ?s3 of None \<Rightarrow> Some ?m | Some m' \<Rightarrow> Some m')\<rparr>"
    have "matches (recvCancel E w) ?s4"
      using m2 bcc True by (auto simp: matches_def recvCancel_def Let_def completeSend_def)
    then have "follows ?s4 (recvCancel E w)" by (rule follows_now)
    moreover have st: "sessionStep ?s3 ?s4" by (rule sessionStep.keep_complete) simp
    ultimately have "follows ?s3 (recvCancel E w)" by (intro follows_step [OF st]) simp_all
    then show ?thesis
      by (rule follows_step [OF sessionStep.cancel_send [OF m2(1) l], rotated 3]) (use l in simp_all)
  next
    case False
    then have "matches (recvCancel E w) ?s2"
      using m2 bcc by (auto simp: matches_def recvCancel_def Let_def completeSend_def updBcc_def)
    then show ?thesis by (rule follows_now)
  qed
  let ?s0 = "s\<lparr>ss_recv := CancelArrived\<rparr>"
  have st2: "sessionStep ?s1 ?s2" by (rule sessionStep.cancel_copy) simp
  have st1: "sessionStep ?s0 ?s1" using sessionStep.cancel_log [of ?s0] by simp
  have st0: "sessionStep s ?s0" using sessionStep.receive [OF assms(2), of ev] assms(3) by simp
  have "follows ?s1 (recvCancel E w)" by (rule follows_step [OF st2 _ _ _ sent]) simp_all
  then have "follows ?s0 (recvCancel E w)" by (intro follows_step [OF st1]) simp_all
  then show ?thesis by (intro follows_step [OF st0]) simp_all
qed

lemma recv_event:
  assumes "matches w s" "ss_recv s = InRecv"
  shows "follows s (recvEvent E ev w)"
proof -
  have err: "matches (setRcError e w) s" for e
    using assms(1) by (simp add: setRcError_def matches_def)
  show ?thesis
    by (cases "(E, ev, w)" rule: recvEvent.cases)
      (auto intro!: recv_offer [OF assms, of ev] recv_offer [OF err assms(2), of ev] recv_cancel [OF assms, of ev])
qed

section \<open>Receiving from \<open>msgChan\<close>\<close>

text \<open>What the world does when an offer is taken in one step takes a step more to close the channel.\<close>

lemma taken_follows:
  assumes "matches w (s\<lparr>ss_recv := if close then RecvEnded else InRecv\<rparr>)" "ss_recv s = offerTaken close"
  shows "follows s w"
proof (cases close)
  case True
  then have r: "ss_recv s = ClosingChan" using assms(2) by (simp add: offerTaken_def)
  show ?thesis
    by (rule goes_step [OF sessionStep.close_chan [OF r]]) (use assms True in \<open>simp_all add: goes_now\<close>)
next
  case False
  then have "s\<lparr>ss_recv := if close then RecvEnded else InRecv\<rparr> = s" using assms(2) by (simp add: offerTaken_def)
  then show ?thesis using assms(1) by (intro follows_now) simp
qed

lemma drain_follows:
  assumes "matches w s" "ss_loop s = Draining" "rc_bcc (w_rc w) = Some b"
  shows "follows s (setBcc (b\<lparr>b_recv := afterOffer (b_recv b)\<rparr>) w)"
proof (cases "b_recv b")
  case (Offering r close)
  then have r: "ss_recv s = Offers r close" using assms by (auto elim: matchesE)
  let ?t = "s\<lparr>ss_recv := offerTaken close\<rparr>"
  have "matches (setBcc (b\<lparr>b_recv := if close then RecvReturned else Receiving\<rparr>) w)
      (?t\<lparr>ss_recv := if close then RecvEnded else InRecv\<rparr>)"
    using assms by (auto simp: matches_def)
  then have "follows ?t (setBcc (b\<lparr>b_recv := if close then RecvReturned else Receiving\<rparr>) w)"
    by (rule taken_follows) simp
  then have "follows s (setBcc (b\<lparr>b_recv := if close then RecvReturned else Receiving\<rparr>) w)"
    by (intro follows_step [OF sessionStep.drain [OF assms(2) r]]) simp_all
  moreover have "afterOffer (Offering r close) = (if close then RecvReturned else Receiving)"
    by (simp add: Session_Frame.afterOffer_def)
  ultimately show ?thesis by (simp add: Offering)
qed (use assms in \<open>auto intro!: follows_now simp: matches_def\<close>)

lemma drainMsgs_follows:
  assumes "matches w s" "ss_loop s = Draining"
  shows "follows s (endState (drainMsgs E evs w))"
  using assms
proof (induction evs arbitrary: w s)
  case Nil
  from Nil(1) obtain b where b: "rc_bcc (w_rc w) = Some b" by (rule matchesE)
  have "endState (drainMsgs E [] w) = setBcc (b\<lparr>b_recv := afterOffer (b_recv b)\<rparr>) w"
    by (cases "afterOffer (b_recv b)") (simp_all add: drainMsgs_Some [OF b])
  then show ?case using drain_follows [OF Nil b] by simp
next
  case (Cons ev evs)
  from Cons(2) obtain b where b: "rc_bcc (w_rc w) = Some b" by (rule matchesE)
  let ?w1 = "setBcc (b\<lparr>b_recv := afterOffer (b_recv b)\<rparr>) w"
  note first = drain_follows [OF Cons(2,3) b]
  show ?case
  proof (cases "afterOffer (b_recv b) = Receiving")
    case True
    let ?w2 = "?w1\<lparr>w_bcIn := evs\<rparr>"
    have "goes t (ss_calls s) (ss_mutex s) (endState (drainMsgs E evs (recvEvent E ev ?w2)))"
      if t: "matches ?w1 t" "ss_calls t = ss_calls s" "ss_mutex t = ss_mutex s" "ss_loop t = Draining" for t
    proof -
      have "matches ?w2 t" using t(1) by (simp add: matches_def)
      moreover have "ss_recv t = InRecv" using t(1) True by (auto simp: matches_def)
      ultimately have "follows t (recvEvent E ev ?w2)" by (rule recv_event)
      then have "follows t (endState (drainMsgs E evs (recvEvent E ev ?w2)))"
        by (rule goes_trans) (use Cons.IH t in fastforce)
      then show ?thesis using t by simp
    qed
    then have "goes s (ss_calls s) (ss_mutex s) (endState (drainMsgs E evs (recvEvent E ev ?w2)))"
      by (intro goes_trans [OF first]) (use Cons(3) in simp)
    then show ?thesis by (simp add: drainMsgs_Some(4) [OF b True])
  next
    case False
    have "endState (drainMsgs E (ev # evs) w) = ?w1"
      using False by (cases "afterOffer (b_recv b)") (simp_all add: drainMsgs_Some [OF b])
    then show ?thesis using first by simp
  qed
qed

section \<open>Calls\<close>

text \<open>
  \<open>runsAs s i cont m r\<close>: the steps of call \<open>i\<close> from \<open>s\<close> have the outcome \<open>r\<close> of the operation: where it returns or panics,
  the call goes on with \<open>cont\<close> and the mutex is \<open>m\<close>.
\<close>

definition runsAs ::
    "session \<Rightarrow> nat \<Rightarrow> (outcome \<Rightarrow> callPc) \<Rightarrow> holder option \<Rightarrow> (go_error option, world) run \<Rightarrow> bool" where
  "runsAs s i cont m r \<longleftrightarrow> (case r of
     Done res w \<Rightarrow> goes s ((ss_calls s)[i := cont (Ret res)]) m w
   | Panics w \<Rightarrow> goes s ((ss_calls s)[i := cont Crash]) m w
   | Blocks w \<Rightarrow> (\<exists>pc m'. goes s ((ss_calls s)[i := pc]) m' w))"

lemma runsAs_goes:
  assumes "goes s ((ss_calls s)[i := pc]) m' w"
    "\<And>t. matches w t \<Longrightarrow> ss_calls t = (ss_calls s)[i := pc] \<Longrightarrow> ss_mutex t = m' \<Longrightarrow> runsAs t i cont m r"
  shows "runsAs s i cont m r"
proof -
  from assms(1) obtain t where t: "sessionSteps s t" "matches w t" "ss_calls t = (ss_calls s)[i := pc]" "ss_mutex t = m'"
      "leftSelect (ss_loop s) \<longrightarrow> ss_loop t = ss_loop s"
    unfolding goes_def reaches_def by blast
  have up: "goes s cs m v" if "goes t cs m v" for cs m v
  proof -
    from that obtain u where u: "sessionSteps t u" "matches v u" "ss_calls u = cs" "ss_mutex u = m"
        "leftSelect (ss_loop t) \<longrightarrow> ss_loop u = ss_loop t"
      unfolding goes_def reaches_def by blast
    have "sessionSteps s u" using t(1) u(1) by (rule rtranclp_trans)
    moreover have "leftSelect (ss_loop s) \<longrightarrow> ss_loop u = ss_loop s" using t(5) u(5) by auto
    ultimately show ?thesis using u unfolding goes_def reaches_def by blast
  qed
  have "(ss_calls t)[i := pc'] = (ss_calls s)[i := pc']" for pc' by (simp add: t(3))
  then show ?thesis using assms(2) [OF t(2,3,4)] up unfolding runsAs_def by (cases r) (simp_all, blast)
qed

lemma runsAs_step:
  assumes "sessionStep s t" "leftSelect (ss_loop s) \<longrightarrow> ss_loop t = ss_loop s" "ss_calls t = (ss_calls s)[i := pc]"
    "runsAs t i cont m r"
  shows "runsAs s i cont m r"
proof -
  have "(ss_calls t)[i := pc'] = (ss_calls s)[i := pc']" for pc' by (simp add: assms(3))
  then show ?thesis
    using assms(4) goes_step [OF assms(1,2)] unfolding runsAs_def by (cases r) (simp_all, blast)
qed

lemma callAt_id [simp]: "callAt s i pc \<Longrightarrow> (ss_calls s)[i := pc] = ss_calls s"
  by (auto simp: callAt_def)

lemma registerReply_gotReply:
  assumes "matches w s" "gotReply x (ss_CrawlLog s) = (out, log)"
  shows "case registerReply x w of Done res w' \<Rightarrow> out = Ret res \<and> matches w' (s\<lparr>ss_CrawlLog := log\<rparr>)
    | Panics w' \<Rightarrow> out = Crash \<and> matches w' (s\<lparr>ss_CrawlLog := log\<rparr>) | Blocks w' \<Rightarrow> False"
proof -
  obtain d where d: "w_data w = Some d" using assms(1) by (auto elim: matchesE)
  show ?thesis
  proof (cases "(x, w)" rule: registerReply.cases)
    case (1 m v)
    then show ?thesis using assms by (auto simp: matches_def)
  next
    case (2 v w')
    then show ?thesis using assms d
      by (auto simp: matches_def applyNewReply_def onData_def SetJobExecutionId_def SetCrawlExecutionId_def SetCollectionRef_def
          getter_defs split: if_splits)
  qed (use assms in \<open>auto simp: matches_def\<close>)
qed

lemma reply_runs:
  assumes "matches w (s\<lparr>ss_recv := if close then RecvEnded else InRecv\<rparr>)" "callAt s i (AwaitingReply c)" "ss_recv s = Offers r close"
  shows "runsAs s i (Unlocking c) (ss_mutex s) (registerReply (r, True) w)"
proof -
  obtain out log where g: "gotReply (r, True) (ss_CrawlLog s) = (out, log)" by (rule prod.exhaust)
  let ?t = "setCall i (Unlocking c out) (s\<lparr>ss_recv := offerTaken close, ss_CrawlLog := log\<rparr>)"
  have go: "goes s ((ss_calls s)[i := Unlocking c out]) (ss_mutex s) w'"
    if "matches w' (s\<lparr>ss_recv := if close then RecvEnded else InRecv, ss_CrawlLog := log\<rparr>)" for w'
  proof -
    have "matches w' (?t\<lparr>ss_recv := if close then RecvEnded else InRecv\<rparr>)" using that by (simp add: matches_def)
    then have "follows ?t w'" by (rule taken_follows) simp
    then show ?thesis by (intro goes_step [OF sessionStep.reply [OF assms(2,3) g]]) simp_all
  qed
  show ?thesis
    using registerReply_gotReply [OF assms(1), of "(r, True)" out log] g go
    by (cases "registerReply (r, True) w") (auto simp: runsAs_def)
qed

lemma stuck_runs:
  assumes "matches w s" "callAt s i pc"
  shows "runsAs s i cont m (Blocks w)"
proof -
  have "goes s ((ss_calls s)[i := pc]) (ss_mutex s) w" using assms by (simp add: follows_now)
  then show ?thesis unfolding runsAs_def by auto
qed

lemma taken_runs:
  assumes m: "matches w s" and call: "callAt s i (AwaitingReply c)" and b: "rc_bcc (w_rc w) = Some b"
    and taken: "takeMsg b = Some (x, st)"
  shows "runsAs s i (Unlocking c) (ss_mutex s) (registerReply x (setBcc (b\<lparr>b_recv := st\<rparr>) w))"
proof (cases "b_recv b")
  case (Offering r close)
  then have "ss_recv s = Offers r close" "x = (r, True)" "st = (if close then RecvReturned else Receiving)"
    using m b taken by (auto elim: matchesE)
  moreover from this have "matches (setBcc (b\<lparr>b_recv := st\<rparr>) w) (s\<lparr>ss_recv := if close then RecvEnded else InRecv\<rparr>)"
    using m b by (auto simp: matches_def)
  ultimately show ?thesis using reply_runs call by simp
next
  case RecvReturned
  then have r: "ss_recv s = RecvEnded" and x: "x = (None, False)" "st = RecvReturned"
    using m b taken by (auto elim: matchesE)
  have m': "matches (setBcc (b\<lparr>b_recv := st\<rparr>) w) (s\<lparr>ss_CrawlLog := ss_CrawlLog s\<rparr>)"
    using m b x RecvReturned by (auto simp: matches_def)
  have "goes s ((ss_calls s)[i := Unlocking c (Ret (Some browserClosedError))]) (ss_mutex s) (setBcc (b\<lparr>b_recv := st\<rparr>) w)"
    by (rule goes_step [OF sessionStep.reply_closed [OF call r gotReply.simps(4)]])
      (use m' in \<open>auto intro!: goes_now simp: matches_def\<close>)
  then show ?thesis by (simp add: runsAs_def x)
qed (use taken in simp_all)

lemma await_runs:
  assumes "matches w s" "callAt s i (AwaitingReply c)"
  shows "runsAs s i (Unlocking c) (ss_mutex s) (andThen (awaitMsg E evs w) registerReply)"
  using assms
proof (induction evs arbitrary: w s)
  case Nil
  from Nil(1) obtain b where b: "rc_bcc (w_rc w) = Some b" by (rule matchesE)
  show ?case
  proof (cases "takeMsg b")
    case None
    then have "awaitMsg E [] w = Blocks w"
      by (cases "b_recv b") (simp_all add: awaitMsg_Receiving [OF b] awaitMsg_RecvStuck [OF b])
    then show ?thesis using stuck_runs [OF Nil] by simp
  next
    case (Some xs)
    then show ?thesis using taken_runs [OF Nil b] by (cases xs) (simp add: awaitMsg_take [OF b])
  qed
next
  case (Cons ev evs)
  from Cons(2) obtain b where b: "rc_bcc (w_rc w) = Some b" "recvMatch (b_recv b) (ss_recv s)" by (rule matchesE)
  show ?case
  proof (cases "takeMsg b")
    case (Some xs)
    then show ?thesis using taken_runs [OF Cons(2,3) b(1)] by (cases xs) (simp add: awaitMsg_take [OF b(1)])
  next
    case None
    show ?thesis
    proof (cases "b_recv b = Receiving")
      case True
      let ?w = "w\<lparr>w_bcIn := evs\<rparr>"
      have "matches ?w s" "ss_recv s = InRecv" using Cons(2) b True by (simp_all add: matches_def)
      then have "goes s ((ss_calls s)[i := AwaitingReply c]) (ss_mutex s) (recvEvent E ev ?w)"
        using recv_event Cons(3) by simp
      then have "runsAs s i (Unlocking c) (ss_mutex s) (andThen (awaitMsg E evs (recvEvent E ev ?w)) registerReply)"
      proof (rule runsAs_goes)
        fix t
        assume t: "matches (recvEvent E ev ?w) t" "ss_calls t = (ss_calls s)[i := AwaitingReply c]" "ss_mutex t = ss_mutex s"
        then have "callAt t i (AwaitingReply c)" using Cons(3) by (simp add: callAt_def)
        then show "runsAs t i (Unlocking c) (ss_mutex s) (andThen (awaitMsg E evs (recvEvent E ev ?w)) registerReply)"
          using Cons.IH [OF t(1)] t(3) by simp
      qed
      then show ?thesis by (simp add: awaitMsg_Receiving(2) [OF b(1) True])
    next
      case False
      then have "awaitMsg E (ev # evs) w = Blocks w"
        using None by (cases "b_recv b") (simp_all add: awaitMsg_RecvStuck [OF b(1)])
      then show ?thesis using stuck_runs [OF Cons(2,3)] by simp
    qed
  qed
qed

section \<open>The mutex\<close>

lemma matches_setCall [simp]: "matches w (setCall i pc s) = matches w s"
  by (simp add: matches_def)

definition unlockRun :: "('a, world) run \<Rightarrow> ('a, world) run" where
  "unlockRun r = (case r of Done x w \<Rightarrow> Done x (updBcc (b_locked_update (\<lambda>_. False)) w)
     | Panics w \<Rightarrow> Panics (updBcc (b_locked_update (\<lambda>_. False)) w) | Blocks w \<Rightarrow> Blocks w)"

lemma unlock_goes:
  assumes "i < length (ss_calls s)" "goes s ((ss_calls s)[i := Unlocking c out]) m w"
  shows "goes s ((ss_calls s)[i := afterUnlock c out]) None (updBcc (b_locked_update (\<lambda>_. False)) w)"
proof (rule goes_trans [OF assms(2)])
  fix t
  assume t: "matches w t" "ss_calls t = (ss_calls s)[i := Unlocking c out]" "ss_mutex t = m"
  then have call: "callAt t i (Unlocking c out)" using assms(1) by (simp add: callAt_def)
  have "matches (updBcc (b_locked_update (\<lambda>_. False)) w) (t\<lparr>ss_mutex := None\<rparr>)"
    using t(1) by (auto simp: matches_def updBcc_def)
  then show "goes t ((ss_calls s)[i := afterUnlock c out]) None (updBcc (b_locked_update (\<lambda>_. False)) w)"
    by (intro goes_step [OF sessionStep.unlock [OF call]]) (auto intro!: goes_now simp: t(2))
qed

lemma unlock_runs:
  assumes "runsAs s i (Unlocking c) m r" "i < length (ss_calls s)"
  shows "runsAs s i (afterUnlock c) None (unlockRun r)"
  using assms(1) unlock_goes [OF assms(2)] by (cases r) (auto simp: runsAs_def unlockRun_def simp del: afterUnlock.simps)

lemma withLock_runs:
  assumes m: "matches w s" and call: "callAt s i (Locking c)"
    and body: "\<And>b w1 s1. matches w1 s1 \<Longrightarrow> ss_complete s1 = b_complete b \<Longrightarrow> callAt s1 i (Locked c) \<Longrightarrow>
      runsAs s1 i (Unlocking c) (ss_mutex s1) (f b w1)"
  shows "runsAs s i (afterUnlock c) None (withLock f w)"
proof -
  from m obtain b where b: "rc_bcc (w_rc w) = Some b" "b_locked b \<longleftrightarrow> ss_mutex s \<noteq> None" "ss_complete s = b_complete b"
    by (rule matchesE)
  show ?thesis
  proof (cases "b_locked b")
    case True
    then show ?thesis using stuck_runs [OF m call] b by (simp add: withLock_def)
  next
    case False
    let ?w = "updBcc (b_locked_update (\<lambda>_. True)) w"
    let ?s = "setCall i (Locked c) (s\<lparr>ss_mutex := Some (CallHolds i)\<rparr>)"
    have "matches ?w ?s" using m b by (auto simp: matches_def updBcc_def)
    moreover have at: "callAt ?s i (Locked c)" using call by (rule callAt_setCall) simp
    ultimately have "runsAs ?s i (Unlocking c) (ss_mutex ?s) (f b ?w)" using b by (intro body) simp_all
    then have "runsAs ?s i (afterUnlock c) None (unlockRun (f b ?w))"
      by (rule unlock_runs) (use at in \<open>simp add: callAt_def\<close>)
    moreover have "withLock f w = unlockRun (f b ?w)" using b False by (simp add: withLock_def unlockRun_def)
    moreover have "sessionStep s ?s" using sessionStep.lock call b False by simp
    ultimately show ?thesis by (intro runsAs_step [of s ?s]) simp_all
  qed
qed

section \<open>What a call does under the mutex\<close>

lemma critical_returns:
  assumes "callAt s i (Locked c)" "underLock err r c s = (Unlocking c (Ret res), s')" "matches w s'"
  shows "runsAs s i (Unlocking c) (ss_mutex s) (Done res w)"
proof -
  have "goes s ((ss_calls s)[i := Unlocking c (Ret res)]) (ss_mutex s) w"
    by (rule goes_step [OF sessionStep.critical [OF assms(1,2)]])
      (simp_all add: underLock_keeps [OF assms(2)] goes_now assms(3))
  then show ?thesis by (simp add: runsAs_def)
qed

lemma completed_returns:
  assumes "callAt s i (Locked c)" "ss_complete s \<noteq> None" "matches w s"
  shows "runsAs s i (Unlocking c) (ss_mutex s) (Done (alreadyError c) w)"
  by (rule critical_returns [OF assms(1) _ assms(3)]) (simp add: underLock.simps assms(2))

lemma bcSend_matches: "bcSend E r w = (err, w') \<Longrightarrow> matches w s \<Longrightarrow> matches w' (sendDo err r s)"
  by (auto simp: bcSend_def matches_def split: option.splits)

lemma notify_runs:
  assumes "matches w s" "ss_complete s = b_complete b" "callAt s i (Locked c)"
    "c = NotifyCall act \<or> (\<exists>e. c = NotifyFirst e) \<and> act = ALL_DATA_RECEIVED"
  shows "runsAs s i (Unlocking c) (ss_mutex s) (notifyLocked E act b w)"
proof (cases "ss_complete s")
  case (Some m)
  then show ?thesis using completed_returns [OF assms(3) _ assms(1)] assms(2,4) by (auto simp: notifyLocked_def)
next
  case None
  obtain err w' where snd: "bcSend E (DoNotify act) w = (err, w')" by (rule prod.exhaust)
  have "underLock err undefined c s = (Unlocking c (Ret err), sendDo err (DoNotify act) s)"
    using assms(4) None by (auto simp: underLock.simps)
  from critical_returns [OF assms(3) this bcSend_matches [OF snd assms(1)]] show ?thesis
    using None assms(2) by (simp add: notifyLocked_def snd)
qed

lemma completing_runs:
  assumes m: "matches w s" and call: "callAt s i (Completing c msg (Ret res))"
  shows "runsAs s i (Unlocking c) (ss_mutex s) (andThen (completeSend msg w) (\<lambda>_ w. Done res w))"
proof -
  from m obtain b where b: "rc_bcc (w_rc w) = Some b" "loopMatch (b_loop b) (ss_loop s)" by (rule matchesE)
  show ?thesis
  proof (cases "b_loop b = LoopSelect")
    case True
    then have l: "ss_loop s = InSelect" using b by simp
    let ?w = "setBcc (b\<lparr>b_complete := (case b_complete b of None \<Rightarrow> Some msg | Some m \<Rightarrow> Some m)\<rparr>) w"
    let ?s1 = "setCall i (Unlocking c (Ret res)) (s\<lparr>ss_loop := GotComplete msg\<rparr>)"
    let ?s2 = "?s1\<lparr>ss_loop := InSelect, ss_complete := (case ss_complete ?s1 of None \<Rightarrow> Some msg | Some m' \<Rightarrow> Some m')\<rparr>"
    have st1: "sessionStep s ?s1" by (rule sessionStep.complete [OF call l])
    have st2: "sessionStep ?s1 ?s2" by (rule sessionStep.keep_complete) simp
    have "matches ?w ?s2" using m b True by (auto simp: matches_def)
    then have "goes ?s2 (ss_calls ?s1) (ss_mutex s) ?w" by (rule goes_now) simp_all
    then have "goes ?s1 (ss_calls ?s1) (ss_mutex s) ?w" by (intro goes_step [OF st2]) simp_all
    then have "goes s (ss_calls ?s1) (ss_mutex s) ?w" by (intro goes_step [OF st1]) (simp_all add: l)
    then show ?thesis using b True by (simp add: runsAs_def completeSend_def)
  next
    case False
    then show ?thesis using stuck_runs [OF m call] b by (simp add: completeSend_def)
  qed
qed

lemma critical_completes:
  assumes m: "matches w s" and call: "callAt s i (Locked c)" and none: "ss_complete s = None"
    and u: "underLock None undefined c s = completing f res c s"
  shows "runsAs s i (Unlocking c) (ss_mutex s)
    (andThen (completeSend \<lparr>cm_cl = rc_CrawlLog (w_rc (updLog f w)), cm_err = res\<rparr> (updLog f w)) (\<lambda>_ w. Done res w))"
proof -
  let ?s = "s\<lparr>ss_CrawlLog := f (ss_CrawlLog s)\<rparr>"
  let ?msg = "\<lparr>cm_cl = rc_CrawlLog (w_rc (updLog f w)), cm_err = res\<rparr>"
  have log: "ss_CrawlLog s = rc_CrawlLog (w_rc w)" using m by (rule matchesE)
  have u': "underLock None undefined c s = (Completing c ?msg (Ret res), ?s)"
    using u log by (simp add: completing_def Let_def)
  let ?t = "setCall i (Completing c ?msg (Ret res)) ?s"
  have "matches (updLog f w) ?t" using m by (auto simp: matches_def)
  moreover have "callAt ?t i (Completing c ?msg (Ret res))" using call by (rule callAt_setCall) simp
  ultimately have "runsAs ?t i (Unlocking c) (ss_mutex ?t) (andThen (completeSend ?msg (updLog f w)) (\<lambda>_ w. Done res w))"
    by (rule completing_runs)
  then show ?thesis
    by (intro runsAs_step [OF sessionStep.critical [OF call u']]) simp_all
qed

lemma updLog_id: "updLog id w = w"
proof -
  have "rc_CrawlLog_update id r = r" for r :: recordContext by (cases r) simp
  then have "w_rc_update (rc_CrawlLog_update id) w = w_rc_update (\<lambda>r. r) w" by (intro world.fold_congs) simp_all
  then show ?thesis by (cases w) (simp add: updLog_def)
qed

lemma save_runs:
  assumes "matches w s" "ss_complete s = b_complete b" "callAt s i (Locked SaveCall)"
  shows "runsAs s i (Unlocking SaveCall) (ss_mutex s) (saveLocked b w)"
proof (cases "ss_complete s")
  case (Some m)
  then show ?thesis using completed_returns [OF assms(3) _ assms(1)] assms(2) by (simp add: saveLocked_def)
next
  case None
  then have "underLock None undefined SaveCall s = completing id None SaveCall s" by (simp add: underLock.simps)
  from critical_completes [OF assms(1,3) None this] show ?thesis
    using None assms(2) by (simp add: saveLocked_def updLog_id)
qed

lemma error_runs:
  assumes "matches w s" "ss_complete s = b_complete b" "callAt s i (Locked c)"
    "c = RequestErrorCall e \<and> f = requestErrorLog e \<or> c = ResponseErrorCall e \<and> f = responseErrorLog e"
  shows "runsAs s i (Unlocking c) (ss_mutex s) (sendErrorLocked f e b w)"
proof (cases "ss_complete s")
  case (Some m)
  then show ?thesis using completed_returns [OF assms(3) _ assms(1)] assms(2,4) by (auto simp: sendErrorLocked_def)
next
  case None
  then have "underLock None undefined c s = completing f (Some e) c s" using assms(4) by (auto simp: underLock.simps)
  from critical_completes [OF assms(1,3) None this] show ?thesis
    using None assms(2) by (simp add: sendErrorLocked_def Let_def)
qed

lemma register_runs:
  assumes "matches w s" "ss_complete s = b_complete b" "callAt s i (Locked RegisterCall)"
  shows "runsAs s i (Unlocking RegisterCall) (ss_mutex s) (registerLocked E b w)"
proof (cases "ss_complete s")
  case (Some m)
  then show ?thesis using completed_returns [OF assms(3) _ assms(1)] assms(2) by (simp add: registerLocked_def)
next
  case None
  obtain r where r: "newRequestMsg w = DoNew r" by (simp add: newRequestMsg_def)
  obtain err w' where snd: "bcSend E (DoNew r) w = (err, w')" by (rule prod.exhaust)
  have u: "underLock err r RegisterCall s = (AwaitingReply RegisterCall, sendDo err (DoNew r) s)"
    using None by (simp add: underLock.simps)
  let ?t = "setCall i (AwaitingReply RegisterCall) (sendDo err (DoNew r) s)"
  have "matches w' ?t" using bcSend_matches [OF snd assms(1)] by simp
  moreover have "callAt ?t i (AwaitingReply RegisterCall)" using assms(3) by (rule callAt_setCall) simp
  ultimately have "runsAs ?t i (Unlocking RegisterCall) (ss_mutex ?t) (andThen (awaitMsg E (w_bcIn w') w') registerReply)"
    by (rule await_runs)
  then have "runsAs s i (Unlocking RegisterCall) (ss_mutex s) (andThen (awaitMsg E (w_bcIn w') w') registerReply)"
    by (intro runsAs_step [OF sessionStep.critical [OF assms(3) u]]) simp_all
  then show ?thesis using None assms(2) by (simp add: registerLocked_def r snd)
qed

section \<open>The end of a session\<close>

text \<open>A state that matches \<open>w\<close> is reached without a step of a call.\<close>

definition comesTo :: "session \<Rightarrow> world \<Rightarrow> bool" where
  "comesTo s w \<longleftrightarrow> reaches sessionStep (\<lambda>t. matches w t \<and> ss_calls t = ss_calls s) s"

lemma comesTo_now: "matches w s \<Longrightarrow> comesTo s w"
  unfolding comesTo_def by (rule reaches_now) simp

lemma comesTo_step: "sessionStep s t \<Longrightarrow> ss_calls t = ss_calls s \<Longrightarrow> comesTo t w \<Longrightarrow> comesTo s w"
  unfolding comesTo_def by (erule goOn) simp

lemma comesTo_goes:
  assumes "goes s (ss_calls s) m w" "\<And>t. matches w t \<Longrightarrow> ss_calls t = ss_calls s \<Longrightarrow>
      (leftSelect (ss_loop s) \<longrightarrow> ss_loop t = ss_loop s) \<Longrightarrow> comesTo t w'"
  shows "comesTo s w'"
proof -
  from assms(1) obtain t where t: "sessionSteps s t" "matches w t" "ss_calls t = ss_calls s"
      "leftSelect (ss_loop s) \<longrightarrow> ss_loop t = ss_loop s"
    unfolding goes_def reaches_def by blast
  then have "comesTo t w'" using assms(2) by blast
  then show ?thesis using t(1,3) unfolding comesTo_def reaches_def by (auto intro: rtranclp_trans)
qed

lemma drainMsgs_Done:
  "drainMsgs E evs w = Done () w' \<Longrightarrow> \<exists>b. rc_bcc (w_rc w') = Some b \<and> b_recv b = RecvReturned"
proof (induction evs arbitrary: w)
  case Nil
  then obtain b where b: "rc_bcc (w_rc w) = Some b" by (cases "rc_bcc (w_rc w)") (auto simp: drainMsgs_None)
  show ?case using Nil by (cases "afterOffer (b_recv b)") (auto simp: drainMsgs_Some [OF b])
next
  case (Cons ev evs)
  then obtain b where b: "rc_bcc (w_rc w) = Some b" by (cases "rc_bcc (w_rc w)") (auto simp: drainMsgs_None)
  show ?case using Cons by (cases "afterOffer (b_recv b)") (auto simp: drainMsgs_Some [OF b])
qed

text \<open>What \<open>finish\<close> does after the report, in the world and in steps.\<close>

definition closeAndLeave :: "world \<Rightarrow> (unit, world) run" where
  "closeAndLeave w = andThen (onData (SetRecordContext None) w) (\<lambda>_ w. Done () (markClosed w))"

lemma finishBody_close:
  "finishBody E b w = (if GetRecordContext (w_data w) \<noteq> None then
     andThen (case b_complete b of
        Some m \<Rightarrow> saveCrawlLogUnlocked E (cm_cl m) w
      | None \<Rightarrow> saveCrawlLogUnlocked E (canceledLog canceledByClient (rc_CrawlLog (w_rc w)))
          (updLog (stampLog E (updLog (canceledLog canceledByClient) w)) (updLog (canceledLog canceledByClient) w)))
       (\<lambda>_. closeAndLeave)
     else Done () w)"
proof -
  have "closeAndLeave = (\<lambda>w. andThen (onData (SetRecordContext None) w) (\<lambda>_ w. Done () (markClosed w)))"
    by (rule ext) (simp add: closeAndLeave_def)
  then show ?thesis by (simp only: finishBody_eq)
qed

definition leaveLoop :: "world \<Rightarrow> world" where
  "leaveLoop w = updBcc (b_loop_update (\<lambda>_. LoopReturned)) (updBcc (b_locked_update (\<lambda>_. False)) w)"

lemma endState_finish:
  assumes "rc_bcc (w_rc w) = Some b" "\<not> b_locked b"
  defines "w1 \<equiv> updBcc (b_loop_update (\<lambda>_. LoopFinishing)) w"
  shows "endState (finish E w) = (case finishBody E (b\<lparr>b_loop := LoopFinishing\<rparr>) (updBcc (b_locked_update (\<lambda>_. True)) w1) of
     Done x v \<Rightarrow> leaveLoop v | Panics v \<Rightarrow> updBcc (b_locked_update (\<lambda>_. False)) v | Blocks v \<Rightarrow> v)"
  using assms by (simp add: finish_def withLock_def updBcc_def leaveLoop_def split: run.split)

lemma unlock_comesTo:
  assumes "matches v (s\<lparr>ss_loop := Draining\<rparr>)" "ss_loop s = UnlockAfterFinish"
  shows "comesTo s (leaveLoop v)"
  by (rule comesTo_step [OF sessionStep.unlock_finish [OF assms(2)]])
    (use assms(1) in \<open>auto intro!: comesTo_now simp: matches_def leaveLoop_def updBcc_def\<close>)

text \<open>From the state after the send of the report.\<close>

lemma drained_comesTo:
  assumes "matches w s" "ss_loop s = Draining" "GetRecordContext (w_data w) \<noteq> None"
    "rc_bcc (w_rc w) = Some b" "b_loop b = LoopFinishing"
  shows "comesTo s (case andThen (andThen (drainMsgs E evs w) (\<lambda>_ w. Done err w)) (\<lambda>_. closeAndLeave) of
     Done x v \<Rightarrow> leaveLoop v | Panics v \<Rightarrow> updBcc (b_locked_update (\<lambda>_. False)) v | Blocks v \<Rightarrow> v)"
proof -
  have at: "recvAt LoopFinishing (b_locked b) (b_recv b) (w_data w) w" using assms(4,5) by (simp add: recvAt_def)
  note follows = drainMsgs_follows [OF assms(1,2), of E evs]
  show ?thesis
  proof (rule drain_cases [OF at loopState.distinct(2), of evs E])
    fix w' s'
    assume d: "drainMsgs E evs w = Blocks w'"
    have "comesTo s w'" using follows unfolding d by (intro comesTo_goes [OF follows]) (auto intro: comesTo_now simp: d)
    then show ?thesis by (simp add: d)
  next
    fix w' s'
    assume d: "drainMsgs E evs w = Done () w'" and at': "recvAt LoopFinishing (b_locked b) s' (w_data w) w'"
    from at' have data: "w_data w' = w_data w" by (simp add: recvAt_def)
    obtain y where y: "w_data w' = Some y" using assms(1) data by (auto elim: matchesE)
    define d' where "d' = Some (AList.update KeyRCTX (RecordVal None) y)"
    have d': "onData (SetRecordContext None) w' = Done () (w'\<lparr>w_data := d'\<rparr>)" "GetRecordContext d' = None" "d' \<noteq> None"
      by (simp_all add: d'_def y onData_def SetRecordContext_def GetRecordContext_def)
    let ?v = "markClosed (w'\<lparr>w_data := d'\<rparr>)"
    have "comesTo s (leaveLoop ?v)"
    proof (rule comesTo_goes [OF follows])
      fix t
      assume "matches (endState (drainMsgs E evs w)) t" and "leftSelect (ss_loop s) \<longrightarrow> ss_loop t = ss_loop s"
      then have t: "matches w' t" "ss_loop t = Draining" using assms(2) by (simp_all add: d)
      obtain b' where b': "rc_bcc (w_rc w') = Some b'" "b_recv b' = RecvReturned" using drainMsgs_Done [OF d] by blast
      then have r: "ss_recv t = RecvEnded" using t(1) by (auto elim: matchesE)
      let ?t1 = "t\<lparr>ss_loop := EndOfSession\<rparr>"
      let ?t2 = "?t1\<lparr>ss_loop := UnlockAfterFinish, ss_current := False, ss_closedSess := ss_closedSess ?t1 + 1, ss_bccDone := True\<rparr>"
      have st1: "sessionStep t ?t1" by (rule sessionStep.drained [OF t(2) r])
      have st2: "sessionStep ?t1 ?t2" by (rule sessionStep.end_session) simp
      have "matches ?v (?t2\<lparr>ss_loop := Draining\<rparr>)"
        using t b' d'(2,3) by (auto simp: matches_def markClosed_def updBcc_def)
      then have "comesTo ?t2 (leaveLoop ?v)" by (rule unlock_comesTo) simp
      then have "comesTo ?t1 (leaveLoop ?v)" by (intro comesTo_step [OF st2]) simp_all
      then show "comesTo t (leaveLoop ?v)" by (intro comesTo_step [OF st1]) simp_all
    qed
    then show ?thesis by (simp add: d closeAndLeave_def d'(1))
  qed
qed

lemma sendDo_log:
  "(sendDo err r s)\<lparr>ss_loop := l, ss_CrawlLog := log\<rparr> = (sendDo err r (s\<lparr>ss_CrawlLog := log\<rparr>))\<lparr>ss_loop := l\<rparr>"
  by (rule session.equality) simp_all

lemma finishBody_comesTo:
  assumes m: "matches w s" and l: "ss_loop s = Finishing" and b: "rc_bcc (w_rc w) = Some b0" "b_loop b0 = LoopFinishing"
    "b_complete b0 = b_complete b"
  shows "comesTo s (case finishBody E b w of
     Done x v \<Rightarrow> leaveLoop v | Panics v \<Rightarrow> updBcc (b_locked_update (\<lambda>_. False)) v | Blocks v \<Rightarrow> v)"
proof (cases "GetRecordContext (w_data w) = None")
  case True
  then have cur: "\<not> ss_current s" using m by (auto simp: matches_def)
  let ?s = "s\<lparr>ss_loop := UnlockAfterFinish\<rparr>"
  have "matches w (?s\<lparr>ss_loop := Draining\<rparr>)" using m b by (auto simp: matches_def)
  then have "comesTo ?s (leaveLoop w)" by (rule unlock_comesTo) simp
  then have "comesTo s (leaveLoop w)" by (intro comesTo_step [OF sessionStep.finish_skip [OF l cur]]) simp_all
  then show ?thesis using True by (simp add: finishBody_close)
next
  case False
  then have cur: "ss_current s" using m by (auto simp: matches_def)
  have complete: "ss_complete s = b_complete b" using m b by (auto simp: matches_def)
  have reported: "comesTo s (case andThen (saveCrawlLogUnlocked E cl w1) (\<lambda>_. closeAndLeave) of
      Done x v \<Rightarrow> leaveLoop v | Panics v \<Rightarrow> updBcc (b_locked_update (\<lambda>_. False)) v | Blocks v \<Rightarrow> v)"
    if st: "\<And>err cached. sessionStep s1 ((sendDo err (DoCompleted (stampLog E w1 cl) cached) s2)\<lparr>ss_loop := Draining\<rparr>)"
      and m1: "matches w1 (s2\<lparr>ss_loop := Draining\<rparr>)" and w1: "rc_bcc (w_rc w1) = Some b0" "w_data w1 = w_data w"
      and s1: "sessionStep s s1" "ss_calls s1 = ss_calls s" "ss_calls s2 = ss_calls s" for cl w1 s1 s2
  proof -
    let ?r = "DoCompleted (stampLog E w1 cl) (rc_FoundInCache (w_rc w1))"
    obtain err w2 where snd: "bcSend E ?r (tick w1) = (err, w2)" by (rule prod.exhaust)
    let ?s3 = "(sendDo err ?r s2)\<lparr>ss_loop := Draining\<rparr>"
    have "matches (tick w1) (s2\<lparr>ss_loop := Draining\<rparr>)" using m1 by (simp add: matches_def)
    from bcSend_matches [OF snd this] have m2: "matches (tick w2) ?s3"
      by (cases "err = None") (simp_all add: matches_def sendDo_def)
    have w2: "rc_bcc (w_rc (tick w2)) = Some b0" "w_data (tick w2) = w_data w"
      using bcSend_result [of E ?r "tick w1"] snd w1 by auto
    have "comesTo ?s3 (case andThen (andThen (drainMsgs E (w_bcIn w2) (tick w2))
          (\<lambda>_ w. Done (e_bcCloseSend E (w_tick w2)) w)) (\<lambda>_. closeAndLeave) of
        Done x v \<Rightarrow> leaveLoop v | Panics v \<Rightarrow> updBcc (b_locked_update (\<lambda>_. False)) v | Blocks v \<Rightarrow> v)"
      by (rule drained_comesTo [OF m2 _ _ w2(1) b(2)]) (use w2 False in simp_all)
    then have "comesTo ?s3 (case andThen (saveCrawlLogUnlocked E cl w1) (\<lambda>_. closeAndLeave) of
        Done x v \<Rightarrow> leaveLoop v | Panics v \<Rightarrow> updBcc (b_locked_update (\<lambda>_. False)) v | Blocks v \<Rightarrow> v)"
      by (simp add: saveCrawlLogUnlocked_def Let_def snd)
    then have "comesTo s1 (case andThen (saveCrawlLogUnlocked E cl w1) (\<lambda>_. closeAndLeave) of
        Done x v \<Rightarrow> leaveLoop v | Panics v \<Rightarrow> updBcc (b_locked_update (\<lambda>_. False)) v | Blocks v \<Rightarrow> v)"
      by (intro comesTo_step [OF st]) (simp_all add: s1)
    then show ?thesis by (intro comesTo_step [OF s1(1)]) (simp_all add: s1)
  qed
  have stamp: "stampLog E v cl = stamped (goQuot (e_now E (w_tick v) - rc_FetchTime (w_rc v)) 1000000) (GetIp (w_data v)) cl" for v cl
    by (simp add: stampLog_def stamped_def)
  show ?thesis
  proof (cases "b_complete b")
    case (Some msg)
    let ?s1 = "s\<lparr>ss_loop := Reporting (Some (cm_cl msg))\<rparr>"
    have st1: "sessionStep s ?s1" using complete Some by (intro sessionStep.finish_completed [OF l cur]) simp
    have "comesTo s (case andThen (saveCrawlLogUnlocked E (cm_cl msg) w) (\<lambda>_. closeAndLeave) of
        Done x v \<Rightarrow> leaveLoop v | Panics v \<Rightarrow> updBcc (b_locked_update (\<lambda>_. False)) v | Blocks v \<Rightarrow> v)"
    proof (rule reported [where ?s1.0 = ?s1 and ?s2.0 = ?s1])
      show "sessionStep ?s1 (sendDo err (DoCompleted (stampLog E w (cm_cl msg)) cached) ?s1\<lparr>ss_loop := Draining\<rparr>)" for err cached
        unfolding stamp by (rule sessionStep.report) simp
      show "matches w (?s1\<lparr>ss_loop := Draining\<rparr>)" using m b by (auto simp: matches_def)
    qed (use st1 b in simp_all)
    then show ?thesis using False Some by (simp add: finishBody_close)
  next
    case None
    let ?w1 = "updLog (canceledLog canceledByClient) w"
    let ?cl = "canceledLog canceledByClient (rc_CrawlLog (w_rc w))"
    let ?w2 = "updLog (stampLog E ?w1) ?w1"
    let ?s1 = "s\<lparr>ss_loop := Reporting None, ss_CrawlLog := canceledLog canceledByClient (ss_CrawlLog s)\<rparr>"
    let ?s2 = "?s1\<lparr>ss_CrawlLog := stampLog E ?w2 ?cl\<rparr>"
    have log: "ss_CrawlLog s = rc_CrawlLog (w_rc w)" using m by (rule matchesE)
    have eq: "stampLog E ?w2 ?cl = stampLog E ?w1 ?cl" by (simp add: stampLog_def updLog_def)
    have st1: "sessionStep s ?s1" using complete None by (intro sessionStep.finish_canceled [OF l cur]) simp
    have "comesTo s (case andThen (saveCrawlLogUnlocked E ?cl ?w2) (\<lambda>_. closeAndLeave) of
        Done x v \<Rightarrow> leaveLoop v | Panics v \<Rightarrow> updBcc (b_locked_update (\<lambda>_. False)) v | Blocks v \<Rightarrow> v)"
    proof (rule reported [where ?s1.0 = ?s1 and ?s2.0 = ?s2])
      show "sessionStep ?s1 (sendDo err (DoCompleted (stampLog E ?w2 ?cl) cached) ?s2\<lparr>ss_loop := Draining\<rparr>)" for err cached
      proof -
        have "sessionStep ?s1 ((sendDo err (DoCompleted (stampLog E ?w2 ?cl) cached) ?s1)
            \<lparr>ss_loop := Draining, ss_CrawlLog := stampLog E ?w2 ?cl\<rparr>)"
          unfolding stamp by (rule sessionStep.report_log) (simp_all add: log)
        then show ?thesis unfolding sendDo_log .
      qed
      show "matches ?w2 (?s2\<lparr>ss_loop := Draining\<rparr>)" using m b by (auto simp: matches_def eq)
    qed (use st1 b in simp_all)
    then show ?thesis using False None by (simp add: finishBody_close)
  qed
qed

lemma finish_comesTo:
  assumes m: "matches w s" and b: "rc_bcc (w_rc w) = Some b" "b_loop b = LoopSelect"
  shows "comesTo (s\<lparr>ss_loop := LockForFinish\<rparr>) (endState (finish E w))"
proof -
  let ?s = "s\<lparr>ss_loop := LockForFinish\<rparr>" and ?w = "updBcc (b_loop_update (\<lambda>_. LoopFinishing)) w"
  have m1: "matches ?w ?s" using m b by (auto simp: matches_def updBcc_def)
  show ?thesis
  proof (cases "b_locked b")
    case True
    then have "endState (finish E w) = ?w" using b by (simp add: finish_def withLock_def updBcc_def)
    then show ?thesis using comesTo_now [OF m1] by simp
  next
    case False
    let ?w2 = "updBcc (b_locked_update (\<lambda>_. True)) ?w"
    let ?s2 = "?s\<lparr>ss_loop := Finishing, ss_mutex := Some LoopHolds\<rparr>"
    have mutex: "ss_mutex ?s = None" using m b False by (auto simp: matches_def)
    have st: "sessionStep ?s ?s2" by (rule sessionStep.lock_finish) (use mutex in simp_all)
    have m2: "matches ?w2 ?s2" using m b by (auto simp: matches_def updBcc_def)
    have "comesTo ?s2 (endState (finish E w))"
      unfolding endState_finish [OF b(1) False]
      by (rule finishBody_comesTo [OF m2, of "b\<lparr>b_loop := LoopFinishing, b_locked := True\<rparr>"]) (use b in \<open>simp_all add: updBcc_def\<close>)
    then show ?thesis by (intro comesTo_step [OF st]) simp_all
  qed
qed

section \<open>Whole operations\<close>

definition outcomeOf :: "(go_error option, world) run \<Rightarrow> outcome option" where
  "outcomeOf r = (case r of Done res w \<Rightarrow> Some (Ret res) | Panics w \<Rightarrow> Some Crash | Blocks w \<Rightarrow> None)"

text \<open>The call of an operation and its outcome; an error call with nil panics before it gets to the session.\<close>

fun callOf :: "bcOp \<Rightarrow> sessionCall" where
  "callOf OpRegister = RegisterCall"
| "callOf (OpNotify act) = NotifyCall act"
| "callOf OpSaveCrawlLog = SaveCall"
| "callOf (OpRequestError (Some e)) = RequestErrorCall e"
| "callOf (OpResponseError (Some e)) = ResponseErrorCall e"
| "callOf op = CompletedCall"

fun bcOutcome :: "env \<Rightarrow> bcOp \<Rightarrow> world \<Rightarrow> outcome option" where
  "bcOutcome E OpRegister w = outcomeOf (RegisterNewRequest E w)"
| "bcOutcome E (OpNotify act) w = outcomeOf (notifyDataReceived E act w)"
| "bcOutcome E OpSaveCrawlLog w = outcomeOf (SaveCrawlLog E w)"
| "bcOutcome E (OpRequestError (Some e)) w = outcomeOf (SendRequestError E (Some e) w)"
| "bcOutcome E (OpResponseError (Some e)) w = outcomeOf (SendResponseError E (Some e) w)"
| "bcOutcome E (OpResponseCompleted e) w = (if returns (ResponseCompleted E e w) then Some (Ret None) else None)"
| "bcOutcome E op w = None"

definition simulated :: "env \<Rightarrow> bcOp \<Rightarrow> nat \<Rightarrow> world \<Rightarrow> session \<Rightarrow> bool" where
  "simulated E op i w s \<longleftrightarrow> (\<exists>t pc. sessionSteps s t \<and> matches (runBcOp E op w) t \<and> ss_calls t = (ss_calls s)[i := pc] \<and>
     (\<forall>out. bcOutcome E op w = Some out \<longrightarrow> pc = Ended out))"

lemma runsAs_simulated:
  assumes "runsAs s i Ended m r" "runBcOp E op w = endState r" "bcOutcome E op w = outcomeOf r"
  shows "simulated E op i w s"
  using assms unfolding simulated_def runsAs_def goes_def reaches_def outcomeOf_def
  by (cases r) (simp, blast, simp, blast, simp, blast)

lemma comesTo_simulated:
  assumes "comesTo s (runBcOp E op w)" "bcOutcome E op w = None"
  shows "simulated E op i w s"
proof -
  obtain t where "sessionSteps s t" "matches (runBcOp E op w) t" "ss_calls t = ss_calls s"
    using assms(1) unfolding comesTo_def reaches_def by blast
  then show ?thesis unfolding simulated_def using assms(2)
    by (intro exI [of _ t] exI [of _ "ss_calls s ! i"]) simp
qed

lemma getBccSession_matches: "matches w s \<Longrightarrow> getBccSession E w = Done None w"
  by (auto simp: matches_def getBccSession_def)

lemma locking_runs:
  assumes m: "matches w s" and call: "callAt s i (Entering c)" and c: "c \<noteq> CompletedCall"
    and e: "enterCall (ss_complete s) c = Locking c'"
    and body: "\<And>b w1 s1. matches w1 s1 \<Longrightarrow> ss_complete s1 = b_complete b \<Longrightarrow> callAt s1 i (Locked c') \<Longrightarrow>
      runsAs s1 i (Unlocking c') (ss_mutex s1) (f b w1)"
  shows "runsAs s i (afterUnlock c') None (withLock f w)"
proof -
  let ?s = "setCall i (Locking c') s"
  have "callAt ?s i (Locking c')" using call by (rule callAt_setCall) simp
  then have "runsAs ?s i (afterUnlock c') None (withLock f w)"
    using m body by (intro withLock_runs) simp_all
  moreover have "sessionStep s ?s" using sessionStep.enter [OF call c] e by simp
  ultimately show ?thesis by (intro runsAs_step [of s ?s]) simp_all
qed

lemma afterUnlock_Ended: "(\<And>e. c \<noteq> NotifyFirst e) \<Longrightarrow> afterUnlock c = Ended"
  by (rule ext) (cases c; auto)

lemma locking_Ended:
  assumes "matches w s" "callAt s i (Entering c)" "c = RegisterCall \<or> c = NotifyCall act \<or> c = SaveCall \<or> c = ResponseErrorCall e"
    "\<And>b w1 s1. matches w1 s1 \<Longrightarrow> ss_complete s1 = b_complete b \<Longrightarrow> callAt s1 i (Locked c) \<Longrightarrow>
      runsAs s1 i (Unlocking c) (ss_mutex s1) (f b w1)"
  shows "runsAs s i Ended None (withLock f w)"
proof -
  have c: "enterCall (ss_complete s) c = Locking c" "c \<noteq> CompletedCall" "afterUnlock c = Ended"
    using assms(3) by (auto intro: afterUnlock_Ended)
  have "runsAs s i (afterUnlock c) None (withLock f w)"
    by (rule locking_runs [OF assms(1,2) c(2,1) assms(4)])
  then show ?thesis unfolding c(3) .
qed

lemma requestError_runs:
  assumes m: "matches w s" and call: "callAt s i (Entering (RequestErrorCall e))"
  shows "\<exists>m'. runsAs s i Ended m' (SendRequestError E (Some e) w)"
proof -
  from m obtain b where b: "rc_bcc (w_rc w) = Some b" "ss_complete s = b_complete b" by (rule matchesE)
  note start = SendRequestError_def getBccSession_matches [OF m] b(1)
  show ?thesis
  proof (cases "b_complete b")
    case (Some msg)
    let ?pc = "Ended (Ret (case cm_err msg of Some ce \<Rightarrow> Some ce | None \<Rightarrow> Some e))"
    have "sessionStep s (setCall i ?pc s)" using sessionStep.enter [OF call] b(2) Some by simp
    then have "goes s ((ss_calls s)[i := ?pc]) (ss_mutex s) w"
      by (rule goes_step) (simp_all add: goes_now m)
    then show ?thesis using Some by (auto simp: start runsAs_def)
  next
    case None
    let ?n = "NotifyFirst e"
    have first: "runsAs s i (afterUnlock ?n) None (NotifyAllDataReceived E w)"
      unfolding NotifyAllDataReceived_def notifyDataReceived_def getBccSession_matches [OF m] andThen.simps
      by (simp, rule locking_runs [OF m call]) (use b None notify_runs in auto)
    show ?thesis
    proof (cases "NotifyAllDataReceived E w")
      case (Done err w1)
      show ?thesis
      proof (cases err)
        case None
        then have "goes s ((ss_calls s)[i := Locking (RequestErrorCall e)]) None w1"
          using first Done by (simp add: runsAs_def)
        then have "runsAs s i (afterUnlock (RequestErrorCall e)) None (withLock (sendErrorLocked (requestErrorLog e) e) w1)"
        proof (rule runsAs_goes)
          fix t
          assume t: "matches w1 t" "ss_calls t = (ss_calls s)[i := Locking (RequestErrorCall e)]"
          then have "callAt t i (Locking (RequestErrorCall e))" using call by (simp add: callAt_def)
          then show "runsAs t i (afterUnlock (RequestErrorCall e)) None (withLock (sendErrorLocked (requestErrorLog e) e) w1)"
            by (intro withLock_runs [OF t(1)]) (auto intro: error_runs)
        qed
        then show ?thesis using Done None \<open>b_complete b = None\<close>
          by (auto simp: start afterUnlock_Ended)
      next
        case (Some ne)
        then show ?thesis using first Done None by (auto simp: start runsAs_def)
      qed
    next
      case (Panics w1)
      then show ?thesis using first None by (auto simp: start runsAs_def)
    next
      case (Blocks w1)
      then show ?thesis using first None by (auto simp: start runsAs_def)
    qed
  qed
qed

lemma matches_cwFrame:
  assumes "cwFrame w w'" "matches w s"
  shows "matches w' s"
proof -
  have "w_data w' = w_data w" "w_bcWire w' = w_bcWire w" using assms(1) by (simp_all add: cwFrame_def)
  then show ?thesis using cwFrame_rc [OF assms(1)] assms(2) by (subst matches_cong) simp_all
qed

lemma setCall_loop: "(setCall i pc s)\<lparr>ss_loop := l\<rparr> = setCall i pc (s\<lparr>ss_loop := l\<rparr>)"
  by (rule session.equality) simp_all

lemma responseCompleted_simulated:
  assumes m: "matches w s" and call: "callAt s i (Entering CompletedCall)"
  shows "simulated E (OpResponseCompleted e) i w s"
proof -
  from m obtain b where b: "rc_bcc (w_rc w) = Some b" "loopMatch (b_loop b) (ss_loop s)" by (rule matchesE)
  show ?thesis
  proof (cases "b_loop b = LoopSelect")
    case False
    then have "ResponseCompleted E e w = Blocks w"
      using b by (simp add: ResponseCompleted_def getBccSession_matches [OF m] handOverDone_def)
    then show ?thesis using comesTo_simulated [of s E "OpResponseCompleted e" w i] comesTo_now [OF m] by simp
  next
    case True
    let ?v = "endState (finish E w)" and ?msg = "''Veidemann recorder proxy lost connection to client''"
    let ?s = "setCall i (Ended (Ret None)) (s\<lparr>ss_loop := LockForFinish\<rparr>)"
    have st: "sessionStep s ?s" by (rule sessionStep.hand_over [OF call]) (use True b in simp)
    have "matches w (setCall i (Ended (Ret None)) s)" using m by simp
    from finish_comesTo [OF this b(1) True, of E] have "comesTo ?s ?v" unfolding setCall_loop .
    then obtain t where t: "sessionSteps ?s t" "matches ?v t" "ss_calls t = (ss_calls s)[i := Ended (Ret None)]"
      unfolding comesTo_def reaches_def by auto
    have steps: "sessionSteps s t" using st t(1) by (rule converse_rtranclp_into_rtranclp)
    obtain x v' where c: "CancelContentWriter E ?msg ?v = Done x v'" using CancelContentWriter_returns by blast
    have "matches v' t" using matches_cwFrame [OF CancelContentWriter_frame [of ?v E ?msg] t(2)] by (simp add: c)
    moreover have "ResponseCompleted E e w = Done () (if e = None then ?v else v')"
      using b True c by (simp add: ResponseCompleted_def getBccSession_matches [OF m] handOverDone_def)
    ultimately show ?thesis using steps t unfolding simulated_def
      by (intro exI [of _ t] exI [of _ "Ended (Ret None)"]) simp
  qed
qed

lemma recvStep_comesTo:
  assumes "matches w s"
  shows "comesTo s (recvStep E w)"
proof -
  from assms obtain b where b: "rc_bcc (w_rc w) = Some b" "recvMatch (b_recv b) (ss_recv s)" by (rule matchesE)
  show ?thesis
  proof (cases "b_recv b = Receiving \<and> w_bcIn w \<noteq> []")
    case True
    then obtain ev evs where ev: "w_bcIn w = ev # evs" "b_recv b = Receiving" by (auto simp: neq_Nil_conv)
    let ?w = "w\<lparr>w_bcIn := evs\<rparr>"
    have "matches ?w s" "ss_recv s = InRecv" using assms b ev by (simp_all add: matches_def)
    then have "follows s (recvEvent E ev ?w)" by (rule recv_event)
    then have "comesTo s (recvEvent E ev ?w)" by (rule comesTo_goes) (rule comesTo_now)
    then show ?thesis using b ev by (simp add: recvStep_def)
  next
    case False
    then have "recvStep E w = w" using b by (auto simp: recvStep_def split: recvState.split list.split)
    then show ?thesis using comesTo_now [OF assms] by simp
  qed
qed

lemma clientGone_comesTo:
  assumes m: "matches w s"
  shows "comesTo s (bccClientGone E w)"
proof -
  from m obtain b where b: "rc_bcc (w_rc w) = Some b" "loopMatch (b_loop b) (ss_loop s)" by (rule matchesE)
  show ?thesis
  proof (cases "b_loop b = LoopSelect")
    case True
    let ?s = "s\<lparr>ss_clientGone := True\<rparr>"
    have "matches w ?s" using m by (simp add: matches_def)
    from finish_comesTo [OF this b(1) True] have "comesTo (?s\<lparr>ss_loop := LockForFinish\<rparr>) (endState (finish E w))" .
    moreover have leave: "sessionStep ?s (?s\<lparr>ss_loop := LockForFinish\<rparr>)"
      by (rule sessionStep.leave_select) (use True b in simp_all)
    ultimately have "comesTo ?s (endState (finish E w))" by (intro comesTo_step [OF leave]) simp_all
    moreover have gone: "sessionStep s ?s" by (rule sessionStep.client_gone)
    ultimately have "comesTo s (endState (finish E w))" by (intro comesTo_step [OF gone]) simp_all
    then show ?thesis using b True by (simp add: bccClientGone_def)
  next
    case False
    then show ?thesis using b comesTo_now [OF m] by (simp add: bccClientGone_def)
  qed
qed

lemma operation_simulated:
  assumes m: "matches w s" and call: "callAt s i (Entering (callOf op))"
  shows "simulated E op i w s"
proof (cases op)
  case OpRegister
  have "callAt s i (Entering (RegisterCall))" using call OpRegister by simp
  from locking_Ended [OF m this, of _ _ "registerLocked E"] have "runsAs s i Ended None (withLock (registerLocked E) w)"
    by (simp add: register_runs)
  then show ?thesis
    by (rule runsAs_simulated) (simp_all add: OpRegister RegisterNewRequest_def getBccSession_matches [OF m])
next
  case (OpNotify act)
  have "callAt s i (Entering (NotifyCall act))" using call OpNotify by simp
  from locking_Ended [OF m this, of _ _ "notifyLocked E act"] have "runsAs s i Ended None (withLock (notifyLocked E act) w)"
    by (simp add: notify_runs)
  then show ?thesis
    by (rule runsAs_simulated) (simp_all add: OpNotify notifyDataReceived_def getBccSession_matches [OF m])
next
  case OpSaveCrawlLog
  have "callAt s i (Entering (SaveCall))" using call OpSaveCrawlLog by simp
  from locking_Ended [OF m this, of _ _ "saveLocked"] have "runsAs s i Ended None (withLock saveLocked w)"
    by (simp add: save_runs)
  then show ?thesis
    by (rule runsAs_simulated) (simp_all add: OpSaveCrawlLog SaveCrawlLog_def getBccSession_matches [OF m])
next
  case (OpRequestError re)
  show ?thesis
  proof (cases re)
    case None
    then show ?thesis
      using OpRequestError comesTo_now [OF m] by (intro comesTo_simulated) (simp_all add: SendRequestError_def)
  next
    case (Some e)
    obtain m' where "runsAs s i Ended m' (SendRequestError E (Some e) w)"
      using requestError_runs [OF m] call OpRequestError Some by fastforce
    then show ?thesis by (rule runsAs_simulated) (simp_all add: OpRequestError Some)
  qed
next
  case (OpResponseError re)
  show ?thesis
  proof (cases re)
    case None
    then show ?thesis
      using OpResponseError comesTo_now [OF m] by (intro comesTo_simulated) (simp_all add: SendResponseError_def)
  next
    case (Some e)
    have "callAt s i (Entering (ResponseErrorCall e))" using call OpResponseError Some by simp
    from locking_Ended [OF m this, of _ _ "sendErrorLocked (responseErrorLog e) e"]
    have "runsAs s i Ended None (withLock (sendErrorLocked (responseErrorLog e) e) w)"
      by (simp add: error_runs)
    then show ?thesis
      by (rule runsAs_simulated) (simp_all add: OpResponseError Some SendResponseError_def getBccSession_matches [OF m])
  qed
next
  case (OpResponseCompleted e)
  then show ?thesis using responseCompleted_simulated [OF m] call by simp
next
  case OpRecv
  then show ?thesis using recvStep_comesTo [OF m] by (intro comesTo_simulated) simp_all
next
  case OpGone
  then show ?thesis using clientGone_comesTo [OF m] by (intro comesTo_simulated) simp_all
qed

section \<open>Properties\<close>

text \<open>
  C22: Every run of the model in which operations are single steps is one of the interleavings of single statements: for any
  sequence of operations, messages and losses of the client a state is reached that agrees with it, and in which
  every operation that returned or panicked has the same outcome.
\<close>

theorem atomic_runs_are_interleavings:
  assumes "rc_bcc (w_rc w) = Some newBccSession" "GetRecordContext (w_data w) \<noteq> None" "w_bcWire w = []"
  shows "\<exists>t. sessionSteps (newSession (rc_CrawlLog (w_rc w)) (map callOf ops)) t \<and>
    matches (foldl (\<lambda>w op. runBcOp E op w) w ops) t \<and>
    (\<forall>k < length ops. \<forall>out. bcOutcome E (ops ! k) (foldl (\<lambda>w op. runBcOp E op w) w (take k ops)) = Some out \<longrightarrow>
       callAt t k (Ended out))"
proof -
  let ?s = "newSession (rc_CrawlLog (w_rc w)) (map callOf ops)" and ?w = "\<lambda>n. foldl (\<lambda>w op. runBcOp E op w) w (take n ops)"
  have "\<exists>t. sessionSteps ?s t \<and> matches (?w n) t \<and> length (ss_calls t) = length ops \<and>
      (\<forall>k < n. \<forall>out. bcOutcome E (ops ! k) (?w k) = Some out \<longrightarrow> ss_calls t ! k = Ended out) \<and>
      (\<forall>k. n \<le> k \<and> k < length ops \<longrightarrow> ss_calls t ! k = Entering (callOf (ops ! k)))" if "n \<le> length ops" for n
    using that
  proof (induction n)
    case 0
    have "w_data w \<noteq> None" using assms(2) by (cases "w_data w") (auto simp: GetRecordContext_def getValue_def)
    then have "matches w ?s" using assms by (auto simp: matches_def newSession_def newBccSession_def)
    then show ?case by (intro exI [of _ ?s]) (simp add: newSession_def)
  next
    case (Suc n)
    then obtain t where t: "sessionSteps ?s t" "matches (?w n) t" "length (ss_calls t) = length ops"
        "\<forall>k < n. \<forall>out. bcOutcome E (ops ! k) (?w k) = Some out \<longrightarrow> ss_calls t ! k = Ended out"
        "\<forall>k. n \<le> k \<and> k < length ops \<longrightarrow> ss_calls t ! k = Entering (callOf (ops ! k))"
      by auto
    have n: "n < length ops" using Suc by simp
    have "callAt t n (Entering (callOf (ops ! n)))" using t(3,5) n by (simp add: callAt_def)
    from operation_simulated [OF t(2) this] obtain u pc where u: "sessionSteps t u"
        "matches (runBcOp E (ops ! n) (?w n)) u" "ss_calls u = (ss_calls t)[n := pc]"
        "\<forall>out. bcOutcome E (ops ! n) (?w n) = Some out \<longrightarrow> pc = Ended out"
      unfolding simulated_def by blast
    have "?w (Suc n) = runBcOp E (ops ! n) (?w n)" using n by (simp add: take_Suc_conv_app_nth)
    moreover have "sessionSteps ?s u" using t(1) u(1) by (rule rtranclp_trans)
    moreover have "bcOutcome E (ops ! k) (?w k) = Some out \<longrightarrow> ss_calls u ! k = Ended out" if "k < Suc n" for k out
      using that u(3,4) t(3,4) n by (auto simp: less_Suc_eq)
    moreover have "ss_calls u ! k = Entering (callOf (ops ! k))" if "Suc n \<le> k" "k < length ops" for k
      using that u(3) t(5) by simp
    ultimately show ?case using u t(3) by (intro exI [of _ u]) simp
  qed
  from this [OF order_refl] show ?thesis by (auto simp: callAt_def)
qed

theorem atomic_runs_are_interleavings_witness:
  "\<exists>t. sessionSteps (newSession emptyCrawlLog [SaveCall]) t \<and> callAt t 0 (Ended (Ret None)) \<and>
     ss_complete t = Some \<lparr>cm_cl = emptyCrawlLog, cm_err = None\<rparr>"
proof -
  let ?w = "setBcc newBccSession (startWorld [RecvEOF])"
  have w: "rc_bcc (w_rc ?w) = Some newBccSession" "GetRecordContext (w_data ?w) \<noteq> None" "w_bcWire ?w = []"
    by (simp_all add: startWorld_def GetRecordContext_def getValue_def mapIndex_def)
  have log: "rc_CrawlLog (w_rc ?w) = emptyCrawlLog" by (simp add: startWorld_def blankRecordContext_def)
  let ?v = "foldl (\<lambda>w op. runBcOp okEnv op w) ?w [OpSaveCrawlLog]"
  obtain t where t: "sessionSteps (newSession emptyCrawlLog (map callOf [OpSaveCrawlLog])) t" "matches ?v t"
      "\<forall>k < length [OpSaveCrawlLog]. \<forall>out. bcOutcome okEnv ([OpSaveCrawlLog] ! k)
        (foldl (\<lambda>w op. runBcOp okEnv op w) ?w (take k [OpSaveCrawlLog])) = Some out \<longrightarrow> callAt t k (Ended out)"
    using atomic_runs_are_interleavings [OF w, of "[OpSaveCrawlLog]" okEnv] unfolding log by blast
  have run: "SaveCrawlLog okEnv ?w = Done None ?v" "rc_bcc (w_rc ?v) =
      Some (newBccSession\<lparr>b_complete := Some \<lparr>cm_cl = emptyCrawlLog, cm_err = None\<rparr>\<rparr>)"
    using log by (simp_all add: SaveCrawlLog_def getBccSession_def withLock_def saveLocked_def completeSend_def updBcc_def
        newBccSession_def)
  from run(1) obtain v where "SaveCrawlLog okEnv ?w = Done None v" by blast
  then have "bcOutcome okEnv OpSaveCrawlLog ?w = Some (Ret None)" by (simp add: outcomeOf_def)
  then have "callAt t 0 (Ended (Ret None))" using t(3) by simp
  moreover have "ss_complete t = Some \<lparr>cm_cl = emptyCrawlLog, cm_err = None\<rparr>"
    using t(2) run(2) unfolding matches_def by auto
  ultimately show ?thesis using t(1) by auto
qed

end
