(* ===== verification/Context_Types.thy ===== *)
theory Context_Types
  imports Dialer Filter_Chain
begin

text \<open>
  The types of the context data along the life of a connection: every operation of the proxy that gets the context, from the
  filter chain over the bodies to the interceptors, the dialer and the goroutines of a session, writes under a key only
  values of the type the getter of the key asserts.
\<close>

section \<open>What depends on the context data only\<close>

locale data_frame = state_relation R for R :: "world \<Rightarrow> world \<Rightarrow> bool" +
  assumes same_data: "w_data w' = w_data w \<Longrightarrow> R w w'"
    and put: "hasType k v \<Longrightarrow> R w (endState (onData (setValue k v) w))"

sublocale data_frame \<subseteq> session_frame R
proof unfold_locales
  show "R w (endState (CancelContentWriter E msg w))" for w E msg
    using CancelContentWriter_frame [of w E msg] by (intro same_data) (simp add: cwFrame_def)
qed (auto intro!: same_data put simp: setRcError_def getBccSession_def updBcc_def completeSend_def bcSend_def split: option.split)

context data_frame begin

lemma frame_keeps: "cwFrame w w' \<Longrightarrow> R w w'"
  by (rule same_data) (simp add: cwFrame_def)

lemma send_keeps_any: "bcSend E q w = (e, w') \<Longrightarrow> R w w'"
  by (rule same_data) (auto simp: bcSend_def split: option.splits)

lemma errorIfNotExists_keeps: "R w (endState (onData (SetConnectErrorIfNotExists e) w))"
proof (cases "w_data w")
  case None
  then show ?thesis by (auto intro!: same_data simp: onData_def SetConnectErrorIfNotExists_def getRecordProxyDataAware_def)
next
  case (Some m)
  then have "onData (SetConnectErrorIfNotExists e) w = onData (setValue KeyConnectErr (errVal e)) w \<or>
      endState (onData (SetConnectErrorIfNotExists e) w) = w"
    by (auto simp: onData_def SetConnectErrorIfNotExists_def getRecordProxyDataAware_def)
  then show ?thesis using put [of KeyConnectErr "errVal e" w] by (auto simp: refl)
qed

section \<open>Sessions\<close>

lemma resolveIds_keeps: "R w (endState (resolveIdsFromHttpHeader req w))"
  by (auto simp: resolveIdsFromHttpHeader_def Let_def refl setters_keep
      intro!: end_andThen [OF setters_keep(1)] end_andThen [OF setters_keep(2)] end_andThen [OF setters_keep(4)])

lemma rcInit_keeps: "R w (endState (rcInit E proxyId req uri w))"
proof -
  have "R w (w\<lparr>w_rc := r\<rparr>)" "R w (tick (w\<lparr>w_rc := r\<rparr>))" for r w by (rule same_data; simp)+
  then show ?thesis
    by (auto simp: rcInit_def Let_def intro!: end_andThen trans [OF _ resolveIds_keeps])
qed

lemma connectReply_keeps: "R w (endState (connectReply ev w))"
  by (auto simp: connectReply_def refl setters_keep split: recvResult.split doReply.split
      intro!: end_andThen [OF setters_keep(1)] end_andThen [OF setters_keep(2)])

lemma RegisterConnect_keeps: "R w (endState (RegisterConnectRequest E incoming proxyId req uri w))"
proof -
  have t: "R w (tick w)" "R w (w\<lparr>w_connectWire := c\<rparr>)" for w c by (rule same_data; simp)+
  have start: "R w (tick ((tick w)\<lparr>w_connectWire := c\<rparr>))" "R w (tick (tick w))" for w c by (rule same_data; simp)+
  note reply = trans [OF start(1) connectReply_keeps] trans [OF start(2) connectReply_keeps]
  show ?thesis unfolding RegisterConnectRequest_def
    by (rule end_andThen [OF resolveIds_keeps])
      (auto simp: Let_def t start refl split: option.split list.split
        intro!: end_andThen [OF reply(1)] end_andThen [OF reply(2)])
qed

lemma saveUnlocked_keeps: "R w (endState (saveCrawlLogUnlocked E cl w))"
proof -
  have "R w (endState (drainMsgs E evs (tick w2)))" if "bcSend E r (tick w) = (e, w2)" for r e evs w2
    by (rule trans [OF trans [OF tick_keeps send_keeps_any [OF that]] trans [OF tick_keeps drainMsgs_keeps]])
  then show ?thesis
    by (auto simp: saveCrawlLogUnlocked_def Let_def refl split: prod.split intro!: end_andThen)
qed

lemma finish_keeps: "R w (endState (finish E w))"
proof -
  have m: "R w (markClosed w)" "R w (updLog f w)" "R w (updBcc h w)" for w f h
    by (rule same_data; simp add: markClosed_def updBcc_def split: option.split)+
  have body: "R w (endState (finishBody E b w))" for b w
    unfolding finishBody_eq
    by (auto simp: refl m split: option.split
        intro!: end_andThen [OF saveUnlocked_keeps] end_andThen [OF setters_keep(9)]
          end_andThen [OF trans [OF trans [OF m(2) m(2)] saveUnlocked_keeps]])
  show ?thesis unfolding finish_def
    by (intro end_andThen [OF trans [OF m(3) withLock_keeps [OF body]]]) (simp add: m)
qed

lemma clientGone_keeps: "R w (bccClientGone E w)"
  by (auto simp: bccClientGone_def refl finish_keeps split: option.split)

section \<open>Bodies\<close>

lemma sendOnSession_keeps: "R w (endState (sendOnSession E r w))"
  by (rule frame_keeps [OF sendOnSession_frame])

lemma sends_keep: "R w (endState (SendProtocolHeader E n d w))" "R w (endState (SendPayload E n d w))"
  by (simp_all add: SendProtocolHeader_def SendPayload_def sendOnSession_keeps)

lemma startRecord_keeps: "R w (endState (startRecord m status ct w))"
  by (auto simp: startRecord_def refl intro!: same_data)

lemma recordMeta_keeps: "R w (updRecordMeta n f w)"
  by (rule same_data) (simp add: updRecordMeta_def)

lemma WrapRequestBody_keeps: "R w (endState (WrapRequestBody E body ct prolog w))"
  by (auto simp: WrapRequestBody_def refl split: option.split
      intro!: end_andThen [OF startRecord_keeps] end_andThen [OF sends_keep(1)])

lemma WrapResponseBody_keeps: "R w (endState (WrapResponseBody E body status ct t prolog w))"
  by (auto simp: WrapResponseBody_def refl Let_def split: option.split
      intro!: end_andThen [OF startRecord_keeps] end_andThen [OF sends_keep(1)])

lemma requestBodyRead_keeps: "R w (endState (requestBodyRead E b w))"
  by (auto simp: requestBodyRead_def refl Let_def recordMeta_keeps split: prod.split
      intro!: end_andThen end_andThen [OF sends_keep(2)] recordMeta_keeps)

lemma requestReads_keeps: "R w (endState (requestReads E n b w))"
proof (induction n arbitrary: b w)
  case (Suc n)
  then show ?case by (auto simp: refl intro!: end_andThen [OF requestBodyRead_keeps] end_andThen)
qed (simp add: refl)

lemma recordChunk_keeps: "R w (endState (recordChunk E d b w))"
  by (auto simp: recordChunk_def refl NotifyDataReceived_def Let_def
      intro!: end_andThen [OF notify_keeps] end_andThen [OF sends_keep(2)])

lemma SendMeta_keeps: "R w (endState (SendMeta E w))"
  by (rule frame_keeps [OF SendMeta_frame])

lemma responseBodyEOF_keeps: "R w (endState (responseBodyEOF E b w))"
proof -
  have cached: "R w (endState (handleCachedContent E b w))" for w
    by (auto simp: handleCachedContent_def refl Let_def
        intro!: end_andThen [OF trans [OF log_keeps SaveCrawlLog_keeps]] end_andThen [OF cancel_keeps])
  have after: "R w (endState (afterMeta E b digest reply w))" for digest reply w
    by (auto simp: afterMeta_def refl SendResponseError_keeps split: sum.split option.split
        intro!: trans [OF log_keeps SaveCrawlLog_keeps])
  show ?thesis
    by (auto simp: responseBodyEOF_def cached NotifyAllDataReceived_def Let_def
        intro!: end_andThen [OF notify_keeps] end_andThen [OF trans [OF recordMeta_keeps SendMeta_keeps]] after)
qed

lemma innerReadStep_keeps: "R w (endState (innerReadStep E out b w))"
  by (auto simp: innerReadStep_def refl Let_def responseBodyEOF_keeps split: prod.split
      intro!: end_andThen [OF recordChunk_keeps])

lemma storeOriginal_keeps: "R w (endState (storeOriginal E xs b w))"
  by (induction E xs b w rule: storeOriginal.induct)
    (auto simp: refl intro!: end_andThen [OF innerReadStep_keeps])

lemma responseReads_keeps: "R w (endState (responseReads E k n b w))"
proof (induction n arbitrary: b w)
  case (Suc n)
  have "R w (endState (responseBodyRead E k b w))" for b w
    by (auto simp: responseBodyRead_def innerRead_def refl innerReadStep_keeps split: option.split prod.split
        intro!: end_andThen [OF storeOriginal_keeps])
  then show ?case using Suc by (auto simp: refl intro!: end_andThen)
qed (simp add: refl)

section \<open>The filters and the dialer\<close>

lemma handleRequestError_keeps: "R w (endState (handleRequestError E e w))"
proof -
  have "R w (endState (errorResponse E e w))" for e w
    by (auto simp: errorResponse_def refl split: prod.split option.split)
  then show ?thesis
    by (auto simp: handleRequestError_def refl split: option.split
        intro!: end_andThen [OF SendRequestError_keeps] end_andThen [OF cancel_keeps])
qed

lemma rawError_keeps: "R w (endState (andThen (handleRequestError E e w) (\<lambda>h w. Done (rawHandled h) w)))"
  by (rule end_andThen [OF handleRequestError_keeps]) (simp add: refl)

lemma ErrorHandler_keeps:
  assumes "\<And>r w. R w (endState (nxt r w))"
  shows "R w (endState (ErrorHandlerFilter_Apply E nxt req w))"
  by (auto simp: ErrorHandlerFilter_Apply_def handleRequestError_keeps refl Let_def split: option.split prod.split
      intro!: end_andThen assms)

lemma filterRequest_keeps: "R w (endState (filterRequest E req w))"
proof -
  have m: "R w (setMeta m u w)" for m u w by (rule same_data) (simp add: setMeta_def)
  show ?thesis
    by (auto simp: filterRequest_def refl Let_def split: option.split sum.split
        intro!: end_andThen [OF trans [OF m WrapRequestBody_keeps]])
qed

lemma filterResponse_keeps: "R w (endState (filterResponse E resp w))"
proof -
  have c: "R w (if b then w_rc_update f w else w)" for b f w by (rule same_data) simp
  show ?thesis
    by (auto simp: filterResponse_def refl Let_def split: option.split sum.split
        intro!: end_andThen [OF WrapResponseBody_keeps] end_andThen [OF trans [OF same_data WrapResponseBody_keeps]])
qed

lemma Recorder_keeps:
  assumes "\<And>r w. R w (endState (nxt r w))"
  shows "R w (endState (RecorderFilter_Apply E nxt req w))"
proof -
  have "R w (endState (recordRoundTrip E nxt req w))" for w
    by (auto simp: recordRoundTrip_def rawError_keeps refl split: sum.split prod.split
        intro!: end_andThen [OF filterRequest_keeps] end_andThen [OF assms] end_andThen [OF filterResponse_keeps])
  then show ?thesis
    by (auto simp: RecorderFilter_Apply_def refl split: prod.split intro!: end_andThen [OF assms])
qed

lemma DnsLookup_keeps:
  assumes "\<And>r w. R w (endState (nxt r w))"
  shows "R w (endState (DnsLookupFilter_Apply E nxt req w))"
proof -
  have "R w (endState (dnsResolve E host port w))" for host port w
    by (auto simp: dnsResolve_def refl tick_keeps split: option.split sum.split
        intro!: trans [OF tick_keeps setters_keep(7)])
  then show ?thesis
    by (auto simp: DnsLookupFilter_Apply_def Let_def assms rawError_keeps intro!: end_andThen)
qed

lemma ContextInit_keeps:
  assumes "\<And>r w. R w (endState (nxt r w))"
  shows "R w (endState (ContextInitFilter_Apply E cf nxt req w))"
proof -
  have con: "R w (endState (initConnect E cf hreq u w))" for hreq u w
    by (auto simp: initConnect_def Let_def RegisterConnect_keeps
        intro!: end_andThen [OF setters_keep(5)] end_andThen [OF setters_keep(6)] end_andThen [OF setters_keep(8)])
  have host: "R w (endState (initHost u w))" for u w
    by (auto simp: initHost_def refl setters_keep intro!: end_andThen [OF setters_keep(5)])
  have new: "R w (NewRecordContext inc w)" for inc w by (rule same_data) (simp add: NewRecordContext_def)
  have init: "R w (endState (initRecord E cf hreq u w))" for hreq u w
    by (auto simp: initRecord_def Let_def rcInit_keeps intro!: end_andThen [OF trans [OF new setters_keep(9)]])
  show ?thesis
    by (auto simp: ContextInitFilter_Apply_def refl assms rawError_keeps split: option.split
        intro!: end_andThen [OF con] end_andThen [OF host] end_andThen [OF init] end_andThen [OF RegisterNewRequest_keeps])
qed

lemma filterChain_keeps:
  assumes "\<And>r w. R w (endState (upstream r w))"
  shows "R w (endState (filterChain E cf upstream req w))"
proof -
  have init: "R w (endState (ContextInitFilter_Apply E cf (DnsLookupFilter_Apply E
      (RecorderFilter_Apply E (ErrorHandlerFilter_Apply E upstream))) req w))" for w
    by (intro ContextInit_keeps DnsLookup_keeps Recorder_keeps ErrorHandler_keeps assms)
  then show ?thesis
    by (auto simp: filterChain_def NonproxyFilter_Apply_def TracingInitFilter_Apply_def refl split: option.split)
qed

lemma interceptor_keeps: "R w (endState (WriteResponseInterceptor E writeErr w))"
proof -
  have hand: "R w (endState (handOverDone E err w))" for err w
    by (auto simp: handOverDone_def refl finish_keeps split: option.split)
  have over: "R w (endState (ResponseCompleted E writeErr w))" for w
    by (auto simp: ResponseCompleted_def refl cancel_keeps
        intro!: end_andThen [OF open_keeps] end_andThen [OF hand])
  have wait: "endState (WaitForCompleted w) = w" for w by (simp add: WaitForCompleted_def)
  show ?thesis
    by (auto simp: WriteResponseInterceptor_def refl wait intro!: end_andThen [OF over] end_andThen)
qed

lemma Dial_keeps: "R w (endState (Dial D nextProxy isConnect network addr w))"
proof -
  have "R w (endState (connectUpstream D conn w))" for conn w
    by (auto simp: connectUpstream_def refl Let_def setters_keep split: option.split sum.split)
  then show ?thesis
    by (auto simp: Dial_def refl Let_def setters_keep split: option.split intro!: end_andThen [OF setters_keep(10)])
qed

end

section \<open>The context data is typed\<close>

definition keepsTypes :: "world \<Rightarrow> world \<Rightarrow> bool" where
  "keepsTypes w w' \<longleftrightarrow> (typedCtx (w_data w) \<longrightarrow> typedCtx (w_data w'))"

interpretation typed: data_frame keepsTypes
proof unfold_locales
  fix k v w
  assume v: "hasType k v"
  show "keepsTypes w (endState (onData (setValue k v) w))"
  proof (cases "w_data w")
    case (Some m)
    then show ?thesis using typedCtx_put [OF _ v] by (simp add: keepsTypes_def onData_def)
  qed (simp add: keepsTypes_def typedCtx_def)
qed (auto simp: keepsTypes_def)

text \<open>
  What happens on a connection, in any order: a request goes through the filters, the upstream side reads the request body
  and dials, the client reads the response body, the response was written (with an error or without), a TLS interception ended, the client
  goes away, the receiver of the session gets a message.
\<close>

datatype connOp = OpRequest filterConf "http_request \<times> reader" | OpReadRequest nat wrappedRequestBody
  | OpReadResponse nat nat wrappedResponseBody | OpWritten "go_error option" | OpMITM "go_error option"
  | OpDial dialEnv string bool string string | OpClientGone | OpReceive

fun runConnOp :: "env \<Rightarrow> (reqBody, reader) nextFilter \<Rightarrow> connOp \<Rightarrow> world \<Rightarrow> world" where
  "runConnOp E upstream (OpRequest cf req) w = endState (filterChain E cf upstream req w)"
| "runConnOp E upstream (OpReadRequest n b) w = endState (requestReads E n b w)"
| "runConnOp E upstream (OpReadResponse k n b) w = endState (responseReads E k n b w)"
| "runConnOp E upstream (OpWritten err) w = endState (WriteResponseInterceptor E err w)"
| "runConnOp E upstream (OpMITM err) w = endState (forwardMITMError err w)"
| "runConnOp E upstream (OpDial D nextProxy isConnect network addr) w = endState (Dial D nextProxy isConnect network addr w)"
| "runConnOp E upstream OpClientGone w = bccClientGone E w"
| "runConnOp E upstream OpReceive w = recvStep E w"

lemma runConnOp_keeps:
  assumes "\<And>r w. keepsTypes w (endState (upstream r w))"
  shows "keepsTypes w (runConnOp E upstream op w)"
  by (cases op) (simp_all add: typed.filterChain_keeps [OF assms] typed.requestReads_keeps typed.responseReads_keeps
      typed.interceptor_keeps typed.Dial_keeps typed.clientGone_keeps typed.recvStep_keeps typed.errorIfNotExists_keeps
      forwardMITMError_def typed.refl)

text \<open>
  C13: The context data of a connection stays well typed: whatever happens on the connection, in whatever order, from the context
  \<open>RecordProxyDataAware\<close> makes, the map is there, so no setter panics, and every key either has no value or one of the type that
  its getter asserts, so no getter takes a value it finds for a missing one.
\<close>

theorem context_data_typed:
  assumes "\<forall>r w. keepsTypes w (endState (upstream r w))"
    and "w_data w = RecordProxyDataAware None"
  shows "typedCtx (w_data (fold (runConnOp E upstream) ops w))"
proof -
  have "keepsTypes w (fold (runConnOp E upstream) ops w)"
  proof (induction ops arbitrary: w)
    case (Cons op ops)
    then show ?case using typed.trans [OF runConnOp_keeps [of upstream w E op] Cons.IH] assms(1) by simp
  qed (simp add: typed.refl)
  moreover have "typedCtx (w_data w)"
    by (simp add: assms(2) RecordProxyDataAware_def typedCtx_iff getValue_def mapIndex_def)
  ultimately show ?thesis by (simp add: keepsTypes_def)
qed

theorem context_data_typed_witness:
  "typedCtx (w_data (fold (runConnOp okEnv (\<lambda>r w. Done (Some (plainResponse 200, [] :: reader), None) w))
     [OpRequest (plainConf [RecvReply ReplyOther, RecvEOF]) (plainRequest ''GET'' (emptyUrl\<lparr>u_Scheme := ''http''\<rparr>), []),
      OpMITM (Some IoEOF), OpWritten None] ((startWorld [])\<lparr>w_data := Some []\<rparr>)))"
  by (rule context_data_typed) (simp_all add: keepsTypes_def RecordProxyDataAware_def)

end
