(* ===== verification/Test_Servers.thy ===== *)
theory Test_Servers
  imports Filters
begin

text \<open>
  \<open>testutil/test_servers.go\<close>: the HTTP servers the test suite fetches its pages from, with what of Go's
  \<open>net/http\<close> decides the answer: the multiplexer for fixed paths, \<open>http.NotFound\<close>, the headers a server adds to a
  response that fits its buffer, and the write timeout. The value of the \<open>Date\<close> header and the content type the server guesses
  from the body (\<open>http.DetectContentType\<close>) are parameters.
\<close>

section \<open>Handlers\<close>

text \<open>A wait is in nanoseconds, as a \<open>time.Duration\<close>. The last handler is the one of a multiplexer without a match.\<close>

datatype handler = ConstantHandler string | ConstantSlowHandler string int | ConstantCacheHandler string | NotFoundHandler

definition Millisecond :: int where
  "Millisecond = 1000000"

definition NewConstantSlowHandler :: "string \<Rightarrow> int \<Rightarrow> handler" where
  "NewConstantSlowHandler response waitMillis = ConstantSlowHandler response (Millisecond * waitMillis)"

text \<open>What a handler did with its \<open>ResponseWriter\<close>, and how long it slept.\<close>

record responseWriter =
  hw_slept :: int
  hw_status :: int
  hw_header :: header
  hw_body :: bytes

definition newResponseWriter :: responseWriter where
  "newResponseWriter = \<lparr>hw_slept = 0, hw_status = 200, hw_header = [], hw_body = []\<rparr>"

definition writeString :: "string \<Rightarrow> responseWriter \<Rightarrow> responseWriter" where
  "writeString s = hw_body_update (\<lambda>b. b @ s)"

definition withHeader :: "(header \<Rightarrow> header) \<Rightarrow> responseWriter \<Rightarrow> responseWriter" where
  "withHeader f = hw_header_update f"

fun ServeHTTP :: "handler \<Rightarrow> responseWriter \<Rightarrow> responseWriter" where
  "ServeHTTP (ConstantHandler h) w = writeString h w"
| "ServeHTTP (ConstantSlowHandler h waitTime) w = writeString h (hw_slept_update (\<lambda>t. t + waitTime) w)"
| "ServeHTTP (ConstantCacheHandler h) w =
     (let w = withHeader (\<lambda>hd. headerSet hd ''X-Cache'' ''HIT from veidemann_cache:1234'') w;
          w = withHeader (\<lambda>hd. headerAdd hd ''X-Cache'' ''MISS'') w;
          w = withHeader (\<lambda>hd. headerSet hd ''X-Cache-Lookup'' ''HIT from veidemann_cache:1234'') w
      in writeString h w)"
| "ServeHTTP NotFoundHandler w =
     writeString (''404 page not found'' @ [CHR 0x0A]) (hw_status_update (\<lambda>_. 404)
       (withHeader (\<lambda>hd. headerSet (headerSet hd ''Content-Type'' ''text/plain; charset=utf-8'') ''X-Content-Type-Options'' ''nosniff'') w))"

section \<open>Servers\<close>

type_synonym serveMux = "(string \<times> handler) list"

definition muxHandler :: "serveMux \<Rightarrow> string \<Rightarrow> handler" where
  "muxHandler mux path = (case map_of mux path of Some h \<Rightarrow> h | None \<Rightarrow> NotFoundHandler)"

text \<open>A server; a write timeout of 0 is none, and \<open>srv_certified\<close> says whether it has a certificate a client can use.\<close>

record testServer =
  srv_URL :: string
  srv_mux :: serveMux
  srv_certified :: bool
  srv_WriteTimeout :: int

text \<open>\<open>strings.Replace\<close> with one replacement; \<open>parse\<close> is \<open>url.Parse\<close>, whose nil result panics (\<open>None\<close>).\<close>

fun replaceFirst :: "string \<Rightarrow> string \<Rightarrow> string \<Rightarrow> string" where
  "replaceFirst old new s = (if hasPrefix s old then new @ drop (length old) s
     else case s of [] \<Rightarrow> [] | c # s' \<Rightarrow> c # replaceFirst old new s')"

declare replaceFirst.simps [simp del]

definition replaceIpWithHostname :: "(string \<Rightarrow> url option) \<Rightarrow> testServer \<Rightarrow> testServer option" where
  "replaceIpWithHostname parse server = (case parse (srv_URL server) of
     None \<Rightarrow> None
   | Some u \<Rightarrow> Some (server\<lparr>srv_URL := replaceFirst (urlHostname u) ''localhost'' (srv_URL server)\<rparr>))"

text \<open>\<open>listen\<close> is the address \<open>net.Listen\<close> got, or \<open>None\<close> when it failed, which panics.\<close>

definition NewHttpServer :: "(string \<Rightarrow> url option) \<Rightarrow> string option \<Rightarrow> serveMux \<Rightarrow> testServer option" where
  "NewHttpServer parse listen mux = (case listen of
     None \<Rightarrow> None
   | Some addr \<Rightarrow> replaceIpWithHostname parse
       \<lparr>srv_URL = ''http://'' @ addr, srv_mux = mux, srv_certified = True, srv_WriteTimeout = 0\<rparr>)"

definition NewHttpsServer :: "(string \<Rightarrow> url option) \<Rightarrow> string option \<Rightarrow> serveMux \<Rightarrow> testServer option" where
  "NewHttpsServer parse listen mux = (case listen of
     None \<Rightarrow> None
   | Some addr \<Rightarrow> replaceIpWithHostname parse
       \<lparr>srv_URL = ''https://'' @ addr, srv_mux = mux, srv_certified = True, srv_WriteTimeout = 0\<rparr>)"

record httpServers =
  SrvHttp :: testServer
  SrvHttps :: testServer
  SrvHttpsBadCert :: testServer

definition httpContent :: string where "httpContent = ''content from http server''"
definition httpsContent :: string where "httpsContent = ''content from https server''"

text \<open>The paths both multiplexers have, with the content of the scheme.\<close>

definition commonPages :: "string \<Rightarrow> serveMux" where
  "commonPages content =
    [(''/replace'', ConstantHandler ''should be replaced''),
     (''/slow'', NewConstantSlowHandler content 600),
     (''/extraslow'', NewConstantSlowHandler content 1000),
     (''/cancel'', NewConstantSlowHandler content 600),
     (''/blocked'', NewConstantSlowHandler content 600),
     (''/bccerr'', ConstantHandler content),
     (''/cwerr'', ConstantHandler content),
     (''/cached'', ConstantCacheHandler content)]"

definition httpMux :: serveMux where
  "httpMux = (''/a'', ConstantHandler httpContent) # commonPages httpContent"

definition httpsMux :: serveMux where
  "httpsMux = (''/b'', ConstantHandler httpsContent) # commonPages httpsContent"

definition NewHttpServers ::
    "(string \<Rightarrow> url option) \<Rightarrow> string option \<Rightarrow> string option \<Rightarrow> string option \<Rightarrow> httpServers option" where
  "NewHttpServers parse l1 l2 l3 =
     (case (NewHttpServer parse l1 httpMux, NewHttpsServer parse l2 httpsMux, NewHttpsServer parse l3 httpsMux) of
        (Some http, Some https, Some bad) \<Rightarrow> Some \<lparr>SrvHttp = http\<lparr>srv_WriteTimeout := 800 * Millisecond\<rparr>,
          SrvHttps = https\<lparr>srv_WriteTimeout := 800 * Millisecond\<rparr>, SrvHttpsBadCert = bad\<lparr>srv_certified := False\<rparr>\<rparr>
      | _ \<Rightarrow> None)"

section \<open>Answers\<close>

text \<open>
  What the client of the server reads: \<open>Content-Length\<close> and \<open>Date\<close> are added, and the guessed \<open>Content-Type\<close> if there is none.
  A handler that slept past the write timeout leaves a closed connection, a server without a certificate fails the handshake.
\<close>

definition finishHeader :: "(bytes \<Rightarrow> string) \<Rightarrow> string \<Rightarrow> responseWriter \<Rightarrow> header" where
  "finishHeader sniff date w =
     (let h = headerSet (hw_header w) ''Content-Length'' (itoa (int (length (hw_body w))));
          h = (if headerValues h ''Content-Type'' = [] then headerSet h ''Content-Type'' (sniff (hw_body w)) else h)
      in headerSet h ''Date'' date)"

definition serverResponse :: "(bytes \<Rightarrow> string) \<Rightarrow> string \<Rightarrow> responseWriter \<Rightarrow> http_response" where
  "serverResponse sniff date w = \<lparr>rs_Status = itoa (hw_status w) @ '' '' @ statusText (hw_status w),
     rs_StatusCode = hw_status w, rs_ProtoMajor = 1, rs_ProtoMinor = 1, rs_Header = finishHeader sniff date w,
     rs_ContentLength = int (length (hw_body w))\<rparr>"

definition serverAnswer :: "(bytes \<Rightarrow> string) \<Rightarrow> string \<Rightarrow> testServer \<Rightarrow> string \<Rightarrow> (http_response \<times> bytes) option" where
  "serverAnswer sniff date srv path =
     (let w = ServeHTTP (muxHandler (srv_mux srv) path) newResponseWriter
      in if \<not> srv_certified srv then None
         else if srv_WriteTimeout srv \<noteq> 0 \<and> srv_WriteTimeout srv \<le> hw_slept w then None
         else Some (serverResponse sniff date w, hw_body w))"

text \<open>The size of the response record the proxy makes of an answer: a response from the cache is recorded without its body.\<close>

definition recordedSize :: "(http_response \<times> bytes) option \<Rightarrow> nat option" where
  "recordedSize a = map_option (\<lambda>(resp, body). length (writeResponseProlog resp) + (if isFromCache resp then 0 else length body)) a"

section \<open>The sizes of the records\<close>

lemma canonical_simps:
  "canonicalKey ''Content-Length'' = ''Content-Length''" "canonicalKey ''Content-Type'' = ''Content-Type''"
  "canonicalKey ''Date'' = ''Date''" "canonicalKey ''X-Cache'' = ''X-Cache''" "canonicalKey ''X-Cache-Lookup'' = ''X-Cache-Lookup''"
  "canonicalKey ''X-Content-Type-Options'' = ''X-Content-Type-Options''"
  by code_simp+

text \<open>A header value that is printed as it is.\<close>

definition printable :: "string \<Rightarrow> bool" where
  "printable v \<longleftrightarrow> trimString (map newlineToSpace v) = v"

lemma length_headerLine: "printable v \<Longrightarrow> length (headerLine k v) = length k + length v + 4"
  by (simp add: headerLine_def printable_def CRLF_def)

lemma printable_consts:
  "printable ''text/plain; charset=utf-8''" "printable ''HIT from veidemann_cache:1234''" "printable ''MISS''" "printable ''nosniff''"
  by (code_simp)+

lemma length_concat_map: "length (concat (map f xs)) = sum_list (map (\<lambda>x. length (f x)) xs)"
  by (induction xs) simp_all

lemma length_headerWrite:
  "length (headerWrite h) = sum_list (map (\<lambda>(k, vs). sum_list (map (\<lambda>v. length (headerLine k v)) vs)) h)"
proof -
  let ?f = "\<lambda>(k, vs). sum_list (map (\<lambda>v. length (headerLine k v)) vs)"
  have "length (headerWrite h) = sum_list (map ?f (sort_key fst h))"
    by (simp add: headerWrite_def length_concat_map split_def)
  also have "\<dots> = sum_mset (mset (map ?f (sort_key fst h)))" by (simp only: sum_mset_sum_list)
  also have "\<dots> = sum_mset (mset (map ?f h))" by simp
  finally show ?thesis by (simp only: sum_mset_sum_list)
qed

lemma length_responseProlog:
  assumes "statusText (rs_StatusCode r) = text" "text \<noteq> []" "rs_Status r = itoa (rs_StatusCode r) @ '' '' @ text"
    "rs_ProtoMajor r = 1" "rs_ProtoMinor r = 1"
  shows "length (writeResponseProlog r) = 14 + length (itoa03 (rs_StatusCode r)) + length text + length (headerWrite (rs_Header r))"
proof -
  have "trimPrefix (rs_Status r) (itoa (rs_StatusCode r) @ '' '') = text" "rs_Status r \<noteq> []" "length (itoa 1) = 1"
    using assms(3) by (simp_all add: trimPrefix_def hasPrefix_def, code_simp)
  then show ?thesis using assms(4,5) by (simp add: writeResponseProlog_def CRLF_def)
qed

lemma page_header:
  "hw_header w = [] \<Longrightarrow> finishHeader sniff date w = [(''Content-Length'', [itoa (int (length (hw_body w)))]),
     (''Content-Type'', [sniff (hw_body w)]), (''Date'', [date])]"
  by (simp add: finishHeader_def headerSet_def headerValues_def canonical_simps)

lemma status_simps: "statusText 200 = ''OK''" "statusText 404 = ''Not Found''" "length (itoa03 200) = 3" "length (itoa03 404) = 3"
  by code_simp+

lemma printable_itoa: "printable (itoa 24)" "printable (itoa 25)" "printable (itoa 18)" "printable (itoa 19)"
  "length (itoa 24) = 2" "length (itoa 25) = 2" "length (itoa 18) = 2" "length (itoa 19) = 2"
  by code_simp+

text \<open>The response of a page, of a page that is not there, and of a page from the cache.\<close>

lemma page_prolog:
  assumes "hw_header w = []" "hw_status w = 200" "printable date" "length date = 29" "sniff (hw_body w) = ''text/plain; charset=utf-8''"
    "length (hw_body w) = n" "length (itoa (int n)) = 2" "printable (itoa (int n))"
  shows "length (writeResponseProlog (serverResponse sniff date w)) = 117 \<and> \<not> isFromCache (serverResponse sniff date w)"
proof -
  have "length (headerWrite (rs_Header (serverResponse sniff date w))) = 98"
    using assms by (simp add: serverResponse_def page_header length_headerWrite length_headerLine printable_consts)
  moreover have "\<not> isFromCache (serverResponse sniff date w)"
    using assms(1) by (simp add: isFromCache_def serverResponse_def page_header headerValues_def)
  ultimately show ?thesis
    using length_responseProlog [of "serverResponse sniff date w" "''OK''"] assms(2) by (simp add: serverResponse_def status_simps)
qed

definition missing :: responseWriter where
  "missing = ServeHTTP NotFoundHandler newResponseWriter"

lemma missing_prolog:
  assumes "printable date" "length date = 29"
  shows "length (writeResponseProlog (serverResponse sniff date missing)) = 157 \<and> \<not> isFromCache (serverResponse sniff date missing)"
proof -
  have h: "rs_Header (serverResponse sniff date missing) = [(''Content-Type'', [''text/plain; charset=utf-8'']),
      (''X-Content-Type-Options'', [''nosniff'']), (''Content-Length'', [itoa 19]), (''Date'', [date])]"
    by (simp add: missing_def serverResponse_def finishHeader_def headerSet_def headerValues_def canonical_simps
        newResponseWriter_def writeString_def withHeader_def)
  have "length (headerWrite (rs_Header (serverResponse sniff date missing))) = 131"
    unfolding h using assms by (simp add: length_headerWrite length_headerLine printable_consts printable_itoa)
  moreover have "\<not> isFromCache (serverResponse sniff date missing)" by (simp add: isFromCache_def h headerValues_def)
  moreover have "hw_status missing = 404" by (simp add: missing_def newResponseWriter_def writeString_def withHeader_def)
  ultimately show ?thesis
    using length_responseProlog [of "serverResponse sniff date missing" "''Not Found''"] by (simp add: serverResponse_def status_simps)
qed

definition fromCache :: "string \<Rightarrow> responseWriter" where
  "fromCache content = ServeHTTP (ConstantCacheHandler content) newResponseWriter"

lemma cached_prolog:
  assumes "printable date" "length date = 29" "sniff content = ''text/plain; charset=utf-8''"
    "length content = n" "length (itoa (int n)) = 2" "printable (itoa (int n))"
  shows "length (writeResponseProlog (serverResponse sniff date (fromCache content))) = 219 \<and> isFromCache (serverResponse sniff date (fromCache content))"
proof -
  let ?hit = "''HIT from veidemann_cache:1234''"
  have h: "rs_Header (serverResponse sniff date (fromCache content)) = [(''X-Cache'', [?hit, ''MISS'']), (''X-Cache-Lookup'', [?hit]),
      (''Content-Length'', [itoa (int n)]), (''Content-Type'', [''text/plain; charset=utf-8'']), (''Date'', [date])]"
    using assms(3,4) by (simp add: fromCache_def serverResponse_def finishHeader_def headerSet_def headerAdd_def headerValues_def
        canonical_simps newResponseWriter_def writeString_def withHeader_def)
  have "length (headerWrite (rs_Header (serverResponse sniff date (fromCache content)))) = 200"
    unfolding h using assms by (simp add: length_headerWrite length_headerLine printable_consts)
  moreover have "contains ?hit ''HIT from veidemann_cache''" by code_simp
  moreover have "hw_status (fromCache content) = 200"
    by (simp add: fromCache_def newResponseWriter_def writeString_def withHeader_def)
  ultimately show ?thesis
    using length_responseProlog [of "serverResponse sniff date (fromCache content)" "''OK''"]
    by (simp add: serverResponse_def status_simps isFromCache_def h [unfolded serverResponse_def, simplified] headerValues_def)
qed

lemma servers_made:
  assumes "NewHttpServers parse l1 l2 l3 = Some s"
  shows "srv_mux (SrvHttp s) = httpMux" "srv_mux (SrvHttps s) = httpsMux" "srv_mux (SrvHttpsBadCert s) = httpsMux"
    "srv_certified (SrvHttp s)" "srv_certified (SrvHttps s)" "\<not> srv_certified (SrvHttpsBadCert s)"
    "srv_WriteTimeout (SrvHttp s) = 800000000" "srv_WriteTimeout (SrvHttps s) = 800000000"
  using assms by (auto simp: NewHttpServers_def NewHttpServer_def NewHttpsServer_def replaceIpWithHostname_def Millisecond_def
      split: option.splits)

definition pageOf :: "string \<Rightarrow> int \<Rightarrow> responseWriter" where
  "pageOf content slept = newResponseWriter\<lparr>hw_slept := slept, hw_body := content\<rparr>"

lemma page_size:
  assumes "printable date" "length date = 29" "sniff content = ''text/plain; charset=utf-8''" "length content = n"
    "length (itoa (int n)) = 2" "printable (itoa (int n))"
  shows "recordedSize (Some (serverResponse sniff date (pageOf content t), content)) = Some (117 + n)"
  using page_prolog [of "pageOf content t" date sniff n] assms by (simp add: recordedSize_def pageOf_def newResponseWriter_def)

text \<open>The answer of a server for each kind of handler.\<close>

lemma answer_handler:
  assumes "srv_certified srv" "srv_WriteTimeout srv = 800000000"
  shows "muxHandler (srv_mux srv) path = ConstantHandler c \<Longrightarrow>
      serverAnswer sniff date srv path = Some (serverResponse sniff date (pageOf c 0), c)"
    "muxHandler (srv_mux srv) path = ConstantSlowHandler c t \<Longrightarrow>
      serverAnswer sniff date srv path = (if 800000000 \<le> t then None else Some (serverResponse sniff date (pageOf c t), c))"
    "muxHandler (srv_mux srv) path = NotFoundHandler \<Longrightarrow>
      serverAnswer sniff date srv path = Some (serverResponse sniff date missing, ''404 page not found'' @ [CHR 0x0A])"
    "muxHandler (srv_mux srv) path = ConstantCacheHandler c \<Longrightarrow>
      serverAnswer sniff date srv path = Some (serverResponse sniff date (fromCache c), c)"
  using assms by (simp_all add: serverAnswer_def Let_def pageOf_def newResponseWriter_def writeString_def withHeader_def missing_def fromCache_def)

lemma mux_simps:
  "muxHandler httpMux ''/a'' = ConstantHandler httpContent" "muxHandler httpsMux ''/b'' = ConstantHandler httpsContent"
  "muxHandler httpMux ''/slow'' = ConstantSlowHandler httpContent 600000000"
  "muxHandler httpsMux ''/slow'' = ConstantSlowHandler httpsContent 600000000"
  "muxHandler httpMux ''/c'' = NotFoundHandler" "muxHandler httpsMux ''/c'' = NotFoundHandler"
  "muxHandler httpMux ''/replace'' = ConstantHandler ''should be replaced''"
  "muxHandler httpsMux ''/replace'' = ConstantHandler ''should be replaced''"
  "muxHandler httpMux ''/cached'' = ConstantCacheHandler httpContent" "muxHandler httpsMux ''/cached'' = ConstantCacheHandler httpsContent"
  "muxHandler httpMux ''/extraslow'' = ConstantSlowHandler httpContent 1000000000"
  "muxHandler httpsMux ''/extraslow'' = ConstantSlowHandler httpsContent 1000000000"
  by (simp_all add: muxHandler_def httpMux_def httpsMux_def commonPages_def NewConstantSlowHandler_def Millisecond_def)


text \<open>An address of the loopback interface, as the URL parser reads it.\<close>

definition parseAddr :: "string \<Rightarrow> url option" where
  "parseAddr s = Some \<lparr>u_Scheme = ''http'', u_Opaque = [], u_User = None, u_Host = ''0.0.0.0:80'', u_EscPath = [],
     u_ForceQuery = False, u_RawQuery = [], u_Fragment = []\<rparr>"

definition sampleDate :: string where "sampleDate = ''Mon, 02 Jan 2006 15:04:05 GMT''"

lemma sampleDate_printable: "printable sampleDate" "length sampleDate = 29"
  by code_simp+


end
