(* ===== verification/Open_Session.thy ===== *)
theory Open_Session
  imports Request_Flow
begin

text \<open>
  A session whose services work: the services of the test suite (\<open>suiteServices\<close>), and what each operation of
  \<open>context/\<close> and of the bodies does to the state, to the last message, while both sessions are open.
\<close>

text \<open>The services as those of the test suite: they are reached, take every message, and the content writer answers as its mock does.\<close>

definition suiteServices :: "string \<Rightarrow> env \<Rightarrow> bool" where
  "suiteServices ip E \<longleftrightarrow> (\<forall>t. e_bcOpen E t = None) \<and> (\<forall>t r. e_bcSend E t r = None) \<and> (\<forall>t. e_cwOpen E t = None) \<and>
     sendsSucceed E \<and> (\<forall>t r. e_dns E t r = Inr ip) \<and>
     (\<forall>t sent a. cwMockRun sent newCwMock = Some a \<longrightarrow> e_cwClose E t sent = a)"

lemma suite_simps:
  assumes "suiteServices ip E"
  shows "e_bcOpen E t = None" "e_bcSend E t r = None" "e_cwOpen E t = None" "sendsSucceed E" "e_dns E t q = Inr ip"
    "cwMockRun sent newCwMock = Some a \<Longrightarrow> e_cwClose E t sent = a"
  using assms by (auto simp: suiteServices_def)

section \<open>The data of a connection\<close>

text \<open>
  The context data of a connection between two requests: no connect error, the base address of a CONNECT if there was one, a host
  with a port that can be read, and the address of the host once it is resolved. A new connection has no data.
\<close>

definition portOk :: "string \<Rightarrow> bool" where
  "portOk p \<longleftrightarrow> p = [] \<or> atoi p \<noteq> None"

definition connData :: "string \<Rightarrow> url option \<Rightarrow> dataCtx \<Rightarrow> bool" where
  "connData ip base d \<longleftrightarrow> d \<noteq> None \<and> GetConnectError d = None \<and> GetUri d = base \<and> (GetIp d = [] \<or> GetIp d = ip) \<and>
     GetHost d \<noteq> [] \<and> portOk (GetPort d)"

definition connReady :: "string \<Rightarrow> url option \<Rightarrow> url \<Rightarrow> dataCtx \<Rightarrow> bool" where
  "connReady ip base u d \<longleftrightarrow> connData ip base d \<or> d = Some [] \<and> base = None \<and> urlHostname u \<noteq> [] \<and> portOk (urlPort u)"

section \<open>Messages that are sent\<close>

definition sentBc :: "doRequest \<Rightarrow> world \<Rightarrow> world" where
  "sentBc r w = tick (w\<lparr>w_bcWire := w_bcWire w @ [r]\<rparr>)"

definition sentCw :: "writeRequest \<Rightarrow> world \<Rightarrow> world" where
  "sentCw r w = tick (w\<lparr>w_cwWire := w_cwWire w @ [r]\<rparr>)"

lemma sent_simps [simp]:
  "w_rc (sentBc q w) = w_rc w" "w_data (sentBc q w) = w_data w" "w_bcWire (sentBc q w) = w_bcWire w @ [q]"
  "w_cwWire (sentBc q w) = w_cwWire w" "w_bcIn (sentBc q w) = w_bcIn w" "OpenSessions (sentBc q w) = OpenSessions w"
  "w_rc (sentCw r w) = w_rc w" "w_data (sentCw r w) = w_data w" "w_bcWire (sentCw r w) = w_bcWire w"
  "w_cwWire (sentCw r w) = w_cwWire w @ [r]" "w_bcIn (sentCw r w) = w_bcIn w" "OpenSessions (sentCw r w) = OpenSessions w"
  by (simp_all add: sentBc_def sentCw_def OpenSessions_def)

lemma OpenSessions_simps [simp]:
  "OpenSessions (tick w) = OpenSessions w" "OpenSessions (setCwc c w) = OpenSessions w" "OpenSessions (setBcc b w) = OpenSessions w"
  "OpenSessions (updLog f w) = OpenSessions w" "OpenSessions (w_rc_update g w) = OpenSessions w"
  "OpenSessions (updRecordMeta n h w) = OpenSessions w"
  by (simp_all add: OpenSessions_def updRecordMeta_def)

text \<open>Both sessions are open and nothing has happened to them yet.\<close>

definition sessionsOpen :: "world \<Rightarrow> bool" where
  "sessionsOpen w \<longleftrightarrow> rc_bcc (w_rc w) = Some newBccSession \<and> rc_cwc (w_rc w) = Some newCwcSession"

lemma sessionsOpen_sent [simp]: "sessionsOpen (sentBc q w) = sessionsOpen w" "sessionsOpen (sentCw r w) = sessionsOpen w"
  by (simp_all add: sessionsOpen_def)

lemma lock_unlock:
  "rc_bcc (w_rc w) = Some b \<Longrightarrow> \<not> b_locked b \<Longrightarrow>
     updBcc (b_locked_update (\<lambda>_. False)) (sentBc q (setBcc (b\<lparr>b_locked := True\<rparr>) w)) = sentBc q w"
  by (simp add: updBcc_def setBcc_def sentBc_def tick_def)

lemma notify_sent:
  assumes "suiteServices ip E" "rc_bcc (w_rc w) = Some newBccSession"
  shows "notifyDataReceived E act w = Done None (sentBc (DoNotify act) w)"
proof -
  let ?l = "setBcc (newBccSession\<lparr>b_locked := True\<rparr>) w"
  have s: "bcSend E (DoNotify act) ?l = (None, sentBc (DoNotify act) ?l)"
    using assms(1) by (simp add: bcSend_def suite_simps sentBc_def)
  have n: "notifyLocked E act newBccSession ?l = Done None (sentBc (DoNotify act) ?l)"
    unfolding notifyLocked_def s by (simp add: newBccSession_def)
  have "withLock (notifyLocked E act) w = Done None (updBcc (b_locked_update (\<lambda>_. False)) (sentBc (DoNotify act) ?l))"
    by (rule withLock_Done [where f = "notifyLocked E act", OF assms(2) _ n]) (simp add: newBccSession_def)
  then show ?thesis
    using lock_unlock [OF assms(2)] assms(2) by (simp add: notifyDataReceived_def getBccSession_def newBccSession_def)
qed

lemma send_open:
  assumes "suiteServices ip E" "rc_cwc (w_rc w) = Some newCwcSession"
  shows "sendOnSession E r w = Done None (sentCw r w)"
  using sendOnSession_live [OF suite_simps(4) [OF assms(1)], of w r] assms(2)
  by (simp add: cwLive_def newCwcSession_def sentCw_def)

section \<open>The body\<close>

definition passChunk :: "int \<Rightarrow> bytes \<Rightarrow> world \<Rightarrow> world" where
  "passChunk n d w = (if d = [] then w else sentCw (ReqPayload n d) (sentBc (DoNotify DATA_RECEIVED) w))"

definition notices :: "reader \<Rightarrow> doRequest list" where
  "notices xs = map (\<lambda>_. DoNotify DATA_RECEIVED) (filter (\<lambda>x. fst x \<noteq> []) xs)"

lemma passChunk_simps [simp]:
  "w_rc (passChunk n d w) = w_rc w" "w_data (passChunk n d w) = w_data w" "w_bcIn (passChunk n d w) = w_bcIn w"
  "w_bcWire (passChunk n d w) = w_bcWire w @ notices [(d, None)]" "w_cwWire (passChunk n d w) = w_cwWire w @ payloadMsgs n d"
  "OpenSessions (passChunk n d w) = OpenSessions w" "sessionsOpen (passChunk n d w) = sessionsOpen w"
  by (simp_all add: passChunk_def notices_def payloadMsgs_def)

lemma recordChunk_open:
  assumes "suiteServices ip E" "sessionsOpen w" "\<not> rc_FoundInCache (w_rc w)"
  shows "recordChunk E d b w = Done (addChunk d b) (passChunk (p_recNum b) d w)"
  using assms notify_sent [OF assms(1)] send_open [OF assms(1)]
  by (simp add: recordChunk_def NotifyDataReceived_def SendPayload_def passChunk_def addChunk_def sessionsOpen_def)

lemma innerReadStep_open:
  assumes "suiteServices ip E" "sessionsOpen w" "\<not> rc_FoundInCache (w_rc w)" "\<not> p_eof b" "e \<noteq> Some IoEOF"
  shows "innerReadStep E (d, e) b w = Done ((d, e), addChunk d b) (passChunk (p_recNum b) d w)"
  using assms(4,5) recordChunk_open [OF assms(1-3)] by (simp add: innerReadStep_def)

definition passBody :: "int \<Rightarrow> reader \<Rightarrow> world \<Rightarrow> world" where
  "passBody n xs w = foldl (\<lambda>w x. passChunk n (fst x) w) w xs"

lemma passBody_simps [simp]:
  "passBody n [] w = w" "passBody n (x # xs) w = passBody n xs (passChunk n (fst x) w)"
  by (simp_all add: passBody_def)

lemma passBody_keeps [simp]:
  "w_rc (passBody n xs w) = w_rc w" "w_data (passBody n xs w) = w_data w" "w_bcIn (passBody n xs w) = w_bcIn w"
  "OpenSessions (passBody n xs w) = OpenSessions w" "sessionsOpen (passBody n xs w) = sessionsOpen w"
  "w_cwWire (passBody n xs w) = w_cwWire w @ streamMsgs n xs"
  by (induction xs arbitrary: w) simp_all

lemma passBody_bcWire [simp]: "w_bcWire (passBody n xs w) = w_bcWire w @ notices xs"
  by (induction xs arbitrary: w) (auto simp: notices_def passChunk_def)


lemma reads_open:
  assumes "suiteServices ip E" "sessionsOpen w" "\<not> rc_FoundInCache (w_rc w)" "rc_ReplacementScript (w_rc w) = None"
    "\<not> p_eof b" "p_ReadCloser b = xs @ ys" "endsOnce xs"
  shows "\<exists>b'. responseReads E k (length xs + n) b w =
       andThen (responseReads E k n b' (passBody (p_recNum b) xs w)) (\<lambda>(outs, b) w. Done (xs @ outs, b) w) \<and>
     p_recNum b' = p_recNum b \<and> \<not> p_eof b' \<and> p_ReadCloser b' = ys \<and> p_blockCrc b' = p_blockCrc b @ chunksOf xs \<and>
     (sizeExact b \<longrightarrow> sizeExact b')"
  using assms(2-)
proof (induction xs arbitrary: b w)
  case Nil
  have "andThen m (\<lambda>(outs, b) w. Done ([] @ outs, b) w) = m" for m :: "((bytes \<times> go_error option) list \<times> wrappedResponseBody, world) run"
    by (cases m) auto
  then show ?case using Nil by (intro exI [of _ b]) simp
next
  case (Cons x xs)
  let ?b = "addChunk (fst x) (b\<lparr>p_ReadCloser := xs @ ys\<rparr>)" and ?w = "passChunk (p_recNum b) (fst x) w"
  have "innerReadStep E x (b\<lparr>p_ReadCloser := xs @ ys\<rparr>) w = Done (x, ?b) ?w"
    using innerReadStep_open [OF assms(1) Cons.prems(1,2), of "b\<lparr>p_ReadCloser := xs @ ys\<rparr>" "snd x" "fst x"] Cons.prems(4,6)
    by (simp add: endsOnce_def)
  then have r: "responseBodyRead E k b w = Done (x, ?b) ?w"
    using responseBodyRead_plain [OF Cons.prems(3)] Cons.prems(5) by simp
  have sz: "sizeExact b \<Longrightarrow> sizeExact ?b" by simp
  have pre: "sessionsOpen ?w" "\<not> rc_FoundInCache (w_rc ?w)" "rc_ReplacementScript (w_rc ?w) = None" "\<not> p_eof ?b"
    "p_ReadCloser ?b = xs @ ys" "endsOnce xs"
    using Cons.prems by (simp_all add: endsOnce_def)
  obtain b' where b': "responseReads E k (length xs + n) ?b ?w =
       andThen (responseReads E k n b' (passBody (p_recNum ?b) xs ?w)) (\<lambda>(outs, b) w. Done (xs @ outs, b) w)"
     "p_recNum b' = p_recNum ?b" "\<not> p_eof b'" "p_ReadCloser b' = ys" "p_blockCrc b' = p_blockCrc ?b @ chunksOf xs"
     "sizeExact ?b \<longrightarrow> sizeExact b'"
    using Cons.IH [OF pre] by blast
  show ?case using r b' sz by (intro exI [of _ b']) (simp add: run_simps split_beta)
qed

section \<open>The end of the body\<close>

definition metaSent :: "writeMeta \<Rightarrow> world \<Rightarrow> world" where
  "metaSent m w = setCwc \<lparr>cw_done = True, cw_canceled = False, cw_Closed = True, cw_CtxDone = True\<rparr> (tick (sentCw (ReqMeta m) w))"

lemma SendMeta_open:
  assumes "suiteServices ip E" "sessionsOpen w" "rc_Meta (w_rc w) = Some m"
    "cwMockRun (w_cwWire w @ [ReqMeta m]) newCwMock = Some a"
  shows "SendMeta E w = Done (map_sum id Some a) (metaSent m w)"
proof -
  let ?w = "setCwc (newCwcSession\<lparr>cw_done := True\<rparr>) w"
  have s: "cwSend E (ReqMeta m) ?w = (None, sentCw (ReqMeta m) ?w)"
    using suite_simps(4) [OF assms(1)] by (simp add: cwSend_def cwStreamClosed_def sendsSucceed_def newCwcSession_def sentCw_def)
  have c: "cwCloseAndRecv E (sentCw (ReqMeta m) ?w) =
      (a, setCwc (newCwcSession\<lparr>cw_done := True, cw_Closed := True\<rparr>) (tick (sentCw (ReqMeta m) ?w)))"
    using suite_simps(6) [OF assms(1,4)] by (simp add: cwCloseAndRecv_def updCwc_def newCwcSession_def)
  have "cwCtxCancel (setCwc (newCwcSession\<lparr>cw_done := True, cw_Closed := True\<rparr>) (tick (sentCw (ReqMeta m) ?w))) = metaSent m w"
    by (simp add: cwCtxCancel_def updCwc_def metaSent_def setCwc_def newCwcSession_def sentCw_def tick_def)
  then show ?thesis using assms(2,3) s c
    by (cases a) (simp_all add: SendMeta_def getCwcSession_def sendMetaStep_def sessionsOpen_def newCwcSession_def)
qed

definition completed :: "world \<Rightarrow> world" where
  "completed w = setBcc (newBccSession\<lparr>b_complete := Some \<lparr>cm_cl = rc_CrawlLog (w_rc w), cm_err = None\<rparr>\<rparr>) w"

lemma SaveCrawlLog_open:
  "rc_bcc (w_rc w) = Some newBccSession \<Longrightarrow> SaveCrawlLog E w = Done None (completed w)"
  by (simp add: SaveCrawlLog_def getBccSession_def withLock_def updBcc_def saveLocked_def completeSend_def newBccSession_def completed_def
      setBcc_def)

lemma responseBodyEOF_meta:
  assumes "suiteServices ip E" "sessionsOpen w" "\<not> rc_FoundInCache (w_rc w)" "rc_Meta (w_rc w) = Some m" "sizeExact b"
  defines "m' \<equiv> closeMeta (p_recNum b) (p_blockCrc b) m"
  assumes "cwMockRun (w_cwWire w @ [ReqMeta m']) newCwMock = Some a"
  shows "responseBodyEOF E b w = afterMeta E b (blockDigestOf (p_blockCrc b)) (map_sum id Some a)
     (metaSent m' (w_rc_update (rc_Meta_update (\<lambda>_. Some m')) (sentBc (DoNotify ALL_DATA_RECEIVED) w)))"
proof -
  have n: "NotifyAllDataReceived E w = Done None (sentBc (DoNotify ALL_DATA_RECEIVED) w)"
    using notify_sent [OF assms(1), of w ALL_DATA_RECEIVED] assms(2) by (simp add: NotifyAllDataReceived_def sessionsOpen_def)
  let ?w = "w_rc_update (rc_Meta_update (\<lambda>_. Some m')) (sentBc (DoNotify ALL_DATA_RECEIVED) w)"
  have u: "updRecordMeta (p_recNum b) (\<lambda>m. m\<lparr>rm_Size := p_size b, rm_BlockDigest := blockDigestOf (p_blockCrc b)\<rparr>)
      (sentBc (DoNotify ALL_DATA_RECEIVED) w) = ?w"
    using assms(4,5) by (simp add: updRecordMeta_def m'_def closeMeta_def sizeExact_def sentBc_def tick_def)
  have o: "sessionsOpen ?w" "rc_Meta (w_rc ?w) = Some m'" "w_cwWire ?w = w_cwWire w"
    using assms(2) by (simp_all add: sessionsOpen_def)
  have "SendMeta E ?w = Done (map_sum id Some a) (metaSent m' ?w)"
    using SendMeta_open [OF assms(1) o(1,2)] assms(7) o(3) by simp
  then show ?thesis using n u assms(3) by (simp add: responseBodyEOF_def Let_def)
qed

lemma responseBodyEOF_open:
  assumes "suiteServices ip E" "sessionsOpen w" "\<not> rc_FoundInCache (w_rc w)" "rc_Meta (w_rc w) = Some m" "sizeExact b"
  defines "m' \<equiv> closeMeta (p_recNum b) (p_blockCrc b) m"
  assumes "cwMockRun (w_cwWire w @ [ReqMeta m']) newCwMock = Some (Inr (Some metas))" "map_of metas (p_recNum b) = Some r"
  shows "responseBodyEOF E b w = Done () (completed (updLog (applyWriteReply b (blockDigestOf (p_blockCrc b)) r)
     (metaSent m' (w_rc_update (rc_Meta_update (\<lambda>_. Some m')) (sentBc (DoNotify ALL_DATA_RECEIVED) w)))))"
proof -
  let ?w = "metaSent m' (w_rc_update (rc_Meta_update (\<lambda>_. Some m')) (sentBc (DoNotify ALL_DATA_RECEIVED) w))"
  have "rc_bcc (w_rc (updLog (applyWriteReply b (blockDigestOf (p_blockCrc b)) r) ?w)) = Some newBccSession"
    using assms(2) by (simp add: metaSent_def sessionsOpen_def)
  from SaveCrawlLog_open [OF this] show ?thesis
    using responseBodyEOF_meta [OF assms(1-5) assms(7) [unfolded m'_def]] assms(8) by (simp add: afterMeta_def m'_def)
qed

text \<open>A content writer that rejects the records: the error becomes the completion of the session.\<close>

definition writeRejected :: "go_error \<Rightarrow> go_error" where
  "writeRejected e = ProxyError RuntimeException ''Error writing to content writer'' (errText e) (Some e) StatusServiceUnavailable"

definition rejectedWith :: "go_error \<Rightarrow> world \<Rightarrow> world" where
  "rejectedWith e w = setBcc (newBccSession\<lparr>b_complete := Some \<lparr>cm_cl = responseErrorLog e (rc_CrawlLog (w_rc w)), cm_err = Some e\<rparr>\<rparr>)
     (updLog (responseErrorLog e) w)"

lemma responseBodyEOF_rejected:
  assumes "suiteServices ip E" "sessionsOpen w" "\<not> rc_FoundInCache (w_rc w)" "rc_Meta (w_rc w) = Some m" "sizeExact b"
  defines "m' \<equiv> closeMeta (p_recNum b) (p_blockCrc b) m"
  assumes "cwMockRun (w_cwWire w @ [ReqMeta m']) newCwMock = Some (Inl e)"
  shows "responseBodyEOF E b w = Done () (rejectedWith (writeRejected e)
     (metaSent m' (w_rc_update (rc_Meta_update (\<lambda>_. Some m')) (sentBc (DoNotify ALL_DATA_RECEIVED) w))))"
proof -
  let ?w = "metaSent m' (w_rc_update (rc_Meta_update (\<lambda>_. Some m')) (sentBc (DoNotify ALL_DATA_RECEIVED) w))"
  have "rc_bcc (w_rc ?w) = Some newBccSession" using assms(2) by (simp add: metaSent_def sessionsOpen_def)
  then have "SendResponseError E (writeMetaError e) ?w = Done (Some (writeRejected e)) (rejectedWith (writeRejected e) ?w)"
    by (simp add: SendResponseError_def writeMetaError_def Wrap_def getBccSession_def withLock_def updBcc_def sendErrorLocked_def Let_def
        completeSend_def newBccSession_def rejectedWith_def writeRejected_def)
      (simp add: updLog_def setBcc_def)
  then show ?thesis
    using responseBodyEOF_meta [OF assms(1-5) assms(7) [unfolded m'_def]] by (simp add: afterMeta_def m'_def)
qed

section \<open>The end of the session\<close>

lemma stampLog_setBcc [simp]: "stampLog E (setBcc b w) = stampLog E w"
  by (simp add: stampLog_def fun_eq_iff setBcc_def)

text \<open>A session that has its completion and whose receiver has at most the end of its stream to take.\<close>

definition readyToEnd :: "completeMsg \<Rightarrow> world \<Rightarrow> bool" where
  "readyToEnd m w \<longleftrightarrow> (\<exists>b. rc_bcc (w_rc w) = Some b \<and> b_complete b = Some m \<and> \<not> b_locked b \<and> b_loop b = LoopSelect \<and>
     (b_recv b = Receiving \<and> w_bcIn w = [RecvEOF] \<or> b_recv b = RecvReturned)) \<and> GetRecordContext (w_data w) \<noteq> None"

lemma finish_open:
  assumes "suiteServices ip E" "readyToEnd m w"
  shows "\<exists>w' b'. finish E w = Done () w' \<and>
     w_bcWire w' = w_bcWire w @ [DoCompleted (stampLog E w (cm_cl m)) (rc_FoundInCache (w_rc w))] \<and>
     w_cwWire w' = w_cwWire w \<and> rc_cwc (w_rc w') = rc_cwc (w_rc w) \<and> OpenSessions w' = OpenSessions w - 1 \<and>
     rc_bcc (w_rc w') = Some b' \<and> b_CtxDone b' \<and> GetRecordContext (w_data w') = None \<and>
     connData ip' base (w_data w') = connData ip' base (w_data w)"
proof -
  have d: "w_data w \<noteq> None" using assms(2) by (cases "w_data w") (simp_all add: readyToEnd_def GetRecordContext_def getValue_def)
  show ?thesis using assms(2) d
    by (auto simp: readyToEnd_def finish_def withLock_def updBcc_def finishBody_def saveCrawlLogUnlocked_def bcSend_def
        suite_simps [OF assms(1)] drainMsgs.simps offer_def Let_def SetRecordContext_def onData_setValue getter_defs OpenSessions_def connData_def)
qed

section \<open>The registration\<close>

text \<open>What is kept and changed by a registration that is accepted.\<close>

definition admittedBy :: "newReply \<Rightarrow> recvResult list \<Rightarrow> world \<Rightarrow> world \<Rightarrow> bool" where
  "admittedBy v evs w w' \<longleftrightarrow> rc_bcc (w_rc w') = Some newBccSession \<and> w_bcIn w' = evs \<and> OpenSessions w' = OpenSessions w \<and>
     rc_CrawlLog (w_rc w') = (rc_CrawlLog (w_rc w))\<lparr>cl_JobExecutionId := nr_JobExecutionId v, cl_ExecutionId := nr_CrawlExecutionId v\<rparr> \<and>
     GetCollectionRef (w_data w') = nr_CollectionRef v \<and> rc_FetchTime (w_rc w') = rc_FetchTime (w_rc w) \<and>
     (\<forall>ip base. connData ip base (w_data w') = connData ip base (w_data w)) \<and> replyTaken v w w'"

lemma register_open:
  assumes "suiteServices ip E" "rc_bcc (w_rc w) = None" "w_data w \<noteq> None" "w_bcIn w = RecvReply (ReplyNew v) # evs"
    "nr_CollectionRef v \<noteq> None"
  shows "\<exists>w'. RegisterNewRequest E w = Done None w' \<and> admittedBy v evs w w'"
proof -
  note E = suite_simps [OF assms(1)]
  let ?l = "setBcc (newBccSession\<lparr>b_locked := True\<rparr>) (setBcc newBccSession (tick w))"
  let ?s = "tick (?l\<lparr>w_bcWire := w_bcWire w @ [newRequestMsg w]\<rparr>)"
  let ?o = "setBcc (newBccSession\<lparr>b_locked := True\<rparr>) (offer (Some (ReplyNew v)) False (?s\<lparr>w_bcIn := evs\<rparr>))"
  let ?k = "setKey KeyCollectionRef (RefVal (nr_CollectionRef v)) (setKey KeyCrawlExecutionId (StringVal (nr_CrawlExecutionId v))
      (setKey KeyJobExecutionId (StringVal (nr_JobExecutionId v)) ?o))"
  let ?n = "updLog (\<lambda>cl. cl\<lparr>cl_JobExecutionId := GetJobExecutionId (w_data ?k), cl_ExecutionId := GetCrawlExecutionId (w_data ?k)\<rparr>)
     (w_rc_update (rc_ReplacementScript_update (\<lambda>_. nr_ReplacementScript v)) ?k)"
  have msg: "newRequestMsg ?l = newRequestMsg w" by (simp add: newRequestMsg_def setBcc_def)
  have send: "bcSend E (newRequestMsg w) ?l = (None, ?s)" by (simp add: bcSend_def E)
  have await: "awaitMsg E (w_bcIn ?s) ?s = Done (Some (ReplyNew v), True) ?o"
    using assms(4) by (simp add: awaitMsg.simps offer_def updBcc_def newBccSession_def)
  have d: "w_data ?o \<noteq> None" using assms(3) by (simp add: offer_def updBcc_keeps)
  have new: "applyNewReply v ?o = Done None ?n" using d assms(5) by (simp add: applyNewReply_def data_ops)
  have b: "rc_bcc (w_rc ?n) = Some (newBccSession\<lparr>b_locked := True\<rparr>)" by simp
  have "registerLocked E newBccSession ?l = Done None ?n"
    using send await new msg by (simp add: registerLocked_def newBccSession_def)
  then have "withLock (registerLocked E) (setBcc newBccSession (tick w)) = Done None (updBcc (b_locked_update (\<lambda>_. False)) ?n)"
    by (intro withLock_Done [where b = newBccSession]) (simp_all add: newBccSession_def)
  then have "RegisterNewRequest E w = Done None (updBcc (b_locked_update (\<lambda>_. False)) ?n)"
    using assms(2) E(1) by (simp add: RegisterNewRequest_def getBccSession_def)
  moreover have "replyTaken v w (updBcc (b_locked_update (\<lambda>_. False)) ?n)"
    using d by (simp add: replyTaken_def updBcc_keeps offer_def getter_defs)
  moreover have "admittedBy v evs w (updBcc (b_locked_update (\<lambda>_. False)) ?n)"
    using calculation(2) d b by (simp add: admittedBy_def updBcc_def OpenSessions_def offer_def newBccSession_def getter_defs setBcc_def updLog_def connData_def)
  ultimately show ?thesis by blast
qed

end
