(* ===== verification/Open_Request.thy ===== *)
theory Open_Request
  imports Open_Session
begin

text \<open>
  The first request of a connection with working services, from the client through the filters to the server and back to the
  recorder, with the exact state it leaves.
\<close>

section \<open>From the client to the recorder\<close>

lemma initRecord_log:
  assumes "initRecord E cf req uri w = Done r w'" "w_data w \<noteq> None"
  shows "rc_Method (w_rc w') = rq_Method req" "rc_CrawlLog (w_rc w') = emptyCrawlLog\<lparr>
     cl_JobExecutionId := GetJobExecutionId (w_data w'), cl_ExecutionId := GetCrawlExecutionId (w_data w'),
     cl_FetchTimeStamp := rc_FetchTime (w_rc w'), cl_RequestedUri := urlString uri, cl_Method := rq_Method req,
     cl_IpAddress := GetIp (w_data w)\<rparr>" "rc_ProxyId (w_rc w') = f_proxyId cf" "OpenSessions w' = OpenSessions w + 1"
proof -
  have d: "w_data (NewRecordContext (f_incoming cf) w) = w_data w" by (simp add: NewRecordContext_def)
  show "rc_Method (w_rc w') = rq_Method req" "rc_CrawlLog (w_rc w') = emptyCrawlLog\<lparr>
     cl_JobExecutionId := GetJobExecutionId (w_data w'), cl_ExecutionId := GetCrawlExecutionId (w_data w'),
     cl_FetchTimeStamp := rc_FetchTime (w_rc w'), cl_RequestedUri := urlString uri, cl_Method := rq_Method req,
     cl_IpAddress := GetIp (w_data w)\<rparr>" "rc_ProxyId (w_rc w') = f_proxyId cf" "OpenSessions w' = OpenSessions w + 1"
    using assms by (auto simp: initRecord_def rcInit_def resolveIdsFromHttpHeader_def Let_def data_ops d
        NewRecordContext_def blankRecordContext_def OpenSessions_def split: if_splits)
qed

text \<open>The crawl log of a request when it is sent upstream; \<open>t\<close> has the time of the fetch and the address as far as it is known by then.\<close>

definition startLog :: "http_request \<Rightarrow> url \<Rightarrow> newReply \<Rightarrow> int \<times> string \<Rightarrow> crawlLog" where
  "startLog req uri v t = emptyCrawlLog\<lparr>cl_JobExecutionId := nr_JobExecutionId v, cl_ExecutionId := nr_CrawlExecutionId v,
     cl_FetchTimeStamp := fst t, cl_RequestedUri := urlString uri, cl_Method := rq_Method req, cl_IpAddress := snd t\<rparr>"

text \<open>The state in which the recorder gets a request.\<close>

definition admitted :: "string \<Rightarrow> url option \<Rightarrow> filterConf \<Rightarrow> http_request \<Rightarrow> url \<Rightarrow> newReply \<Rightarrow> recvResult list \<Rightarrow> int \<Rightarrow> world \<Rightarrow> bool" where
  "admitted ip base cf req u v evs n w \<longleftrightarrow> acceptedState v u w \<and> rc_bcc (w_rc w) = Some newBccSession \<and> w_bcIn w = evs \<and>
     OpenSessions w = n + 1 \<and> (\<exists>t. rc_CrawlLog (w_rc w) = startLog req u v t) \<and> GetIp (w_data w) = ip \<and> connData ip base (w_data w) \<and>
     (\<exists>rn. w_bcWire w = [DoNew rn] \<and> rn_Uri rn = urlString u \<and> rn_Method rn = rq_Method req \<and> rn_ProxyId rn = f_proxyId cf)"

lemma dns_open:
  assumes "suiteServices ip E" "w_data w \<noteq> None" "GetIp (w_data w) = [] \<or> GetIp (w_data w) = ip" "GetHost (w_data w) \<noteq> []"
    "portOk (GetPort (w_data w))"
  shows "\<exists>w'. DnsLookupFilter_Apply E nxt req w = nxt req w' \<and> (w' = w \<and> GetIp (w_data w) = ip \<or> w' = setKey KeyIp (StringVal ip) (tick w))"
proof (cases "GetIp (w_data w) = []")
  case True
  obtain p where "(if GetPort (w_data w) = [] then Some 0 else atoi (GetPort (w_data w))) = Some p"
    using assms(5) by (cases "GetPort (w_data w) = []") (auto simp: portOk_def)
  then have "dnsResolve E (GetHost (w_data w)) (GetPort (w_data w)) w = Done None (setKey KeyIp (StringVal ip) (tick w))"
    using assms(2) by (simp add: dnsResolve_def suite_simps [OF assms(1)] SetIp_def onData_setValue)
  then show ?thesis using True assms(4)
    by (intro exI [of _ "setKey KeyIp (StringVal ip) (tick w)"]) (simp add: DnsLookupFilter_Apply_def)
next
  case False
  then show ?thesis using assms(3) by (auto simp: DnsLookupFilter_Apply_def)
qed

text \<open>A request of a client, directly or within a tunnel, and its address.\<close>

definition clientRequest :: "filterConf \<Rightarrow> http_request \<Rightarrow> url \<Rightarrow> bool" where
  "clientRequest cf req u \<longleftrightarrow> rq_Method req \<noteq> MethodConnect \<and> rq_URL req = Some u \<and> (isAbs u \<or> f_IsMITMing cf)"

definition uriAt :: "url option \<Rightarrow> url \<Rightarrow> url" where
  "uriAt base u = (case base of Some b \<Rightarrow> resolveReference b u | None \<Rightarrow> u)"

text \<open>The state in which a request is registered.\<close>

definition atRegistration :: "string \<Rightarrow> url option \<Rightarrow> filterConf \<Rightarrow> http_request \<Rightarrow> url \<Rightarrow> int \<Rightarrow> world \<Rightarrow> bool" where
  "atRegistration ip base cf req u n w \<longleftrightarrow> rc_bcc (w_rc w) = None \<and> rc_cwc (w_rc w) = None \<and> w_cwWire w = [] \<and> w_bcWire w = [] \<and>
     w_bcIn w = f_incoming cf \<and> GetRecordContext (w_data w) \<noteq> None \<and> connData ip base (w_data w) \<and>
     rc_Uri (w_rc w) = u \<and> rc_Method (w_rc w) = rq_Method req \<and> rc_ProxyId (w_rc w) = f_proxyId cf \<and> rc_Error (w_rc w) = None \<and>
     \<not> rc_FoundInCache (w_rc w) \<and> OpenSessions w = n + 1 \<and> (\<exists>a. rc_CrawlLog (w_rc w) = emptyCrawlLog\<lparr>
     cl_JobExecutionId := GetJobExecutionId (w_data w), cl_ExecutionId := GetCrawlExecutionId (w_data w),
     cl_FetchTimeStamp := rc_FetchTime (w_rc w), cl_RequestedUri := urlString u, cl_Method := rq_Method req, cl_IpAddress := a\<rparr>)"

lemma initHost_ready:
  assumes "connReady ip base u (w_data w)"
  shows "\<exists>w'. initHost u w = Done () w' \<and> connData ip base (w_data w') \<and> OpenSessions w' = OpenSessions w"
proof (cases "connData ip base (w_data w)")
  case True
  then show ?thesis by (simp add: initHost_def connData_def)
next
  case False
  then have r: "w_data w = Some []" "base = None" "urlHostname u \<noteq> []" "portOk (urlPort u)" using assms by (simp_all add: connReady_def)
  have d: "w_data w \<noteq> None" and g: "GetHost (w_data w) = []" "GetIp (w_data w) = []" "GetUri (w_data w) = None"
    "GetConnectError (w_data w) = None"
    using r(1) by (simp_all add: getter_defs getValue_def mapIndex_def)
  let ?w1 = "setKey KeyPort (StringVal (urlPort u)) (setKey KeyHost (StringVal (urlHostname u)) w)"
  have "initHost u w = Done () ?w1" using d g(1) by (simp add: initHost_def data_ops)
  moreover have "connData ip base (w_data ?w1)" using d g r(2-4) by (simp add: connData_def getter_defs)
  ultimately show ?thesis by (simp add: OpenSessions_def)
qed

lemma initRecord_ready:
  assumes "connData ip base (w_data w)"
  shows "\<exists>w'. initRecord E cf req u w = Done (stripIdHeaders req) w' \<and> atRegistration ip base cf req u (OpenSessions w) w'"
proof -
  have d: "w_data w \<noteq> None" using assms by (simp add: connData_def)
  obtain w' where w': "initRecord E cf req u w = Done (stripIdHeaders req) w'" "freshRecord cf w w'"
    "rc_Uri (w_rc w') = u" "rc_Error (w_rc w') = None" "\<not> rc_FoundInCache (w_rc w')"
    "GetConnectError (w_data w') = GetConnectError (w_data w)" "GetPort (w_data w') = GetPort (w_data w)"
    using initRecord_record [OF d, of E cf req u] by metis
  have "GetUri (w_data w') = GetUri (w_data w)"
    using w'(1) d by (auto simp: initRecord_def rcInit_def resolveIdsFromHttpHeader_def Let_def data_ops NewRecordContext_def split: if_splits)
  then have "connData ip base (w_data w')" using assms w'(2,6,7) by (simp add: connData_def freshRecord_def)
  then show ?thesis
    using w' initRecord_log [OF w'(1) d] by (auto simp: atRegistration_def freshRecord_def)
qed

lemma chain_registers:
  assumes "clientRequest cf (fst req) u" "connReady ip base u (w_data w)"
  shows "\<exists>w'. filterChain E cf upstream req w = andThen (RegisterNewRequest E w') (\<lambda>e w.
       if e \<noteq> None then andThen (handleRequestError E e w) (\<lambda>h w. Done (rawHandled h) w)
       else DnsLookupFilter_Apply E (RecorderFilter_Apply E (ErrorHandlerFilter_Apply E upstream)) (stripIdHeaders (fst req), snd req) w) \<and>
     atRegistration ip base cf (fst req) (uriAt base u) (OpenSessions w) w'"
proof -
  obtain w1 where w1: "initHost u w = Done () w1" "connData ip base (w_data w1)" "OpenSessions w1 = OpenSessions w"
    using initHost_ready [OF assms(2)] by blast
  obtain w2 where w2: "initRecord E cf (fst req) (uriAt base u) w1 = Done (stripIdHeaders (fst req)) w2"
     "atRegistration ip base cf (fst req) (uriAt base u) (OpenSessions w1) w2"
    using initRecord_ready [OF w1(2)] by blast
  have "requestUri u w1 = uriAt base u" using w1(2) by (simp add: requestUri_def uriAt_def connData_def)
  then show ?thesis
    using assms(1) w1(1,3) w2
    by (auto simp: clientRequest_def filterChain_def NonproxyFilter_Apply_def TracingInitFilter_Apply_def ContextInitFilter_Apply_def)
qed

lemma chain_open:
  assumes "suiteServices ip E" "clientRequest cf (fst req) u" "connReady ip base u (w_data w)"
    "f_incoming cf = RecvReply (ReplyNew v) # evs" "nr_CollectionRef v \<noteq> None"
  shows "\<exists>w'. filterChain E cf upstream req w =
       RecorderFilter_Apply E (ErrorHandlerFilter_Apply E upstream) (stripIdHeaders (fst req), snd req) w' \<and>
     admitted ip base cf (fst req) (uriAt base u) v evs (OpenSessions w) w'"
proof -
  obtain w2 where w2: "filterChain E cf upstream req w = andThen (RegisterNewRequest E w2) (\<lambda>e w.
       if e \<noteq> None then andThen (handleRequestError E e w) (\<lambda>h w. Done (rawHandled h) w)
       else DnsLookupFilter_Apply E (RecorderFilter_Apply E (ErrorHandlerFilter_Apply E upstream)) (stripIdHeaders (fst req), snd req) w)"
     "atRegistration ip base cf (fst req) (uriAt base u) (OpenSessions w) w2"
    using chain_registers [OF assms(2,3)] by blast
  note r = w2(2) [unfolded atRegistration_def]
  have d: "w_data w2 \<noteq> None" using r by (simp add: connData_def)
  obtain w3 where w3: "RegisterNewRequest E w2 = Done None w3" "admittedBy v evs w2 w3"
    using register_open [OF assms(1) _ d _ assms(5), of evs] r assms(4) by auto
  have t: "replyTaken v w2 w3" "connData ip base (w_data w3)" using w3(2) r by (simp_all add: admittedBy_def)
  have k3: "w_data w3 \<noteq> None" "GetIp (w_data w3) = [] \<or> GetIp (w_data w3) = ip" "GetHost (w_data w3) \<noteq> []" "portOk (GetPort (w_data w3))"
    using t(2) by (simp_all add: connData_def)
  let ?nxt = "RecorderFilter_Apply E (ErrorHandlerFilter_Apply E upstream)" and ?r = "(stripIdHeaders (fst req), snd req)"
  obtain w4 where d4: "DnsLookupFilter_Apply E ?nxt ?r w3 = ?nxt ?r w4"
     "w4 = w3 \<and> GetIp (w_data w3) = ip \<or> w4 = setKey KeyIp (StringVal ip) (tick w3)"
    using dns_open [OF assms(1) k3] by blast
  have w4: "filterChain E cf upstream req w = ?nxt ?r w4" using w2(1) w3(1) d4(1) by simp
  have adm: "connData ip base (w_data w3)" "rc_CrawlLog (w_rc w3) = startLog (fst req) (uriAt base u) v (rc_FetchTime (w_rc w2), cl_IpAddress (rc_CrawlLog (w_rc w2)))"
    using w3(2) t r by (auto simp: admittedBy_def startLog_def)
  have log: "\<exists>t. rc_CrawlLog (w_rc w4) = startLog (fst req) (uriAt base u) v t"
    using d4(2) by (intro exI [of _ "(rc_FetchTime (w_rc w2), cl_IpAddress (rc_CrawlLog (w_rc w2)))"]) (auto simp: adm(2))
  have "admitted ip base cf (fst req) (uriAt base u) v evs (OpenSessions w) w4"
    using d4(2) unfolding admitted_def
  proof (intro conjI log, goal_cases)
    case 1
    then show ?case using t k3(1) r by (auto simp: acceptedState_def replyTaken_def newRequestMsg_def connData_def getter_defs)
  qed (use w3(2) t r adm in \<open>auto simp: admittedBy_def replyTaken_def getter_defs newRequestMsg_def OpenSessions_def connData_def\<close>)
  then show ?thesis using w4 by blast
qed

text \<open>A request body is read once when it is empty, and to its last piece otherwise.\<close>

definition readsOf :: "reader \<Rightarrow> nat" where
  "readsOf xs = (if xs = [] then 1 else length xs)"

text \<open>
  The transport to a server: it sends the request, so it reads the body to its end through whatever wraps it, and then gives the response of the
  server, or \<open>io.EOF\<close> when the connection is closed without one.
\<close>

definition serverTransport :: "env \<Rightarrow> (http_request \<Rightarrow> (http_response \<times> reader) option) \<Rightarrow> (reqBody, reader) nextFilter" where
  "serverTransport E answer req w =
     andThen (case snd req of
         RawReq body \<Rightarrow> Done () w
       | RecordedReq b \<Rightarrow> andThen (requestReads E (readsOf (q_ReadCloser b)) b w) (\<lambda>_ w. Done () w)) (\<lambda>_ w.
       case answer (fst req) of
         None \<Rightarrow> Done (None, Some IoEOF) w
       | Some r \<Rightarrow> Done (Some r, None) w)"

section \<open>The request body\<close>

definition sentBody :: "int \<Rightarrow> reader \<Rightarrow> world \<Rightarrow> world" where
  "sentBody n xs w = foldl (\<lambda>w x. if fst x = [] then w else sentCw (ReqPayload n (fst x)) w) w xs"

lemma sentBody_simps [simp]:
  "sentBody n [] w = w" "sentBody n (x # xs) w = sentBody n xs (if fst x = [] then w else sentCw (ReqPayload n (fst x)) w)"
  by (simp_all add: sentBody_def)

lemma sentBody_keeps [simp]:
  "w_rc (sentBody n xs w) = w_rc w" "w_data (sentBody n xs w) = w_data w" "w_bcIn (sentBody n xs w) = w_bcIn w"
  "OpenSessions (sentBody n xs w) = OpenSessions w" "sessionsOpen (sentBody n xs w) = sessionsOpen w"
  "w_bcWire (sentBody n xs w) = w_bcWire w"
  by (induction xs arbitrary: w) simp_all

lemma sentBody_cwWire [simp]: "w_cwWire (sentBody n xs w) = w_cwWire w @ streamMsgs n xs"
  by (induction xs arbitrary: w) (auto simp: payloadMsgs_def)

lemma requestReads_open:
  assumes "suiteServices ip E" "sessionsOpen w" "q_ReadCloser b = xs @ [(d, Some IoEOF)]" "\<not> q_eof b" "endsOnce xs"
  shows "\<exists>b'. requestReads E (Suc (length xs)) b w = Done (xs @ [(d, Some IoEOF)], b')
     (updRecordMeta (q_recNum b) (\<lambda>m. m\<lparr>rm_Size := q_size b + int (length (chunksOf xs @ d)),
        rm_BlockDigest := blockDigestOf (q_blockCrc b @ chunksOf xs @ d)\<rparr>) (sentBody (q_recNum b) (xs @ [(d, None)]) w))"
  using assms(2-)
proof (induction xs arbitrary: b w)
  case Nil
  have "SendPayload E n d w = Done None (sentCw (ReqPayload n d) w)" for n
    using send_open [OF assms(1)] Nil(1) by (simp add: SendPayload_def sessionsOpen_def)
  then show ?case using Nil by (auto simp: requestBodyRead_def Let_def)
next
  case (Cons x xs)
  have s: "SendPayload E n (fst x) w = Done None (sentCw (ReqPayload n (fst x)) w)" for n
    using send_open [OF assms(1)] Cons.prems(1) by (simp add: SendPayload_def sessionsOpen_def)
  let ?b = "b\<lparr>q_ReadCloser := xs @ [(d, Some IoEOF)], q_size := q_size b + int (length (fst x)), q_blockCrc := q_blockCrc b @ fst x\<rparr>"
    and ?w = "if fst x = [] then w else sentCw (ReqPayload (q_recNum b) (fst x)) w"
  have r: "requestBodyRead E b w = Done (x, ?b) ?w"
    using s Cons.prems(2-4) by (cases x) (simp add: requestBodyRead_def Let_def endsOnce_def)
  have pre: "sessionsOpen ?w" "q_ReadCloser ?b = xs @ [(d, Some IoEOF)]" "\<not> q_eof ?b" "endsOnce xs"
    using Cons.prems by (simp_all add: endsOnce_def)
  show ?case using Cons.IH [OF pre] r by (auto simp: add.assoc)
qed

section \<open>Through the recorder\<close>

lemma header_opens:
  assumes "suiteServices ip E" "rc_cwc (w_rc w) = None"
  shows "sendOnSession E r w = Done None (sentCw r (setCwc newCwcSession (tick w)))"
proof -
  have "sendOnSession E r w = sendOnSession E r (setCwc newCwcSession (tick w))"
    using assms(2) by (simp add: sendOnSession_def getCwcSession_def suite_simps [OF assms(1)])
  then show ?thesis using send_open [OF assms(1), of "setCwc newCwcSession (tick w)" r] by simp
qed

definition requestWorld :: "http_request \<Rightarrow> bytes \<Rightarrow> world \<Rightarrow> world" where
  "requestWorld hreq prolog w = sentCw (ReqProtocolHeader 0 prolog) (setCwc newCwcSession (tick
     (updLog (\<lambda>cl. cl\<lparr>cl_RequestedUri := urlString (rc_Uri (w_rc w)), cl_StatusCode := -1,
        cl_ContentType := headerGet (rq_Header hreq) ''Content-Type''\<rparr>)
       (w_rc_update (rc_Meta_update (\<lambda>_. Some (putRecordMeta (newRecordMeta 0 RT_REQUEST RecordContentTypeRequest) (newWriteMeta w)))) w))))"

lemma filterRequest_open:
  assumes "suiteServices ip E" "acceptedState v u w" "writeRequestProlog (e_toASCII E) (fst req) = Some (Inr prolog)"
  defines "hreq \<equiv> (fst req)\<lparr>rq_Header := recorderHeaders w (rq_Header (fst req))\<rparr>"
  shows "filterRequest E req w = Done (Inr (hreq, RecordedReq (wrappedRequest (snd req) prolog))) (requestWorld hreq prolog w)"
proof -
  let ?ct = "headerGet (rq_Header hreq) ''Content-Type''" and ?m = "newRecordMeta 0 RT_REQUEST RecordContentTypeRequest"
  let ?w = "updLog (\<lambda>cl. cl\<lparr>cl_RequestedUri := urlString (rc_Uri (w_rc w)), cl_StatusCode := -1, cl_ContentType := ?ct\<rparr>)
       (w_rc_update (rc_Meta_update (\<lambda>_. Some (putRecordMeta ?m (newWriteMeta w)))) w)"
  have s: "startRecord ?m (-1) ?ct (setMeta (newWriteMeta w) (rc_Uri (w_rc w)) w) = Done () ?w"
    using assms(2) by (simp add: startRecord_def setMeta_def acceptedState_def updLog_def)
  have "rc_cwc (w_rc ?w) = None" using assms(2) by (simp add: acceptedState_def)
  from header_opens [OF assms(1) this, of "ReqProtocolHeader 0 prolog"] show ?thesis
    using s assms(3) by (simp add: filterRequest_def Let_def WrapRequestBody_def SendProtocolHeader_def requestWorld_def
        wrappedRequest_def hreq_def)
qed

definition responseWorld :: "http_response \<Rightarrow> world \<Rightarrow> world" where
  "responseWorld resp w = sentCw (ReqProtocolHeader 1 (writeResponseProlog resp))
     (updLog (\<lambda>cl. cl\<lparr>cl_StatusCode := int32 (rs_StatusCode resp), cl_ContentType := headerGet (rs_Header resp) ''Content-Type''\<rparr>)
       (w_rc_update (rc_Meta_update (map_option (putRecordMeta (newRecordMeta 1 RT_RESPONSE RecordContentTypeResponse)))) w))"

lemma filterResponse_open:
  assumes "suiteServices ip E" "sessionsOpen w" "rc_Meta (w_rc w) \<noteq> None" "GetRecordContext (w_data w) \<noteq> None"
    "rc_Error (w_rc w) = None" "\<not> rc_FoundInCache (w_rc w)" "\<not> isFromCache resp"
  shows "filterResponse E (Some (resp, body)) w =
     Done (Inr (scriptLength w resp, RecordedResp (wrappedResponse body (writeResponseProlog resp)))) (responseWorld resp w)"
proof -
  let ?w = "updLog (\<lambda>cl. cl\<lparr>cl_StatusCode := int32 (rs_StatusCode resp), cl_ContentType := headerGet (rs_Header resp) ''Content-Type''\<rparr>)
       (w_rc_update (rc_Meta_update (map_option (putRecordMeta (newRecordMeta 1 RT_RESPONSE RecordContentTypeResponse)))) w)"
  have "rc_cwc (w_rc ?w) = Some newCwcSession" using assms(2) by (simp add: sessionsOpen_def)
  from send_open [OF assms(1) this, of "ReqProtocolHeader 1 (writeResponseProlog resp)"] show ?thesis
    using assms(3-7) by (simp add: filterResponse_def hasBcError_def Let_def WrapResponseBody_def startRecord_def
        SendProtocolHeader_def responseWorld_def wrappedResponse_def scriptLength_def)
qed

text \<open>The state in which the client reads the response: \<open>q\<close> and \<open>p\<close> are the recorded request and the prolog of the response.\<close>

definition answered :: "string \<Rightarrow> url option \<Rightarrow> newReply \<Rightarrow> recvResult list \<Rightarrow> int \<Rightarrow> doRequest list \<Rightarrow> writeRequest list \<Rightarrow> writeMeta \<Rightarrow> crawlLog \<Rightarrow> world \<Rightarrow> bool" where
  "answered ip base v evs n bcw cww m cl w \<longleftrightarrow> sessionsOpen w \<and> \<not> rc_FoundInCache (w_rc w) \<and> GetRecordContext (w_data w) \<noteq> None \<and>
     rc_ReplacementScript (w_rc w) = nr_ReplacementScript v \<and> w_bcIn w = evs \<and> OpenSessions w = n \<and>
     GetIp (w_data w) = ip \<and> connData ip base (w_data w) \<and> w_bcWire w = bcw \<and> w_cwWire w = cww \<and> rc_Meta (w_rc w) = Some m \<and> rc_CrawlLog (w_rc w) = cl"

text \<open>The error that the answer of a server is turned into, if it is: none at all, or the error header of the cache.\<close>

definition failureOf :: "(http_response \<times> reader) option \<Rightarrow> go_error option" where
  "failureOf a = (case a of None \<Rightarrow> normalizeError IoEOF
   | Some (r, body) \<Rightarrow> (let squidErr = headerGet (rs_Header r) ''X-Squid-Error''
       in if squidErr = [] then None else handleSquidErrorString squidErr))"

lemma failureOf_simps:
  "failureOf None = Wrap (Some IoEOF) EmptyResponse ''EMPTY_RESPONSE'' ''Empty reply from server''"
  "headerGet (rs_Header r) ''X-Squid-Error'' = [] \<Longrightarrow> failureOf (Some (r, body)) = None"
  by (simp_all add: failureOf_def normalizeByText_def)

lemma handler_answer:
  assumes "GetConnectError (w_data w) = None"
    "nxt req w = (case a of None \<Rightarrow> Done (None, Some IoEOF) w' | Some r \<Rightarrow> Done (Some r, None) w')"
  shows "ErrorHandlerFilter_Apply E nxt req w =
     (case failureOf a of Some e \<Rightarrow> handleRequestError E (Some e) w' | None \<Rightarrow> Done (a, None) w')"
proof (cases a)
  case None
  have "normalizeError IoEOF = failureOf None" by (simp add: failureOf_def)
  then show ?thesis using assms None by (simp add: ErrorHandlerFilter_Apply_def failureOf_simps Wrap_def)
next
  case (Some r)
  then show ?thesis using assms by (cases r) (auto simp: ErrorHandlerFilter_Apply_def failureOf_def Let_def split: option.split)
qed

text \<open>What the recorder does with the answer of the server.\<close>

definition recordResponse :: "env \<Rightarrow> (http_response \<times> reader) option \<Rightarrow> world \<Rightarrow> (respBody handled, world) run" where
  "recordResponse E resp w = andThen (filterResponse E resp w) (\<lambda>r w.
     case r of
       Inl err \<Rightarrow> andThen (handleRequestError E err w) (\<lambda>h w. Done (rawHandled h) w)
     | Inr resp \<Rightarrow> Done (Some resp, None) w)"

definition recordAnswer :: "env \<Rightarrow> (http_response \<times> reader) option \<Rightarrow> world \<Rightarrow> (respBody handled, world) run" where
  "recordAnswer E a w = (case failureOf a of
     Some e \<Rightarrow> andThen (handleRequestError E (Some e) w) (\<lambda>(resp, err) w.
         if err \<noteq> None then Done (rawHandled (resp, err)) w else recordResponse E resp w)
   | None \<Rightarrow> recordResponse E a w)"

lemma recorder_round:
  assumes "GetConnectError (w_data w) = None" "GetRecordContext (w_data w) \<noteq> None" "rq_Method (fst req) \<noteq> MethodConnect"
    "filterRequest E req w = Done (Inr hreq) w1"
    "nxt hreq w1 = (case failureOf a of Some e \<Rightarrow> handleRequestError E (Some e) w2 | None \<Rightarrow> Done (a, None) w2)"
  shows "RecorderFilter_Apply E nxt req w = recordAnswer E a w2"
  using assms unfolding recordAnswer_def recordResponse_def
  by (cases "failureOf a") (auto simp: RecorderFilter_Apply_def recordRoundTrip_def)

lemma recorder_sends:
  assumes "suiteServices ip E" "admitted ip base cf req0 u v evs n w" "rq_Method (fst req) \<noteq> MethodConnect"
    "writeRequestProlog (e_toASCII E) (fst req) = Some (Inr prolog)" "snd req = xs @ [(d, Some IoEOF)]" "endsOnce xs"
  shows "\<exists>w' m t ct hreq. RecorderFilter_Apply E (ErrorHandlerFilter_Apply E (serverTransport E answer)) req w = recordAnswer E (answer hreq) w' \<and>
     rq_URL hreq = rq_URL (fst req) \<and> rc_Error (w_rc w') = None \<and>
     answered ip base v evs (n + 1) (w_bcWire w) ([ReqProtocolHeader 0 prolog] @ streamMsgs 0 xs @ payloadMsgs 0 d)
       (m\<lparr>wm_RecordMeta := [(0, metaFor 0 RT_REQUEST RecordContentTypeRequest (prolog @ chunksOf xs @ d))]\<rparr>)
       ((startLog req0 u v t)\<lparr>cl_StatusCode := -1, cl_ContentType := ct\<rparr>) w' \<and>
     wm_TargetUri m = urlString u \<and> wm_ExecutionId m = nr_CrawlExecutionId v \<and> wm_IpAddress m = ip"
proof -
  have acc: "acceptedState v u w" using assms(2) by (simp add: admitted_def)
  let ?h = "(fst req)\<lparr>rq_Header := recorderHeaders w (rq_Header (fst req))\<rparr>" and ?b = "wrappedRequest (snd req) prolog"
  let ?w1 = "requestWorld ?h prolog w"
  obtain t where t: "rc_CrawlLog (w_rc w) = startLog req0 u v t" using assms(2) by (auto simp: admitted_def)
  have o1: "sessionsOpen ?w1" using assms(2) by (simp add: admitted_def sessionsOpen_def requestWorld_def)
  have k1: "GetRecordContext (w_data ?w1) \<noteq> None" "GetConnectError (w_data ?w1) = None" "rc_Error (w_rc ?w1) = None"
    "\<not> rc_FoundInCache (w_rc ?w1)" "rc_ReplacementScript (w_rc ?w1) = nr_ReplacementScript v" "w_bcIn ?w1 = evs"
    "OpenSessions ?w1 = n + 1" "GetIp (w_data ?w1) = ip \<and> connData ip base (w_data ?w1)" "w_bcWire ?w1 = w_bcWire w" "w_cwWire ?w1 = [ReqProtocolHeader 0 prolog]"
    "rc_Meta (w_rc ?w1) = Some (putRecordMeta (newRecordMeta 0 RT_REQUEST RecordContentTypeRequest) (newWriteMeta w))"
    "rc_CrawlLog (w_rc ?w1) = (startLog req0 u v t)\<lparr>cl_StatusCode := -1,
        cl_ContentType := headerGet (rq_Header ?h) ''Content-Type''\<rparr>"
    using assms(2) t by (auto simp: requestWorld_def admitted_def acceptedState_def startLog_def)
  have b: "q_ReadCloser ?b = xs @ [(d, Some IoEOF)]" "\<not> q_eof ?b" "q_recNum ?b = 0" "q_size ?b = int (length prolog)"
    "q_blockCrc ?b = prolog" "readsOf (q_ReadCloser ?b) = Suc (length xs)"
    using assms(5) by (simp_all add: wrappedRequest_def readsOf_def)
  let ?w2 = "updRecordMeta 0 (\<lambda>m. m\<lparr>rm_Size := int (length prolog) + int (length (chunksOf xs @ d)),
        rm_BlockDigest := blockDigestOf (prolog @ chunksOf xs @ d)\<rparr>) (sentBody 0 (xs @ [(d, None)]) ?w1)"
  have "\<exists>b'. requestReads E (readsOf (q_ReadCloser ?b)) ?b ?w1 = Done (xs @ [(d, Some IoEOF)], b') ?w2"
    unfolding b(6) using requestReads_open [OF assms(1) o1 b(1,2) assms(6)] unfolding b(3-5) .
  then have up: "serverTransport E answer (?h, RecordedReq ?b) ?w1 =
      (case answer ?h of None \<Rightarrow> Done (None, Some IoEOF) ?w2 | Some r \<Rightarrow> Done (Some r, None) ?w2)"
    by (cases "answer ?h") (auto simp: serverTransport_def)
  have handled: "ErrorHandlerFilter_Apply E (serverTransport E answer) (?h, RecordedReq ?b) ?w1 =
      (case failureOf (answer ?h) of Some e \<Rightarrow> handleRequestError E (Some e) ?w2 | None \<Rightarrow> Done (answer ?h, None) ?w2)"
    by (rule handler_answer) (rule k1(2) up)+
  have fr: "filterRequest E req w = Done (Inr (?h, RecordedReq ?b)) ?w1" by (rule filterRequest_open [OF assms(1) acc assms(4)])
  have run: "RecorderFilter_Apply E (ErrorHandlerFilter_Apply E (serverTransport E answer)) req w = recordAnswer E (answer ?h) ?w2"
    by (rule recorder_round [where hreq = "(?h, RecordedReq ?b)" and ?w1.0 = ?w1, OF _ _ assms(3) fr])
      (use acc in \<open>simp_all only: acceptedState_def handled simp_thms\<close>)
  let ?m0 = "metaFor 0 RT_REQUEST RecordContentTypeRequest (prolog @ chunksOf xs @ d)"
  have "rc_Meta (w_rc ?w2) = Some (newWriteMeta w\<lparr>wm_RecordMeta := [(0, ?m0)]\<rparr>)"
    using k1(11) by (simp add: updRecordMeta_def putRecordMeta_def newRecordMeta_def newWriteMeta_def metaFor_def)
  then have "answered ip base v evs (n + 1) (w_bcWire w) ([ReqProtocolHeader 0 prolog] @ streamMsgs 0 xs @ payloadMsgs 0 d)
       (newWriteMeta w\<lparr>wm_RecordMeta := [(0, ?m0)]\<rparr>) ((startLog req0 u v t)\<lparr>cl_StatusCode := -1,
        cl_ContentType := headerGet (rq_Header ?h) ''Content-Type''\<rparr>) ?w2"
    using k1 o1 unfolding answered_def by (intro conjI) (simp_all add: updRecordMeta_def sessionsOpen_def)
  moreover have "wm_TargetUri (newWriteMeta w) = urlString u" "wm_ExecutionId (newWriteMeta w) = nr_CrawlExecutionId v"
    "wm_IpAddress (newWriteMeta w) = ip" "rc_Error (w_rc ?w2) = None" "rq_URL ?h = rq_URL (fst req)"
    using acc assms(2) k1(3) by (simp_all add: newWriteMeta_def acceptedState_def admitted_def updRecordMeta_def)
  ultimately show ?thesis using run by blast
qed

lemma recorder_open:
  assumes "suiteServices ip E" "admitted ip base cf req0 u v evs n w" "rq_Method (fst req) \<noteq> MethodConnect"
    "writeRequestProlog (e_toASCII E) (fst req) = Some (Inr prolog)" "snd req = xs @ [(d, Some IoEOF)]" "endsOnce xs"
    "\<forall>h. rq_URL h = rq_URL (fst req) \<longrightarrow> answer h = Some (resp, body)"
    "\<not> isFromCache resp" "headerGet (rs_Header resp) ''X-Squid-Error'' = []"
  shows "\<exists>w' m t. RecorderFilter_Apply E (ErrorHandlerFilter_Apply E (serverTransport E answer)) req w =
       Done (Some (case nr_ReplacementScript v of None \<Rightarrow> resp | Some s \<Rightarrow> resp\<lparr>rs_ContentLength := int (length s)\<rparr>,
         RecordedResp (wrappedResponse body (writeResponseProlog resp))), None) w' \<and>
     answered ip base v evs (n + 1) (w_bcWire w)
       ([ReqProtocolHeader 0 prolog] @ streamMsgs 0 xs @ payloadMsgs 0 d @ [ReqProtocolHeader 1 (writeResponseProlog resp)])
       (m\<lparr>wm_RecordMeta := [(0, metaFor 0 RT_REQUEST RecordContentTypeRequest (prolog @ chunksOf xs @ d)),
          (1, newRecordMeta 1 RT_RESPONSE RecordContentTypeResponse)]\<rparr>)
       ((startLog req0 u v t)\<lparr>cl_StatusCode := int32 (rs_StatusCode resp),
          cl_ContentType := headerGet (rs_Header resp) ''Content-Type''\<rparr>) w' \<and>
     wm_TargetUri m = urlString u \<and> wm_ExecutionId m = nr_CrawlExecutionId v \<and> wm_IpAddress m = ip"
proof -
  obtain w2 m t ct hreq where w2: "RecorderFilter_Apply E (ErrorHandlerFilter_Apply E (serverTransport E answer)) req w = recordAnswer E (answer hreq) w2"
     "rq_URL hreq = rq_URL (fst req)" "rc_Error (w_rc w2) = None"
     "answered ip base v evs (n + 1) (w_bcWire w) ([ReqProtocolHeader 0 prolog] @ streamMsgs 0 xs @ payloadMsgs 0 d)
       (m\<lparr>wm_RecordMeta := [(0, metaFor 0 RT_REQUEST RecordContentTypeRequest (prolog @ chunksOf xs @ d))]\<rparr>)
       ((startLog req0 u v t)\<lparr>cl_StatusCode := -1, cl_ContentType := ct\<rparr>) w2"
     "wm_TargetUri m = urlString u" "wm_ExecutionId m = nr_CrawlExecutionId v" "wm_IpAddress m = ip"
    using recorder_sends [OF assms(1-6), of answer] by blast
  note a = w2(4) [unfolded answered_def]
  have "filterResponse E (Some (resp, body)) w2 =
     Done (Inr (scriptLength w2 resp, RecordedResp (wrappedResponse body (writeResponseProlog resp)))) (responseWorld resp w2)"
    by (rule filterResponse_open [OF assms(1)]) (use a w2(3) assms(8) in simp_all)
  then have "RecorderFilter_Apply E (ErrorHandlerFilter_Apply E (serverTransport E answer)) req w =
       Done (Some (scriptLength w2 resp, RecordedResp (wrappedResponse body (writeResponseProlog resp))), None) (responseWorld resp w2)"
    using w2(1,2) assms(7,9) by (simp add: recordAnswer_def failureOf_simps recordResponse_def)
  moreover have "scriptLength w2 resp = (case nr_ReplacementScript v of None \<Rightarrow> resp | Some s \<Rightarrow> resp\<lparr>rs_ContentLength := int (length s)\<rparr>)"
    using a by (simp add: scriptLength_def)
  moreover have "answered ip base v evs (n + 1) (w_bcWire w)
       ([ReqProtocolHeader 0 prolog] @ streamMsgs 0 xs @ payloadMsgs 0 d @ [ReqProtocolHeader 1 (writeResponseProlog resp)])
       (m\<lparr>wm_RecordMeta := [(0, metaFor 0 RT_REQUEST RecordContentTypeRequest (prolog @ chunksOf xs @ d)),
          (1, newRecordMeta 1 RT_RESPONSE RecordContentTypeResponse)]\<rparr>)
       ((startLog req0 u v t)\<lparr>cl_StatusCode := int32 (rs_StatusCode resp),
          cl_ContentType := headerGet (rs_Header resp) ''Content-Type''\<rparr>) (responseWorld resp w2)"
    using a unfolding answered_def responseWorld_def
    by (intro conjI) (simp_all add: sessionsOpen_def putRecordMeta_def newRecordMeta_def startLog_def metaFor_def)
  ultimately show ?thesis using w2(5-7)
    by (intro exI [of _ "responseWorld resp w2"] exI [of _ m] exI [of _ t]) simp
qed

section \<open>From the client to the answer\<close>

text \<open>An accepted request, from the first filter to the answer of the server: which registration was sent, and what has been recorded by then.\<close>

lemma exchange_sent:
  assumes "suiteServices ip E" "clientRequest cf (fst req) u" "connReady ip base u (w_data w)"
    "f_incoming cf = RecvReply (ReplyNew v) # evs" "nr_CollectionRef v \<noteq> None" "snd req = xs @ [(d, Some IoEOF)]" "endsOnce xs"
  shows "\<exists>prolog rn w' m t ct hreq. writeRequestProlog (e_toASCII E) (stripIdHeaders (fst req)) = Some (Inr prolog) \<and>
     filterChain E cf (serverTransport E answer) req w = recordAnswer E (answer hreq) w' \<and> rq_URL hreq = Some u \<and> rc_Error (w_rc w') = None \<and>
     rn_Uri rn = urlString (uriAt base u) \<and> answered ip base v evs (OpenSessions w + 1) [DoNew rn]
       ([ReqProtocolHeader 0 prolog] @ streamMsgs 0 xs @ payloadMsgs 0 d)
       (m\<lparr>wm_RecordMeta := [(0, metaFor 0 RT_REQUEST RecordContentTypeRequest (prolog @ chunksOf xs @ d))]\<rparr>)
       ((startLog (fst req) (uriAt base u) v t)\<lparr>cl_StatusCode := -1, cl_ContentType := ct\<rparr>) w'"
proof -
  let ?r = "(stripIdHeaders (fst req), snd req)"
  obtain w0 where w0: "filterChain E cf (serverTransport E answer) req w =
       RecorderFilter_Apply E (ErrorHandlerFilter_Apply E (serverTransport E answer)) ?r w0"
     "admitted ip base cf (fst req) (uriAt base u) v evs (OpenSessions w) w0"
    using chain_open [OF assms(1-5)] by blast
  obtain rn where rn: "w_bcWire w0 = [DoNew rn]" "rn_Uri rn = urlString (uriAt base u)" using w0(2) by (auto simp: admitted_def)
  obtain prolog where p: "writeRequestProlog (e_toASCII E) (fst ?r) = Some (Inr prolog)"
    using writeRequestProlog_Inr [of "fst ?r" u] assms(2) by (auto simp: clientRequest_def)
  have r: "rq_Method (fst ?r) \<noteq> MethodConnect" "snd ?r = xs @ [(d, Some IoEOF)]" "rq_URL (fst ?r) = Some u"
    using assms(2,6) by (simp_all add: clientRequest_def)
  have p': "writeRequestProlog (e_toASCII E) (stripIdHeaders (fst req)) = Some (Inr prolog)" using p by simp
  show ?thesis using recorder_sends [OF assms(1) w0(2) r(1) p r(2) assms(7), of answer] unfolding r(3) rn(1) w0(1)
    by (elim exE conjE) (intro exI conjI, (assumption | rule p' rn(2))+)
qed

text \<open>An accepted request to which the server answers with a page: what the client is about to read, and what has been recorded by then.\<close>

lemma page_received:
  assumes "suiteServices ip E" "clientRequest cf (fst req) u" "connReady ip base u (w_data w)"
    "f_incoming cf = RecvReply (ReplyNew v) # evs" "nr_CollectionRef v \<noteq> None" "snd req = xs @ [(d, Some IoEOF)]" "endsOnce xs"
    "\<forall>h. rq_URL h = Some u \<longrightarrow> answer h = Some (resp, body)" "\<not> isFromCache resp" "headerGet (rs_Header resp) ''X-Squid-Error'' = []"
  shows "\<exists>prolog rn w' m t. writeRequestProlog (e_toASCII E) (stripIdHeaders (fst req)) = Some (Inr prolog) \<and>
     filterChain E cf (serverTransport E answer) req w =
       Done (Some (case nr_ReplacementScript v of None \<Rightarrow> resp | Some s \<Rightarrow> resp\<lparr>rs_ContentLength := int (length s)\<rparr>,
         RecordedResp (wrappedResponse body (writeResponseProlog resp))), None) w' \<and>
     rn_Uri rn = urlString (uriAt base u) \<and> rn_Method rn = rq_Method (fst req) \<and> rn_ProxyId rn = f_proxyId cf \<and>
     answered ip base v evs (OpenSessions w + 1) [DoNew rn]
       ([ReqProtocolHeader 0 prolog] @ streamMsgs 0 xs @ payloadMsgs 0 d @ [ReqProtocolHeader 1 (writeResponseProlog resp)])
       (m\<lparr>wm_RecordMeta := [(0, metaFor 0 RT_REQUEST RecordContentTypeRequest (prolog @ chunksOf xs @ d)),
          (1, newRecordMeta 1 RT_RESPONSE RecordContentTypeResponse)]\<rparr>)
       ((startLog (fst req) (uriAt base u) v t)\<lparr>cl_StatusCode := int32 (rs_StatusCode resp),
          cl_ContentType := headerGet (rs_Header resp) ''Content-Type''\<rparr>) w' \<and> wm_TargetUri m = urlString (uriAt base u)"
proof -
  let ?r = "(stripIdHeaders (fst req), snd req)"
  obtain w0 where w0: "filterChain E cf (serverTransport E answer) req w =
       RecorderFilter_Apply E (ErrorHandlerFilter_Apply E (serverTransport E answer)) ?r w0"
     "admitted ip base cf (fst req) (uriAt base u) v evs (OpenSessions w) w0"
    using chain_open [OF assms(1-5)] by blast
  obtain rn where rn: "w_bcWire w0 = [DoNew rn]" "rn_Uri rn = urlString (uriAt base u)" "rn_Method rn = rq_Method (fst req)" "rn_ProxyId rn = f_proxyId cf"
    using w0(2) by (auto simp: admitted_def)
  obtain prolog where p: "writeRequestProlog (e_toASCII E) (fst ?r) = Some (Inr prolog)"
    using writeRequestProlog_Inr [of "fst ?r" u] assms(2) by (auto simp: clientRequest_def)
  have r: "rq_Method (fst ?r) \<noteq> MethodConnect" "snd ?r = xs @ [(d, Some IoEOF)]" "\<forall>h. rq_URL h = rq_URL (fst ?r) \<longrightarrow> answer h = Some (resp, body)"
    using assms(2,6,8) by (simp_all add: clientRequest_def)
  have p': "writeRequestProlog (e_toASCII E) (stripIdHeaders (fst req)) = Some (Inr prolog)" using p by simp
  show ?thesis using recorder_open [OF assms(1) w0(2) r(1) p r(2) assms(7) r(3) assms(9,10)] unfolding rn(1) w0(1)
    by (elim exE conjE) (intro exI conjI, (assumption | rule p' rn(2-4))+)
qed

end
