(* ===== verification/Page_Flow.thy ===== *)
theory Page_Flow
  imports Open_Request Test_Servers
begin

text \<open>
  A whole page: the response is read to its end, with and without a replacement script, the interceptor completes the session, and
  the theorem composes the filters, the bodies, the sessions and the services of the test suite.
\<close>

section \<open>The response body\<close>

text \<open>What is left when the body was read to its end: the completion of the session is \<open>cl\<close>.\<close>

definition bodyRead :: "url option \<Rightarrow> newReply \<Rightarrow> int \<Rightarrow> string \<Rightarrow> recvResult list \<Rightarrow> doRequest list \<Rightarrow> writeRequest list \<Rightarrow> crawlLog \<Rightarrow> world \<Rightarrow> bool" where
  "bodyRead base v n ip evs bcw cww cl w \<longleftrightarrow>
     rc_bcc (w_rc w) = Some (newBccSession\<lparr>b_complete := Some \<lparr>cm_cl = cl, cm_err = None\<rparr>\<rparr>) \<and>
     (\<exists>c. rc_cwc (w_rc w) = Some c \<and> cw_CtxDone c) \<and> \<not> rc_FoundInCache (w_rc w) \<and>
     rc_ReplacementScript (w_rc w) = nr_ReplacementScript v \<and> GetRecordContext (w_data w) \<noteq> None \<and> GetIp (w_data w) = ip \<and>
     connData ip base (w_data w) \<and> w_bcIn w = evs \<and> OpenSessions w = n \<and> w_bcWire w = bcw \<and> w_cwWire w = cww"

definition replied :: "bytes \<Rightarrow> crawlLog \<Rightarrow> crawlLog" where
  "replied all cl = cl\<lparr>cl_CollectionFinalName := ''collection_0'', cl_WarcId := ''warcid_1'', cl_StorageRef := ''storageRef_1'',
     cl_WarcRefersTo := ''revisit_0'', cl_Size := int (length all), cl_RecordType := ''revisit'',
     cl_BlockDigest := blockDigestOf all, cl_PayloadDigest := []\<rparr>"

lemma applyWriteReply_mock:
  "sizeExact b \<Longrightarrow> p_blockCrc b = all \<Longrightarrow> applyWriteReply b (blockDigestOf all) (mockReply 1 RT_RESPONSE) cl = replied all cl"
proof -
  have i: "itoa 1 = ''1''" by code_simp
  have r: "toLower ''REVISIT'' = ''revisit''" by code_simp
  show "sizeExact b \<Longrightarrow> p_blockCrc b = all \<Longrightarrow> applyWriteReply b (blockDigestOf all) (mockReply 1 RT_RESPONSE) cl = replied all cl"
    by (simp add: applyWriteReply_def mockReply_def replied_def sizeExact_def i r)
qed

lemma lastRead_open:
  fixes e :: bytes
  assumes "suiteServices ip E" "answered ip base v evs n bcw ([ReqProtocolHeader 0 p] @ streamMsgs 0 xs @ payloadMsgs 0 d @
       [ReqProtocolHeader 1 q] @ streamMsgs 1 ys)
       (m\<lparr>wm_RecordMeta := [(0, metaFor 0 RT_REQUEST RecordContentTypeRequest (p @ chunksOf xs @ d)),
          (1, newRecordMeta 1 RT_RESPONSE RecordContentTypeResponse)]\<rparr>) cl w"
    "\<not> contains (wm_TargetUri m) ''cwerr''" "p_recNum b = 1" "p_blockCrc b = q @ chunksOf ys" "sizeExact b" "\<not> p_eof b"
  defines "all \<equiv> q @ chunksOf ys @ e"
  shows "\<exists>b' w'. innerReadStep E (e, Some IoEOF) b w = Done ((e, Some IoEOF), b') w' \<and>
     bodyRead base v n ip evs (bcw @ notices [(e, None)] @ [DoNotify ALL_DATA_RECEIVED])
       ([ReqProtocolHeader 0 p] @ streamMsgs 0 xs @ payloadMsgs 0 d @ [ReqProtocolHeader 1 q] @ streamMsgs 1 ys @ payloadMsgs 1 e @
         [ReqMeta (exchangeMeta m (p @ chunksOf xs @ d) all)]) (replied all cl) w'"
proof -
  let ?b = "(addChunk e b)\<lparr>p_eof := True\<rparr>" and ?w = "passChunk 1 e w"
  let ?m = "m\<lparr>wm_RecordMeta := [(0, metaFor 0 RT_REQUEST RecordContentTypeRequest (p @ chunksOf xs @ d)),
          (1, newRecordMeta 1 RT_RESPONSE RecordContentTypeResponse)]\<rparr>"
  let ?r = "mockReply 1 RT_RESPONSE" and ?metas = "[(0, mockReply 0 RT_REQUEST), (1, mockReply 1 RT_RESPONSE)]"
  have a: "sessionsOpen w" "\<not> rc_FoundInCache (w_rc w)" "rc_Meta (w_rc w) = Some ?m" using assms(2) by (simp_all add: answered_def)
  have c: "recordChunk E e b w = Done (addChunk e b) ?w" using recordChunk_open [OF assms(1) a(1,2), of e b] assms(4) by simp
  have o: "sessionsOpen ?w" "\<not> rc_FoundInCache (w_rc ?w)" "rc_Meta (w_rc ?w) = Some ?m" "sizeExact ?b" "p_recNum ?b = 1"
    "p_blockCrc ?b = all"
    using a assms(4-6) by (simp_all add: sizeExact_def all_def addChunk_def)
  have m': "closeMeta 1 all ?m = exchangeMeta m (p @ chunksOf xs @ d) all"
    by (simp add: closeMeta_def exchangeMeta_def newRecordMeta_def metaFor_def)
  have run: "cwMockRun (w_cwWire ?w @ [ReqMeta (closeMeta (p_recNum ?b) (p_blockCrc ?b) ?m)]) newCwMock = Some (Inr (Some ?metas))"
    unfolding o(5,6) m' using cwMockRun_exchange [of p xs d q ys e m] assms(2,3) by (simp add: answered_def all_def)
  have look: "map_of ?metas (p_recNum ?b) = Some ?r" unfolding o(5) by simp
  let ?e = "completed (updLog (applyWriteReply ?b (blockDigestOf (p_blockCrc ?b)) ?r)
     (metaSent (closeMeta (p_recNum ?b) (p_blockCrc ?b) ?m) (w_rc_update (rc_Meta_update (\<lambda>_. Some (closeMeta (p_recNum ?b) (p_blockCrc ?b) ?m)))
       (sentBc (DoNotify ALL_DATA_RECEIVED) ?w))))"
  have "responseBodyEOF E ?b ?w = Done () ?e" by (rule responseBodyEOF_open [OF assms(1) o(1-4) run look])
  then have read: "innerReadStep E (e, Some IoEOF) b w = Done ((e, Some IoEOF), ?b) ?e"
    using c assms(7) by (simp add: innerReadStep_def Let_def)
  have "bodyRead base v n ip evs (bcw @ notices [(e, None)] @ [DoNotify ALL_DATA_RECEIVED])
       ([ReqProtocolHeader 0 p] @ streamMsgs 0 xs @ payloadMsgs 0 d @ [ReqProtocolHeader 1 q] @ streamMsgs 1 ys @ payloadMsgs 1 e @
         [ReqMeta (exchangeMeta m (p @ chunksOf xs @ d) all)]) (replied all cl) ?e"
    using assms(2) unfolding o(5,6) m' applyWriteReply_mock [OF o(4,6)] bodyRead_def
    by (intro conjI) (simp_all add: answered_def completed_def metaSent_def sessionsOpen_def)
  then show ?thesis using read by blast
qed


lemma answered_passBody:
  "answered ip base v evs n bcw cww m cl w \<Longrightarrow> answered ip base v evs n (bcw @ notices ys) (cww @ streamMsgs k ys) m cl (passBody k ys w)"
  by (simp add: answered_def)

lemma notices_append [simp]: "notices (xs @ ys) = notices xs @ notices ys"
  by (simp add: notices_def)

text \<open>Reading the response to its end, with and without a replacement script.\<close>

lemma plainReads_last:
  assumes "suiteServices ip E" "answered ip base v evs n bcw cww m cl w" "nr_ReplacementScript v = None" "endsOnce ys"
  shows "\<exists>b. responseReads E k (Suc (length ys)) (wrappedResponse (ys @ [(e, Some IoEOF)]) q) w =
       andThen (innerReadStep E (e, Some IoEOF) b (passBody 1 ys w)) (\<lambda>(x, b) w. Done (ys @ [x], b) w) \<and>
     p_recNum b = 1 \<and> \<not> p_eof b \<and> p_blockCrc b = q @ chunksOf ys \<and> sizeExact b"
proof -
  let ?b = "wrappedResponse (ys @ [(e, Some IoEOF)]) q" and ?w = "passBody 1 ys w"
  have a: "sessionsOpen w" "\<not> rc_FoundInCache (w_rc w)" "rc_ReplacementScript (w_rc w) = None"
    using assms(2,3) by (simp_all add: answered_def)
  have b: "\<not> p_eof ?b" "p_ReadCloser ?b = ys @ [(e, Some IoEOF)]" "p_recNum ?b = 1" "p_blockCrc ?b = q" "sizeExact ?b"
    by (simp_all add: wrappedResponse_def sizeExact_def)
  obtain b1 where b1: "responseReads E k (length ys + 1) ?b w =
       andThen (responseReads E k 1 b1 ?w) (\<lambda>(outs, b) w. Done (ys @ outs, b) w)"
     "p_recNum b1 = 1" "\<not> p_eof b1" "p_ReadCloser b1 = [(e, Some IoEOF)]" "p_blockCrc b1 = q @ chunksOf ys" "sizeExact b1"
    using reads_open [OF assms(1) a b(1,2) assms(4), where k = k and n = 1] b(3-5) by auto
  have "rc_ReplacementScript (w_rc ?w) = None" using a(3) by simp
  then have "responseBodyRead E k b1 ?w = innerReadStep E (e, Some IoEOF) (b1\<lparr>p_ReadCloser := []\<rparr>) ?w"
    using responseBodyRead_plain [of ?w b1 "(e, Some IoEOF)" "[]" E k] b1(4) by simp
  then have "responseReads E k (Suc (length ys)) ?b w =
      andThen (innerReadStep E (e, Some IoEOF) (b1\<lparr>p_ReadCloser := []\<rparr>) ?w) (\<lambda>(x, b) w. Done (ys @ [x], b) w)"
    using b1(1) by (simp add: run_simps case_prod_unfold)
  then show ?thesis using b1(2,3,5,6) by (intro exI [of _ "b1\<lparr>p_ReadCloser := []\<rparr>"]) simp
qed

lemma plainReads_open:
  assumes "suiteServices ip E" "answered ip base v evs n bcw ([ReqProtocolHeader 0 p] @ streamMsgs 0 xs @ payloadMsgs 0 d @ [ReqProtocolHeader 1 q])
       (m\<lparr>wm_RecordMeta := [(0, metaFor 0 RT_REQUEST RecordContentTypeRequest (p @ chunksOf xs @ d)),
          (1, newRecordMeta 1 RT_RESPONSE RecordContentTypeResponse)]\<rparr>) cl w"
    "\<not> contains (wm_TargetUri m) ''cwerr''" "nr_ReplacementScript v = None" "endsOnce ys"
  shows "\<exists>b' w'. responseReads E k (Suc (length ys)) (wrappedResponse (ys @ [(e, Some IoEOF)]) q) w =
       Done (ys @ [(e, Some IoEOF)], b') w' \<and>
     bodyRead base v n ip evs (bcw @ notices (ys @ [(e, None)]) @ [DoNotify ALL_DATA_RECEIVED])
       ([ReqProtocolHeader 0 p] @ streamMsgs 0 xs @ payloadMsgs 0 d @ [ReqProtocolHeader 1 q] @ streamMsgs 1 ys @ payloadMsgs 1 e @
         [ReqMeta (exchangeMeta m (p @ chunksOf xs @ d) (q @ chunksOf ys @ e))]) (replied (q @ chunksOf ys @ e) cl) w'"
proof -
  obtain b where b: "responseReads E k (Suc (length ys)) (wrappedResponse (ys @ [(e, Some IoEOF)]) q) w =
       andThen (innerReadStep E (e, Some IoEOF) b (passBody 1 ys w)) (\<lambda>(x, b) w. Done (ys @ [x], b) w)"
     "p_recNum b = 1" "\<not> p_eof b" "p_blockCrc b = q @ chunksOf ys" "sizeExact b"
    using plainReads_last [OF assms(1,2,4,5)] by blast
  have ans: "answered ip base v evs n (bcw @ notices ys) ([ReqProtocolHeader 0 p] @ streamMsgs 0 xs @ payloadMsgs 0 d @ [ReqProtocolHeader 1 q] @
       streamMsgs 1 ys)
       (m\<lparr>wm_RecordMeta := [(0, metaFor 0 RT_REQUEST RecordContentTypeRequest (p @ chunksOf xs @ d)),
          (1, newRecordMeta 1 RT_RESPONSE RecordContentTypeResponse)]\<rparr>) cl (passBody 1 ys w)"
    using answered_passBody [OF assms(2), where k = 1 and ys = ys] by simp
  obtain b' w' where r: "innerReadStep E (e, Some IoEOF) b (passBody 1 ys w) = Done ((e, Some IoEOF), b') w'"
    "bodyRead base v n ip evs ((bcw @ notices ys) @ notices [(e, None)] @ [DoNotify ALL_DATA_RECEIVED])
       ([ReqProtocolHeader 0 p] @ streamMsgs 0 xs @ payloadMsgs 0 d @ [ReqProtocolHeader 1 q] @ streamMsgs 1 ys @ payloadMsgs 1 e @
         [ReqMeta (exchangeMeta m (p @ chunksOf xs @ d) (q @ chunksOf ys @ e))]) (replied (q @ chunksOf ys @ e) cl) w'"
    using lastRead_open [OF assms(1) ans assms(3) b(2,4,5,3), where e = e] by auto
  then show ?thesis using b(1) by simp
qed

lemma storeOriginal_open:
  assumes "suiteServices ip E" "sessionsOpen w" "\<not> rc_FoundInCache (w_rc w)" "\<not> p_eof b" "\<forall>x \<in> set xs. snd x = None"
  shows "\<exists>b'. storeOriginal E (xs @ [z]) b w = storeOriginal E [z] b' (passBody (p_recNum b) xs w) \<and>
     p_recNum b' = p_recNum b \<and> \<not> p_eof b' \<and> p_blockCrc b' = p_blockCrc b @ chunksOf xs \<and> (sizeExact b \<longrightarrow> sizeExact b')"
  using assms(2-)
proof (induction xs arbitrary: b w)
  case (Cons x xs)
  let ?b = "addChunk (fst x) (b\<lparr>p_ReadCloser := xs @ [z]\<rparr>)" and ?w = "passChunk (p_recNum b) (fst x) w"
  have x: "x = (fst x, None)" using Cons.prems(4) by (cases x) auto
  have "innerReadStep E (fst x, None) (b\<lparr>p_ReadCloser := xs @ [z]\<rparr>) w = Done ((fst x, None), ?b) ?w"
    using innerReadStep_open [OF assms(1) Cons.prems(1,2), of "b\<lparr>p_ReadCloser := xs @ [z]\<rparr>" None "fst x"] Cons.prems(3) by simp
  then have st: "storeOriginal E ((x # xs) @ [z]) b w = storeOriginal E (xs @ [z]) ?b ?w"
    by (subst x) simp
  have sz: "sizeExact b \<Longrightarrow> sizeExact ?b" by simp
  have pre: "sessionsOpen ?w" "\<not> rc_FoundInCache (w_rc ?w)" "\<not> p_eof ?b" "\<forall>x \<in> set xs. snd x = None" using Cons.prems by simp_all
  obtain b' where "storeOriginal E (xs @ [z]) ?b ?w = storeOriginal E [z] b' (passBody (p_recNum ?b) xs ?w)"
     "p_recNum b' = p_recNum ?b" "\<not> p_eof b'" "p_blockCrc b' = p_blockCrc ?b @ chunksOf xs" "sizeExact ?b \<longrightarrow> sizeExact b'"
    using Cons.IH [OF pre] by blast
  then show ?case unfolding st using sz by (intro exI [of _ b']) simp
qed auto

lemma scriptReads_open:
  assumes "suiteServices ip E" "answered ip base v evs n bcw ([ReqProtocolHeader 0 p] @ streamMsgs 0 xs @ payloadMsgs 0 d @ [ReqProtocolHeader 1 q])
       (m\<lparr>wm_RecordMeta := [(0, metaFor 0 RT_REQUEST RecordContentTypeRequest (p @ chunksOf xs @ d)),
          (1, newRecordMeta 1 RT_RESPONSE RecordContentTypeResponse)]\<rparr>) cl w"
    "\<not> contains (wm_TargetUri m) ''cwerr''" "nr_ReplacementScript v = Some script" "\<forall>x \<in> set ys. snd x = None"
    "length script \<le> j * k"
  shows "\<exists>outs b' w'. responseReads E k (Suc j) (wrappedResponse (ys @ [(e, Some IoEOF)]) q) w =
       Done (outs @ [([], Some IoEOF)], b') w' \<and> chunksOf outs = script \<and>
     bodyRead base v n ip evs (bcw @ notices (ys @ [(e, None)]) @ [DoNotify ALL_DATA_RECEIVED])
       ([ReqProtocolHeader 0 p] @ streamMsgs 0 xs @ payloadMsgs 0 d @ [ReqProtocolHeader 1 q] @ streamMsgs 1 ys @ payloadMsgs 1 e @
         [ReqMeta (exchangeMeta m (p @ chunksOf xs @ d) (q @ chunksOf ys @ e))]) (replied (q @ chunksOf ys @ e) cl) w'"
proof -
  let ?b = "wrappedResponse (ys @ [(e, Some IoEOF)]) q" and ?w = "passBody 1 ys w"
  have a: "sessionsOpen w" "\<not> rc_FoundInCache (w_rc w)" "rc_ReplacementScript (w_rc w) = Some script"
    using assms(2,4) by (simp_all add: answered_def)
  have b: "\<not> p_eof ?b" "p_ReadCloser ?b = ys @ [(e, Some IoEOF)]" "p_recNum ?b = 1" "p_blockCrc ?b = q" "sizeExact ?b"
    "p_replacementReader ?b = None"
    by (simp_all add: wrappedResponse_def sizeExact_def)
  obtain b1 where b1: "storeOriginal E (ys @ [(e, Some IoEOF)]) ?b w = storeOriginal E [(e, Some IoEOF)] b1 ?w"
     "p_recNum b1 = 1" "\<not> p_eof b1" "p_blockCrc b1 = q @ chunksOf ys" "sizeExact b1"
    using storeOriginal_open [OF assms(1) a(1,2) b(1) assms(5), where z = "(e, Some IoEOF)"] b(3-5) by auto
  have ans: "answered ip base v evs n (bcw @ notices ys) ([ReqProtocolHeader 0 p] @ streamMsgs 0 xs @ payloadMsgs 0 d @ [ReqProtocolHeader 1 q] @
       streamMsgs 1 ys)
       (m\<lparr>wm_RecordMeta := [(0, metaFor 0 RT_REQUEST RecordContentTypeRequest (p @ chunksOf xs @ d)),
          (1, newRecordMeta 1 RT_RESPONSE RecordContentTypeResponse)]\<rparr>) cl ?w"
    using answered_passBody [OF assms(2), where k = 1 and ys = ys] by simp
  let ?b2 = "b1\<lparr>p_ReadCloser := []\<rparr>"
  obtain b' w' where r: "innerReadStep E (e, Some IoEOF) ?b2 ?w = Done ((e, Some IoEOF), b') w'"
    "bodyRead base v n ip evs ((bcw @ notices ys) @ notices [(e, None)] @ [DoNotify ALL_DATA_RECEIVED])
       ([ReqProtocolHeader 0 p] @ streamMsgs 0 xs @ payloadMsgs 0 d @ [ReqProtocolHeader 1 q] @ streamMsgs 1 ys @ payloadMsgs 1 e @
         [ReqMeta (exchangeMeta m (p @ chunksOf xs @ d) (q @ chunksOf ys @ e))]) (replied (q @ chunksOf ys @ e) cl) w'"
    using lastRead_open [OF assms(1) ans assms(3), where b = ?b2 and e = e] b1(2-5) by auto
  have script: "rc_ReplacementScript (w_rc w') = Some script" using r(2) assms(4) by (simp add: bodyRead_def)
  have st: "storeOriginal E (ys @ [(e, Some IoEOF)]) ?b w = Done (None, b') w'" using b1(1) r(1) by simp
  have "responseBodyRead E k ?b w = Done (serveReplacement k script b') w'"
    "responseBodyRead E k (b'\<lparr>p_replacementReader := Some script\<rparr>) w' = Done (serveReplacement k script b') w'"
    using a(3) b(2,6) st script by (simp_all add: responseBodyRead_def serveReplacement_def split: prod.split)
  then have first: "responseReads E k (Suc j) ?b w = responseReads E k (Suc j) (b'\<lparr>p_replacementReader := Some script\<rparr>) w'"
    by simp
  obtain outs b'' where "responseReads E k (Suc j) (b'\<lparr>p_replacementReader := Some script\<rparr>) w' =
      Done (outs @ [([], Some IoEOF)], b'') w'" "chunksOf outs = script"
    using serveReads [OF script _ assms(6), of "b'\<lparr>p_replacementReader := Some script\<rparr>" E] by (auto simp del: responseReads.simps)
  then show ?thesis using first r(2) by (intro exI [of _ outs] exI [of _ b''] exI [of _ w']) (simp del: responseReads.simps)
qed

section \<open>A page for the client\<close>

text \<open>
  What the proxy library does with a request: it runs the filters, copies the body of the response to the client, a recorded one
  in \<open>n\<close> reads of at most \<open>k\<close> bytes, and calls the interceptor. \<open>None\<close> is a request for which the chain has no response.
\<close>

definition servePage :: "env \<Rightarrow> filterConf \<Rightarrow> (reqBody, reader) nextFilter \<Rightarrow> nat \<Rightarrow> nat \<Rightarrow> http_request \<times> reader \<Rightarrow> world \<Rightarrow>
    ((http_response \<times> (bytes \<times> go_error option) list) option, world) run" where
  "servePage E cf upstream k n req w = andThen (filterChain E cf upstream req w) (\<lambda>(resp, err) w.
     case resp of
       None \<Rightarrow> Done None w
     | Some (rsp, body) \<Rightarrow>
         andThen (case body of
             RecordedResp b \<Rightarrow> andThen (responseReads E k n b w) (\<lambda>(outs, b) w. Done outs w)
           | RawResp outs \<Rightarrow> Done outs w) (\<lambda>outs w.
         andThen (WriteResponseInterceptor E None w) (\<lambda>_ w. Done (Some (rsp, outs)) w)))"

lemma interceptor_open:
  assumes "suiteServices ip E" "readyToEnd m w" "\<forall>c. rc_cwc (w_rc w) = Some c \<longrightarrow> cw_CtxDone c"
  shows "\<exists>w'. WriteResponseInterceptor E None w = Done None w' \<and>
     w_bcWire w' = w_bcWire w @ [DoCompleted (stampLog E w (cm_cl m)) (rc_FoundInCache (w_rc w))] \<and>
     w_cwWire w' = w_cwWire w \<and> OpenSessions w' = OpenSessions w - 1 \<and> connData ip' base (w_data w') = connData ip' base (w_data w)"
proof -
  obtain w' b' where f: "finish E w = Done () w'" "rc_cwc (w_rc w') = rc_cwc (w_rc w)" "rc_bcc (w_rc w') = Some b'" "b_CtxDone b'"
     "w_bcWire w' = w_bcWire w @ [DoCompleted (stampLog E w (cm_cl m)) (rc_FoundInCache (w_rc w))]"
     "w_cwWire w' = w_cwWire w" "OpenSessions w' = OpenSessions w - 1" "connData ip' base (w_data w') = connData ip' base (w_data w)"
    using finish_open [OF assms(1,2), of ip' base] by blast
  have "ResponseCompleted E None w = Done () w'"
    using assms(2) f(1) by (auto simp: readyToEnd_def ResponseCompleted_def getBccSession_def handOverDone_def)
  moreover have "WaitForCompleted w' = Done () w'"
    using f(2-4) assms(3) by (auto simp: WaitForCompleted_def split: option.split)
  ultimately show ?thesis using assms(2) f(5-8) by (simp add: WriteResponseInterceptor_def readyToEnd_def)
qed

lemma bodyRead_ready:
  "bodyRead base v n ip [RecvEOF] bcw cww cl w \<Longrightarrow> readyToEnd \<lparr>cm_cl = cl, cm_err = None\<rparr> w"
  by (simp add: bodyRead_def readyToEnd_def newBccSession_def)

definition servedBody :: "newReply \<Rightarrow> bytes \<Rightarrow> bytes" where
  "servedBody v content = (case nr_ReplacementScript v of None \<Rightarrow> content | Some script \<Rightarrow> script)"

lemma reads_served:
  assumes "suiteServices ip E" "answered ip base v evs n bcw ([ReqProtocolHeader 0 p] @ streamMsgs 0 xs @ payloadMsgs 0 d @ [ReqProtocolHeader 1 q])
       (m\<lparr>wm_RecordMeta := [(0, metaFor 0 RT_REQUEST RecordContentTypeRequest (p @ chunksOf xs @ d)),
          (1, newRecordMeta 1 RT_RESPONSE RecordContentTypeResponse)]\<rparr>) cl w"
    "\<not> contains (wm_TargetUri m) ''cwerr''" "\<forall>x \<in> set ys. snd x = None" "\<forall>s. nr_ReplacementScript v = Some s \<longrightarrow> length s \<le> k"
  defines "reads \<equiv> (if nr_ReplacementScript v = None then Suc (length ys) else 2)"
  shows "\<exists>outs b' w'. responseReads E k reads (wrappedResponse (ys @ [(e, Some IoEOF)]) q) w = Done (outs, b') w' \<and>
     chunksOf outs = servedBody v (chunksOf ys @ e) \<and> snd (last outs) = Some IoEOF \<and>
     bodyRead base v n ip evs (bcw @ notices (ys @ [(e, None)]) @ [DoNotify ALL_DATA_RECEIVED])
       ([ReqProtocolHeader 0 p] @ streamMsgs 0 xs @ payloadMsgs 0 d @ [ReqProtocolHeader 1 q] @ streamMsgs 1 ys @ payloadMsgs 1 e @
         [ReqMeta (exchangeMeta m (p @ chunksOf xs @ d) (q @ chunksOf ys @ e))]) (replied (q @ chunksOf ys @ e) cl) w'"
proof (cases "nr_ReplacementScript v")
  case None
  have o: "endsOnce ys" using assms(4) by (auto simp: endsOnce_def)
  obtain b' w' where "responseReads E k (Suc (length ys)) (wrappedResponse (ys @ [(e, Some IoEOF)]) q) w = Done (ys @ [(e, Some IoEOF)], b') w'"
     "bodyRead base v n ip evs (bcw @ notices (ys @ [(e, None)]) @ [DoNotify ALL_DATA_RECEIVED])
       ([ReqProtocolHeader 0 p] @ streamMsgs 0 xs @ payloadMsgs 0 d @ [ReqProtocolHeader 1 q] @ streamMsgs 1 ys @ payloadMsgs 1 e @
         [ReqMeta (exchangeMeta m (p @ chunksOf xs @ d) (q @ chunksOf ys @ e))]) (replied (q @ chunksOf ys @ e) cl) w'"
    using plainReads_open [OF assms(1-3) None o] by blast
  moreover have "chunksOf (ys @ [(e, Some IoEOF)]) = servedBody v (chunksOf ys @ e)"
    using None by (simp add: servedBody_def)
  ultimately show ?thesis using None unfolding reads_def by fastforce
next
  case (Some script)
  have l: "length script \<le> 1 * k" using assms(5) Some by simp
  obtain outs b' w' where "responseReads E k (Suc 1) (wrappedResponse (ys @ [(e, Some IoEOF)]) q) w = Done (outs @ [([], Some IoEOF)], b') w'"
     "chunksOf outs = script"
     "bodyRead base v n ip evs (bcw @ notices (ys @ [(e, None)]) @ [DoNotify ALL_DATA_RECEIVED])
       ([ReqProtocolHeader 0 p] @ streamMsgs 0 xs @ payloadMsgs 0 d @ [ReqProtocolHeader 1 q] @ streamMsgs 1 ys @ payloadMsgs 1 e @
         [ReqMeta (exchangeMeta m (p @ chunksOf xs @ d) (q @ chunksOf ys @ e))]) (replied (q @ chunksOf ys @ e) cl) w'"
    using scriptReads_open [OF assms(1-3) Some assms(4) l] by blast
  moreover have "chunksOf (outs @ [([], Some IoEOF)]) = servedBody v (chunksOf ys @ e)"
    using Some calculation(2) by (simp add: servedBody_def)
  ultimately show ?thesis using Some unfolding reads_def
    by (intro exI [of _ "outs @ [([], Some IoEOF)]"] exI [of _ b'] exI [of _ w']) (simp add: numeral_2_eq_2)
qed

text \<open>The crawl log of the page.\<close>

definition pageLog :: "string \<Rightarrow> http_request \<Rightarrow> url \<Rightarrow> newReply \<Rightarrow> http_response \<Rightarrow> bytes \<Rightarrow> crawlLog \<Rightarrow> bool" where
  "pageLog ip req u v resp all cl \<longleftrightarrow> cl_RequestedUri cl = urlString u \<and> cl_Method cl = rq_Method req \<and>
     cl_JobExecutionId cl = nr_JobExecutionId v \<and> cl_ExecutionId cl = nr_CrawlExecutionId v \<and> cl_IpAddress cl = ip \<and>
     cl_StatusCode cl = int32 (rs_StatusCode resp) \<and> cl_ContentType cl = headerGet (rs_Header resp) ''Content-Type'' \<and>
     cl_Size cl = int (length all) \<and> cl_BlockDigest cl = blockDigestOf all \<and> cl_RecordType cl = ''revisit'' \<and>
     cl_WarcId cl = ''warcid_1'' \<and> cl_StorageRef cl = ''storageRef_1'' \<and> cl_WarcRefersTo cl = ''revisit_0'' \<and>
     cl_CollectionFinalName cl = ''collection_0''"

lemma page_served:
  assumes "suiteServices ip E" "clientRequest cf (fst req) u" "connReady ip base u (w_data w)"
    "f_incoming cf = [RecvReply (ReplyNew v), RecvEOF]" "nr_CollectionRef v \<noteq> None" "\<not> contains (urlString (uriAt base u)) ''cwerr''"
    "snd req = xs @ [(d, Some IoEOF)]" "endsOnce xs"
    "\<forall>h. rq_URL h = Some u \<longrightarrow> answer h = Some (resp, ys @ [(e, Some IoEOF)])" "\<forall>x \<in> set ys. snd x = None"
    "\<not> isFromCache resp" "headerGet (rs_Header resp) ''X-Squid-Error'' = []"
    "\<forall>s. nr_ReplacementScript v = Some s \<longrightarrow> length s \<le> k"
  defines "reads \<equiv> (if nr_ReplacementScript v = None then Suc (length ys) else 2)"
  shows "\<exists>prolog rn m cl w' outs. servePage E cf (serverTransport E answer) k reads req w =
       Done (Some (case nr_ReplacementScript v of None \<Rightarrow> resp | Some s \<Rightarrow> resp\<lparr>rs_ContentLength := int (length s)\<rparr>, outs)) w' \<and>
     chunksOf outs = servedBody v (chunksOf ys @ e) \<and> snd (last outs) = Some IoEOF \<and>
     writeRequestProlog (e_toASCII E) (stripIdHeaders (fst req)) = Some (Inr prolog) \<and>
     w_cwWire w' = [ReqProtocolHeader 0 prolog] @ streamMsgs 0 xs @ payloadMsgs 0 d @
       [ReqProtocolHeader 1 (writeResponseProlog resp)] @ streamMsgs 1 ys @ payloadMsgs 1 e @ [ReqMeta m] \<and>
     cwMockRun (w_cwWire w') newCwMock = Some (Inr (Some [(0, mockReply 0 RT_REQUEST), (1, mockReply 1 RT_RESPONSE)])) \<and>
     w_bcWire w' = [DoNew rn] @ notices (ys @ [(e, None)]) @ [DoNotify ALL_DATA_RECEIVED, DoCompleted cl False] \<and>
     rn_Uri rn = urlString (uriAt base u) \<and> rn_Method rn = rq_Method (fst req) \<and> rn_ProxyId rn = f_proxyId cf \<and>
     pageLog ip (fst req) (uriAt base u) v resp (writeResponseProlog resp @ chunksOf ys @ e) cl \<and> OpenSessions w' = OpenSessions w \<and>
     connData ip base (w_data w')"
proof -
  let ?q = "writeResponseProlog resp" and ?body = "ys @ [(e, Some IoEOF)]"
  let ?resp = "case nr_ReplacementScript v of None \<Rightarrow> resp | Some s \<Rightarrow> resp\<lparr>rs_ContentLength := int (length s)\<rparr>"
  obtain prolog rn w1 m t where p: "writeRequestProlog (e_toASCII E) (stripIdHeaders (fst req)) = Some (Inr prolog)"
    and w1: "filterChain E cf (serverTransport E answer) req w = Done (Some (?resp, RecordedResp (wrappedResponse ?body ?q)), None) w1"
     "answered ip base v [RecvEOF] (OpenSessions w + 1) [DoNew rn]
       ([ReqProtocolHeader 0 prolog] @ streamMsgs 0 xs @ payloadMsgs 0 d @ [ReqProtocolHeader 1 ?q])
       (m\<lparr>wm_RecordMeta := [(0, metaFor 0 RT_REQUEST RecordContentTypeRequest (prolog @ chunksOf xs @ d)),
          (1, newRecordMeta 1 RT_RESPONSE RecordContentTypeResponse)]\<rparr>)
       ((startLog (fst req) (uriAt base u) v t)\<lparr>cl_StatusCode := int32 (rs_StatusCode resp),
          cl_ContentType := headerGet (rs_Header resp) ''Content-Type''\<rparr>) w1" "wm_TargetUri m = urlString (uriAt base u)"
    and rn: "rn_Uri rn = urlString (uriAt base u)" "rn_Method rn = rq_Method (fst req)" "rn_ProxyId rn = f_proxyId cf"
    using page_received [OF assms(1-5,7-9,11,12)] by blast
  have tu: "\<not> contains (wm_TargetUri m) ''cwerr''" using assms(6) w1(3) by simp
  let ?all = "?q @ chunksOf ys @ e" and ?m = "exchangeMeta m (prolog @ chunksOf xs @ d) (?q @ chunksOf ys @ e)"
  let ?cl = "replied ?all ((startLog (fst req) (uriAt base u) v t)\<lparr>cl_StatusCode := int32 (rs_StatusCode resp),
          cl_ContentType := headerGet (rs_Header resp) ''Content-Type''\<rparr>)"
  let ?cww = "[ReqProtocolHeader 0 prolog] @ streamMsgs 0 xs @ payloadMsgs 0 d @ [ReqProtocolHeader 1 ?q] @ streamMsgs 1 ys @
     payloadMsgs 1 e @ [ReqMeta ?m]"
  obtain outs b2 w2 where w2: "responseReads E k reads (wrappedResponse ?body ?q) w1 = Done (outs, b2) w2"
     "chunksOf outs = servedBody v (chunksOf ys @ e)" "snd (last outs) = Some IoEOF"
     "bodyRead base v (OpenSessions w + 1) ip [RecvEOF] ([DoNew rn] @ notices (ys @ [(e, None)]) @ [DoNotify ALL_DATA_RECEIVED]) ?cww ?cl w2"
    using reads_served [OF assms(1) w1(2) tu assms(10,13)] unfolding reads_def by blast
  obtain w3 where w3: "WriteResponseInterceptor E None w2 = Done None w3" "w_cwWire w3 = ?cww" "OpenSessions w3 = OpenSessions w"
     "connData ip base (w_data w3)"
     "w_bcWire w3 = ([DoNew rn] @ notices (ys @ [(e, None)]) @ [DoNotify ALL_DATA_RECEIVED]) @ [DoCompleted (stampLog E w2 ?cl) False]"
    using interceptor_open [OF assms(1) bodyRead_ready [OF w2(4)], of ip base] w2(4) by (auto simp: bodyRead_def)
  have served: "servePage E cf (serverTransport E answer) k reads req w = Done (Some (?resp, outs)) w3"
    using w1(1) w2(1) w3(1) by (simp add: servePage_def)
  have mock: "cwMockRun (w_cwWire w3) newCwMock = Some (Inr (Some [(0, mockReply 0 RT_REQUEST), (1, mockReply 1 RT_RESPONSE)]))"
    unfolding w3(2) using tu by (simp only: cwMockRun_exchange if_False)
  have log: "pageLog ip (fst req) (uriAt base u) v resp ?all (stampLog E w2 ?cl)"
    using w2(4) by (simp add: pageLog_def stampLog_def replied_def startLog_def bodyRead_def)
  have wires: "w_bcWire w3 = [DoNew rn] @ notices (ys @ [(e, None)]) @ [DoNotify ALL_DATA_RECEIVED, DoCompleted (stampLog E w2 ?cl) False]"
    unfolding w3(5) by simp
  show ?thesis
    by (intro exI conjI) (rule served w2(2,3) p w3(2) mock wires rn log w3(3,4))+
qed

text \<open>
  C1: A page that is requested through the proxy, as the first request of a connection or a later one, directly or in a tunnel. When the browser controller accepts the request and the
  content writer checks what it gets, then the filters, the copying of the body and the interceptor all return; the client
  gets the page, or the replacement script with its length; the content writer has both records with the sizes and digests
  it computes itself, and takes them; the browser controller sees the registration, a notice for every
  chunk, the end of the data, and one final crawl log that carries the size and digest of the response record and what the content
  writer stored; no session stays open, and the connection can take its next request.
\<close>

theorem page_through_proxy:
  assumes "suiteServices ip E" "clientRequest cf (fst req) u" "connReady ip base u (w_data w)"
    "f_incoming cf = [RecvReply (ReplyNew v), RecvEOF]" "nr_CollectionRef v \<noteq> None" "\<not> contains (urlString (uriAt base u)) ''cwerr''"
    "snd req = xs @ [(d, Some IoEOF)]" "endsOnce xs"
    "\<forall>h. rq_URL h = Some u \<longrightarrow> answer h = Some (resp, ys @ [(e, Some IoEOF)])" "\<forall>x \<in> set ys. snd x = None"
    "\<not> isFromCache resp" "headerGet (rs_Header resp) ''X-Squid-Error'' = []"
    "\<forall>s. nr_ReplacementScript v = Some s \<longrightarrow> length s \<le> k"
  defines "reads \<equiv> (if nr_ReplacementScript v = None then Suc (length ys) else 2)"
  shows "\<exists>prolog rn m cl w' outs. servePage E cf (serverTransport E answer) k reads req w =
       Done (Some (case nr_ReplacementScript v of None \<Rightarrow> resp | Some s \<Rightarrow> resp\<lparr>rs_ContentLength := int (length s)\<rparr>, outs)) w' \<and>
     chunksOf outs = servedBody v (chunksOf ys @ e) \<and> snd (last outs) = Some IoEOF \<and>
     writeRequestProlog (e_toASCII E) (stripIdHeaders (fst req)) = Some (Inr prolog) \<and>
     w_cwWire w' = [ReqProtocolHeader 0 prolog] @ streamMsgs 0 xs @ payloadMsgs 0 d @
       [ReqProtocolHeader 1 (writeResponseProlog resp)] @ streamMsgs 1 ys @ payloadMsgs 1 e @ [ReqMeta m] \<and>
     cwMockRun (w_cwWire w') newCwMock = Some (Inr (Some [(0, mockReply 0 RT_REQUEST), (1, mockReply 1 RT_RESPONSE)])) \<and>
     w_bcWire w' = [DoNew rn] @ notices (ys @ [(e, None)]) @ [DoNotify ALL_DATA_RECEIVED, DoCompleted cl False] \<and>
     rn_Uri rn = urlString (uriAt base u) \<and> rn_Method rn = rq_Method (fst req) \<and> rn_ProxyId rn = f_proxyId cf \<and>
     pageLog ip (fst req) (uriAt base u) v resp (writeResponseProlog resp @ chunksOf ys @ e) cl \<and> OpenSessions w' = OpenSessions w \<and>
     connData ip base (w_data w')"
  unfolding reads_def by (rule page_served [OF assms(1-13)])


text \<open>The services of the test suite, and a request for a page of its HTTP server.\<close>

definition suiteEnv :: env where
  "suiteEnv = okEnv\<lparr>e_cwSend := \<lambda>t closed r. None, e_cwClose := \<lambda>t sent. case cwMockRun sent newCwMock of
     Some a \<Rightarrow> a | None \<Rightarrow> Inl IoEOF\<rparr>"

definition suiteUrl :: "string \<Rightarrow> url" where
  "suiteUrl path = emptyUrl\<lparr>u_Scheme := ''http'', u_Host := ''localhost:80'', u_EscPath := path\<rparr>"

definition suiteConf :: "string \<Rightarrow> filterConf" where
  "suiteConf path = plainConf (bcMockReplies (urlString (suiteUrl path)))"

definition plainSniff :: "bytes \<Rightarrow> string" where "plainSniff b = ''text/plain; charset=utf-8''"

definition httpServer :: testServer where
  "httpServer = \<lparr>srv_URL = ''http://localhost:80'', srv_mux = httpMux, srv_certified = True, srv_WriteTimeout = 800 * Millisecond\<rparr>"

definition suiteAnswer :: "http_request \<Rightarrow> (http_response \<times> reader) option" where
  "suiteAnswer req = (case rq_URL req of None \<Rightarrow> None
   | Some u \<Rightarrow> map_option (\<lambda>(resp, body). (resp, [(body, Some IoEOF)])) (serverAnswer plainSniff sampleDate httpServer (u_EscPath u)))"

lemma suiteEnv_services: "suiteServices ''10.0.0.1'' suiteEnv"
  by (simp add: suiteServices_def suiteEnv_def okEnv_def sendsSucceed_def)

text \<open>A first request of a client of the test suite, as it arrives.\<close>

definition suiteRequest :: "string \<Rightarrow> http_request \<times> reader" where
  "suiteRequest path = (plainRequest ''GET'' (suiteUrl path), [([], Some IoEOF)])"

definition newConnection :: world where
  "newConnection = (startWorld [])\<lparr>w_data := Some []\<rparr>"

lemma suiteRequest_simps:
  "clientRequest (suiteConf p) (fst (suiteRequest p)) (suiteUrl p)" "connReady ip None (suiteUrl p) (w_data newConnection)"
  "snd (suiteRequest p) = [] @ [([], Some IoEOF)]" "endsOnce []" "uriAt None (suiteUrl p) = suiteUrl p"
proof -
  have "urlHostname (suiteUrl p) = ''localhost''" "urlPort (suiteUrl p) = ''80''" "atoi ''80'' = Some 80"
    by (simp_all add: suiteUrl_def urlHostname_def urlPort_def) code_simp+
  then show "connReady ip None (suiteUrl p) (w_data newConnection)" by (simp add: connReady_def newConnection_def portOk_def)
qed (simp_all add: suiteRequest_def clientRequest_def plainRequest_def MethodConnect_def isAbs_def suiteUrl_def endsOnce_def uriAt_def)

lemma suiteEnv_fails: "failHonest suiteEnv"
  by (simp add: failHonest_def suiteEnv_def okEnv_def plainResponse_def)

lemma suiteConf_incoming:
  "f_incoming (suiteConf p) = bcMockReplies (urlString (suiteUrl p))"
  by (simp add: suiteConf_def plainConf_def)

lemma suiteConf_accepts:
  assumes "\<not> hasSuffix (urlString (suiteUrl p)) ''blocked''" "\<not> hasSuffix (urlString (suiteUrl p)) ''bccerr''"
    "\<not> hasSuffix (urlString (suiteUrl p)) ''cancel''"
  shows "f_incoming (suiteConf p) = [RecvReply (ReplyNew (mockNewReply (urlString (suiteUrl p)))), RecvEOF]"
  using assms by (simp add: suiteConf_incoming bcMockReplies_def)

lemma suite_uris:
  "urlString (suiteUrl ''/a'') = ''http://localhost:80/a''" "urlString (suiteUrl ''/cached'') = ''http://localhost:80/cached''"
  "urlString (suiteUrl ''/extraslow'') = ''http://localhost:80/extraslow''" "urlString (suiteUrl ''/blocked'') = ''http://localhost:80/blocked''"
  by code_simp+

lemma suite_accepts:
  "f_incoming (suiteConf ''/a'') = [RecvReply (ReplyNew (mockNewReply (urlString (suiteUrl ''/a'')))), RecvEOF]"
  "f_incoming (suiteConf ''/cached'') = [RecvReply (ReplyNew (mockNewReply (urlString (suiteUrl ''/cached'')))), RecvEOF]"
  "f_incoming (suiteConf ''/extraslow'') = [RecvReply (ReplyNew (mockNewReply (urlString (suiteUrl ''/extraslow'')))), RecvEOF]"
  by (rule suiteConf_accepts; unfold suite_uris; code_simp)+

lemma suite_replies:
  "nr_CollectionRef (mockNewReply uri) \<noteq> None" "nr_ReplacementScript (mockNewReply (urlString (suiteUrl ''/a''))) = None"
  "nr_ReplacementScript (mockNewReply (urlString (suiteUrl ''/cached''))) = None"
  unfolding suite_uris by (simp_all add: mockNewReply_def hasSuffix_def hasPrefix_def)

lemma suite_cwerr: "\<not> contains (urlString (suiteUrl ''/a'')) ''cwerr''"
  unfolding suite_uris by code_simp

definition pageResponse :: http_response where
  "pageResponse = serverResponse plainSniff sampleDate (pageOf httpContent 0)"

definition cacheResponse :: http_response where
  "cacheResponse = serverResponse plainSniff sampleDate (fromCache httpContent)"

lemma suite_answers:
  "rq_URL h = Some (suiteUrl ''/a'') \<Longrightarrow> suiteAnswer h = Some (pageResponse, [] @ [(httpContent, Some IoEOF)])"
  "rq_URL h = Some (suiteUrl ''/cached'') \<Longrightarrow> suiteAnswer h = Some (cacheResponse, [] @ [(httpContent, Some IoEOF)])"
  "rq_URL h = Some (suiteUrl ''/extraslow'') \<Longrightarrow> suiteAnswer h = None"
proof -
  have s: "srv_certified httpServer" "srv_WriteTimeout httpServer = 800000000" "srv_mux httpServer = httpMux"
    by (simp_all add: httpServer_def Millisecond_def)
  note a = answer_handler [OF s(1,2), unfolded s(3)]
  show "rq_URL h = Some (suiteUrl ''/a'') \<Longrightarrow> suiteAnswer h = Some (pageResponse, [] @ [(httpContent, Some IoEOF)])"
    using a(1) [OF mux_simps(1)] by (simp add: suiteAnswer_def suiteUrl_def pageResponse_def)
  show "rq_URL h = Some (suiteUrl ''/cached'') \<Longrightarrow> suiteAnswer h = Some (cacheResponse, [] @ [(httpContent, Some IoEOF)])"
    using a(4) [OF mux_simps(9)] by (simp add: suiteAnswer_def suiteUrl_def cacheResponse_def)
  show "rq_URL h = Some (suiteUrl ''/extraslow'') \<Longrightarrow> suiteAnswer h = None"
    using a(2) [OF mux_simps(11)] by (simp add: suiteAnswer_def suiteUrl_def)
qed

lemma suite_responses:
  "length (writeResponseProlog pageResponse) = 117" "\<not> isFromCache pageResponse" "headerGet (rs_Header pageResponse) ''X-Squid-Error'' = []"
  "length (writeResponseProlog cacheResponse) = 219" "isFromCache cacheResponse" "headerGet (rs_Header cacheResponse) ''X-Squid-Error'' = []"
proof -
  have n: "length httpContent = 24" by (simp add: httpContent_def)
  show "length (writeResponseProlog pageResponse) = 117" "\<not> isFromCache pageResponse"
    using page_prolog [of "pageOf httpContent 0" sampleDate plainSniff 24] printable_itoa sampleDate_printable
    by (simp_all add: pageResponse_def pageOf_def newResponseWriter_def plainSniff_def n)
  show "length (writeResponseProlog cacheResponse) = 219" "isFromCache cacheResponse"
    using cached_prolog [of sampleDate plainSniff httpContent 24] printable_itoa sampleDate_printable n
    by (simp_all add: cacheResponse_def plainSniff_def)
  have k: "canonicalKey ''X-Squid-Error'' = ''X-Squid-Error''" by code_simp
  then show "headerGet (rs_Header pageResponse) ''X-Squid-Error'' = []"
    by (simp add: pageResponse_def serverResponse_def pageOf_def newResponseWriter_def page_header headerGet_def headerValues_def)
  show "headerGet (rs_Header cacheResponse) ''X-Squid-Error'' = []"
    using k by (simp add: cacheResponse_def fromCache_def serverResponse_def finishHeader_def headerGet_def headerSet_def headerAdd_def
        headerValues_def canonical_simps newResponseWriter_def writeString_def withHeader_def)
qed

theorem page_through_proxy_witness:
  "\<exists>resp outs cl w'. servePage suiteEnv (suiteConf ''/a'') (serverTransport suiteEnv suiteAnswer) 32768 1
       (suiteRequest ''/a'') newConnection = Done (Some (resp, outs)) w' \<and>
     chunksOf outs = httpContent \<and> last (w_bcWire w') = DoCompleted cl False \<and> cl_Size cl = 141 \<and>
     cl_RequestedUri cl = ''http://localhost:80/a''"
proof -
  let ?u = "suiteUrl ''/a''"
  have cwerr: "\<not> contains (urlString (uriAt None ?u)) ''cwerr''" unfolding suiteRequest_simps(5) by (rule suite_cwerr)
  have a: "\<forall>h. rq_URL h = Some ?u \<longrightarrow> suiteAnswer h = Some (pageResponse, [] @ [(httpContent, Some IoEOF)])"
    "\<forall>x \<in> set ([] :: reader). snd x = None" using suite_answers(1) by simp_all
  have k: "\<forall>s. nr_ReplacementScript (mockNewReply (urlString ?u)) = Some s \<longrightarrow> length s \<le> 32768" using suite_replies(2) by simp
  have n: "length httpContent = 24" by (simp add: httpContent_def)
  show ?thesis
    using page_through_proxy [OF suiteEnv_services suiteRequest_simps(1,2) suite_accepts(1) suite_replies(1) cwerr suiteRequest_simps(3,4) a
        suite_responses(2,3) k] suite_replies(2) suite_responses(1) n
    unfolding suiteRequest_simps(5) by (auto simp: servedBody_def pageLog_def suite_uris)
qed

end
