(* ===== verification/Failed_Flow.thy ===== *)
theory Failed_Flow
  imports Page_Flow
begin

text \<open>
  Requests that are not answered with a page of the server: a request the browser controller refuses, one whose exchange with the
  server fails, and one the cache answers; each from the client to the last message of both sessions.
\<close>

section \<open>An error with an open session\<close>

text \<open>The session can still take its completion.\<close>

definition bccFresh :: "bccSession \<Rightarrow> bool" where
  "bccFresh b \<longleftrightarrow> b_complete b = None \<and> \<not> b_locked b \<and> b_loop b = LoopSelect"

definition errorCompletion :: "go_error \<Rightarrow> world \<Rightarrow> completeMsg" where
  "errorCompletion e w = \<lparr>cm_cl = requestErrorLog e (rc_CrawlLog (w_rc w)), cm_err = Some e\<rparr>"

definition errorSent :: "go_error \<Rightarrow> bccSession \<Rightarrow> world \<Rightarrow> world" where
  "errorSent e b w = setBcc (b\<lparr>b_complete := Some (errorCompletion e w)\<rparr>) (updLog (requestErrorLog e) (sentBc (DoNotify ALL_DATA_RECEIVED) w))"

lemma notify_fresh:
  assumes "suiteServices ip E" "rc_bcc (w_rc w) = Some b" "bccFresh b"
  shows "notifyDataReceived E act w = Done None (sentBc (DoNotify act) w)"
proof -
  let ?l = "setBcc (b\<lparr>b_locked := True\<rparr>) w"
  have s: "bcSend E (DoNotify act) ?l = (None, sentBc (DoNotify act) ?l)"
    using assms(1) by (simp add: bcSend_def suite_simps sentBc_def)
  have n: "notifyLocked E act b ?l = Done None (sentBc (DoNotify act) ?l)"
    using assms(3) by (simp add: notifyLocked_def s bccFresh_def)
  have "withLock (notifyLocked E act) w = Done None (updBcc (b_locked_update (\<lambda>_. False)) (sentBc (DoNotify act) ?l))"
    by (rule withLock_Done [where f = "notifyLocked E act", OF assms(2) _ n]) (use assms(3) in \<open>simp add: bccFresh_def\<close>)
  then show ?thesis
    using lock_unlock [OF assms(2)] assms(2,3) by (simp add: notifyDataReceived_def getBccSession_def bccFresh_def)
qed

lemma SendRequestError_fresh:
  assumes "suiteServices ip E" "rc_bcc (w_rc w) = Some b" "bccFresh b"
  shows "SendRequestError E (Some e) w = Done (Some e) (errorSent e b w)"
proof -
  have "withLock (sendErrorLocked (requestErrorLog e) e) (sentBc (DoNotify ALL_DATA_RECEIVED) w) = Done (Some e) (errorSent e b w)"
    using assms(2,3) by (simp add: withLock_def updBcc_def sendErrorLocked_def Let_def completeSend_def bccFresh_def errorSent_def
        errorCompletion_def updLog_def setBcc_def)
  then show ?thesis
    using notify_fresh [OF assms] assms(2,3) by (simp add: SendRequestError_def getBccSession_def NotifyAllDataReceived_def bccFresh_def)
qed

text \<open>What a request that failed leaves: the completion with the error, and the cancellation of the content that was sent.\<close>

definition failedWith :: "go_error \<Rightarrow> world \<Rightarrow> world \<Rightarrow> bool" where
  "failedWith e w w' \<longleftrightarrow> readyToEnd (errorCompletion e w) w' \<and> (\<forall>c. rc_cwc (w_rc w') = Some c \<longrightarrow> cw_CtxDone c) \<and>
     w_bcWire w' = w_bcWire w @ [DoNotify ALL_DATA_RECEIVED] \<and>
     w_cwWire w' = w_cwWire w @ (if rc_cwc (w_rc w) = None then [] else [ReqCancel (Detail e)]) \<and>
     w_data w' = w_data w \<and> OpenSessions w' = OpenSessions w \<and> rc_FoundInCache (w_rc w') = rc_FoundInCache (w_rc w)"

text \<open>The answer to a client whose request failed.\<close>

definition errorAnswer :: "go_error \<Rightarrow> http_response \<Rightarrow> bool" where
  "errorAnswer e r \<longleftrightarrow> rs_StatusCode r = 503 \<and> headerGet (rs_Header r) HeaderProxyErrorCode = itoa (Code e) \<and>
     headerGet (rs_Header r) HeaderProxyError = Message e"

lemma Cancel_open:
  assumes "suiteServices ip E" "rc_cwc (w_rc w) = None \<or> rc_cwc (w_rc w) = Some newCwcSession"
  shows "\<exists>err w'. CancelContentWriter E msg w = Done err w' \<and> (\<forall>c. rc_cwc (w_rc w') = Some c \<longrightarrow> cw_CtxDone c) \<and>
     w_cwWire w' = w_cwWire w @ (if rc_cwc (w_rc w) = None then [] else [ReqCancel msg]) \<and>
     rc_bcc (w_rc w') = rc_bcc (w_rc w) \<and> rc_CrawlLog (w_rc w') = rc_CrawlLog (w_rc w) \<and> w_bcWire w' = w_bcWire w \<and>
     w_bcIn w' = w_bcIn w \<and> w_data w' = w_data w \<and> OpenSessions w' = OpenSessions w \<and>
     rc_FoundInCache (w_rc w') = rc_FoundInCache (w_rc w)"
  using assms(2) suite_simps(4) [OF assms(1)]
  by (auto simp: CancelContentWriter_def getCwcSession_def Let_def cwSend_def cwStreamClosed_def sendsSucceed_def newCwcSession_def
      cwCloseAndRecv_def cwCtxCancel_def updCwc_def OpenSessions_def split: option.split)

lemma handleRequestError_open:
  assumes "suiteServices ip E" "failHonest E" "rc_bcc (w_rc w) = Some b" "bccFresh b"
    "rc_cwc (w_rc w) = None \<or> rc_cwc (w_rc w) = Some newCwcSession" "GetRecordContext (w_data w) \<noteq> None"
    "b_recv b = Receiving \<and> w_bcIn w = [RecvEOF] \<or> b_recv b = RecvReturned"
  shows "\<exists>r body w'. handleRequestError E (Some e) w = Done (Some (r, body), Some e) w' \<and> errorAnswer e r \<and> failedWith e w w'"
proof -
  let ?w = "errorSent e b w"
  have s: "SendRequestError E (Some e) w = Done (Some e) ?w" by (rule SendRequestError_fresh [OF assms(1,3,4)])
  have k: "rc_cwc (w_rc ?w) = rc_cwc (w_rc w)" "w_data ?w = w_data w" "w_bcIn ?w = w_bcIn w" "w_cwWire ?w = w_cwWire w"
    "w_bcWire ?w = w_bcWire w @ [DoNotify ALL_DATA_RECEIVED]" "OpenSessions ?w = OpenSessions w"
    "rc_bcc (w_rc ?w) = Some (b\<lparr>b_complete := Some (errorCompletion e w)\<rparr>)"
    "rc_FoundInCache (w_rc ?w) = rc_FoundInCache (w_rc w)"
    by (simp_all add: errorSent_def)
  obtain err w' where c: "CancelContentWriter E (Detail e) ?w = Done err w'" "\<forall>c. rc_cwc (w_rc w') = Some c \<longrightarrow> cw_CtxDone c"
     "w_cwWire w' = w_cwWire ?w @ (if rc_cwc (w_rc ?w) = None then [] else [ReqCancel (Detail e)])"
     "rc_bcc (w_rc w') = rc_bcc (w_rc ?w)" "w_bcWire w' = w_bcWire ?w" "w_bcIn w' = w_bcIn ?w" "w_data w' = w_data ?w"
     "OpenSessions w' = OpenSessions ?w" "rc_FoundInCache (w_rc w') = rc_FoundInCache (w_rc ?w)"
    using Cancel_open [OF assms(1), of ?w "Detail e"] assms(5) unfolding k(1) by blast
  obtain resp body err' where fe: "e_fail E 503 e = ((resp, body), err')" by (metis prod.exhaust)
  have "case e_fail E 503 e of ((resp, body), err) \<Rightarrow> err = Some e \<and> rs_StatusCode resp = 503 \<and> rs_Header resp = []"
    by (rule assms(2) [unfolded failHonest_def, rule_format])
  then have f: "err' = Some e" "rs_StatusCode resp = 503" "rs_Header resp = []" by (simp_all add: fe)
  have "handleRequestError E (Some e) w = Done (Some (addErrorHeaders e resp, body), Some e) w'"
    using assms(6) s c(1) fe f(1) by (simp add: handleRequestError_def errorResponse_def HttpStatusCode_503)
  moreover have "errorAnswer e (addErrorHeaders e resp)"
    using errorHeaders [OF f(3), of e] f(2) by (simp add: errorAnswer_def errorCodeString_def)
  moreover have "failedWith e w w'"
    using c(2-) assms(4,6,7) unfolding k by (simp add: failedWith_def readyToEnd_def bccFresh_def)
  ultimately show ?thesis by blast
qed

text \<open>The end of a request that failed.\<close>

lemma failed_end:
  assumes "suiteServices ip E" "failedWith e w w'"
  shows "\<exists>w3 t. WriteResponseInterceptor E None w' = Done None w3 \<and>
     w_bcWire w3 = w_bcWire w @ [DoNotify ALL_DATA_RECEIVED, DoCompleted
        ((requestErrorLog e (rc_CrawlLog (w_rc w)))\<lparr>cl_FetchTimeMs := t, cl_IpAddress := GetIp (w_data w)\<rparr>) (rc_FoundInCache (w_rc w))] \<and>
     w_cwWire w3 = w_cwWire w @ (if rc_cwc (w_rc w) = None then [] else [ReqCancel (Detail e)]) \<and>
     OpenSessions w3 = OpenSessions w - 1 \<and> connData ip' base (w_data w3) = connData ip' base (w_data w)"
proof -
  have r: "readyToEnd (errorCompletion e w) w'" "\<forall>c. rc_cwc (w_rc w') = Some c \<longrightarrow> cw_CtxDone c" using assms(2) by (simp_all add: failedWith_def)
  from interceptor_open [OF assms(1) r, of ip' base] show ?thesis using assms(2) by (auto simp: failedWith_def stampLog_def errorCompletion_def)
qed

section \<open>A request that is refused\<close>

text \<open>
  What the browser controller sends when it does not let a request through, to the end of its stream, and what the registration
  makes of it: a cancel because of robots.txt, an error, or the end of the stream.
\<close>

fun refusal :: "recvResult list \<Rightarrow> go_error option" where
  "refusal [RecvReply (ReplyCancel m), RecvEOF] = (if contains m ''robots.txt'' then Some robotsError else None)"
| "refusal [RecvError s] = Some robotsError"
| "refusal [RecvEOF] = Some browserClosedError"
| "refusal evs = None"

lemma refusal_cases:
  assumes "refusal evs = Some e"
  obtains m where "evs = [RecvReply (ReplyCancel m), RecvEOF]" "contains m ''robots.txt''" "e = robotsError"
  | s where "evs = [RecvError s]" "e = robotsError"
  | "evs = [RecvEOF]" "e = browserClosedError"
  using assms by (cases evs rule: refusal.cases) (auto split: if_splits)

definition refusedBy :: "world \<Rightarrow> world \<Rightarrow> bool" where
  "refusedBy w w' \<longleftrightarrow> (\<exists>b. rc_bcc (w_rc w') = Some b \<and> bccFresh b \<and>
       (b_recv b = Receiving \<and> w_bcIn w' = [RecvEOF] \<or> b_recv b = RecvReturned)) \<and>
     w_bcWire w' = w_bcWire w @ [newRequestMsg w] \<and> w_cwWire w' = w_cwWire w \<and> rc_cwc (w_rc w') = rc_cwc (w_rc w) \<and>
     w_data w' = w_data w \<and> OpenSessions w' = OpenSessions w \<and> rc_CrawlLog (w_rc w') = rc_CrawlLog (w_rc w) \<and>
     rc_FoundInCache (w_rc w') = rc_FoundInCache (w_rc w)"

lemma register_refused:
  assumes "suiteServices ip E" "rc_bcc (w_rc w) = None" "refusal (w_bcIn w) = Some e"
  shows "\<exists>w'. RegisterNewRequest E w = Done (Some e) w' \<and> refusedBy w w'"
proof -
  note E = suite_simps [OF assms(1)]
  let ?l = "setBcc (newBccSession\<lparr>b_locked := True\<rparr>) (setBcc newBccSession (tick w))"
  let ?s = "tick (?l\<lparr>w_bcWire := w_bcWire w @ [newRequestMsg w]\<rparr>)"
  have msg: "newRequestMsg ?l = newRequestMsg w" by (simp add: newRequestMsg_def setBcc_def)
  have send: "bcSend E (newRequestMsg w) ?l = (None, ?s)" by (simp add: bcSend_def E)
  obtain v b where v: "andThen (awaitMsg E (w_bcIn w) ?s) registerReply = Done (Some e) v" "rc_bcc (w_rc v) = Some (b\<lparr>b_locked := True\<rparr>)"
    "bccFresh b" "b_recv b = Receiving \<and> w_bcIn v = [RecvEOF] \<or> b_recv b = RecvReturned" "w_bcWire v = w_bcWire ?s"
    "w_cwWire v = w_cwWire w" "rc_cwc (w_rc v) = rc_cwc (w_rc w)" "w_data v = w_data w" "OpenSessions v = OpenSessions w"
    "rc_CrawlLog (w_rc v) = rc_CrawlLog (w_rc w)" "rc_FoundInCache (w_rc v) = rc_FoundInCache (w_rc w)"
    using assms(3)
  proof (cases rule: refusal_cases)
    case (1 m)
    let ?o = "setBcc (newBccSession\<lparr>b_locked := True\<rparr>) (offer (Some (ReplyCancel m)) False (?s\<lparr>w_bcIn := [RecvEOF]\<rparr>))"
    have "awaitMsg E (w_bcIn w) ?s = Done (Some (ReplyCancel m), True) ?o"
      unfolding 1(1) using 1(2) by (simp add: awaitMsg.simps offer_def updBcc_def newBccSession_def)
    then show ?thesis
      by (intro that [where b = newBccSession and v = "if m = ''Blocked by robots.txt''
            then w_rc_update (rc_PrecludedByRobots_update (\<lambda>_. True)) ?o else ?o"])
        (simp_all add: 1(3) bccFresh_def newBccSession_def offer_def updBcc_def OpenSessions_def)
  next
    case (2 s)
    let ?o = "setBcc (newBccSession\<lparr>b_locked := True, b_recv := RecvReturned\<rparr>)
       (offer (Some (ReplyCancel (unknownBcError s))) True (setRcError (ErrorString (unknownBcError s)) (?s\<lparr>w_bcIn := []\<rparr>)))"
    have "unknownBcError s \<noteq> ''Blocked by robots.txt''" by (simp add: unknownBcError_def)
    then have "andThen (awaitMsg E (w_bcIn w) ?s) registerReply = Done (Some robotsError) ?o"
      unfolding 2(1) by (simp add: awaitMsg.simps offer_def updBcc_def newBccSession_def setRcError_def)
    then show ?thesis
      by (intro that [where b = "newBccSession\<lparr>b_recv := RecvReturned\<rparr>" and v = ?o])
        (simp_all add: 2(2) bccFresh_def newBccSession_def offer_def updBcc_def setRcError_def OpenSessions_def)
  next
    case 3
    let ?o = "setBcc (newBccSession\<lparr>b_locked := True, b_recv := RecvReturned\<rparr>) (offer None True (?s\<lparr>w_bcIn := []\<rparr>))"
    have "andThen (awaitMsg E (w_bcIn w) ?s) registerReply = Done (Some browserClosedError) ?o"
      unfolding 3(1) by (simp add: awaitMsg.simps offer_def updBcc_def newBccSession_def)
    then show ?thesis
      by (intro that [where b = "newBccSession\<lparr>b_recv := RecvReturned\<rparr>" and v = ?o])
        (simp_all add: 3(2) bccFresh_def newBccSession_def offer_def updBcc_def OpenSessions_def)
  qed
  let ?w = "updBcc (b_locked_update (\<lambda>_. False)) v"
  have "registerLocked E newBccSession ?l = Done (Some e) v"
    using send v(1) msg by (simp add: registerLocked_def newBccSession_def)
  then have "withLock (registerLocked E) (setBcc newBccSession (tick w)) = Done (Some e) ?w"
    by (intro withLock_Done [where b = newBccSession]) (simp_all add: newBccSession_def)
  then have "RegisterNewRequest E w = Done (Some e) ?w"
    using assms(2) E(1) by (simp add: RegisterNewRequest_def getBccSession_def)
  moreover have "refusedBy w ?w" using v(2-) by (simp add: refusedBy_def updBcc_def bccFresh_def)
  ultimately show ?thesis by blast
qed

lemma refused_served:
  assumes "suiteServices ip E" "failHonest E" "clientRequest cf (fst req) u" "connReady ip base u (w_data w)"
    "refusal (f_incoming cf) = Some e"
  shows "\<exists>r body rn cl w'. servePage E cf upstream k n req w = Done (Some (r, body)) w' \<and> errorAnswer e r \<and>
     w_cwWire w' = [] \<and> w_bcWire w' = [DoNew rn, DoNotify ALL_DATA_RECEIVED, DoCompleted cl False] \<and>
     rn_Uri rn = urlString (uriAt base u) \<and> cl_RequestedUri cl = urlString (uriAt base u) \<and> cl_Method cl = rq_Method (fst req) \<and>
     cl_StatusCode cl = int32 (Code e) \<and> cl_Error cl = Some (AsCommonsError e) \<and> OpenSessions w' = OpenSessions w \<and>
     connData ip base (w_data w')"
proof -
  obtain w2 where w2: "filterChain E cf upstream req w = andThen (RegisterNewRequest E w2) (\<lambda>e w.
       if e \<noteq> None then andThen (handleRequestError E e w) (\<lambda>h w. Done (rawHandled h) w)
       else DnsLookupFilter_Apply E (RecorderFilter_Apply E (ErrorHandlerFilter_Apply E upstream)) (stripIdHeaders (fst req), snd req) w)"
     "atRegistration ip base cf (fst req) (uriAt base u) (OpenSessions w) w2"
    using chain_registers [OF assms(3,4)] by blast
  note r = w2(2) [unfolded atRegistration_def]
  have log: "cl_RequestedUri (rc_CrawlLog (w_rc w2)) = urlString (uriAt base u)" "cl_Method (rc_CrawlLog (w_rc w2)) = rq_Method (fst req)"
    using r by auto
  obtain w3 where w3: "RegisterNewRequest E w2 = Done (Some e) w3" "refusedBy w2 w3"
    using register_refused [OF assms(1), of w2 e] r assms(5) by auto
  obtain b where b: "rc_bcc (w_rc w3) = Some b" "bccFresh b" "b_recv b = Receiving \<and> w_bcIn w3 = [RecvEOF] \<or> b_recv b = RecvReturned"
    using w3(2) by (auto simp: refusedBy_def)
  have k: "rc_cwc (w_rc w3) = None" "GetRecordContext (w_data w3) \<noteq> None" "w_cwWire w3 = []" "w_bcWire w3 = [newRequestMsg w2]"
    "OpenSessions w3 = OpenSessions w + 1" "rc_CrawlLog (w_rc w3) = rc_CrawlLog (w_rc w2)" "\<not> rc_FoundInCache (w_rc w3)"
    "connData ip base (w_data w3)"
    using w3(2) r by (simp_all add: refusedBy_def)
  obtain resp body w4 where w4: "handleRequestError E (Some e) w3 = Done (Some (resp, body), Some e) w4" "errorAnswer e resp" "failedWith e w3 w4"
    using handleRequestError_open [OF assms(1,2) b(1,2) _ k(2) b(3)] k(1) by blast
  obtain w5 t where w5: "WriteResponseInterceptor E None w4 = Done None w5" "w_bcWire w5 = w_bcWire w3 @ [DoNotify ALL_DATA_RECEIVED, DoCompleted
        ((requestErrorLog e (rc_CrawlLog (w_rc w3)))\<lparr>cl_FetchTimeMs := t, cl_IpAddress := GetIp (w_data w3)\<rparr>) (rc_FoundInCache (w_rc w3))]"
     "w_cwWire w5 = w_cwWire w3 @ (if rc_cwc (w_rc w3) = None then [] else [ReqCancel (Detail e)])" "OpenSessions w5 = OpenSessions w3 - 1"
     "connData ip base (w_data w5) = connData ip base (w_data w3)"
    using failed_end [OF assms(1) w4(3), of ip base] by blast
  have "servePage E cf upstream k n req w = Done (Some (resp, body)) w5"
    using w2(1) w3(1) w4(1) w5(1) by (simp add: servePage_def rawHandled_def)
  then show ?thesis using w4(2) w5(2-) k r log
    by (intro exI conjI) (assumption | simp add: newRequestMsg_def requestErrorLog_def)+
qed


lemma suite_blocked: "refusal (f_incoming (suiteConf ''/blocked'')) = Some robotsError"
  unfolding suiteConf_incoming suite_uris by code_simp


section \<open>An exchange that fails\<close>

lemma newBccSession_fresh: "bccFresh newBccSession" "b_recv newBccSession = Receiving"
  by (simp_all add: bccFresh_def newBccSession_def)

text \<open>A recording that is cancelled leaves no record.\<close>

lemma cwMockRun_canceled:
  "cwMockRun (([ReqProtocolHeader n p] @ streamMsgs n xs @ payloadMsgs n d) @ [ReqCancel msg]) newCwMock = Some (Inr (Some []))"
proof -
  let ?rest = "streamMsgs n (xs @ [(d, None)]) @ [ReqCancel msg]"
  obtain s1 where s1: "cwMockRun (ReqProtocolHeader n p # ?rest) newCwMock = cwMockRun ?rest s1" "received n p s1" "mk_records s1 = []"
    by (rule cwMockRun_header [of n p newCwMock]) (metis newCwMock_def cwMock.select_convs(1))
  obtain s2 where "cwMockRun ?rest s1 = cwMockRun [ReqCancel msg] s2" "mk_records s2 = []"
    using cwMockRun_stream [OF s1(2), of "xs @ [(d, None)]"] unfolding s1(3) by blast
  then show ?thesis using s1(1) by simp
qed

lemma failed_served:
  assumes "suiteServices ip E" "failHonest E" "clientRequest cf (fst req) u" "connReady ip base u (w_data w)"
    "f_incoming cf = [RecvReply (ReplyNew v), RecvEOF]" "nr_CollectionRef v \<noteq> None"
    "snd req = xs @ [(d, Some IoEOF)]" "endsOnce xs" "\<forall>h. rq_URL h = Some u \<longrightarrow> failureOf (answer h) = Some e"
  shows "\<exists>r body prolog rn cl w'. servePage E cf (serverTransport E answer) k reads req w = Done (Some (r, body)) w' \<and> errorAnswer e r \<and>
     writeRequestProlog (e_toASCII E) (stripIdHeaders (fst req)) = Some (Inr prolog) \<and>
     w_cwWire w' = [ReqProtocolHeader 0 prolog] @ streamMsgs 0 xs @ payloadMsgs 0 d @ [ReqCancel (Detail e)] \<and>
     cwMockRun (w_cwWire w') newCwMock = Some (Inr (Some [])) \<and>
     w_bcWire w' = [DoNew rn, DoNotify ALL_DATA_RECEIVED, DoCompleted cl False] \<and> rn_Uri rn = urlString (uriAt base u) \<and>
     cl_RequestedUri cl = urlString (uriAt base u) \<and> cl_IpAddress cl = ip \<and> cl_ExecutionId cl = nr_CrawlExecutionId v \<and>
     cl_StatusCode cl = int32 (Code e) \<and> cl_Error cl = Some (AsCommonsError e) \<and> OpenSessions w' = OpenSessions w \<and>
     connData ip base (w_data w')"
proof -
  obtain prolog rn w2 m t ct hreq where p: "writeRequestProlog (e_toASCII E) (stripIdHeaders (fst req)) = Some (Inr prolog)"
    and w2: "filterChain E cf (serverTransport E answer) req w = recordAnswer E (answer hreq) w2" "rq_URL hreq = Some u" "rc_Error (w_rc w2) = None"
     "answered ip base v [RecvEOF] (OpenSessions w + 1) [DoNew rn] ([ReqProtocolHeader 0 prolog] @ streamMsgs 0 xs @ payloadMsgs 0 d)
       (m\<lparr>wm_RecordMeta := [(0, metaFor 0 RT_REQUEST RecordContentTypeRequest (prolog @ chunksOf xs @ d))]\<rparr>)
       ((startLog (fst req) (uriAt base u) v t)\<lparr>cl_StatusCode := -1, cl_ContentType := ct\<rparr>) w2"
    and rn: "rn_Uri rn = urlString (uriAt base u)"
    using exchange_sent [OF assms(1,3-8), of answer] by blast
  let ?cww = "[ReqProtocolHeader 0 prolog] @ streamMsgs 0 xs @ payloadMsgs 0 d"
  note a = w2(4) [unfolded answered_def sessionsOpen_def]
  obtain resp body w4 where w4: "handleRequestError E (Some e) w2 = Done (Some (resp, body), Some e) w4" "errorAnswer e resp" "failedWith e w2 w4"
    using handleRequestError_open [OF assms(1,2) _ newBccSession_fresh(1), of w2] a newBccSession_fresh(2) by blast
  have "failureOf (answer hreq) = Some e" using assms(9) w2(2) by simp
  then have run: "filterChain E cf (serverTransport E answer) req w = Done (rawHandled (Some (resp, body), Some e)) w4"
    using w2(1) w4(1) by (simp add: recordAnswer_def)
  obtain w5 t' where w5: "WriteResponseInterceptor E None w4 = Done None w5" "w_bcWire w5 = w_bcWire w2 @ [DoNotify ALL_DATA_RECEIVED, DoCompleted
        ((requestErrorLog e (rc_CrawlLog (w_rc w2)))\<lparr>cl_FetchTimeMs := t', cl_IpAddress := GetIp (w_data w2)\<rparr>) (rc_FoundInCache (w_rc w2))]"
     "w_cwWire w5 = w_cwWire w2 @ (if rc_cwc (w_rc w2) = None then [] else [ReqCancel (Detail e)])" "OpenSessions w5 = OpenSessions w2 - 1"
     "connData ip base (w_data w5) = connData ip base (w_data w2)"
    using failed_end [OF assms(1) w4(3), of ip base] by blast
  have served: "servePage E cf (serverTransport E answer) k reads req w = Done (Some (resp, body)) w5"
    using run w5(1) by (simp add: servePage_def rawHandled_def)
  let ?cl = "(requestErrorLog e ((startLog (fst req) (uriAt base u) v t)\<lparr>cl_StatusCode := -1, cl_ContentType := ct\<rparr>))\<lparr>cl_FetchTimeMs := t', cl_IpAddress := ip\<rparr>"
  have bc: "w_bcWire w5 = [DoNew rn, DoNotify ALL_DATA_RECEIVED, DoCompleted ?cl False]" using w5(2) a by simp
  have cw: "w_cwWire w5 = ?cww @ [ReqCancel (Detail e)]" using w5(3) a by simp
  have mock: "cwMockRun (w_cwWire w5) newCwMock = Some (Inr (Some []))"
    unfolding cw using cwMockRun_canceled [of 0 prolog xs d] by simp
  have log: "cl_RequestedUri ?cl = urlString (uriAt base u)" "cl_IpAddress ?cl = ip" "cl_ExecutionId ?cl = nr_CrawlExecutionId v"
    "cl_StatusCode ?cl = int32 (Code e)" "cl_Error ?cl = Some (AsCommonsError e)" and n: "OpenSessions w5 = OpenSessions w" "connData ip base (w_data w5)"
    using w5(4,5) a by (simp_all add: requestErrorLog_def startLog_def)
  show ?thesis
    by (intro exI conjI) (rule served w4(2) p cw [simplified append_assoc] mock bc rn log n)+
qed

text \<open>
  C3: An exchange that fails, from the client to the end. When the server closes the connection without an answer, or the cache
  answers with its error header, the client gets status 503 with code and message of the error; the content writer got the header and the
  body of the request and then one cancellation with the detail of the error, so its mock keeps no record; the browser
  controller gets a notice and one final crawl log with the error, no session stays open, and the connection can take its next request.
\<close>

theorem failed_exchange_through_proxy:
  assumes "suiteServices ip E" "failHonest E" "clientRequest cf (fst req) u" "connReady ip base u (w_data w)"
    "f_incoming cf = [RecvReply (ReplyNew v), RecvEOF]" "nr_CollectionRef v \<noteq> None"
    "snd req = xs @ [(d, Some IoEOF)]" "endsOnce xs" "\<forall>h. rq_URL h = Some u \<longrightarrow> failureOf (answer h) = Some e"
  shows "\<exists>r body prolog rn cl w'. servePage E cf (serverTransport E answer) k reads req w = Done (Some (r, body)) w' \<and> errorAnswer e r \<and>
     writeRequestProlog (e_toASCII E) (stripIdHeaders (fst req)) = Some (Inr prolog) \<and>
     w_cwWire w' = [ReqProtocolHeader 0 prolog] @ streamMsgs 0 xs @ payloadMsgs 0 d @ [ReqCancel (Detail e)] \<and>
     cwMockRun (w_cwWire w') newCwMock = Some (Inr (Some [])) \<and>
     w_bcWire w' = [DoNew rn, DoNotify ALL_DATA_RECEIVED, DoCompleted cl False] \<and> rn_Uri rn = urlString (uriAt base u) \<and>
     cl_RequestedUri cl = urlString (uriAt base u) \<and> cl_IpAddress cl = ip \<and> cl_ExecutionId cl = nr_CrawlExecutionId v \<and>
     cl_StatusCode cl = int32 (Code e) \<and> cl_Error cl = Some (AsCommonsError e) \<and> OpenSessions w' = OpenSessions w \<and>
     connData ip base (w_data w')"
  by (rule failed_served [OF assms(1-9)])

text \<open>A page that takes longer than the write timeout of the server.\<close>

theorem failed_exchange_through_proxy_witness:
  "\<exists>r body cl w'. servePage suiteEnv (suiteConf ''/extraslow'') (serverTransport suiteEnv suiteAnswer) 32768 1
       (suiteRequest ''/extraslow'') newConnection = Done (Some (r, body)) w' \<and>
     headerGet (rs_Header r) HeaderProxyError = ''EMPTY_RESPONSE'' \<and> last (w_bcWire w') = DoCompleted cl False \<and>
     cl_StatusCode cl = -404 \<and> last (w_cwWire w') = ReqCancel ''Empty reply from server''"
proof -
  let ?e = "ProxyError EmptyResponse ''EMPTY_RESPONSE'' ''Empty reply from server'' (Some IoEOF) StatusServiceUnavailable"
  have f: "\<forall>h. rq_URL h = Some (suiteUrl ''/extraslow'') \<longrightarrow> failureOf (suiteAnswer h) = Some ?e"
    by (simp add: suite_answers failureOf_simps Wrap_def)
  have e: "int32 (Code ?e) = -404" "Message ?e = ''EMPTY_RESPONSE''" "Detail ?e = ''Empty reply from server''"
    by (simp_all add: EmptyResponse_def int32_id)
  show ?thesis
    using failed_exchange_through_proxy [OF suiteEnv_services suiteEnv_fails suiteRequest_simps(1,2) suite_accepts(3) suite_replies(1)
        suiteRequest_simps(3,4) f, of 32768 1] e
    by (fastforce simp: errorAnswer_def)
qed

section \<open>A response of the cache\<close>

definition cachedWorld :: "http_response \<Rightarrow> world \<Rightarrow> world" where
  "cachedWorld resp w = updLog (\<lambda>cl. cl\<lparr>cl_StatusCode := int32 (rs_StatusCode resp), cl_ContentType := headerGet (rs_Header resp) ''Content-Type''\<rparr>)
     (w_rc_update (\<lambda>r. r\<lparr>rc_FoundInCache := True,
        rc_Meta := map_option (putRecordMeta (newRecordMeta 1 RT_RESPONSE RecordContentTypeResponse)) (rc_Meta r)\<rparr>) w)"

lemma filterResponse_cached:
  assumes "rc_Meta (w_rc w) \<noteq> None" "GetRecordContext (w_data w) \<noteq> None" "rc_Error (w_rc w) = None" "isFromCache resp"
  shows "filterResponse E (Some (resp, body)) w =
     Done (Inr (scriptLength w resp, RecordedResp (wrappedResponse body (writeResponseProlog resp)))) (cachedWorld resp w)"
  using assms by (simp add: filterResponse_def hasBcError_def Let_def WrapResponseBody_def startRecord_def wrappedResponse_def
      scriptLength_def cachedWorld_def updLog_def)

lemma cachedContent_open:
  fixes b :: wrappedResponseBody
  assumes "suiteServices ip E" "sessionsOpen w" "GetRecordContext (w_data w) \<noteq> None" "w_bcIn w = [RecvEOF]"
  defines "cl \<equiv> (rc_CrawlLog (w_rc w))\<lparr>cl_Size := p_size b\<rparr>"
  shows "\<exists>w'. handleCachedContent E b w = Done () w' \<and> readyToEnd \<lparr>cm_cl = cl, cm_err = None\<rparr> w' \<and>
     (\<forall>c. rc_cwc (w_rc w') = Some c \<longrightarrow> cw_CtxDone c) \<and> w_cwWire w' = w_cwWire w @ [ReqCancel ''OK: Loaded from cache''] \<and>
     w_bcWire w' = w_bcWire w \<and> w_data w' = w_data w \<and> OpenSessions w' = OpenSessions w \<and>
     rc_FoundInCache (w_rc w') = rc_FoundInCache (w_rc w)"
proof -
  let ?w = "updLog (cl_Size_update (\<lambda>_. p_size b)) w"
  have s: "SaveCrawlLog E ?w = Done None (completed ?w)" using assms(2) by (intro SaveCrawlLog_open) (simp add: sessionsOpen_def)
  have c: "rc_cwc (w_rc (completed ?w)) = Some newCwcSession" using assms(2) by (simp add: completed_def sessionsOpen_def)
  obtain err w' where w': "CancelContentWriter E ''OK: Loaded from cache'' (completed ?w) = Done err w'"
     "\<forall>c. rc_cwc (w_rc w') = Some c \<longrightarrow> cw_CtxDone c" "w_cwWire w' = w_cwWire (completed ?w) @ [ReqCancel ''OK: Loaded from cache'']"
     "rc_bcc (w_rc w') = rc_bcc (w_rc (completed ?w))" "w_bcWire w' = w_bcWire (completed ?w)" "w_bcIn w' = w_bcIn (completed ?w)"
     "w_data w' = w_data (completed ?w)" "OpenSessions w' = OpenSessions (completed ?w)"
     "rc_FoundInCache (w_rc w') = rc_FoundInCache (w_rc (completed ?w))"
    using Cancel_open [OF assms(1), of "completed ?w" "''OK: Loaded from cache''"] c by auto
  have "handleCachedContent E b w = Done () w'" using s w'(1) by (simp add: handleCachedContent_def)
  moreover have "readyToEnd \<lparr>cm_cl = cl, cm_err = None\<rparr> w'"
    using w'(4,6,7) assms(3,4) by (simp add: readyToEnd_def completed_def newBccSession_def cl_def)
  ultimately show ?thesis using w' by (intro exI [of _ w']) (simp add: completed_def)
qed

lemma cached_served:
  assumes "suiteServices ip E" "clientRequest cf (fst req) u" "connReady ip base u (w_data w)"
    "f_incoming cf = [RecvReply (ReplyNew v), RecvEOF]" "nr_CollectionRef v \<noteq> None" "nr_ReplacementScript v = None"
    "snd req = xs @ [(d, Some IoEOF)]" "endsOnce xs"
    "\<forall>h. rq_URL h = Some u \<longrightarrow> answer h = Some (resp, ys @ [(e, Some IoEOF)])" "endsOnce ys"
    "isFromCache resp" "headerGet (rs_Header resp) ''X-Squid-Error'' = []"
  shows "\<exists>prolog rn cl w'. servePage E cf (serverTransport E answer) k (Suc (length ys)) req w =
       Done (Some (resp, ys @ [(e, Some IoEOF)])) w' \<and>
     writeRequestProlog (e_toASCII E) (stripIdHeaders (fst req)) = Some (Inr prolog) \<and>
     w_cwWire w' = [ReqProtocolHeader 0 prolog] @ streamMsgs 0 xs @ payloadMsgs 0 d @ [ReqCancel ''OK: Loaded from cache''] \<and>
     cwMockRun (w_cwWire w') newCwMock = Some (Inr (Some [])) \<and>
     w_bcWire w' = [DoNew rn, DoCompleted cl True] \<and> rn_Uri rn = urlString (uriAt base u) \<and>
     cl_RequestedUri cl = urlString (uriAt base u) \<and> cl_IpAddress cl = ip \<and> cl_ExecutionId cl = nr_CrawlExecutionId v \<and>
     cl_StatusCode cl = int32 (rs_StatusCode resp) \<and> cl_ContentType cl = headerGet (rs_Header resp) ''Content-Type'' \<and>
     cl_Size cl = int (length (writeResponseProlog resp)) \<and> cl_Error cl = None \<and> OpenSessions w' = OpenSessions w \<and>
     connData ip base (w_data w')"
proof -
  let ?q = "writeResponseProlog resp" and ?body = "ys @ [(e, Some IoEOF)]"
  obtain prolog rn w2 m t ct hreq where p: "writeRequestProlog (e_toASCII E) (stripIdHeaders (fst req)) = Some (Inr prolog)"
    and w2: "filterChain E cf (serverTransport E answer) req w = recordAnswer E (answer hreq) w2" "rq_URL hreq = Some u" "rc_Error (w_rc w2) = None"
     "answered ip base v [RecvEOF] (OpenSessions w + 1) [DoNew rn] ([ReqProtocolHeader 0 prolog] @ streamMsgs 0 xs @ payloadMsgs 0 d)
       (m\<lparr>wm_RecordMeta := [(0, metaFor 0 RT_REQUEST RecordContentTypeRequest (prolog @ chunksOf xs @ d))]\<rparr>)
       ((startLog (fst req) (uriAt base u) v t)\<lparr>cl_StatusCode := -1, cl_ContentType := ct\<rparr>) w2"
    and rn: "rn_Uri rn = urlString (uriAt base u)"
    using exchange_sent [OF assms(1-5,7,8), of answer] by blast
  let ?cww = "[ReqProtocolHeader 0 prolog] @ streamMsgs 0 xs @ payloadMsgs 0 d"
  note a = w2(4) [unfolded answered_def]
  let ?w3 = "cachedWorld resp w2" and ?b = "wrappedResponse ?body ?q"
  have "answer hreq = Some (resp, ?body)" using assms(9) w2(2) by simp
  moreover have "filterResponse E (Some (resp, ?body)) w2 = Done (Inr (scriptLength w2 resp, RecordedResp ?b)) ?w3"
    by (rule filterResponse_cached) (use a w2(3) assms(11) in simp_all)
  moreover have "scriptLength w2 resp = resp" using a assms(6) by (simp add: scriptLength_def)
  ultimately have run: "filterChain E cf (serverTransport E answer) req w = Done (Some (resp, RecordedResp ?b), None) ?w3"
    using w2(1) assms(12) by (simp add: recordAnswer_def failureOf_simps recordResponse_def)
  have k3: "rc_FoundInCache (w_rc ?w3)" "rc_ReplacementScript (w_rc ?w3) = None" "sessionsOpen ?w3" "GetRecordContext (w_data ?w3) \<noteq> None"
    "w_bcIn ?w3 = [RecvEOF]" "w_cwWire ?w3 = ?cww" "w_bcWire ?w3 = [DoNew rn]" "OpenSessions ?w3 = OpenSessions w + 1"
    "GetIp (w_data ?w3) = ip \<and> connData ip base (w_data ?w3)" "rc_CrawlLog (w_rc ?w3) = (startLog (fst req) (uriAt base u) v t)\<lparr>cl_StatusCode := int32 (rs_StatusCode resp),
       cl_ContentType := headerGet (rs_Header resp) ''Content-Type''\<rparr>"
    using a assms(6) by (simp_all add: cachedWorld_def sessionsOpen_def updLog_def startLog_def OpenSessions_def)
  have b: "p_ReadCloser ?b = ?body" "\<not> p_eof ?b" "p_size ?b = int (length ?q)" by (simp_all add: wrappedResponse_def)
  let ?b' = "?b\<lparr>p_ReadCloser := [], p_eof := True\<rparr>"
  obtain w4 where w4: "handleCachedContent E ?b' ?w3 = Done () w4"
     "readyToEnd \<lparr>cm_cl = (rc_CrawlLog (w_rc ?w3))\<lparr>cl_Size := p_size ?b'\<rparr>, cm_err = None\<rparr> w4" "\<forall>c. rc_cwc (w_rc w4) = Some c \<longrightarrow> cw_CtxDone c"
     "w_cwWire w4 = w_cwWire ?w3 @ [ReqCancel ''OK: Loaded from cache'']" "w_bcWire w4 = w_bcWire ?w3" "w_data w4 = w_data ?w3"
     "OpenSessions w4 = OpenSessions ?w3" "rc_FoundInCache (w_rc w4) = rc_FoundInCache (w_rc ?w3)"
    using cachedContent_open [OF assms(1) k3(3-5), of ?b'] by blast
  have reads: "responseReads E k (Suc (length ys)) ?b ?w3 = Done (?body, ?b') w4"
    using cachedReads [OF k3(1,2) b(1,2) assms(10), of E k] w4(1) by simp
  obtain w5 where w5: "WriteResponseInterceptor E None w4 = Done None w5" "w_cwWire w5 = w_cwWire w4" "OpenSessions w5 = OpenSessions w4 - 1"
     "connData ip base (w_data w5) = connData ip base (w_data w4)"
     "w_bcWire w5 = w_bcWire w4 @ [DoCompleted (stampLog E w4 ((rc_CrawlLog (w_rc ?w3))\<lparr>cl_Size := p_size ?b'\<rparr>)) (rc_FoundInCache (w_rc w4))]"
    using interceptor_open [OF assms(1) w4(2,3), of ip base] by auto
  have served: "servePage E cf (serverTransport E answer) k (Suc (length ys)) req w = Done (Some (resp, ?body)) w5"
    using run reads w5(1) by (simp add: servePage_def del: responseReads.simps)
  let ?cl = "stampLog E w4 ((rc_CrawlLog (w_rc ?w3))\<lparr>cl_Size := p_size ?b'\<rparr>)"
  have bc: "w_bcWire w5 = [DoNew rn, DoCompleted ?cl True]" using w5(5) w4(5,8) k3(1,7) by simp
  have cw: "w_cwWire w5 = ?cww @ [ReqCancel ''OK: Loaded from cache'']" using w5(2) w4(4) k3(6) by simp
  have mock: "cwMockRun (w_cwWire w5) newCwMock = Some (Inr (Some []))" unfolding cw by (rule cwMockRun_canceled)
  have log: "cl_RequestedUri ?cl = urlString (uriAt base u)" "cl_IpAddress ?cl = ip" "cl_ExecutionId ?cl = nr_CrawlExecutionId v"
    "cl_StatusCode ?cl = int32 (rs_StatusCode resp)" "cl_ContentType ?cl = headerGet (rs_Header resp) ''Content-Type''"
    "cl_Size ?cl = int (length ?q)" "cl_Error ?cl = None" and n: "OpenSessions w5 = OpenSessions w" "connData ip base (w_data w5)"
    using w5(3,4) w4(6,7) k3(8-10) b(3) by (simp_all add: stampLog_def startLog_def emptyCrawlLog_def)
  show ?thesis
    by (intro exI conjI) (rule served p cw [simplified append_assoc] mock bc rn log n)+
qed

text \<open>
  C4: A page that the cache answers, from the client to the end. The client gets the page as it is; the content writer got
  the header and the body of the request and then one cancellation, so no record is kept; the browser controller gets no notice, only the
  final crawl log, marked as found in the cache, with status and content type of the response and with the length of its header as its
  size; no session stays open, and the connection can take its next request.
\<close>

theorem cached_page_through_proxy:
  assumes "suiteServices ip E" "clientRequest cf (fst req) u" "connReady ip base u (w_data w)"
    "f_incoming cf = [RecvReply (ReplyNew v), RecvEOF]" "nr_CollectionRef v \<noteq> None" "nr_ReplacementScript v = None"
    "snd req = xs @ [(d, Some IoEOF)]" "endsOnce xs"
    "\<forall>h. rq_URL h = Some u \<longrightarrow> answer h = Some (resp, ys @ [(e, Some IoEOF)])" "endsOnce ys"
    "isFromCache resp" "headerGet (rs_Header resp) ''X-Squid-Error'' = []"
  shows "\<exists>prolog rn cl w'. servePage E cf (serverTransport E answer) k (Suc (length ys)) req w =
       Done (Some (resp, ys @ [(e, Some IoEOF)])) w' \<and>
     writeRequestProlog (e_toASCII E) (stripIdHeaders (fst req)) = Some (Inr prolog) \<and>
     w_cwWire w' = [ReqProtocolHeader 0 prolog] @ streamMsgs 0 xs @ payloadMsgs 0 d @ [ReqCancel ''OK: Loaded from cache''] \<and>
     cwMockRun (w_cwWire w') newCwMock = Some (Inr (Some [])) \<and>
     w_bcWire w' = [DoNew rn, DoCompleted cl True] \<and> rn_Uri rn = urlString (uriAt base u) \<and>
     cl_RequestedUri cl = urlString (uriAt base u) \<and> cl_IpAddress cl = ip \<and> cl_ExecutionId cl = nr_CrawlExecutionId v \<and>
     cl_StatusCode cl = int32 (rs_StatusCode resp) \<and> cl_ContentType cl = headerGet (rs_Header resp) ''Content-Type'' \<and>
     cl_Size cl = int (length (writeResponseProlog resp)) \<and> cl_Error cl = None \<and> OpenSessions w' = OpenSessions w \<and>
     connData ip base (w_data w')"
  by (rule cached_served [OF assms(1-12)])

theorem cached_page_through_proxy_witness:
  "\<exists>resp cl w'. servePage suiteEnv (suiteConf ''/cached'') (serverTransport suiteEnv suiteAnswer) 32768 1
       (suiteRequest ''/cached'') newConnection = Done (Some (resp, [(httpContent, Some IoEOF)])) w' \<and>
     last (w_bcWire w') = DoCompleted cl True \<and> cl_Size cl = 219"
proof -
  have a: "\<forall>h. rq_URL h = Some (suiteUrl ''/cached'') \<longrightarrow> suiteAnswer h = Some (cacheResponse, [] @ [(httpContent, Some IoEOF)])"
    using suite_answers(2) by simp
  show ?thesis
    using cached_page_through_proxy [OF suiteEnv_services suiteRequest_simps(1,2) suite_accepts(2) suite_replies(1,3) suiteRequest_simps(3,4)
        a suiteRequest_simps(4) suite_responses(5,6), of 32768] suite_responses(4)
    by fastforce
qed

end
