(* ===== verification/Canceled_Flow.thy ===== *)
theory Canceled_Flow
  imports Failed_Flow
begin

text \<open>
  Pages that are not kept: one that the browser controller cancels while it is copied to the client, so the client gets the rest of it but
  the content writer and the browser controller do not, and one whose records the content writer rejects at the end.
\<close>

section \<open>The cancel\<close>

text \<open>The session has its completion and the content writer session is canceled, so nothing more is recorded.\<close>

definition stopped :: "world \<Rightarrow> bool" where
  "stopped w \<longleftrightarrow> (\<exists>b c. rc_bcc (w_rc w) = Some b \<and> b_complete b \<noteq> None \<and> \<not> b_locked b \<and> rc_cwc (w_rc w) = Some c \<and> cw_canceled c) \<and>
     \<not> rc_FoundInCache (w_rc w) \<and> rc_ReplacementScript (w_rc w) = None"

definition canceledMsg :: string where
  "canceledMsg = ''canceled by browser controller''"

definition cancelCompletion :: "crawlLog \<Rightarrow> completeMsg" where
  "cancelCompletion cl = \<lparr>cm_cl = canceledLog canceledByController cl, cm_err = Some canceledByController\<rparr>"

lemma recvStep_cancels:
  assumes "suiteServices ip E" "answered ip base v [RecvReply (ReplyCancel msg), RecvEOF] n bcw cww m cl w"
    "\<not> contains msg ''robots.txt''" "nr_ReplacementScript v = None"
  shows "stopped (recvStep E w) \<and> readyToEnd (cancelCompletion cl) (recvStep E w) \<and>
     (\<forall>c. rc_cwc (w_rc (recvStep E w)) = Some c \<longrightarrow> cw_CtxDone c) \<and> w_cwWire (recvStep E w) = cww @ [ReqCancel canceledMsg] \<and>
     w_bcWire (recvStep E w) = bcw \<and> OpenSessions (recvStep E w) = n \<and> GetIp (w_data (recvStep E w)) = ip \<and>
     connData ip base (w_data (recvStep E w))"
proof -
  note a = assms(2) [unfolded answered_def sessionsOpen_def]
  let ?w = "w\<lparr>w_bcIn := [RecvEOF]\<rparr>"
  let ?c = "setCwc (newCwcSession\<lparr>cw_done := True, cw_canceled := True, cw_Closed := True, cw_CtxDone := True\<rparr>) (tick (sentCw (ReqCancel canceledMsg) ?w))"
  have "endState (CancelContentWriter E canceledMsg ?w) = ?c"
    using a suite_simps(4) [OF assms(1)]
    by (simp add: CancelContentWriter_def getCwcSession_def Let_def cwSend_def cwStreamClosed_def sendsSucceed_def newCwcSession_def
        cwCloseAndRecv_def cwCtxCancel_def updCwc_def sentCw_def setCwc_def tick_def)
  then have "recvStep E w = setBcc (newBccSession\<lparr>b_complete := Some (cancelCompletion cl)\<rparr>) (updLog (canceledLog canceledByController) ?c)"
    using a assms(3) by (simp add: recvStep_def recvCancel_def canceledMsg_def Let_def completeSend_def newBccSession_def cancelCompletion_def)
  then show ?thesis using a assms(4)
    by (simp add: stopped_def readyToEnd_def newBccSession_def updLog_def) (simp add: OpenSessions_def)
qed

section \<open>The rest of the body\<close>

lemma notify_stopped: "stopped w \<Longrightarrow> notifyDataReceived E act w = Done (Some AlreadyCompleted) w"
  by (auto simp: stopped_def notifyDataReceived_def getBccSession_def withLock_def updBcc_def notifyLocked_def setBcc_def)

lemma stopped_chunk: "stopped w \<Longrightarrow> \<exists>b'. recordChunk E d b w = Done b' w \<and> p_ReadCloser b' = p_ReadCloser b \<and> p_eof b' = p_eof b"
  by (auto simp: recordChunk_def NotifyDataReceived_def notify_stopped SendPayload_def)
    (auto simp: stopped_def sendOnSession_def getCwcSession_def)

lemma stopped_end: "stopped w \<Longrightarrow> \<exists>h. responseBodyEOF E b w = Done () (updRecordMeta (p_recNum b) h w)"
  by (auto simp: responseBodyEOF_def NotifyAllDataReceived_def notify_stopped Let_def)
    (auto simp: stopped_def SendMeta_def getCwcSession_def sendMetaStep_def afterMeta_def updRecordMeta_def)

lemma stopped_reads:
  assumes "stopped w" "p_ReadCloser b = xs @ [(d, Some IoEOF)]" "\<not> p_eof b" "endsOnce xs"
  shows "\<exists>b' h. responseReads E k (Suc (length xs)) b w = Done (xs @ [(d, Some IoEOF)], b') (updRecordMeta (p_recNum b) h w)"
  using assms(2-)
proof (induction xs arbitrary: b)
  case Nil
  obtain b' where b': "recordChunk E d (b\<lparr>p_ReadCloser := []\<rparr>) w = Done b' w" using stopped_chunk [OF assms(1)] by blast
  have "p_recNum b' = p_recNum b"
    using b' by (auto simp: recordChunk_def NotifyDataReceived_def SendPayload_def andThen_Done_iff Let_def split: if_splits)
  then obtain h where "responseBodyEOF E (b'\<lparr>p_eof := True\<rparr>) w = Done () (updRecordMeta (p_recNum b) h w)"
    using stopped_end [OF assms(1), of E "b'\<lparr>p_eof := True\<rparr>"] by auto
  then show ?case using Nil b' assms(1)
    by (auto simp: stopped_def responseBodyRead_plain innerReadStep_def Let_def)
next
  case (Cons x xs)
  let ?b = "b\<lparr>p_ReadCloser := xs @ [(d, Some IoEOF)]\<rparr>"
  obtain b' where b': "recordChunk E (fst x) ?b w = Done b' w" "p_ReadCloser b' = xs @ [(d, Some IoEOF)]" "p_eof b' = p_eof b"
    using stopped_chunk [OF assms(1), of E "fst x" ?b] by auto
  have n: "p_recNum b' = p_recNum b"
    using b'(1) by (auto simp: recordChunk_def NotifyDataReceived_def SendPayload_def andThen_Done_iff Let_def split: if_splits)
  have e: "snd x \<noteq> Some IoEOF" "endsOnce xs" using Cons.prems(3) by (simp_all add: endsOnce_def)
  have "responseBodyRead E k b w = Done (x, b') w"
    using Cons.prems(1,2) assms(1) b'(1) e(1) by (cases x) (auto simp: stopped_def responseBodyRead_plain innerReadStep_def)
  then have "responseReads E k (Suc (length (x # xs))) b w =
      andThen (responseReads E k (Suc (length xs)) b' w) (\<lambda>(outs, b) w. Done (x # outs, b) w)"
    by (simp only: responseReads.simps(2) [of E k "length (x # xs)"]) simp
  moreover obtain b'' h where "responseReads E k (Suc (length xs)) b' w = Done (xs @ [(d, Some IoEOF)], b'') (updRecordMeta (p_recNum b') h w)"
    using Cons.IH [OF b'(2) _ e(2)] Cons.prems(2) b'(3) by blast
  ultimately show ?case using n by (intro exI [of _ b''] exI [of _ h]) (simp del: responseReads.simps)
qed

lemma updRecordMeta_sessions [simp]:
  "rc_bcc (w_rc (updRecordMeta n h w)) = rc_bcc (w_rc w)" "rc_cwc (w_rc (updRecordMeta n h w)) = rc_cwc (w_rc w)"
  "w_bcIn (updRecordMeta n h w) = w_bcIn w" "w_bcWire (updRecordMeta n h w) = w_bcWire w"
  by (simp_all add: updRecordMeta_def)

section \<open>The page\<close>

text \<open>The page is copied in \<open>i\<close> reads, then the receiving goroutine handles the next message of the browser controller, then the rest is copied.\<close>

definition serveCanceled :: "env \<Rightarrow> filterConf \<Rightarrow> (reqBody, reader) nextFilter \<Rightarrow> nat \<Rightarrow> nat \<Rightarrow> nat \<Rightarrow> http_request \<times> reader \<Rightarrow> world \<Rightarrow>
    ((http_response \<times> (bytes \<times> go_error option) list) option, world) run" where
  "serveCanceled E cf upstream k i n req w = andThen (filterChain E cf upstream req w) (\<lambda>(resp, err) w.
     case resp of
       Some (rsp, RecordedResp b) \<Rightarrow> andThen (responseReads E k i b w) (\<lambda>(outs, b) w.
         andThen (responseReads E k n b (recvStep E w)) (\<lambda>(outs', b) w.
         andThen (WriteResponseInterceptor E None w) (\<lambda>_ w. Done (Some (rsp, outs @ outs')) w)))
     | _ \<Rightarrow> Done None w)"

text \<open>What the content writer of the test suite makes of a page that is canceled on the way.\<close>

lemma cwMockRun_half:
  "cwMockRun ([ReqProtocolHeader 0 p] @ streamMsgs 0 xs @ payloadMsgs 0 d @ [ReqProtocolHeader 1 q] @ streamMsgs 1 ys @ [ReqCancel msg]) newCwMock =
     Some (Inr (Some []))"
proof -
  let ?rest = "streamMsgs 1 ys @ [ReqCancel msg]"
  obtain s1 where s1: "\<forall>rs. cwMockRun (ReqProtocolHeader 0 p # rs) newCwMock = cwMockRun rs s1" "received 0 p s1" "mk_records s1 = []"
    by (rule cwMockRun_header [of 0 p newCwMock]) (metis newCwMock_def cwMock.select_convs(1))
  obtain s2 where s2: "\<forall>rs. cwMockRun (streamMsgs 0 (xs @ [(d, None)]) @ rs) s1 = cwMockRun rs s2" "mk_records s2 = []"
    using cwMockRun_stream [OF s1(2), of "xs @ [(d, None)]"] unfolding s1(3) by blast
  obtain s3 where s3: "\<forall>rs. cwMockRun (ReqProtocolHeader 1 q # rs) s2 = cwMockRun rs s3" "received 1 q s3" "mk_records s3 = []"
    by (rule cwMockRun_header [of 1 q s2]) (metis s2(2))
  obtain s4 where s4: "cwMockRun ?rest s3 = cwMockRun [ReqCancel msg] s4" "mk_records s4 = []"
    using cwMockRun_stream [OF s3(2), of ys] unfolding s3(3) by blast
  have "cwMockRun ([ReqProtocolHeader 0 p] @ streamMsgs 0 xs @ payloadMsgs 0 d @ [ReqProtocolHeader 1 q] @ streamMsgs 1 ys @ [ReqCancel msg]) newCwMock =
      cwMockRun (streamMsgs 0 (xs @ [(d, None)]) @ ReqProtocolHeader 1 q # ?rest) s1"
    using s1(1) by simp
  also have "\<dots> = Some (Inr (Some []))" unfolding s2(1) [rule_format] s3(1) [rule_format] s4(1) by (simp add: s4(2))
  finally show ?thesis .
qed

text \<open>The copying of a page during which the cancel arrives, and its end.\<close>

lemma copied_until_canceled:
  fixes ys zs :: reader and e q :: bytes and cl :: crawlLog
  assumes "suiteServices ip E" "answered ip base v [RecvReply (ReplyCancel msg), RecvEOF] n bcw cww m cl w" "nr_ReplacementScript v = None"
    "\<not> contains msg ''robots.txt''" "endsOnce ys" "endsOnce zs"
  shows "\<exists>b1 b2 w3 w4 t. responseReads E k (length ys) (wrappedResponse (ys @ zs @ [(e, Some IoEOF)]) q) w = Done (ys, b1) (passBody 1 ys w) \<and>
     responseReads E k (Suc (length zs)) b1 (recvStep E (passBody 1 ys w)) = Done (zs @ [(e, Some IoEOF)], b2) w3 \<and>
     WriteResponseInterceptor E None w3 = Done None w4 \<and> w_cwWire w4 = cww @ streamMsgs 1 ys @ [ReqCancel canceledMsg] \<and>
     w_bcWire w4 = bcw @ notices ys @ [DoCompleted ((cm_cl (cancelCompletion cl))\<lparr>cl_FetchTimeMs := t, cl_IpAddress := ip\<rparr>) False] \<and>
     OpenSessions w4 = n - 1 \<and> connData ip base (w_data w4)"
proof -
  let ?b = "wrappedResponse (ys @ zs @ [(e, Some IoEOF)]) q" and ?w3 = "recvStep E (passBody 1 ys w)"
  have b: "\<not> p_eof ?b" "p_ReadCloser ?b = ys @ (zs @ [(e, Some IoEOF)])" "p_recNum ?b = 1" by (simp_all add: wrappedResponse_def)
  have a: "sessionsOpen w" "\<not> rc_FoundInCache (w_rc w)" "rc_ReplacementScript (w_rc w) = None"
    using assms(2,3) by (simp_all add: answered_def)
  obtain b1 where b1: "responseReads E k (length ys) ?b w = Done (ys, b1) (passBody 1 ys w)" "\<not> p_eof b1" "p_ReadCloser b1 = zs @ [(e, Some IoEOF)]"
    using reads_open [OF assms(1) a b(1,2) assms(5), of k 0] unfolding b(3) by auto
  note stop = recvStep_cancels [OF assms(1) answered_passBody [OF assms(2), of ys 1] assms(4,3)]
  obtain b2 h where b2: "responseReads E k (Suc (length zs)) b1 ?w3 = Done (zs @ [(e, Some IoEOF)], b2) (updRecordMeta (p_recNum b1) h ?w3)"
    using stopped_reads [OF conjunct1 [OF stop] b1(3,2) assms(6)] by blast
  let ?w4 = "updRecordMeta (p_recNum b1) h ?w3"
  have k4: "readyToEnd (cancelCompletion cl) ?w4" "\<forall>c. rc_cwc (w_rc ?w4) = Some c \<longrightarrow> cw_CtxDone c" "\<not> rc_FoundInCache (w_rc ?w4)"
    using stop by (simp_all add: readyToEnd_def stopped_def)
  obtain w5 where w5: "WriteResponseInterceptor E None ?w4 = Done None w5" "w_cwWire w5 = w_cwWire ?w4" "OpenSessions w5 = OpenSessions ?w4 - 1"
     "connData ip base (w_data w5) = connData ip base (w_data ?w4)"
     "w_bcWire w5 = w_bcWire ?w4 @ [DoCompleted (stampLog E ?w4 (cm_cl (cancelCompletion cl))) (rc_FoundInCache (w_rc ?w4))]"
    using interceptor_open [OF assms(1) k4(1,2), of ip base] by auto
  obtain t where t: "stampLog E ?w4 (cm_cl (cancelCompletion cl)) = (cm_cl (cancelCompletion cl))\<lparr>cl_FetchTimeMs := t, cl_IpAddress := ip\<rparr>"
    using stop by (simp add: stampLog_def)
  have "w_cwWire w5 = cww @ streamMsgs 1 ys @ [ReqCancel canceledMsg]" "OpenSessions w5 = n - 1" "connData ip base (w_data w5)"
    "w_bcWire w5 = bcw @ notices ys @ [DoCompleted ((cm_cl (cancelCompletion cl))\<lparr>cl_FetchTimeMs := t, cl_IpAddress := ip\<rparr>) False]"
    using w5(2-5) stop k4(3) t by simp_all
  then show ?thesis using b1(1) b2 w5(1) by blast
qed

text \<open>
  C5: A page that the browser controller cancels on the way to the client. When the cancel is handled after the pieces \<open>ys\<close> of the body
  were copied, the client still gets the page to its end; the content writer gets nothing after \<open>ys\<close> but the cancellation, and
  keeps no record; the browser controller gets a notice for the pieces of \<open>ys\<close> only, then the final crawl log with the code
  and the error of the cancel; no session stays open, and the connection can take its next request.
\<close>

theorem canceled_page_through_proxy:
  assumes "suiteServices ip E" "clientRequest cf (fst req) u" "connReady ip base u (w_data w)"
    "f_incoming cf = [RecvReply (ReplyNew v), RecvReply (ReplyCancel msg), RecvEOF]" "nr_CollectionRef v \<noteq> None"
    "nr_ReplacementScript v = None" "\<not> contains msg ''robots.txt''" "snd req = xs @ [(d, Some IoEOF)]" "endsOnce xs"
    "\<forall>h. rq_URL h = Some u \<longrightarrow> answer h = Some (resp, ys @ zs @ [(e, Some IoEOF)])" "endsOnce ys" "endsOnce zs"
    "\<not> isFromCache resp" "headerGet (rs_Header resp) ''X-Squid-Error'' = []"
  shows "\<exists>prolog rn cl w'. serveCanceled E cf (serverTransport E answer) k (length ys) (Suc (length zs)) req w =
       Done (Some (resp, ys @ zs @ [(e, Some IoEOF)])) w' \<and>
     writeRequestProlog (e_toASCII E) (stripIdHeaders (fst req)) = Some (Inr prolog) \<and>
     w_cwWire w' = [ReqProtocolHeader 0 prolog] @ streamMsgs 0 xs @ payloadMsgs 0 d @ [ReqProtocolHeader 1 (writeResponseProlog resp)] @
       streamMsgs 1 ys @ [ReqCancel ''canceled by browser controller''] \<and>
     cwMockRun (w_cwWire w') newCwMock = Some (Inr (Some [])) \<and>
     w_bcWire w' = [DoNew rn] @ notices ys @ [DoCompleted cl False] \<and> rn_Uri rn = urlString (uriAt base u) \<and>
     cl_RequestedUri cl = urlString (uriAt base u) \<and> cl_StatusCode cl = int32 CanceledByBrowser \<and>
     cl_Error cl = Some (AsCommonsError canceledByController) \<and> OpenSessions w' = OpenSessions w \<and> connData ip base (w_data w')"
proof -
  let ?q = "writeResponseProlog resp" and ?body = "ys @ zs @ [(e, Some IoEOF)]"
  obtain prolog rn w1 m t where p: "writeRequestProlog (e_toASCII E) (stripIdHeaders (fst req)) = Some (Inr prolog)"
    and w1: "filterChain E cf (serverTransport E answer) req w = Done (Some (case nr_ReplacementScript v of None \<Rightarrow> resp | Some s \<Rightarrow> resp\<lparr>rs_ContentLength := int (length s)\<rparr>, RecordedResp (wrappedResponse ?body ?q)), None) w1"
     "answered ip base v [RecvReply (ReplyCancel msg), RecvEOF] (OpenSessions w + 1) [DoNew rn]
       ([ReqProtocolHeader 0 prolog] @ streamMsgs 0 xs @ payloadMsgs 0 d @ [ReqProtocolHeader 1 ?q])
       (m\<lparr>wm_RecordMeta := [(0, metaFor 0 RT_REQUEST RecordContentTypeRequest (prolog @ chunksOf xs @ d)),
          (1, newRecordMeta 1 RT_RESPONSE RecordContentTypeResponse)]\<rparr>)
       ((startLog (fst req) (uriAt base u) v t)\<lparr>cl_StatusCode := int32 (rs_StatusCode resp),
          cl_ContentType := headerGet (rs_Header resp) ''Content-Type''\<rparr>) w1" "wm_TargetUri m = urlString (uriAt base u)"
    and rn: "rn_Uri rn = urlString (uriAt base u)"
    using page_received [OF assms(1-5,8-10,13,14)] by blast
  let ?final = "\<lambda>t'. (cm_cl (cancelCompletion ((startLog (fst req) (uriAt base u) v t)\<lparr>cl_StatusCode := int32 (rs_StatusCode resp),
          cl_ContentType := headerGet (rs_Header resp) ''Content-Type''\<rparr>)))\<lparr>cl_FetchTimeMs := t', cl_IpAddress := ip\<rparr>"
  obtain b1 b2 w3 w5 t' where c: "responseReads E k (length ys) (wrappedResponse ?body ?q) w1 = Done (ys, b1) (passBody 1 ys w1)"
     "responseReads E k (Suc (length zs)) b1 (recvStep E (passBody 1 ys w1)) = Done (zs @ [(e, Some IoEOF)], b2) w3"
     "WriteResponseInterceptor E None w3 = Done None w5" and w5: "w_cwWire w5 = ([ReqProtocolHeader 0 prolog] @ streamMsgs 0 xs @ payloadMsgs 0 d @
       [ReqProtocolHeader 1 ?q]) @ streamMsgs 1 ys @ [ReqCancel canceledMsg]" "w_bcWire w5 = [DoNew rn] @ notices ys @ [DoCompleted (?final t') False]"
     "OpenSessions w5 = (OpenSessions w + 1) - 1" "connData ip base (w_data w5)"
    using copied_until_canceled [OF assms(1) w1(2) assms(6,7,11,12)] by blast
  have served: "serveCanceled E cf (serverTransport E answer) k (length ys) (Suc (length zs)) req w = Done (Some (resp, ?body)) w5"
    using w1(1) c assms(6) by (simp add: serveCanceled_def del: responseReads.simps)
  have cw: "w_cwWire w5 = [ReqProtocolHeader 0 prolog] @ streamMsgs 0 xs @ payloadMsgs 0 d @ [ReqProtocolHeader 1 ?q] @ streamMsgs 1 ys @
      [ReqCancel ''canceled by browser controller'']"
    using w5(1) by (simp add: canceledMsg_def)
  have mock: "cwMockRun (w_cwWire w5) newCwMock = Some (Inr (Some []))" unfolding cw by (rule cwMockRun_half)
  have log: "cl_RequestedUri (?final t') = urlString (uriAt base u)" "cl_StatusCode (?final t') = int32 CanceledByBrowser"
    "cl_Error (?final t') = Some (AsCommonsError canceledByController)"
    by (simp_all add: cancelCompletion_def canceledLog_def startLog_def)
  have n: "OpenSessions w5 = OpenSessions w" using w5(3) by simp
  show ?thesis
    by (intro exI conjI) (rule served p cw mock w5(2) rn log n w5(4))+
qed

text \<open>The page of the test suite that is canceled, before its only piece.\<close>

theorem canceled_page_through_proxy_witness:
  "\<exists>resp cl w'. serveCanceled suiteEnv (suiteConf ''/cancel'') (serverTransport suiteEnv suiteAnswer) 32768 0 1
       (suiteRequest ''/cancel'') newConnection = Done (Some (resp, [(httpContent, Some IoEOF)])) w' \<and>
     last (w_bcWire w') = DoCompleted cl False \<and> cl_StatusCode cl = -5011"
proof -
  let ?u = "suiteUrl ''/cancel''" and ?resp = "serverResponse plainSniff sampleDate (pageOf httpContent 600000000)"
  have uri: "urlString ?u = ''http://localhost:80/cancel''" by code_simp
  let ?v = "mockNewReply (urlString ?u)"
  have inc: "f_incoming (suiteConf ''/cancel'') = [RecvReply (ReplyNew ?v), RecvReply (ReplyCancel ''Cancelled by browser controller''), RecvEOF]"
    unfolding suiteConf_incoming uri by (simp add: bcMockReplies_def hasSuffix_def hasPrefix_def)
  have v: "nr_ReplacementScript ?v = None" "\<not> contains ''Cancelled by browser controller'' ''robots.txt''"
    unfolding uri by (simp_all add: mockNewReply_def hasSuffix_def hasPrefix_def)
  have "muxHandler httpMux ''/cancel'' = ConstantSlowHandler httpContent 600000000"
    by (simp add: muxHandler_def httpMux_def commonPages_def NewConstantSlowHandler_def Millisecond_def)
  then have "serverAnswer plainSniff sampleDate httpServer ''/cancel'' = Some (?resp, httpContent)"
    using answer_handler(2) [of httpServer "''/cancel''" httpContent 600000000 plainSniff sampleDate]
    by (simp add: httpServer_def Millisecond_def)
  then have a: "\<forall>h. rq_URL h = Some ?u \<longrightarrow> suiteAnswer h = Some (?resp, [] @ [] @ [(httpContent, Some IoEOF)])"
    by (simp add: suiteAnswer_def suiteUrl_def)
  have r: "\<not> isFromCache ?resp"
    using page_prolog [of "pageOf httpContent 600000000" sampleDate plainSniff 24] printable_itoa sampleDate_printable
    by (simp add: pageOf_def newResponseWriter_def plainSniff_def httpContent_def)
  have "canonicalKey ''X-Squid-Error'' = ''X-Squid-Error''" by code_simp
  then have g: "headerGet (rs_Header ?resp) ''X-Squid-Error'' = []"
    by (simp add: serverResponse_def pageOf_def newResponseWriter_def page_header headerGet_def headerValues_def)
  show ?thesis
    using canceled_page_through_proxy [OF suiteEnv_services suiteRequest_simps(1,2) inc suite_replies(1) v suiteRequest_simps(3,4) a
        suiteRequest_simps(4,4) r g, of 32768]
    by (fastforce simp: CanceledByBrowser_def int32_id)
qed

section \<open>A page whose records are rejected\<close>

lemma lastRead_rejected:
  fixes e :: bytes
  assumes "suiteServices ip E" "answered ip base v [RecvEOF] n bcw ([ReqProtocolHeader 0 p] @ streamMsgs 0 xs @ payloadMsgs 0 d @
       [ReqProtocolHeader 1 q] @ streamMsgs 1 ys)
       (m\<lparr>wm_RecordMeta := [(0, metaFor 0 RT_REQUEST RecordContentTypeRequest (p @ chunksOf xs @ d)),
          (1, newRecordMeta 1 RT_RESPONSE RecordContentTypeResponse)]\<rparr>) cl w"
    "contains (wm_TargetUri m) ''cwerr''" "p_recNum b = 1" "p_blockCrc b = q @ chunksOf ys" "sizeExact b" "\<not> p_eof b"
  defines "err \<equiv> writeRejected (invalidArgument ''Fake error'')"
  shows "\<exists>b' w'. innerReadStep E (e, Some IoEOF) b w = Done ((e, Some IoEOF), b') w' \<and>
     readyToEnd \<lparr>cm_cl = responseErrorLog err cl, cm_err = Some err\<rparr> w' \<and> (\<forall>c. rc_cwc (w_rc w') = Some c \<longrightarrow> cw_CtxDone c) \<and>
     w_bcWire w' = bcw @ notices [(e, None)] @ [DoNotify ALL_DATA_RECEIVED] \<and> w_cwWire w' =
       [ReqProtocolHeader 0 p] @ streamMsgs 0 xs @ payloadMsgs 0 d @ [ReqProtocolHeader 1 q] @ streamMsgs 1 ys @ payloadMsgs 1 e @
         [ReqMeta (exchangeMeta m (p @ chunksOf xs @ d) (q @ chunksOf ys @ e))] \<and>
     OpenSessions w' = n \<and> connData ip base (w_data w') \<and> \<not> rc_FoundInCache (w_rc w')"
proof -
  let ?b = "(addChunk e b)\<lparr>p_eof := True\<rparr>" and ?w = "passChunk 1 e w" and ?all = "q @ chunksOf ys @ e"
  let ?m = "m\<lparr>wm_RecordMeta := [(0, metaFor 0 RT_REQUEST RecordContentTypeRequest (p @ chunksOf xs @ d)),
          (1, newRecordMeta 1 RT_RESPONSE RecordContentTypeResponse)]\<rparr>"
  have a: "sessionsOpen w" "\<not> rc_FoundInCache (w_rc w)" "rc_Meta (w_rc w) = Some ?m" using assms(2) by (simp_all add: answered_def)
  have c: "recordChunk E e b w = Done (addChunk e b) ?w" using recordChunk_open [OF assms(1) a(1,2), of e b] assms(4) by simp
  have o: "sessionsOpen ?w" "\<not> rc_FoundInCache (w_rc ?w)" "rc_Meta (w_rc ?w) = Some ?m" "sizeExact ?b" "p_recNum ?b = 1"
    "p_blockCrc ?b = ?all"
    using a assms(4-6) by (simp_all add: sizeExact_def addChunk_def)
  have m': "closeMeta 1 ?all ?m = exchangeMeta m (p @ chunksOf xs @ d) ?all"
    by (simp add: closeMeta_def exchangeMeta_def newRecordMeta_def metaFor_def)
  have run: "cwMockRun (w_cwWire ?w @ [ReqMeta (closeMeta (p_recNum ?b) (p_blockCrc ?b) ?m)]) newCwMock = Some (Inl (invalidArgument ''Fake error''))"
    unfolding o(5,6) m' using cwMockRun_exchange [of p xs d q ys e m] assms(2,3) by (simp add: answered_def)
  let ?e = "rejectedWith err (metaSent (closeMeta (p_recNum ?b) (p_blockCrc ?b) ?m)
      (w_rc_update (rc_Meta_update (\<lambda>_. Some (closeMeta (p_recNum ?b) (p_blockCrc ?b) ?m))) (sentBc (DoNotify ALL_DATA_RECEIVED) ?w)))"
  have "responseBodyEOF E ?b ?w = Done () ?e" unfolding err_def by (rule responseBodyEOF_rejected [OF assms(1) o(1-4) run])
  then have "innerReadStep E (e, Some IoEOF) b w = Done ((e, Some IoEOF), ?b) ?e"
    using c assms(7) by (simp add: innerReadStep_def Let_def)
  moreover have "readyToEnd \<lparr>cm_cl = responseErrorLog err cl, cm_err = Some err\<rparr> ?e" "\<forall>c. rc_cwc (w_rc ?e) = Some c \<longrightarrow> cw_CtxDone c"
    "w_bcWire ?e = bcw @ notices [(e, None)] @ [DoNotify ALL_DATA_RECEIVED]" "OpenSessions ?e = n" "connData ip base (w_data ?e)"
    "\<not> rc_FoundInCache (w_rc ?e)" "w_cwWire ?e =
       [ReqProtocolHeader 0 p] @ streamMsgs 0 xs @ payloadMsgs 0 d @ [ReqProtocolHeader 1 q] @ streamMsgs 1 ys @ payloadMsgs 1 e @
         [ReqMeta (exchangeMeta m (p @ chunksOf xs @ d) ?all)]"
    using assms(2) unfolding o(5,6) m' by (simp_all add: answered_def rejectedWith_def metaSent_def readyToEnd_def newBccSession_def)
  ultimately show ?thesis by blast
qed

lemma rejected_served:
  assumes "suiteServices ip E" "clientRequest cf (fst req) u" "connReady ip base u (w_data w)"
    "f_incoming cf = [RecvReply (ReplyNew v), RecvEOF]" "nr_CollectionRef v \<noteq> None" "nr_ReplacementScript v = None"
    "contains (urlString (uriAt base u)) ''cwerr''" "snd req = xs @ [(d, Some IoEOF)]" "endsOnce xs"
    "\<forall>h. rq_URL h = Some u \<longrightarrow> answer h = Some (resp, ys @ [(e, Some IoEOF)])" "endsOnce ys"
    "\<not> isFromCache resp" "headerGet (rs_Header resp) ''X-Squid-Error'' = []"
  shows "\<exists>rn cl w'. servePage E cf (serverTransport E answer) k (Suc (length ys)) req w =
       Done (Some (resp, ys @ [(e, Some IoEOF)])) w' \<and>
     cwMockRun (w_cwWire w') newCwMock = Some (Inl (invalidArgument ''Fake error'')) \<and>
     w_bcWire w' = [DoNew rn] @ notices (ys @ [(e, None)]) @ [DoNotify ALL_DATA_RECEIVED, DoCompleted cl False] \<and>
     rn_Uri rn = urlString (uriAt base u) \<and> cl_RequestedUri cl = urlString (uriAt base u) \<and> cl_StatusCode cl = int32 RuntimeException \<and>
     cl_Error cl = Some \<lparr>ceCode = RuntimeException, ceMsg = ''Error writing to content writer'',
       ceDetail = errText (invalidArgument ''Fake error'')\<rparr> \<and>
     OpenSessions w' = OpenSessions w \<and> connData ip base (w_data w')"
proof -
  let ?q = "writeResponseProlog resp" and ?body = "ys @ [(e, Some IoEOF)]"
    and ?err = "writeRejected (invalidArgument ''Fake error'')"
  obtain prolog rn w1 m t where p: "writeRequestProlog (e_toASCII E) (stripIdHeaders (fst req)) = Some (Inr prolog)"
    and w1: "filterChain E cf (serverTransport E answer) req w = Done (Some (case nr_ReplacementScript v of None \<Rightarrow> resp | Some s \<Rightarrow> resp\<lparr>rs_ContentLength := int (length s)\<rparr>, RecordedResp (wrappedResponse ?body ?q)), None) w1"
     "answered ip base v [RecvEOF] (OpenSessions w + 1) [DoNew rn]
       ([ReqProtocolHeader 0 prolog] @ streamMsgs 0 xs @ payloadMsgs 0 d @ [ReqProtocolHeader 1 ?q])
       (m\<lparr>wm_RecordMeta := [(0, metaFor 0 RT_REQUEST RecordContentTypeRequest (prolog @ chunksOf xs @ d)),
          (1, newRecordMeta 1 RT_RESPONSE RecordContentTypeResponse)]\<rparr>)
       ((startLog (fst req) (uriAt base u) v t)\<lparr>cl_StatusCode := int32 (rs_StatusCode resp),
          cl_ContentType := headerGet (rs_Header resp) ''Content-Type''\<rparr>) w1" "wm_TargetUri m = urlString (uriAt base u)"
    and rn: "rn_Uri rn = urlString (uriAt base u)"
    using page_received [OF assms(1-5,8-10,12,13)] by blast
  let ?meta = "\<lambda>m. m\<lparr>wm_RecordMeta := [(0, metaFor 0 RT_REQUEST RecordContentTypeRequest (prolog @ chunksOf xs @ d)),
          (1, newRecordMeta 1 RT_RESPONSE RecordContentTypeResponse)]\<rparr>"
    and ?cl = "\<lambda>t. (startLog (fst req) (uriAt base u) v t)\<lparr>cl_StatusCode := int32 (rs_StatusCode resp),
          cl_ContentType := headerGet (rs_Header resp) ''Content-Type''\<rparr>"
  obtain b where b: "responseReads E k (Suc (length ys)) (wrappedResponse ?body ?q) w1 =
       andThen (innerReadStep E (e, Some IoEOF) b (passBody 1 ys w1)) (\<lambda>(x, b) w. Done (ys @ [x], b) w)"
     "p_recNum b = 1" "\<not> p_eof b" "p_blockCrc b = ?q @ chunksOf ys" "sizeExact b"
    using plainReads_last [OF assms(1) w1(2) assms(6,11)] by blast
  have ans: "answered ip base v [RecvEOF] (OpenSessions w + 1) ([DoNew rn] @ notices ys) ([ReqProtocolHeader 0 prolog] @ streamMsgs 0 xs @
       payloadMsgs 0 d @ [ReqProtocolHeader 1 ?q] @ streamMsgs 1 ys) (?meta m) (?cl t) (passBody 1 ys w1)"
    using answered_passBody [OF w1(2), where k = 1 and ys = ys] by simp
  have tu: "contains (wm_TargetUri m) ''cwerr''" using assms(7) w1(3) by simp
  obtain b' w2 where w2: "innerReadStep E (e, Some IoEOF) b (passBody 1 ys w1) = Done ((e, Some IoEOF), b') w2"
     "readyToEnd \<lparr>cm_cl = responseErrorLog ?err (?cl t), cm_err = Some ?err\<rparr> w2" "\<forall>c. rc_cwc (w_rc w2) = Some c \<longrightarrow> cw_CtxDone c"
     "w_bcWire w2 = ([DoNew rn] @ notices ys) @ notices [(e, None)] @ [DoNotify ALL_DATA_RECEIVED]"
     "w_cwWire w2 = [ReqProtocolHeader 0 prolog] @ streamMsgs 0 xs @ payloadMsgs 0 d @ [ReqProtocolHeader 1 ?q] @ streamMsgs 1 ys @
         payloadMsgs 1 e @ [ReqMeta (exchangeMeta m (prolog @ chunksOf xs @ d) (?q @ chunksOf ys @ e))]"
     "OpenSessions w2 = OpenSessions w + 1" "connData ip base (w_data w2)" "\<not> rc_FoundInCache (w_rc w2)"
    using lastRead_rejected [OF assms(1) ans tu b(2,4,5,3), where e = e] by blast
  obtain w3 where w3: "WriteResponseInterceptor E None w2 = Done None w3" "w_cwWire w3 = w_cwWire w2" "OpenSessions w3 = OpenSessions w2 - 1"
     "connData ip base (w_data w3) = connData ip base (w_data w2)"
     "w_bcWire w3 = w_bcWire w2 @ [DoCompleted (stampLog E w2 (responseErrorLog ?err (?cl t))) (rc_FoundInCache (w_rc w2))]"
    using interceptor_open [OF assms(1) w2(2,3), of ip base] by auto
  have served: "servePage E cf (serverTransport E answer) k (Suc (length ys)) req w = Done (Some (resp, ?body)) w3"
    using w1(1) b(1) w2(1) w3(1) assms(6) by (simp add: servePage_def del: responseReads.simps)
  have mock: "cwMockRun (w_cwWire w3) newCwMock = Some (Inl (invalidArgument ''Fake error''))"
    unfolding w3(2) w2(5) using tu by (simp only: cwMockRun_exchange if_True)
  let ?final = "stampLog E w2 (responseErrorLog ?err (?cl t))"
  have bc: "w_bcWire w3 = [DoNew rn] @ notices (ys @ [(e, None)]) @ [DoNotify ALL_DATA_RECEIVED, DoCompleted ?final False]"
    using w3(5) w2(4,8) by simp
  have "errorCodeInt32 RuntimeException = RuntimeException" by (simp add: errorCodeInt32_def RuntimeException_def int32_id)
  then have log: "cl_RequestedUri ?final = urlString (uriAt base u)" "cl_StatusCode ?final = int32 RuntimeException"
    "cl_Error ?final = Some \<lparr>ceCode = RuntimeException, ceMsg = ''Error writing to content writer'', ceDetail = errText (invalidArgument ''Fake error'')\<rparr>"
    by (simp_all add: stampLog_def responseErrorLog_def startLog_def writeRejected_def AsCommonsError_def)
  have n: "OpenSessions w3 = OpenSessions w" "connData ip base (w_data w3)" using w3(3,4) w2(6,7) by simp_all
  show ?thesis by (intro exI conjI) (rule served mock bc rn log n)+
qed



end
