(* ===== verification/Connection_Flow.thy ===== *)
theory Connection_Flow
  imports Canceled_Flow
begin

text \<open>
  A connection with all its requests: the CONNECT that opens a tunnel, and any number of requests one after the other, of which each is
  answered from a server, from the cache, with an error or with a refusal.
\<close>

section \<open>A tunnel\<close>

lemma setKey_connectWire [simp]: "w_connectWire (setKey k v w) = w_connectWire w" "OpenSessions (setKey k v w) = OpenSessions w"
  "w_connectWire (tick w) = w_connectWire w"
  by (simp_all add: setKey_def OpenSessions_def tick_def)

text \<open>Only the identifiers of the crawl are changed.\<close>

definition onlyIds :: "world \<Rightarrow> world \<Rightarrow> bool" where
  "onlyIds w w' \<longleftrightarrow> w_data w' \<noteq> None \<and> (\<forall>k. k \<notin> {KeyRequestId, KeyJobExecutionId, KeyCrawlExecutionId, KeyCollectionRef} \<longrightarrow>
     getValue (w_data w') k = getValue (w_data w) k) \<and> OpenSessions w' = OpenSessions w \<and>
     w_bcWire w' = w_bcWire w \<and> w_cwWire w' = w_cwWire w"

lemma connectReply_ids:
  assumes "w_data w \<noteq> None"
  shows "\<exists>w'. connectReply ev w = Done () w' \<and> onlyIds w w' \<and> w_connectWire w' = w_connectWire w"
  using assms by (cases ev) (auto simp: connectReply_def data_ops onlyIds_def split: doReply.split)

lemma resolveIds_ids:
  assumes "w_data w \<noteq> None"
  shows "\<exists>w'. resolveIdsFromHttpHeader req w = Done () w' \<and> onlyIds w w' \<and> w_connectWire w' = w_connectWire w"
  using assms by (simp add: resolveIdsFromHttpHeader_def Let_def data_ops onlyIds_def)

lemma register_connect:
  assumes "suiteServices ip E" "w_data w \<noteq> None" "list_ex isRecvErr evs"
  shows "\<exists>w' rn. RegisterConnectRequest E evs n req uri w = Done () w' \<and> onlyIds w w' \<and>
     w_connectWire w' = w_connectWire w @ [DoNew rn] \<and> rn_Method rn = MethodConnect \<and> rn_Uri rn = urlString uri \<and> rn_ProxyId rn = n"
proof -
  note E = suite_simps [OF assms(1)]
  obtain w1 where w1: "resolveIdsFromHttpHeader req w = Done () w1" "onlyIds w w1" "w_connectWire w1 = w_connectWire w"
    using resolveIds_ids [OF assms(2)] by blast
  let ?v = "(tick w1)\<lparr>w_connectWire := w_connectWire w1 @ [connectMsg n uri w1]\<rparr>"
  obtain ev evs' where ev: "evs = ev # evs'" using assms(3) by (cases evs) auto
  have d: "w_data (tick ?v) \<noteq> None" using w1(2) by (simp add: onlyIds_def)
  obtain w2 where w2: "connectReply ev (tick ?v) = Done () w2" "onlyIds (tick ?v) w2" "w_connectWire w2 = w_connectWire (tick ?v)"
    using connectReply_ids [OF d] by blast
  have "RegisterConnectRequest E evs n req uri w = Done () (tick w2)"
    using w1(1) w2(1) ev assms(3) by (simp add: RegisterConnectRequest_def Let_def E)
  moreover have "onlyIds w (tick w2)" using w1(2) w2(2) by (simp add: onlyIds_def) (simp add: OpenSessions_def)
  moreover obtain rn where "connectMsg n uri w1 = DoNew rn" "rn_Method rn = MethodConnect" "rn_Uri rn = urlString uri" "rn_ProxyId rn = n"
    by (simp add: connectMsg_def MethodConnect_def)
  ultimately show ?thesis using w1(3) w2(3) by (intro exI [of _ "tick w2"] exI [of _ rn]) simp
qed

text \<open>
  C8: A CONNECT opens a tunnel: when the upstream connection is made, the client gets what \<open>filters.ShortCircuit\<close> makes of a response with status 200,
  the CONNECT is registered with the browser controller on a stream of its own, no session is opened and nothing is recorded, and the connection
  has the address under which the requests in the tunnel are resolved, and is ready for them.
\<close>

theorem tunnel_opened:
  assumes "suiteServices ip E" "rq_Method (fst req) = MethodConnect" "rq_URL (fst req) = Some u" "w_data w = Some []"
    "urlHostname u \<noteq> []" "portOk (urlPort u)" "list_ex isRecvErr (f_connectIn cf)"
    "\<forall>v. upstream (fst req, RawReq (snd req)) v = Done (Some (resp, body), None) v" "headerGet (rs_Header resp) ''X-Squid-Error'' = []"
    "e_shortCircuit E connectOk = ((ok, okBody), None)"
  shows "\<exists>rn w'. filterChain E cf upstream req w = Done (Some (ok, RawResp okBody), None) w' \<and>
     w_connectWire w' = w_connectWire w @ [DoNew rn] \<and> rn_Method rn = MethodConnect \<and> rn_Uri rn = urlString (u\<lparr>u_Scheme := ''https''\<rparr>) \<and>
     connData ip (Some (u\<lparr>u_Scheme := ''https''\<rparr>)) (w_data w') \<and> GetRecordContext (w_data w') = None \<and>
     OpenSessions w' = OpenSessions w \<and> w_bcWire w' = w_bcWire w \<and> w_cwWire w' = w_cwWire w"
proof -
  let ?u = "u\<lparr>u_Scheme := ''https''\<rparr>"
  let ?w = "setKey KeyUrl (UriVal (Some ?u)) (setKey KeyPort (StringVal (urlPort u)) (setKey KeyHost (StringVal (urlHostname u)) w))"
  have d: "w_data ?w \<noteq> None" using assms(4) by simp
  obtain w1 rn where w1: "RegisterConnectRequest E (f_connectIn cf) (f_proxyId cf) (fst req) ?u ?w = Done () w1" "onlyIds ?w w1"
    "w_connectWire w1 = w_connectWire ?w @ [DoNew rn]" "rn_Method rn = MethodConnect" "rn_Uri rn = urlString ?u"
    using register_connect [OF assms(1) d assms(7), of "f_proxyId cf" "fst req" ?u] by blast
  have init: "initConnect E cf (fst req) u w = Done () w1"
    using w1(1) assms(4) by (simp add: initConnect_def data_ops Let_def)
  have v: "getValue (Some []) k = NilInterface" for k by (simp add: getValue_def mapIndex_def)
  have k: "w_data w1 \<noteq> None" "GetUri (w_data w1) = Some ?u" "GetHost (w_data w1) = urlHostname u" "GetPort (w_data w1) = urlPort u"
    "GetIp (w_data w1) = []" "GetConnectError (w_data w1) = None" "GetRecordContext (w_data w1) = None"
    using w1(2) assms(4) by (simp_all add: onlyIds_def getter_defs v)
  let ?nxt = "RecorderFilter_Apply E (ErrorHandlerFilter_Apply E upstream)"
  have pre: "GetIp (w_data w1) = [] \<or> GetIp (w_data w1) = ip" "GetHost (w_data w1) \<noteq> []" "portOk (GetPort (w_data w1))"
    using k(3-5) assms(5,6) by simp_all
  obtain w2 where d2: "DnsLookupFilter_Apply E ?nxt req w1 = ?nxt req w2"
     "w2 = w1 \<and> GetIp (w_data w1) = ip \<or> w2 = setKey KeyIp (StringVal ip) (tick w1)"
    using dns_open [OF assms(1) k(1) pre] by blast
  have c2: "connData ip (Some ?u) (w_data w2)" "GetRecordContext (w_data w2) = None" "GetConnectError (w_data w2) = None"
    using d2(2) k assms(5,6) by (auto simp: connData_def getter_defs)
  have "?nxt req w2 = Done (Some (ok, RawResp okBody), None) w2"
    using c2(3) assms(2,8-10) by (simp add: RecorderFilter_Apply_def ErrorHandlerFilter_Apply_def rawHandled_def)
  then have "filterChain E cf upstream req w = Done (Some (ok, RawResp okBody), None) w2"
    using assms(2,3) init d2(1) by (simp add: filterChain_def NonproxyFilter_Apply_def TracingInitFilter_Apply_def ContextInitFilter_Apply_def)
  moreover have "w_connectWire w2 = w_connectWire w1" "OpenSessions w2 = OpenSessions w1" "w_bcWire w2 = w_bcWire w1" "w_cwWire w2 = w_cwWire w1"
    using d2(2) by auto
  ultimately show ?thesis using w1(2-5) c2(1,2) by (intro exI [of _ rn] exI [of _ w2]) (simp add: onlyIds_def)
qed

theorem tunnel_opened_witness:
  "\<exists>w'. filterChain suiteEnv ((plainConf [])\<lparr>f_connectIn := [RecvReply (ReplyNew (mockNewReply ''https://localhost:443'')), RecvEOF]\<rparr>)
       (\<lambda>r v. Done (Some (connectOk, []), None) v) (plainRequest ''CONNECT'' (emptyUrl\<lparr>u_Host := ''localhost:443''\<rparr>), []) newConnection =
       Done (Some (connectOk, RawResp []), None) w' \<and>
     GetUri (w_data w') = Some (emptyUrl\<lparr>u_Host := ''localhost:443'', u_Scheme := ''https''\<rparr>)"
proof -
  let ?u = "emptyUrl\<lparr>u_Host := ''localhost:443''\<rparr>" and ?up = "\<lambda>r v. Done (Some (connectOk, [] :: reader), None) v"
    and ?cf = "(plainConf [])\<lparr>f_connectIn := [RecvReply (ReplyNew (mockNewReply ''https://localhost:443'')), RecvEOF]\<rparr>"
  let ?req = "(plainRequest ''CONNECT'' ?u, [] :: reader)"
  have a: "rq_Method (fst ?req) = MethodConnect" "rq_URL (fst ?req) = Some ?u" "w_data newConnection = Some []"
    by (simp_all add: plainRequest_def MethodConnect_def newConnection_def)
  have b: "urlHostname ?u \<noteq> []" "portOk (urlPort ?u)" unfolding portOk_def by code_simp+
  have c: "list_ex isRecvErr (f_connectIn ?cf)" "\<forall>v. ?up (fst ?req, RawReq (snd ?req)) v = Done (Some (connectOk, []), None) v"
    "headerGet (rs_Header connectOk) ''X-Squid-Error'' = []" "e_shortCircuit suiteEnv connectOk = ((connectOk, []), None)"
    by (simp_all add: isRecvErr_def connectOk_def headerGet_def headerValues_def suiteEnv_def okEnv_def)
  show ?thesis using tunnel_opened [OF suiteEnv_services a b c] by (auto simp: connData_def)
qed

section \<open>One request after the other\<close>

text \<open>
  A request with what the proxy library does for it: what the browser controller will send, how many reads copy the
  response, and the request itself. \<open>serveAll\<close> serves them in order and keeps for each its outcome and what the browser controller
  got for it.
\<close>

type_synonym exchange = "filterConf \<times> nat \<times> (http_request \<times> reader)"
type_synonym outcome = "(http_response \<times> (bytes \<times> go_error option) list) option \<times> doRequest list"

fun serveAll :: "env \<Rightarrow> (reqBody, reader) nextFilter \<Rightarrow> nat \<Rightarrow> exchange list \<Rightarrow> world \<Rightarrow> (outcome list, world) run" where
  "serveAll E upstream k [] w = Done [] w"
| "serveAll E upstream k ((cf, n, req) # xs) w = andThen (servePage E cf upstream k n req w) (\<lambda>out w.
     andThen (serveAll E upstream k xs w) (\<lambda>outs w'. Done ((out, w_bcWire w) # outs) w'))"

text \<open>
  The requests the servers of the test suite can be asked: refused by the browser controller, or accepted and then failing, answered by the cache
  or answered with a page, plain or to be replaced, that is read to its end.
\<close>

definition answerable :: "(http_request \<Rightarrow> (http_response \<times> reader) option) \<Rightarrow> nat \<Rightarrow> nat \<Rightarrow> newReply \<Rightarrow> string \<Rightarrow> url \<Rightarrow> bool" where
  "answerable answer k n v uri u \<longleftrightarrow> nr_CollectionRef v \<noteq> None \<and>
     ((\<exists>e. \<forall>h. rq_URL h = Some u \<longrightarrow> failureOf (answer h) = Some e) \<or>
      (\<exists>resp ys e. (\<forall>h. rq_URL h = Some u \<longrightarrow> answer h = Some (resp, ys @ [(e, Some IoEOF)])) \<and> (\<forall>x \<in> set ys. snd x = None) \<and>
        headerGet (rs_Header resp) ''X-Squid-Error'' = [] \<and>
        (if isFromCache resp then nr_ReplacementScript v = None \<and> n = Suc (length ys)
         else (contains uri ''cwerr'' \<longrightarrow> nr_ReplacementScript v = None) \<and> (\<forall>s. nr_ReplacementScript v = Some s \<longrightarrow> length s \<le> k) \<and>
           n = (if nr_ReplacementScript v = None then Suc (length ys) else 2))))"

definition servable :: "(http_request \<Rightarrow> (http_response \<times> reader) option) \<Rightarrow> nat \<Rightarrow> url option \<Rightarrow> exchange \<Rightarrow> bool" where
  "servable answer k base x \<longleftrightarrow> (case x of (cf, n, req) \<Rightarrow> \<exists>u. clientRequest cf (fst req) u \<and>
     (base = None \<longrightarrow> urlHostname u \<noteq> [] \<and> portOk (urlPort u)) \<and> (\<exists>xs d. snd req = xs @ [(d, Some IoEOF)] \<and> endsOnce xs) \<and>
     ((\<exists>e. refusal (f_incoming cf) = Some e) \<or>
      (\<exists>v. f_incoming cf = [RecvReply (ReplyNew v), RecvEOF] \<and> answerable answer k n v (urlString (uriAt base u)) u)))"

text \<open>The request was answered, and reported to the browser controller with one registration and one final crawl log, both under its address.\<close>

definition answeredOnce :: "url option \<Rightarrow> exchange \<Rightarrow> outcome \<Rightarrow> bool" where
  "answeredOnce base x r \<longleftrightarrow> (case (x, r) of ((cf, n, req), (out, bcw)) \<Rightarrow> out \<noteq> None \<and>
     (\<exists>u rn mid cl found. rq_URL (fst req) = Some u \<and> bcw = [DoNew rn] @ mid @ [DoCompleted cl found] \<and>
        (\<forall>m \<in> set mid. \<not> isCompleted m) \<and> rn_Uri rn = urlString (uriAt base u) \<and> cl_RequestedUri cl = urlString (uriAt base u)))"

lemma answeredOnceI:
  "rq_URL (fst req) = Some u \<Longrightarrow> bcw = [DoNew rn] @ mid @ [DoCompleted cl found] \<Longrightarrow> \<forall>m \<in> set mid. \<not> isCompleted m \<Longrightarrow>
     rn_Uri rn = urlString (uriAt base u) \<Longrightarrow> cl_RequestedUri cl = urlString (uriAt base u) \<Longrightarrow> answeredOnce base (cf, n, req) (Some a, bcw)"
  by (auto simp: answeredOnce_def)

lemma notices_not_completed: "m \<in> set (notices xs) \<Longrightarrow> \<not> isCompleted m"
  by (auto simp: notices_def)

lemma servable_served:
  assumes "suiteServices ip E" "failHonest E" "servable answer k base (cf, n, req)"
    "connData ip base (w_data w) \<or> base = None \<and> w_data w = Some []"
  shows "\<exists>out w'. servePage E cf (serverTransport E answer) k n req w = Done out w' \<and> answeredOnce base (cf, n, req) (out, w_bcWire w') \<and>
     connData ip base (w_data w') \<and> OpenSessions w' = OpenSessions w"
proof -
  obtain u xs d where u: "clientRequest cf (fst req) u" "base = None \<longrightarrow> urlHostname u \<noteq> [] \<and> portOk (urlPort u)"
     "snd req = xs @ [(d, Some IoEOF)]" "endsOnce xs" and kinds: "(\<exists>e. refusal (f_incoming cf) = Some e) \<or>
      (\<exists>v. f_incoming cf = [RecvReply (ReplyNew v), RecvEOF] \<and> answerable answer k n v (urlString (uriAt base u)) u)"
    using assms(3) by (auto simp: servable_def)
  have url: "rq_URL (fst req) = Some u" using u(1) by (simp add: clientRequest_def)
  have ready: "connReady ip base u (w_data w)" using assms(4) u(2) by (auto simp: connReady_def)
  have result: "?thesis" if "servePage E cf (serverTransport E answer) k n req w = Done (Some a) w'" "w_bcWire w' = [DoNew rn] @ mid @ [DoCompleted cl found]"
    "\<forall>m \<in> set mid. \<not> isCompleted m" "rn_Uri rn = urlString (uriAt base u)" "cl_RequestedUri cl = urlString (uriAt base u)"
    "OpenSessions w' = OpenSessions w" "connData ip base (w_data w')" for a w' rn mid cl found
    using that(1,6,7) answeredOnceI [OF url that(2-5)] by blast
  from kinds show ?thesis
  proof (elim disjE exE conjE)
    fix e assume "refusal (f_incoming cf) = Some e"
    from refused_served [OF assms(1,2) u(1) ready this, of "serverTransport E answer" k n] show ?thesis
      by (elim exE conjE) (rule result [where mid = "[DoNotify ALL_DATA_RECEIVED]" and found = False], simp_all)
  next
    fix v assume v: "f_incoming cf = [RecvReply (ReplyNew v), RecvEOF]" "answerable answer k n v (urlString (uriAt base u)) u"
    then have c: "nr_CollectionRef v \<noteq> None" by (simp add: answerable_def)
    consider e where "\<forall>h. rq_URL h = Some u \<longrightarrow> failureOf (answer h) = Some e"
      | resp ys e where "\<forall>h. rq_URL h = Some u \<longrightarrow> answer h = Some (resp, ys @ [(e, Some IoEOF)])" "\<forall>x \<in> set ys. snd x = None"
          "headerGet (rs_Header resp) ''X-Squid-Error'' = []"
          "if isFromCache resp then nr_ReplacementScript v = None \<and> n = Suc (length ys)
           else (contains (urlString (uriAt base u)) ''cwerr'' \<longrightarrow> nr_ReplacementScript v = None) \<and>
             (\<forall>s. nr_ReplacementScript v = Some s \<longrightarrow> length s \<le> k) \<and> n = (if nr_ReplacementScript v = None then Suc (length ys) else 2)"
      using v(2) unfolding answerable_def by (elim conjE disjE exE) (assumption | blast)+
    then show ?thesis
    proof cases
      case (1 e)
      from failed_served [OF assms(1,2) u(1) ready v(1) c u(3,4) 1, of k n] show ?thesis
        by (elim exE conjE) (rule result [where mid = "[DoNotify ALL_DATA_RECEIVED]" and found = False], simp_all)
    next
      case (2 resp ys e)
      have ends: "endsOnce ys" using 2(2) by (auto simp: endsOnce_def)
      let ?mid = "notices (ys @ [(e, None)]) @ [DoNotify ALL_DATA_RECEIVED]"
      consider "isFromCache resp" "nr_ReplacementScript v = None" "n = Suc (length ys)"
        | "\<not> isFromCache resp" "contains (urlString (uriAt base u)) ''cwerr''" "nr_ReplacementScript v = None" "n = Suc (length ys)"
        | "\<not> isFromCache resp" "\<not> contains (urlString (uriAt base u)) ''cwerr''" "\<forall>s. nr_ReplacementScript v = Some s \<longrightarrow> length s \<le> k"
            "n = (if nr_ReplacementScript v = None then Suc (length ys) else 2)"
        using 2(4) by (auto split: if_splits)
      then show ?thesis
      proof cases
        case a: 1
        from cached_served [OF assms(1) u(1) ready v(1) c a(2) u(3,4) 2(1) ends a(1) 2(3), of k] show ?thesis
          unfolding a(3) [symmetric] by (elim exE conjE) (rule result [where mid = "[]" and found = True], simp_all)
      next
        case a: 2
        from rejected_served [OF assms(1) u(1) ready v(1) c a(3,2) u(3,4) 2(1) ends a(1) 2(3), of k] show ?thesis
          unfolding a(4) [symmetric]
          by (elim exE conjE) (rule result [where mid = ?mid and found = False], auto dest: notices_not_completed)
      next
        case a: 3
        from page_served [OF assms(1) u(1) ready v(1) c a(2) u(3,4) 2(1,2) a(1) 2(3) a(3)] show ?thesis
          unfolding a(4) [symmetric]
          by (elim exE conjE) (rule result [where mid = ?mid and found = False], auto simp: pageLog_def dest: notices_not_completed)
      qed
    qed
  qed
qed


definition suiteExchange :: "string \<Rightarrow> exchange" where
  "suiteExchange p = (suiteConf p, 1, suiteRequest p)"

lemma suiteExchange_servable:
  assumes "(\<exists>e. refusal (f_incoming (suiteConf p)) = Some e) \<or>
      (\<exists>v. f_incoming (suiteConf p) = [RecvReply (ReplyNew v), RecvEOF] \<and> answerable suiteAnswer k 1 v (urlString (suiteUrl p)) (suiteUrl p))"
  shows "servable suiteAnswer k None (suiteExchange p)"
proof -
  have "urlHostname (suiteUrl p) \<noteq> [] \<and> portOk (urlPort (suiteUrl p))"
    using suiteRequest_simps(2) [of ip p] by (simp add: connReady_def connData_def newConnection_def getter_defs getValue_def mapIndex_def)
  moreover have "\<exists>xs d. snd (suiteRequest p) = xs @ [(d, Some IoEOF)] \<and> endsOnce xs" using suiteRequest_simps(3) [of p] suiteRequest_simps(4) by blast
  ultimately show ?thesis
    using assms suiteRequest_simps(1) [of p] suiteRequest_simps(5) [of p] unfolding servable_def suiteExchange_def split by metis
qed


end
