(* ===== verification/Tracing.thy ===== *)
theory Tracing
  imports Log_Context
begin

text \<open>
  Tracing: the set-up of the tracer (\<open>src/tracing/init.go\<close>), the statistics handler of the gRPC clients (\<open>src/tracing/grpc.go\<close>)
  and the callbacks of an HTTP client (\<open>src/recorderproxy/trace.go\<close>). What they do is write log entries and add events to a span; what can go
  wrong is that there is no span, or no request, to write to. Texts of library values are given as they are printed.
\<close>

section \<open>Entries and span events\<close>

text \<open>What was logged, as fields, level and message, and the events of the span at hand, as key and value pairs.\<close>

record traceOut =
  to_entries :: "(fields \<times> logLevel \<times> bytes) list"
  to_events :: "(bytes \<times> bytes) list list"

text \<open>Logging through a nil logger panics; an entry below the level of the library is dropped.\<close>

definition logAt :: "(logLevel \<Rightarrow> bool) \<Rightarrow> logLevel \<Rightarrow> bytes \<Rightarrow> logger \<Rightarrow> traceOut \<Rightarrow> (unit, traceOut) run" where
  "logAt enabled level msg l s = (case l of
     None \<Rightarrow> Panics s
   | Some fs \<Rightarrow> Done () (if enabled level then s\<lparr>to_entries := to_entries s @ [(fs, level, msg)]\<rparr> else s))"

text \<open>A call on the span of a context, which is nil when the context has none.\<close>

definition onSpan :: "bool \<Rightarrow> (bytes \<times> bytes) list \<Rightarrow> traceOut \<Rightarrow> (unit, traceOut) run" where
  "onSpan hasSpan kvs s = (if hasSpan then Done () (s\<lparr>to_events := to_events s @ [kvs]\<rparr>) else Panics s)"

definition boolText :: "bool \<Rightarrow> bytes" where
  "boolText b = (if b then ''true'' else ''false'')"

section \<open>The tracer (init.go)\<close>

text \<open>
  The library: the configuration read from the environment, known by its service name, and the tracer made from it.
\<close>

record jaegerEnv =
  j_FromEnv :: "go_error + bytes"
  j_NewTracer :: "bytes \<Rightarrow> go_error + nat"

definition Init :: "jaegerEnv \<Rightarrow> bytes \<Rightarrow> (nat option \<times> nat option) \<times> bytes list" where
  "Init J service = (case j_FromEnv J of
     Inl err \<Rightarrow> ((None, None), [''ERROR: cannot init Jaeger from environment: '' @ errText err])
   | Inr name \<Rightarrow> (case j_NewTracer J (if name = [] then service else name) of
       Inl err \<Rightarrow> ((None, None), [''ERROR: cannot init Jaeger: '' @ errText err])
     | Inr tracer \<Rightarrow> ((Some tracer, Some tracer), [])))"

lemma Init_tracer: "snd (fst (Init J service)) = fst (fst (Init J service))"
  by (simp add: Init_def split: sum.split)

section \<open>The statistics handler (grpc.go)\<close>

text \<open>The context of a call: its proxy data, and whether it carries a span.\<close>

record rpcContext =
  cx_world :: world
  cx_span :: bool

datatype rpcPayload = WritePayload "writeRequest option" | OtherPayload

text \<open>The statistics of a call; a payload comes with its type and its text.\<close>

datatype rpcStats = Begin bytes | End bytes bytes bytes bytes | InHeader bytes | InPayload bytes bytes | InTrailer bytes
  | OutHeader bytes | OutPayload rpcPayload bytes bytes | OutTrailer bytes | OtherStats bool bytes

datatype connStats = ConnBegin bool | ConnEnd bool | OtherConn bool bytes

definition NewStatsHandler :: "(logLevel \<Rightarrow> bool) \<Rightarrow> bytes \<Rightarrow> logLevel \<Rightarrow> bytes option" where
  "NewStatsHandler enabled serviceName level = (if enabled level then Some (''gRPC:'' @ serviceName) else None)"

definition statsLog ::
    "(logLevel \<Rightarrow> bool) \<Rightarrow> bytes \<Rightarrow> rpcContext \<Rightarrow> logLevel \<Rightarrow> bytes \<Rightarrow> traceOut \<Rightarrow> (unit, traceOut) run" where
  "statsLog enabled service c level msg = logAt enabled level msg (LogWithContext (cx_world c) service)"

definition TagRPC ::
    "(logLevel \<Rightarrow> bool) \<Rightarrow> bytes \<Rightarrow> rpcContext \<Rightarrow> bytes \<Rightarrow> bool \<Rightarrow> traceOut \<Rightarrow> (rpcContext, traceOut) run" where
  "TagRPC enabled service c method failFast s =
     andThen (statsLog enabled service c DebugLevel (''TagRPC: '' @ method @ '' '' @ boolText failFast) s) (\<lambda>_ s. Done c s)"

text \<open>The entry for a message that is sent; a payload is shown at the trace level only. \<open>showMeta\<close> prints a meta message.\<close>

fun outEntry :: "(logLevel \<Rightarrow> bool) \<Rightarrow> (writeMeta \<Rightarrow> bytes) \<Rightarrow> bytes \<Rightarrow> rpcPayload \<Rightarrow> (logLevel \<times> bytes) option" where
  "outEntry enabled showMeta typ (WritePayload None) = None"
| "outEntry enabled showMeta typ (WritePayload (Some (ReqMeta m))) = Some (DebugLevel, showMeta m)"
| "outEntry enabled showMeta typ (WritePayload (Some (ReqPayload n d))) =
     (if enabled TraceLevel then Some (TraceLevel, ''payload['' @ itoa n @ '']: '' @ d)
      else Some (DebugLevel, ''payload['' @ itoa n @ '']: '' @ itoa (int (length d)) @ '' bytes''))"
| "outEntry enabled showMeta typ (WritePayload (Some (ReqCancel m))) = Some (DebugLevel, m)"
| "outEntry enabled showMeta typ (WritePayload (Some (ReqProtocolHeader n d))) =
     Some (DebugLevel, ''header['' @ itoa n @ '']: '' @ d)"
| "outEntry enabled showMeta typ OtherPayload = Some (DebugLevel, ''OutPayload HandleRPC: '' @ typ)"

definition payloadEvent :: "bytes \<Rightarrow> bytes \<Rightarrow> bytes \<Rightarrow> bytes \<Rightarrow> (bytes \<times> bytes) list" where
  "payloadEvent service typ text direction =
     [(''xx'', typ), (''data'', text), (''component'', service), (''direction'', direction)]"

fun HandleRPC ::
    "(logLevel \<Rightarrow> bool) \<Rightarrow> (writeMeta \<Rightarrow> bytes) \<Rightarrow> bytes \<Rightarrow> rpcContext \<Rightarrow> rpcStats \<Rightarrow> traceOut \<Rightarrow> (unit, traceOut) run" where
  "HandleRPC enabled showMeta service c (Begin t) s =
     andThen (statsLog enabled service c DebugLevel (''Begin HandleRPC: '' @ t) s)
       (\<lambda>_. onSpan (cx_span c) [(''event'', service @ '' Begin'')])"
| "HandleRPC enabled showMeta service c (End begin fin err trailer) s =
     andThen (statsLog enabled service c DebugLevel (''End HandleRPC: '' @ begin @ '', '' @ fin @ '', '' @ err) s)
       (\<lambda>_. onSpan (cx_span c) [(''event'', service @ '' End '' @ trailer)])"
| "HandleRPC enabled showMeta service c (InHeader v) s =
     statsLog enabled service c DebugLevel (''InHeader HandleRPC: '' @ v) s"
| "HandleRPC enabled showMeta service c (InPayload typ text) s =
     andThen (statsLog enabled service c DebugLevel (''InPayload HandleRPC: '' @ typ) s)
       (\<lambda>_. onSpan (cx_span c) (payloadEvent service typ text ''in''))"
| "HandleRPC enabled showMeta service c (InTrailer v) s =
     statsLog enabled service c DebugLevel (''InTrailer HandleRPC: '' @ v) s"
| "HandleRPC enabled showMeta service c (OutHeader v) s =
     statsLog enabled service c DebugLevel (''OutHeader HandleRPC: '' @ v) s"
| "HandleRPC enabled showMeta service c (OutPayload p typ text) s =
     andThen (case outEntry enabled showMeta typ p of
         None \<Rightarrow> Done () s
       | Some (level, msg) \<Rightarrow> statsLog enabled service c level msg s)
       (\<lambda>_. onSpan (cx_span c) (payloadEvent service typ text ''out''))"
| "HandleRPC enabled showMeta service c (OutTrailer v) s =
     statsLog enabled service c DebugLevel (''OutTrailer HandleRPC: '' @ v) s"
| "HandleRPC enabled showMeta service c (OtherStats isClient typ) s =
     statsLog enabled service c DebugLevel (''HandleRPC: isclient '' @ boolText isClient @ '' '' @ typ) s"

definition TagConn ::
    "(logLevel \<Rightarrow> bool) \<Rightarrow> bytes \<Rightarrow> rpcContext \<Rightarrow> bytes \<Rightarrow> bytes \<Rightarrow> traceOut \<Rightarrow> (rpcContext, traceOut) run" where
  "TagConn enabled service c localAddr remoteAddr s =
     andThen (statsLog enabled service c DebugLevel (''TagConn: '' @ localAddr @ '' --> '' @ remoteAddr @ [CHR 0x0A]) s)
       (\<lambda>_ s. Done c s)"

fun HandleConn :: "(logLevel \<Rightarrow> bool) \<Rightarrow> bytes \<Rightarrow> rpcContext \<Rightarrow> connStats \<Rightarrow> traceOut \<Rightarrow> (unit, traceOut) run" where
  "HandleConn enabled service c (ConnBegin isClient) s =
     statsLog enabled service c DebugLevel (''Begin HandleConn: isclient '' @ boolText isClient) s"
| "HandleConn enabled service c (ConnEnd isClient) s =
     statsLog enabled service c DebugLevel (''End HandleConn: isclient '' @ boolText isClient) s"
| "HandleConn enabled service c (OtherConn isClient typ) s =
     statsLog enabled service c DebugLevel (''HandleConn: isclient '' @ boolText isClient @ '' '' @ typ) s"

text \<open>The statistics of a whole call, in the order they are reported.\<close>

fun handleCall ::
    "(logLevel \<Rightarrow> bool) \<Rightarrow> (writeMeta \<Rightarrow> bytes) \<Rightarrow> bytes \<Rightarrow> rpcContext \<Rightarrow> rpcStats list \<Rightarrow> traceOut \<Rightarrow> (unit, traceOut) run" where
  "handleCall enabled showMeta service c [] s = Done () s"
| "handleCall enabled showMeta service c (v # vs) s =
     andThen (HandleRPC enabled showMeta service c v s) (\<lambda>_. handleCall enabled showMeta service c vs)"

text \<open>
  The contexts of the calls the proxy makes: \<open>getBccSession\<close> and \<open>getCwcSession\<close> make a context with a span and without the data
  of the proxy, the lookup of a host has the data and a span, \<open>RegisterConnectRequest\<close> has a context with neither.
\<close>

definition sessionRpc :: "world \<Rightarrow> rpcContext" where
  "sessionRpc w = \<lparr>cx_world = w\<lparr>w_data := None\<rparr>, cx_span = True\<rparr>"

definition dnsRpc :: "world \<Rightarrow> rpcContext" where
  "dnsRpc w = \<lparr>cx_world = w, cx_span = True\<rparr>"

definition connectRpc :: "world \<Rightarrow> rpcContext" where
  "connectRpc w = \<lparr>cx_world = w\<lparr>w_data := None\<rparr>, cx_span = False\<rparr>"

section \<open>The callbacks of an HTTP client (trace.go)\<close>

text \<open>The request the transport sees as current: its address, and whether its context has a span.\<close>

record tracedRequest =
  tq_URL :: "url option"
  tq_span :: bool

record transport =
  t_current :: "tracedRequest option"
  t_log :: logger

definition DecorateRequest :: transport where
  "DecorateRequest = \<lparr>t_current = None, t_log = WithComponent ''CLIENT'' StandardLogger\<rparr>"

text \<open>What happens to the transport: a request, and the callbacks of the library.\<close>

datatype traceEvent = RoundTrip tracedRequest | GetConn bytes | GotConn bool | DNSStart bytes | DNSDone bytes
  | PutIdleConn bytes | ConnectStart bytes bytes | ConnectDone bytes bytes bytes | TLSHandshakeStart
  | TLSHandshakeDone bytes bool "bytes list" bytes

definition urlText :: "url option \<Rightarrow> bytes" where
  "urlText u = (case u of Some u \<Rightarrow> urlString u | None \<Rightarrow> ''<nil>'')"

type_synonym tracing = "transport \<times> traceOut"

definition debugf :: "(logLevel \<Rightarrow> bool) \<Rightarrow> logLevel \<Rightarrow> bytes \<Rightarrow> tracing \<Rightarrow> (unit, tracing) run" where
  "debugf enabled level msg s = (case logAt enabled level msg (t_log (fst s)) (snd s) of
     Done u o' \<Rightarrow> Done () (fst s, o') | Panics o' \<Rightarrow> Panics (fst s, o') | Blocks o' \<Rightarrow> Blocks (fst s, o'))"

text \<open>A use of the current request, which may be nil, and of the span of its context.\<close>

definition withCurrent :: "(tracedRequest \<Rightarrow> tracing \<Rightarrow> (unit, tracing) run) \<Rightarrow> tracing \<Rightarrow> (unit, tracing) run" where
  "withCurrent f s = (case t_current (fst s) of None \<Rightarrow> Panics s | Some q \<Rightarrow> f q s)"

definition currentSpan :: "(bytes \<times> bytes) list \<Rightarrow> tracing \<Rightarrow> (unit, tracing) run" where
  "currentSpan kvs = withCurrent (\<lambda>q s. case onSpan (tq_span q) kvs (snd s) of
     Done u o' \<Rightarrow> Done () (fst s, o') | Panics o' \<Rightarrow> Panics (fst s, o') | Blocks o' \<Rightarrow> Blocks (fst s, o'))"

fun peerCerts :: "(logLevel \<Rightarrow> bool) \<Rightarrow> bytes list \<Rightarrow> tracing \<Rightarrow> (unit, tracing) run" where
  "peerCerts enabled [] s = Done () s"
| "peerCerts enabled (issuer # rest) s =
     andThen (debugf enabled DebugLevel (''TLS peer cert: '' @ issuer @ [CHR 0x0A]) s) (\<lambda>_. peerCerts enabled rest)"

fun onTrace :: "(logLevel \<Rightarrow> bool) \<Rightarrow> traceEvent \<Rightarrow> tracing \<Rightarrow> (unit, tracing) run" where
  "onTrace enabled (RoundTrip req) s = Done () ((fst s)\<lparr>t_current := Some req\<rparr>, snd s)"
| "onTrace enabled (GetConn hostPort) s = debugf enabled TraceLevel (''get conn: '' @ hostPort) s"
| "onTrace enabled (GotConn reused) s = withCurrent (\<lambda>q. debugf enabled TraceLevel
     (''got connection for '' @ urlText (tq_URL q) @ ''. Is resued? '' @ boolText reused)) s"
| "onTrace enabled (DNSStart host) s = debugf enabled DebugLevel (''DNS start: '' @ host @ [CHR 0x0A]) s"
| "onTrace enabled (DNSDone info) s = debugf enabled DebugLevel (''DNS done: '' @ info @ [CHR 0x0A]) s"
| "onTrace enabled (PutIdleConn err) s = withCurrent (\<lambda>q. debugf enabled DebugLevel
     (''** Connection PutIdleCon for '' @ urlText (tq_URL q) @ ''? '' @ err @ [CHR 0x0A])) s"
| "onTrace enabled (ConnectStart network addr) s =
     debugf enabled DebugLevel (''Connecting to '' @ network @ '' '' @ addr @ [CHR 0x0A]) s"
| "onTrace enabled (ConnectDone network addr err) s =
     debugf enabled DebugLevel (''Connected to '' @ network @ '' '' @ addr @ '' '' @ err @ [CHR 0x0A]) s"
| "onTrace enabled TLSHandshakeStart s = andThen (debugf enabled DebugLevel ''TLS Handshake start'' s)
     (\<lambda>_. currentSpan [(''event'', ''TLSHandshakeStart'')])"
| "onTrace enabled (TLSHandshakeDone serverName complete issuers err) s =
     andThen (debugf enabled DebugLevel
       (''TLS Handshake done: '' @ serverName @ '' '' @ boolText complete @ '' '' @ err @ [CHR 0x0A]) s) (\<lambda>_ s.
     andThen (peerCerts enabled issuers s)
       (\<lambda>_. currentSpan [(''event'', ''TLSHandshakeDone''), (''host'', serverName),
          (''complete'', boolText complete), (''error'', err)]))"

fun onTraces :: "(logLevel \<Rightarrow> bool) \<Rightarrow> traceEvent list \<Rightarrow> tracing \<Rightarrow> (unit, tracing) run" where
  "onTraces enabled [] s = Done () s"
| "onTraces enabled (e # es) s = andThen (onTrace enabled e s) (\<lambda>_. onTraces enabled es)"

section \<open>Properties of the statistics handler\<close>

lemma statsLog_returns: "LogWithContext (cx_world c) service \<noteq> None \<Longrightarrow>
    \<exists>s'. statsLog enabled service c level msg s = Done () s' \<and> to_events s' = to_events s"
  by (auto simp: statsLog_def logAt_def)

text \<open>The events of a span, as the statistics of its call arrive.\<close>

fun spanEvents :: "bytes \<Rightarrow> rpcStats \<Rightarrow> (bytes \<times> bytes) list list" where
  "spanEvents service (Begin t) = [[(''event'', service @ '' Begin'')]]"
| "spanEvents service (End begin fin err trailer) = [[(''event'', service @ '' End '' @ trailer)]]"
| "spanEvents service (InPayload typ text) = [payloadEvent service typ text ''in'']"
| "spanEvents service (OutPayload p typ text) = [payloadEvent service typ text ''out'']"
| "spanEvents service _ = []"

lemma HandleRPC_cases:
  assumes "LogWithContext (cx_world c) service \<noteq> None"
  shows "if cx_span c \<or> spanEvents service v = []
     then \<exists>s'. HandleRPC enabled showMeta service c v s = Done () s' \<and> to_events s' = to_events s @ spanEvents service v
     else \<exists>s'. HandleRPC enabled showMeta service c v s = Panics s'"
  using assms by (cases v) (auto simp: statsLog_def logAt_def onSpan_def split: option.split)

lemma handleCall_span:
  assumes "LogWithContext (cx_world c) service \<noteq> None" "cx_span c"
  shows "\<exists>s'. handleCall enabled showMeta service c vs s = Done () s' \<and>
     to_events s' = to_events s @ concat (map (spanEvents service) vs)"
proof (induction vs arbitrary: s)
  case (Cons v vs)
  obtain s1 where s1: "HandleRPC enabled showMeta service c v s = Done () s1" "to_events s1 = to_events s @ spanEvents service v"
    using HandleRPC_cases [OF assms(1), of v enabled showMeta s] assms(2) by auto
  then show ?case using Cons.IH [of s1] by auto
qed simp

lemma LogWithContext_noData: "LogWithContext (w\<lparr>w_data := None\<rparr>) service \<noteq> None"
  by (simp add: LogWithContext_def GetRecordContext_def getValue_def WithField_def Log_def)

text \<open>
  C30: With the statistics handler installed the calls of the sessions and the lookup of a host are logged without a panic and their spans get one
  event for the begin and the end of the call and for every message, while the registration of a CONNECT panics at the very first event,
  because its context has no span.
\<close>

theorem stats_handler_needs_span:
  assumes "NewStatsHandler enabled name level = Some service"
  shows "service = ''gRPC:'' @ name \<and> enabled level \<and>
     (\<exists>s'. handleCall enabled showMeta service (sessionRpc w) vs s = Done () s' \<and>
        to_events s' = to_events s @ concat (map (spanEvents service) vs)) \<and>
     ((GetRecordContext (w_data w) \<noteq> None \<longrightarrow> rc_InitDone (w_rc w)) \<longrightarrow>
        (\<exists>s'. handleCall enabled showMeta service (dnsRpc w) vs s = Done () s' \<and>
           to_events s' = to_events s @ concat (map (spanEvents service) vs))) \<and>
     (\<exists>s'. handleCall enabled showMeta service (connectRpc w) (Begin t # vs) s = Panics s')"
proof -
  have s: "LogWithContext (cx_world (sessionRpc w)) service \<noteq> None" "cx_span (sessionRpc w)"
    using LogWithContext_noData [of w service] by (simp_all add: sessionRpc_def)
  have d: "(GetRecordContext (w_data w) \<noteq> None \<longrightarrow> rc_InitDone (w_rc w)) \<Longrightarrow>
      LogWithContext (cx_world (dnsRpc w)) service \<noteq> None" "cx_span (dnsRpc w)"
    by (auto simp: dnsRpc_def LogWithContext_def WithField_def WithFields_def Log_def rcLog_def)
  have c: "LogWithContext (cx_world (connectRpc w)) service \<noteq> None" "\<not> cx_span (connectRpc w)"
    using LogWithContext_noData [of w service] by (simp_all add: connectRpc_def)
  obtain s' where "HandleRPC enabled showMeta service (connectRpc w) (Begin t) s = Panics s'"
    using HandleRPC_cases [OF c(1), of "Begin t" enabled showMeta s] c(2) by auto
  then have "handleCall enabled showMeta service (connectRpc w) (Begin t # vs) s = Panics s'" by simp
  then show ?thesis
    using assms handleCall_span [OF s, of enabled showMeta vs s] handleCall_span [OF d(1) d(2), of enabled showMeta vs s]
    by (auto simp: NewStatsHandler_def split: if_splits)
qed

theorem stats_handler_needs_span_witness:
  "\<exists>s'. handleCall (\<lambda>_. True) (\<lambda>_. []) ''gRPC:BrowserController'' (connectRpc (startWorld [])) [Begin ''now'', InHeader []]
     \<lparr>to_entries = [], to_events = []\<rparr> = Panics s'"
  using stats_handler_needs_span [where enabled = "\<lambda>_. True" and name = "''BrowserController''" and level = DebugLevel
      and service = "''gRPC:BrowserController''" and w = "startWorld []" and vs = "[InHeader []]" and t = "''now''"
      and showMeta = "\<lambda>_. []" and s = "\<lparr>to_entries = [], to_events = []\<rparr>"]
  by (simp add: NewStatsHandler_def)

section \<open>Properties of the callbacks\<close>

definition needsRequest :: "traceEvent \<Rightarrow> bool" where
  "needsRequest e \<longleftrightarrow> (case e of GotConn _ \<Rightarrow> True | PutIdleConn _ \<Rightarrow> True | _ \<Rightarrow> False)"

definition needsSpan :: "traceEvent \<Rightarrow> bool" where
  "needsSpan e \<longleftrightarrow> (case e of TLSHandshakeStart \<Rightarrow> True | TLSHandshakeDone _ _ _ _ \<Rightarrow> True | _ \<Rightarrow> False)"

definition currentAfter :: "tracedRequest option \<Rightarrow> traceEvent list \<Rightarrow> tracedRequest option" where
  "currentAfter q es = foldl (\<lambda>q e. case e of RoundTrip r \<Rightarrow> Some r | _ \<Rightarrow> q) q es"

lemma currentAfter_simps [simp]:
  "currentAfter q [] = q"
  "currentAfter q (e # es) = currentAfter (case e of RoundTrip r \<Rightarrow> Some r | _ \<Rightarrow> q) es"
  by (simp_all add: currentAfter_def)

lemma debugf_Done:
  assumes "t_log (fst s) \<noteq> None"
  obtains o' where "debugf enabled level msg s = Done () (fst s, o')"
  using assms by (auto simp: debugf_def logAt_def)

lemma peerCerts_Done:
  assumes "t_log (fst s) \<noteq> None"
  shows "\<exists>o'. peerCerts enabled cs s = Done () (fst s, o')"
  using assms
proof (induction cs arbitrary: s)
  case (Cons c cs)
  obtain o' where d: "debugf enabled DebugLevel (''TLS peer cert: '' @ c @ [CHR 0x0A]) s = Done () (fst s, o')"
    by (rule debugf_Done [OF Cons.prems])
  have "t_log (fst (fst s, o')) \<noteq> None" using Cons.prems by simp
  from Cons.IH [OF this] show ?case using d by simp
qed (auto intro: exI [of _ "snd _"])

lemma onTrace_cases:
  assumes "t_log (fst s) \<noteq> None"
  shows "if (needsRequest e \<longrightarrow> t_current (fst s) \<noteq> None) \<and>
            (needsSpan e \<longrightarrow> (\<exists>q. t_current (fst s) = Some q \<and> tq_span q))
     then \<exists>s'. onTrace enabled e s = Done () s' \<and> t_log (fst s') = t_log (fst s) \<and>
       t_current (fst s') = currentAfter (t_current (fst s)) [e]
     else \<exists>s'. onTrace enabled e s = Panics s'"
proof (cases "needsSpan e")
  case True
  define msg where "msg = (case e of TLSHandshakeDone serverName complete issuers err \<Rightarrow>
      ''TLS Handshake done: '' @ serverName @ '' '' @ boolText complete @ '' '' @ err @ [CHR 0x0A] | _ \<Rightarrow> ''TLS Handshake start'')"
  obtain o1 where o1: "debugf enabled DebugLevel msg s = Done () (fst s, o1)" by (rule debugf_Done [OF assms])
  define cs where "cs = (case e of TLSHandshakeDone serverName complete issuers err \<Rightarrow> issuers | _ \<Rightarrow> [])"
  obtain o2 where o2: "peerCerts enabled cs (fst s, o1) = Done () (fst s, o2)"
    using peerCerts_Done [of "(fst s, o1)" enabled cs] assms by auto
  show ?thesis using True o1 o2
    by (cases e) (auto simp: needsSpan_def needsRequest_def msg_def cs_def currentSpan_def withCurrent_def onSpan_def
        split: option.split)
next
  case False
  obtain fs where "t_log (fst s) = Some fs" using assms by blast
  then have d: "\<exists>f. \<forall>level msg. debugf enabled level msg s = Done () (fst s, f level msg)"
    by (intro exI [of _ "\<lambda>level msg. if enabled level
        then (snd s)\<lparr>to_entries := to_entries (snd s) @ [(fs, level, msg)]\<rparr> else snd s"]) (simp add: debugf_def logAt_def)
  obtain f where d: "\<And>level msg. debugf enabled level msg s = Done () (fst s, f level msg)" using d by blast
  show ?thesis using False d
    by (cases e) (auto simp: needsSpan_def needsRequest_def withCurrent_def split: option.split)
qed

text \<open>
  The callbacks of a decorated request never panic exactly if the connection callbacks that name the request come after
  its start, and every TLS handshake happens while the context of the latest request has a span.
\<close>

theorem trace_callbacks_safe:
  "returns (onTraces enabled es (DecorateRequest, s)) \<longleftrightarrow>
     (\<forall>n < length es. (needsRequest (es ! n) \<longrightarrow> currentAfter None (take n es) \<noteq> None) \<and>
        (needsSpan (es ! n) \<longrightarrow> (\<exists>q. currentAfter None (take n es) = Some q \<and> tq_span q)))"
proof -
  have "returns (onTraces enabled es t) \<longleftrightarrow>
     (\<forall>n < length es. (needsRequest (es ! n) \<longrightarrow> currentAfter (t_current (fst t)) (take n es) \<noteq> None) \<and>
        (needsSpan (es ! n) \<longrightarrow> (\<exists>q. currentAfter (t_current (fst t)) (take n es) = Some q \<and> tq_span q)))"
    if "t_log (fst t) \<noteq> None" for t
    using that
  proof (induction es arbitrary: t)
    case (Cons e es)
    note all = All_less_Suc2 [where n = "length es"]
    show ?case
    proof (cases "(needsRequest e \<longrightarrow> t_current (fst t) \<noteq> None) \<and> (needsSpan e \<longrightarrow> (\<exists>q. t_current (fst t) = Some q \<and> tq_span q))")
      case True
      then obtain t' where t': "onTrace enabled e t = Done () t'" "t_log (fst t') = t_log (fst t)"
        "t_current (fst t') = currentAfter (t_current (fst t)) [e]"
        using onTrace_cases [OF Cons.prems, of e enabled] by auto
      have "t_log (fst t') \<noteq> None" using t'(2) Cons.prems by simp
      from Cons.IH [OF this] show ?thesis using t'(1,3) True by (simp add: all)
    next
      case False
      obtain t' where "onTrace enabled e t = Panics t'"
        using onTrace_cases [OF Cons.prems, of e enabled] unfolding if_not_P [OF False] by blast
      then show ?thesis using False by (auto simp: all)
    qed
  qed simp
  from this [of "(DecorateRequest, s)"] show ?thesis
    by (simp add: DecorateRequest_def WithComponent_def WithField_def StandardLogger_def Log_def)
qed

theorem trace_callbacks_safe_witness:
  "returns (onTraces (\<lambda>_. True) [RoundTrip \<lparr>tq_URL = None, tq_span = True\<rparr>, GotConn False, TLSHandshakeStart]
      (DecorateRequest, \<lparr>to_entries = [], to_events = []\<rparr>)) \<and>
   \<not> returns (onTraces (\<lambda>_. True) [TLSHandshakeStart] (DecorateRequest, \<lparr>to_entries = [], to_events = []\<rparr>))"
proof -
  let ?s = "\<lparr>to_entries = [], to_events = []\<rparr>" and ?es = "[RoundTrip \<lparr>tq_URL = None, tq_span = True\<rparr>, GotConn False, TLSHandshakeStart]"
  note two = All_less_Suc2
  have "returns (onTraces (\<lambda>_. True) ?es (DecorateRequest, ?s))"
    by (subst trace_callbacks_safe) (simp add: two needsRequest_def needsSpan_def)
  moreover have "\<not> returns (onTraces (\<lambda>_. True) [TLSHandshakeStart] (DecorateRequest, ?s))"
    by (subst trace_callbacks_safe) (simp add: two needsRequest_def needsSpan_def)
  ultimately show ?thesis by blast
qed

end
