(* ===== verification/Test_Client.thy ===== *)
theory Test_Client
  imports Tracing Proxy_Server
begin

text \<open>
  The command line tool \<open>src/proxyutil\<close>: it starts a proxy against the mocked services, fetches the pages it is given
  through it and shows what it got. Making a request, sending it and the body of its answer are parameters; reading the body is \<open>readAll\<close>.
\<close>

section \<open>Fetching a page (client.go)\<close>

text \<open>\<open>ioutil.ReadAll\<close>: everything up to the end of the body, or up to the first other error.\<close>

fun readAll :: "reader \<Rightarrow> bytes \<times> go_error option" where
  "readAll [] = ([], None)"
| "readAll ((d, None) # xs) = (case readAll xs of (ds, err) \<Rightarrow> (d @ ds, err))"
| "readAll ((d, Some e) # xs) = (d, if e = IoEOF then None else Some e)"

text \<open>What a request does to its surroundings, in order; deferred calls come last, the latest first.\<close>

datatype clientEvent = SpanStarted | Submitted url | SpanError | ErrorLogged go_error | BodyClosed | RequestTraceDone
  | TimeoutReleased | SpanFinished | TracerClosed

record clientEnv =
  ce_NewRequest :: "string \<Rightarrow> go_error + url"
  ce_Do :: "url \<Rightarrow> int \<Rightarrow> go_error + int \<times> reader"

text \<open>\<open>onError\<close>: \<open>LogKV\<close> gets a single argument, so the span has the tag but not the error.\<close>

definition onError :: "go_error \<Rightarrow> clientEvent list" where
  "onError err = [SpanError, ErrorLogged err]"

text \<open>Without a tracer the start of the span is a call on a nil interface.\<close>

definition get ::
    "jaegerEnv \<Rightarrow> clientEnv \<Rightarrow> string \<Rightarrow> int \<Rightarrow> (int \<times> bytes \<times> go_error option, clientEvent list) run" where
  "get J C url timeout = (case fst (fst (Init J ''Internal test client'')) of
     None \<Rightarrow> Panics []
   | Some tracer \<Rightarrow>
      (case ce_NewRequest C url of
         Inl err \<Rightarrow> Done (0, [], Some err) [SpanStarted, SpanFinished, TracerClosed]
       | Inr u \<Rightarrow>
          (let cleanup = RequestTraceDone # (if timeout > 0 then [TimeoutReleased] else []) @ [SpanFinished, TracerClosed]
           in case ce_Do C u timeout of
                Inl err \<Rightarrow> Done (0, [], Some err) ([SpanStarted, Submitted u] @ onError err @ cleanup)
              | Inr (statusCode, body) \<Rightarrow>
                 (case readAll body of
                    (got, Some err) \<Rightarrow> Done (0, [], Some err) ([SpanStarted, Submitted u] @ onError err @ [BodyClosed] @ cleanup)
                  | (got, None) \<Rightarrow> Done (statusCode, got, None) ([SpanStarted, Submitted u, BodyClosed] @ cleanup)))))"

section \<open>The tool (main.go)\<close>

text \<open>
  The settings, with what \<open>InitLog\<close> made of the log settings, and the pages to fetch.
\<close>

record cliSettings =
  cs_initLog :: "string option"
  cs_help :: bool
  cs_keepRunning :: bool
  cs_interface :: string
  cs_port :: int
  cs_proxy :: string
  cs_args :: "string list"

definition defaultCli :: cliSettings where
  "defaultCli = \<lparr>cs_initLog = None, cs_help = False, cs_keepRunning = False, cs_interface = [], cs_port = 0, cs_proxy = [],
     cs_args = []\<rparr>"

datatype cliEvent = CliLogError string | CliUsage | CliStarted recorderProxy | CliFetched string | CliAwaited | CliStatus int
  | CliContent bytes nat | CliInvalid go_error | CliInterrupt | CliProxyClosed recorderProxy | CliTracerClosed

text \<open>
  \<open>got[0:10]\<close> reaches beyond the end of a shorter content, up to the capacity of the slice: \<open>spare\<close> is what the buffer of
  \<open>ReadAll\<close> has there.
\<close>

definition firstTen :: "bytes \<Rightarrow> bytes \<Rightarrow> bytes option" where
  "firstTen spare got = (if length (got @ spare) < 10 then None else Some (take 10 (got @ spare)))"

text \<open>Listening depends on the addresses that are taken, those of the proxies started before. A minute is in nanoseconds.\<close>

definition newProxy :: "(string list \<Rightarrow> listenEnv) \<Rightarrow> cliSettings \<Rightarrow> recorderProxy list \<Rightarrow> recorderProxy option" where
  "newProxy L cs opened = NewRecorderProxy (L (map rp_Addr opened)) 0 (cs_interface cs) (cs_port cs) (60 * 10 ^ 9) (cs_proxy cs)"

text \<open>
  One page, after its proxy was started. \<open>fetch\<close> is \<open>get\<close> with the client of that proxy and a limit of 5000 seconds, \<open>Panics\<close> when it panics.
\<close>

definition showPage :: "bytes \<Rightarrow> int \<times> bytes \<times> go_error option \<Rightarrow> cliEvent list option" where
  "showPage spare r = (case r of (statusCode, got, err) \<Rightarrow>
     (case (if length got > 0 then map_option (\<lambda>t. [CliContent t (length got)]) (firstTen spare got) else Some []) of
        None \<Rightarrow> None
      | Some shown \<Rightarrow> Some (CliStatus statusCode # shown @ (case err of Some e \<Rightarrow> [CliInvalid e] | None \<Rightarrow> []))))"

text \<open>The loop over the pages; the state holds the open proxies and what happened so far.\<close>

fun fetchPages ::
    "(string list \<Rightarrow> listenEnv) \<Rightarrow> (recorderProxy \<Rightarrow> string \<Rightarrow> (int \<times> bytes \<times> go_error option, clientEvent list) run) \<Rightarrow> bytes \<Rightarrow>
       cliSettings \<Rightarrow> string list \<Rightarrow> recorderProxy list \<times> cliEvent list \<Rightarrow> (unit, recorderProxy list \<times> cliEvent list) run" where
  "fetchPages L fetch spare cs [] s = Done () s"
| "fetchPages L fetch spare cs (url # urls) (opened, out) = (case newProxy L cs opened of
     None \<Rightarrow> Panics (opened, out)
   | Some p \<Rightarrow>
      (let opened = opened @ [p]; out = out @ [CliStarted p, CliFetched url]
       in case fetch p url of
            Panics _ \<Rightarrow> Panics (opened, out)
          | Blocks _ \<Rightarrow> Blocks (opened, out)
          | Done r _ \<Rightarrow> (case showPage spare r of
              None \<Rightarrow> Panics (opened, out @ [CliAwaited])
            | Some shown \<Rightarrow> fetchPages L fetch spare cs urls (opened, out @ CliAwaited # shown))))"

text \<open>The deferred calls: the proxies are closed, the last one first, then the tracer.\<close>

definition deferred :: "nat option \<Rightarrow> recorderProxy list \<Rightarrow> cliEvent list" where
  "deferred tracer opened = map CliProxyClosed (rev opened) @ (if tracer = None then [] else [CliTracerClosed])"

text \<open>\<open>main\<close>: what it does and its exit code; a panic ends it with code 2.\<close>

definition cliMain ::
    "jaegerEnv \<Rightarrow> (string list \<Rightarrow> listenEnv) \<Rightarrow> (recorderProxy \<Rightarrow> string \<Rightarrow> (int \<times> bytes \<times> go_error option, clientEvent list) run) \<Rightarrow>
       bytes \<Rightarrow> cliSettings \<Rightarrow> cliEvent list \<times> nat option" where
  "cliMain J L fetch spare cs = (case cs_initLog cs of
     Some err \<Rightarrow> ([CliLogError err, CliUsage], Some 1)
   | None \<Rightarrow>
      (let tracer = fst (fst (Init J ''Recorder Proxy'')) in
       if cs_help cs then (CliUsage # deferred tracer [], Some 0)
       else case (if cs_args cs = [] then
                    (case newProxy L cs [] of None \<Rightarrow> Panics ([], []) | Some p \<Rightarrow> Done () ([p], [CliStarted p]))
                  else fetchPages L fetch spare cs (cs_args cs) ([], [])) of
              Done _ (opened, out) \<Rightarrow>
                (out @ (if cs_keepRunning cs then [CliInterrupt] else []) @ deferred tracer opened, Some 0)
            | Panics (opened, out) \<Rightarrow> (out @ deferred tracer opened, Some 2)
            | Blocks (opened, out) \<Rightarrow> (out, None)))"

section \<open>Properties\<close>

lemma readAll_chunks:
  "endsOnce xs \<Longrightarrow> \<forall>x \<in> set xs. snd x = None \<Longrightarrow> readAll (xs @ [(d, Some IoEOF)]) = (chunksOf xs @ d, None)"
  by (induction xs) (auto simp: endsOnce_def)

text \<open>
  \<open>get\<close> panics exactly if the tracer cannot be set up. Otherwise the span is started first and finished, the tracer
  is closed last, each of them once, and an answer is closed exactly if there was one; the status and the whole
  body are returned, or an error and neither of them.
\<close>

theorem get_outcome:
  "(\<not> returns (get J C url timeout) \<longleftrightarrow> fst (fst (Init J ''Internal test client'')) = None) \<and>
   (\<forall>status got err out. get J C url timeout = Done (status, got, err) out \<longrightarrow>
      (\<exists>mid. out = SpanStarted # mid @ [SpanFinished, TracerClosed] \<and>
         set mid \<inter> {SpanStarted, SpanFinished, TracerClosed} = {} \<and>
         (BodyClosed \<in> set mid \<longleftrightarrow> (\<exists>u r. ce_NewRequest C url = Inr u \<and> ce_Do C u timeout = Inr r)) \<and>
         (SpanError \<in> set mid \<longleftrightarrow> err \<noteq> None \<and> (\<exists>u. ce_NewRequest C url = Inr u))) \<and>
      (if err = None then \<exists>u body. ce_NewRequest C url = Inr u \<and> ce_Do C u timeout = Inr (status, body) \<and> readAll body = (got, None)
       else status = 0 \<and> got = []))"
proof (cases "fst (fst (Init J ''Internal test client''))")
  case None
  then show ?thesis by (simp add: get_def)
next
  case (Some tracer)
  show ?thesis
  proof (cases "ce_NewRequest C url")
    case (Inl err)
    then show ?thesis using Some by (simp add: get_def)
  next
    case (Inr u)
    define cleanup where "cleanup = RequestTraceDone # (if timeout > 0 then [TimeoutReleased] else [])"
    have c: "set cleanup \<inter> {SpanStarted, SpanFinished, TracerClosed, BodyClosed, SpanError} = {}" by (simp add: cleanup_def)
    show ?thesis
    proof (cases "ce_Do C u timeout")
      case (Inl err)
      have "get J C url timeout = Done (0, [], Some err)
          (SpanStarted # (Submitted u # onError err @ cleanup) @ [SpanFinished, TracerClosed])"
        using Some Inr Inl by (simp add: get_def cleanup_def Let_def)
      then show ?thesis using Some Inr Inl c by (auto simp: onError_def)
    next
      case (Inr r)
      obtain status body where r: "r = (status, body)" by (cases r)
      obtain got e where t: "readAll body = (got, e)" by (cases "readAll body")
      let ?mid = "Submitted u # (case e of Some err \<Rightarrow> onError err | None \<Rightarrow> []) @ BodyClosed # cleanup"
      have "get J C url timeout = Done (case e of Some err \<Rightarrow> (0, [], e) | None \<Rightarrow> (status, got, None))
          (SpanStarted # ?mid @ [SpanFinished, TracerClosed])"
        using Some \<open>ce_NewRequest C url = Inr u\<close> Inr r t by (simp add: get_def cleanup_def Let_def split: option.split)
      then show ?thesis using Some \<open>ce_NewRequest C url = Inr u\<close> Inr r t c by (auto simp: onError_def split: option.splits)
    qed
  qed
qed

theorem get_outcome_witness:
  "get \<lparr>j_FromEnv = Inr [], j_NewTracer = \<lambda>n. Inr 1\<rparr>
     \<lparr>ce_NewRequest = \<lambda>u. Inr emptyUrl, ce_Do = \<lambda>u t. Inr (200, [(''ab'', None), (''c'', Some IoEOF)])\<rparr> ''http://a/'' 5
     = Done (200, ''abc'', None) [SpanStarted, Submitted emptyUrl, BodyClosed, RequestTraceDone, TimeoutReleased, SpanFinished, TracerClosed] \<and>
   \<not> returns (get \<lparr>j_FromEnv = Inl IoEOF, j_NewTracer = \<lambda>n. Inr 1\<rparr>
     \<lparr>ce_NewRequest = \<lambda>u. Inr emptyUrl, ce_Do = \<lambda>u t. Inl IoEOF\<rparr> [] 0)"
  using get_outcome [where J = "\<lparr>j_FromEnv = Inl IoEOF, j_NewTracer = \<lambda>n. Inr 1\<rparr>" and timeout = 0 and url = "[]"
      and C = "\<lparr>ce_NewRequest = \<lambda>u. Inr emptyUrl, ce_Do = \<lambda>u t. Inl IoEOF\<rparr>"]
  by (simp add: get_def Init_def)

text \<open>
  A configured port serves only the first page: the proxy of the second one cannot listen, and the tool ends with a panic while the first proxy
  is still open.
\<close>

lemma second_page_panics:
  assumes "cs_initLog cs = None" "\<not> cs_help cs" "cs_args cs = url # url2 # urls" "newProxy L cs [] = Some p"
    "\<And>used net addr. rp_Addr p \<in> set used \<Longrightarrow> \<exists>e. l_listen (L used) net addr = Inl e"
    "fetch p url = Done r ev" "showPage spare r = Some shown"
  shows "snd (cliMain J L fetch spare cs) = Some 2"
proof -
  have "listenOn (L [rp_Addr p]) a n = None" for a n
    using assms(5) [of "[rp_Addr p]"] by (auto simp: listenOn_def split: sum.split)
      (metis sum.distinct(1))+
  then have "newProxy L cs [p] = None" by (simp add: newProxy_def NewRecorderProxy_def Let_def)
  then show ?thesis using assms(1-4,6,7) by (simp add: cliMain_def Let_def)
qed

section \<open>Waiting for the services\<close>

text \<open>
  The handlers of the mocked services leave a channel in the fields \<open>DoneBC\<close> and \<open>DoneCW\<close>. A goroutine waits for the end of the stream,
  sends on the channel, which has room, and clears the field; \<open>main\<close> looks at the field, reads it again and receives. \<open>dn_set\<close> says that the
  field holds the channel, \<open>dn_sent\<close> that the channel holds a value. A receive from a nil channel waits for ever.
\<close>

datatype watcher = WatchContext | WatchSend | WatchClear | WatchGone
datatype waiter = CheckField | ReadField | Receive | ReceiveNil | WaitOver

record doneState =
  dn_set :: bool
  dn_sent :: bool
  dn_watch :: watcher
  dn_wait :: waiter

definition handling :: doneState where
  "handling = \<lparr>dn_set = True, dn_sent = False, dn_watch = WatchContext, dn_wait = CheckField\<rparr>"

inductive doneStep :: "doneState \<Rightarrow> doneState \<Rightarrow> bool" where
  contextDone: "dn_watch s = WatchContext \<Longrightarrow> doneStep s (s\<lparr>dn_watch := WatchSend\<rparr>)"
| watchSend: "dn_watch s = WatchSend \<Longrightarrow> doneStep s (s\<lparr>dn_sent := True, dn_watch := WatchClear\<rparr>)"
| watchClear: "dn_watch s = WatchClear \<Longrightarrow> doneStep s (s\<lparr>dn_set := False, dn_watch := WatchGone\<rparr>)"
| checkField: "dn_wait s = CheckField \<Longrightarrow> doneStep s (s\<lparr>dn_wait := (if dn_set s then ReadField else WaitOver)\<rparr>)"
| readField: "dn_wait s = ReadField \<Longrightarrow> doneStep s (s\<lparr>dn_wait := (if dn_set s then Receive else ReceiveNil)\<rparr>)"
| receive: "dn_wait s = Receive \<Longrightarrow> dn_sent s \<Longrightarrow> doneStep s (s\<lparr>dn_sent := False, dn_wait := WaitOver\<rparr>)"

inductive_cases doneStep_elim: "doneStep s t"

definition doneOk :: "doneState \<Rightarrow> bool" where
  "doneOk s \<longleftrightarrow> (dn_set s \<longleftrightarrow> dn_watch s \<noteq> WatchGone) \<and>
     (dn_watch s \<in> {WatchClear, WatchGone} \<and> dn_wait s \<noteq> WaitOver \<longrightarrow> dn_sent s)"

interpretation doneInv: step_invariant doneStep doneOk
  by unfold_locales (auto simp: doneOk_def elim!: doneStep_elim split: if_splits)

text \<open>The field was cleared after \<open>main\<close> found the channel in it, and before it read the field again.\<close>

definition fieldLost :: "doneState \<Rightarrow> bool" where
  "fieldLost s \<longleftrightarrow> dn_wait s = ReceiveNil \<or> dn_wait s = ReadField \<and> dn_watch s = WatchGone"

interpretation lostInv: step_invariant doneStep "\<lambda>s. doneOk s \<and> fieldLost s"
  by unfold_locales (auto simp: doneOk_def fieldLost_def elim!: doneStep_elim split: if_splits)

lemmas waitOn = reaches_step [where step = doneStep]

lemma received_ends:
  assumes "doneOk s" "dn_wait s = Receive"
  shows "reaches doneStep (\<lambda>t. dn_wait t = WaitOver) s"
proof -
  have sent: "reaches doneStep (\<lambda>t. dn_wait t = WaitOver) t" if "dn_wait t = Receive" "dn_sent t" for t
  proof -
    have st: "doneStep t (t\<lparr>dn_sent := False, dn_wait := WaitOver\<rparr>)" using that by (rule receive)
    show ?thesis by (rule waitOn [OF st]) (simp add: reaches_now)
  qed
  have sending: "reaches doneStep (\<lambda>t. dn_wait t = WaitOver) t" if "dn_wait t = Receive" "dn_watch t = WatchSend" for t
  proof -
    have st: "doneStep t (t\<lparr>dn_sent := True, dn_watch := WatchClear\<rparr>)" using that(2) by (rule watchSend)
    show ?thesis by (rule waitOn [OF st], rule sent) (use that in simp_all)
  qed
  show ?thesis
  proof (cases "dn_watch s = WatchContext")
    case True
    have st: "doneStep s (s\<lparr>dn_watch := WatchSend\<rparr>)" using True by (rule contextDone)
    show ?thesis by (rule waitOn [OF st], rule sending) (use assms(2) in simp_all)
  next
    case False
    then show ?thesis using assms sent sending by (cases "dn_watch s") (auto simp: doneOk_def)
  qed
qed

text \<open>
  C36: The wait of the tool for a service can end exactly as long as the field was not cleared between the two reads of it; that can happen, and then
  the tool waits for ever.
\<close>

theorem wait_for_service:
  assumes "doneStep\<^sup>*\<^sup>* handling s"
  shows "(reaches doneStep (\<lambda>t. dn_wait t = WaitOver) s \<longleftrightarrow> \<not> fieldLost s) \<and>
     reaches doneStep (\<lambda>t. fieldLost t) handling"
proof
  have ok: "doneOk s" using assms by (rule doneInv.reachable) (simp add: doneOk_def handling_def)
  have reading: "reaches doneStep (\<lambda>t. dn_wait t = WaitOver) t" if "doneOk t" "dn_wait t = ReadField" "dn_set t" for t
  proof -
    have st: "doneStep t (t\<lparr>dn_wait := (if dn_set t then Receive else ReceiveNil)\<rparr>)" using that(2) by (rule readField)
    show ?thesis by (rule waitOn [OF st], rule received_ends) (use that in \<open>simp_all add: doneOk_def\<close>)
  qed
  have checks: "reaches doneStep (\<lambda>t. dn_wait t = WaitOver) t" if "doneOk t" "dn_wait t = CheckField" for t
  proof -
    have st: "doneStep t (t\<lparr>dn_wait := (if dn_set t then ReadField else WaitOver)\<rparr>)" using that(2) by (rule checkField)
    have "reaches doneStep (\<lambda>t. dn_wait t = WaitOver) (t\<lparr>dn_wait := (if dn_set t then ReadField else WaitOver)\<rparr>)"
      using that by (cases "dn_set t") (auto intro: reading reaches_now simp: doneOk_def)
    then show ?thesis by (rule waitOn [OF st])
  qed
  show "reaches doneStep (\<lambda>t. dn_wait t = WaitOver) s \<longleftrightarrow> \<not> fieldLost s"
  proof
    have over: "\<not> dn_wait t = WaitOver" if "doneOk t \<and> fieldLost t" for t using that by (auto simp: fieldLost_def)
    assume "reaches doneStep (\<lambda>t. dn_wait t = WaitOver) s"
    then show "\<not> fieldLost s" using lostInv.never_reaches [of s "\<lambda>t. dn_wait t = WaitOver", OF _ over] ok by blast
  next
    assume "\<not> fieldLost s"
    then show "reaches doneStep (\<lambda>t. dn_wait t = WaitOver) s"
      using ok reading checks received_ends by (cases "dn_wait s") (auto simp: fieldLost_def doneOk_def intro: reaches_now)
  qed
  have "doneStep\<^sup>*\<^sup>* handling \<lparr>dn_set = False, dn_sent = True, dn_watch = WatchGone, dn_wait = ReadField\<rparr>"
  proof -
    let ?a = "handling\<lparr>dn_wait := ReadField\<rparr>" and ?b = "handling\<lparr>dn_wait := ReadField, dn_watch := WatchSend\<rparr>"
      and ?c = "handling\<lparr>dn_wait := ReadField, dn_sent := True, dn_watch := WatchClear\<rparr>"
    have "doneStep handling ?a" using checkField [of handling] by (simp add: handling_def)
    moreover have "doneStep ?a ?b" using contextDone [of ?a] by (simp add: handling_def)
    moreover have "doneStep ?b ?c" using watchSend [of ?b] by (simp add: handling_def)
    moreover have "doneStep ?c \<lparr>dn_set = False, dn_sent = True, dn_watch = WatchGone, dn_wait = ReadField\<rparr>"
      using watchClear [of ?c] by (simp add: handling_def)
    ultimately show ?thesis by (meson converse_rtranclp_into_rtranclp rtranclp.rtrancl_refl)
  qed
  then show "reaches doneStep (\<lambda>t. fieldLost t) handling" unfolding reaches_def by (intro exI conjI) (assumption, simp add: fieldLost_def)
qed

theorem wait_for_service_witness:
  "reaches doneStep (\<lambda>t. dn_wait t = WaitOver) handling \<and> reaches doneStep (\<lambda>t. fieldLost t) handling"
  using wait_for_service [of handling] by (simp add: fieldLost_def handling_def)

end
