(* ===== verification/Program_Main.thy ===== *)
theory Program_Main
  imports Tracing Proxy_Server
begin

text \<open>
  The whole of \<open>main.go\<close>: what the program does, in order, and how it ends. Flags and environment, the set-up of the log and the signal
  are inputs; connecting to the services and starting a proxy are those of \<open>Services\<close> and \<open>Proxy_Server\<close>.
\<close>

section \<open>What the program does\<close>

text \<open>
  \<open>pi_signal\<close>: no signal arrives, or one does, and then the polls of \<open>Close\<close> read these numbers of open sessions.
\<close>

record programInput =
  pi_bindFlags :: "bytes option"
  pi_help :: bool
  pi_initLog :: "bytes option"
  pi_settings :: settings
  pi_signal :: "int list option"

datatype mainEvent = MainError bytes | MainUsage | MainDialled "string list" | MainProxy recorderProxy | MainSignal
  | MainStopped recorderProxy | ServicesClosed | MainTracerClosed

text \<open>An exit code, or the program goes on: it waits for a signal or polls the open sessions.\<close>

datatype mainEnd = Exited nat | GoesOn

text \<open>The loop that starts the proxies, up to the first that cannot be started, and whether there was none.\<close>

fun startLoop :: "listenEnv \<Rightarrow> settings \<Rightarrow> nat \<Rightarrow> nat \<Rightarrow> recorderProxy list \<times> bool" where
  "startLoop L st 0 i = ([], True)"
| "startLoop L st (Suc k) i =
     (case NewRecorderProxy L (int i) (st_interface st) (st_port st) (st_timeout st) (cacheAddr st) of
        None \<Rightarrow> ([], False)
      | Some r \<Rightarrow> (case startLoop L st k (Suc i) of (rs, all) \<Rightarrow> (r # rs, all)))"

text \<open>The deferred calls of \<open>main\<close>; a fatal log entry ends the process without them, a panic does not.\<close>

definition mainDeferred :: "nat option \<Rightarrow> mainEvent list" where
  "mainDeferred tracer = ServicesClosed # (if tracer = None then [] else [MainTracerClosed])"

definition awaitSignal :: "int list option \<Rightarrow> nat option \<Rightarrow> recorderProxy list \<Rightarrow> mainEvent list \<times> mainEnd" where
  "awaitSignal sig tracer ps = (case sig of
     None \<Rightarrow> ([], GoesOn)
   | Some counts \<Rightarrow> (case closeAll counts ps of (ps', fin) \<Rightarrow>
       let stopped = MainSignal # map MainStopped (filter (\<lambda>p. \<not> rp_shouldRun p) ps')
       in if fin then (stopped @ mainDeferred tracer, Exited 0) else (stopped, GoesOn)))"

definition runProxies :: "listenEnv \<Rightarrow> programInput \<Rightarrow> nat option \<Rightarrow> mainEvent list \<times> mainEnd" where
  "runProxies L pin tracer = (case startLoop L (pi_settings pin) (nat (st_proxyCount (pi_settings pin))) 0 of (ps, all) \<Rightarrow>
     if all then (case awaitSignal (pi_signal pin) tracer ps of (out, over) \<Rightarrow> (map MainProxy ps @ out, over))
     else if l_newProxy L \<noteq> None then (map MainProxy ps, Exited 1)
     else (map MainProxy ps @ mainDeferred tracer, Exited 2))"

definition programMain ::
    "jaegerEnv \<Rightarrow> ('o, 'c) grpcEnv \<Rightarrow> listenEnv \<Rightarrow> programInput \<Rightarrow> mainEvent list \<times> mainEnd" where
  "programMain J G L pin = (case pi_bindFlags pin of
     Some err \<Rightarrow> ([MainError err], Exited 1)
   | None \<Rightarrow>
       if pi_help pin then ([MainUsage], Exited 0)
       else (case pi_initLog pin of
         Some err \<Rightarrow> ([MainError err, MainUsage], Exited 1)
       | None \<Rightarrow>
          (let tracer = fst (fst (Init J ''Recorder Proxy'')) in
           case serviceOptions (pi_settings pin) of (cw, dns, bc) \<Rightarrow>
           case Connect G (NewConnections cw dns bc) of ((err, c), tr) \<Rightarrow>
           case err of
             Some e \<Rightarrow> ([MainDialled tr, MainError (errText e)], Exited 1)
           | None \<Rightarrow> (case runProxies L pin tracer of (out, over) \<Rightarrow> (MainDialled tr # out, over)))))"

section \<open>Properties\<close>

lemma startLoop_all: "startProxies L st k i = (case startLoop L st k i of (ps, all) \<Rightarrow> if all then Some ps else None)"
  by (induction k arbitrary: i) (auto split: option.split prod.splits if_splits)

lemma startLoop_running:
  "startLoop L st k i = (ps, all) \<Longrightarrow> \<forall>p \<in> set ps. rp_shouldRun p"
  by (induction k arbitrary: i ps all)
    (auto simp: NewRecorderProxy_def initialProxy_def Let_def split: option.splits prod.splits if_splits)

lemma closeAll_finished: "snd (closeAll counts rs) \<Longrightarrow> fst (closeAll counts rs) = map closeProxy rs"
  by (induction rs arbitrary: counts) (auto simp: split_beta split: option.splits)

text \<open>The polls of the proxies, one after the other, come to an end: each of them reads a count that is not positive.\<close>

fun pollsEnd :: "int list \<Rightarrow> nat \<Rightarrow> bool" where
  "pollsEnd counts 0 = True"
| "pollsEnd [] (Suc k) = False"
| "pollsEnd (n # counts) (Suc k) = (if n > 0 then pollsEnd counts (Suc k) else pollsEnd counts k)"

lemma closeWaits_Some: "closeWaits counts = Some k \<Longrightarrow> k < length counts"
  by (induction counts arbitrary: k) (auto split: if_splits)

lemma pollsEnd_wait:
  "pollsEnd counts (Suc m) = (case closeWaits counts of None \<Rightarrow> False | Some k \<Rightarrow> pollsEnd (drop (Suc k) counts) m)"
  by (induction counts) (auto split: option.splits)

lemma closeAll_ends: "snd (closeAll counts rs) \<longleftrightarrow> pollsEnd counts (length rs)"
  by (induction rs arbitrary: counts) (auto simp: pollsEnd_wait split_beta split: option.split)

lemma pollsEnd_count: "pollsEnd counts k \<longleftrightarrow> k \<le> length (filter (\<lambda>n. n \<le> 0) counts)"
  by (induction counts k rule: pollsEnd.induct) (auto simp: not_less)


definition sampleInput :: programInput where
  "sampleInput = \<lparr>pi_bindFlags = None, pi_help = False, pi_initLog = None, pi_settings = defaultSettings\<lparr>st_proxyCount := 1\<rparr>,
     pi_signal = Some [2, 1, 0]\<rparr>"


end
